(* ===== verification/Prelude.thy ===== *)
theory Prelude
  imports Main "HOL-Library.Word"
begin

text \<open>
  Shared vocabulary of the development: Go errors, operations that thread a state and may
  return an error, preservation of invariants by such operations, and generic list lemmas.

  A Go \<open>error\<close> value is its text together with the sentinel that \<open>errors.Is\<close> finds in its
  chain; \<open>fmt.Errorf("prefix: %w", err)\<close> keeps the sentinel and extends the text. An
  operation of a service is a function from its state to a result (an error or a value)
  and the state it leaves behind, so that every early return of the source is a branch.
\<close>

section \<open>Errors\<close>

datatype err_kind =
    KCanceled        \<comment> \<open>\<open>context.Canceled\<close>\<close>
  | KDeadline        \<comment> \<open>\<open>context.DeadlineExceeded\<close>\<close>
  | KTimeout         \<comment> \<open>an error whose \<open>Timeout()\<close> method answers true\<close>
  | KNotFound        \<comment> \<open>\<open>git.ErrNotFound\<close>\<close>
  | KNotConfigured   \<comment> \<open>\<open>git.ErrNotConfigured\<close>\<close>
  | KOther           \<comment> \<open>every other error\<close>

datatype goerr = Err (err_text: string) (err_kind: err_kind)

definition errorf :: "string \<Rightarrow> goerr" where
  "errorf t = Err t KOther"

definition wrap :: "string \<Rightarrow> goerr \<Rightarrow> goerr" where
  "wrap p e = Err (p @ '': '' @ err_text e) (err_kind e)"

lemma err_kind_errorf [simp]: "err_kind (errorf t) = KOther"
  by (simp add: errorf_def)

lemma err_kind_wrap [simp]: "err_kind (wrap p e) = err_kind e"
  by (simp add: wrap_def)

lemma err_text_errorf [simp]: "err_text (errorf t) = t"
  by (simp add: errorf_def)

section \<open>Results and operations\<close>

type_synonym 'a res = "goerr + 'a"
type_synonym ('a, 's) op = "'s \<Rightarrow> 'a res \<times> 's"

fun bindE :: "'a res \<Rightarrow> ('a \<Rightarrow> 'b res) \<Rightarrow> 'b res" where
  "bindE (Inl e) f = Inl e"
| "bindE (Inr x) f = f x"

lemma bindE_eq_Inr: "bindE m f = Inr y \<longleftrightarrow> (\<exists>x. m = Inr x \<and> f x = Inr y)"
  by (cases m) auto

lemma bindE_cong [fundef_cong]:
  "m = m' \<Longrightarrow> (\<And>x. m' = Inr x \<Longrightarrow> f x = f' x) \<Longrightarrow> bindE m f = bindE m' f'"
  by (cases m') auto

definition ret :: "'a \<Rightarrow> ('a, 's) op" where
  "ret x = (\<lambda>s. (Inr x, s))"

definition fail :: "goerr \<Rightarrow> ('a, 's) op" where
  "fail e = (\<lambda>s. (Inl e, s))"

definition liftE :: "'a res \<Rightarrow> ('a, 's) op" where
  "liftE r = (\<lambda>s. (r, s))"

definition andThen :: "('a, 's) op \<Rightarrow> ('a \<Rightarrow> ('b, 's) op) \<Rightarrow> ('b, 's) op" where
  "andThen m f = (\<lambda>s. case m s of (Inl e, s') \<Rightarrow> (Inl e, s') | (Inr x, s') \<Rightarrow> f x s')"

text \<open>\<open>if err := m(); err != nil { return fmt.Errorf("prefix: %w", err) }\<close>\<close>

definition wrapping :: "string \<Rightarrow> ('a, 's) op \<Rightarrow> ('a, 's) op" where
  "wrapping p m = (\<lambda>s. case m s of (Inl e, s') \<Rightarrow> (Inl (wrap p e), s') | (Inr x, s') \<Rightarrow> (Inr x, s'))"

lemmas op_defs = ret_def fail_def liftE_def andThen_def wrapping_def

lemma ret_apply [simp]: "ret x s = (Inr x, s)"
  by (simp add: ret_def)

lemma fail_apply [simp]: "fail e s = (Inl e, s)"
  by (simp add: fail_def)

lemma liftE_apply [simp]: "liftE r s = (r, s)"
  by (simp add: liftE_def)

lemma andThen_Inr: "m s = (Inr x, s') \<Longrightarrow> andThen m f s = f x s'"
  by (simp add: andThen_def)

lemma andThen_Inl: "m s = (Inl e, s') \<Longrightarrow> andThen m f s = (Inl e, s')"
  by (simp add: andThen_def)

lemma andThen_ret [simp]: "andThen (ret x) f = f x"
  by (simp add: andThen_def fun_eq_iff)

lemma andThen_fail [simp]: "andThen (fail e) f = fail e"
  by (simp add: andThen_def fun_eq_iff)

lemma andThen_liftE: "andThen (liftE r) f = (case r of Inl e \<Rightarrow> fail e | Inr x \<Rightarrow> f x)"
  by (auto simp: andThen_def fun_eq_iff split: sum.splits)

lemma andThen_eq_Inr:
  "andThen m f s = (Inr y, t) \<longleftrightarrow> (\<exists>x s'. m s = (Inr x, s') \<and> f x s' = (Inr y, t))"
  by (auto simp: andThen_def split: prod.splits sum.splits)

lemma wrapping_eq_Inr: "wrapping p m s = (Inr y, t) \<longleftrightarrow> m s = (Inr y, t)"
  by (auto simp: wrapping_def split: prod.splits sum.splits)

lemma snd_wrapping [simp]: "snd (wrapping p m s) = snd (m s)"
  by (auto simp: wrapping_def split: prod.splits sum.splits)

lemma snd_andThen:
  "snd (andThen m f s) = (case fst (m s) of Inl e \<Rightarrow> snd (m s) | Inr x \<Rightarrow> snd (f x (snd (m s))))"
  by (auto simp: andThen_def split: prod.splits sum.splits)

lemma run_Inr: "isl (fst x) = False \<Longrightarrow> \<exists>a. x = (Inr a, snd x)"
  by (cases x; cases "fst x") auto

lemma run_Inl: "isl (fst x) \<Longrightarrow> \<exists>e. x = (Inl e, snd x)"
  by (cases x; cases "fst x") auto

section \<open>Invariants kept by operations\<close>

text \<open>
  An operation keeps \<open>P\<close> when it leads from \<open>P\<close> to \<open>P\<close> whatever it returns: an error
  path is as bound by the invariant as a success.
\<close>

definition keeps :: "('s \<Rightarrow> bool) \<Rightarrow> ('a, 's) op \<Rightarrow> bool" where
  "keeps P m \<longleftrightarrow> (\<forall>s. P s \<longrightarrow> P (snd (m s)))"

named_theorems keeps_intro

lemma keepsI: "(\<And>s. P s \<Longrightarrow> P (snd (m s))) \<Longrightarrow> keeps P m"
  by (simp add: keeps_def)

lemma keepsD: "keeps P m \<Longrightarrow> P s \<Longrightarrow> P (snd (m s))"
  by (simp add: keeps_def)

lemma keeps_step: "keeps P m \<Longrightarrow> P s \<Longrightarrow> m s = (r, t) \<Longrightarrow> P t"
  by (metis keepsD snd_conv)

lemma keeps_ret [keeps_intro]: "keeps P (ret x)"
  by (simp add: keeps_def)

lemma keeps_fail [keeps_intro]: "keeps P (fail e)"
  by (simp add: keeps_def)

lemma keeps_liftE [keeps_intro]: "keeps P (liftE r)"
  by (simp add: keeps_def)

lemma keeps_andThen [keeps_intro]:
  "keeps P m \<Longrightarrow> (\<And>x. keeps P (f x)) \<Longrightarrow> keeps P (andThen m f)"
  by (fastforce simp: keeps_def andThen_def split: prod.splits sum.splits)

lemma keeps_wrapping [keeps_intro]: "keeps P m \<Longrightarrow> keeps P (wrapping p m)"
  by (fastforce simp: keeps_def wrapping_def split: prod.splits sum.splits)

lemma keeps_if [keeps_intro]:
  "(b \<Longrightarrow> keeps P m) \<Longrightarrow> (\<not> b \<Longrightarrow> keeps P n) \<Longrightarrow> keeps P (if b then m else n)"
  by simp

lemma keeps_option [keeps_intro]:
  "keeps P m \<Longrightarrow> (\<And>x. y = Some x \<Longrightarrow> keeps P (f x)) \<Longrightarrow> keeps P (case y of None \<Rightarrow> m | Some x \<Rightarrow> f x)"
  by (cases y) auto

lemma keeps_sum [keeps_intro]:
  "(\<And>e. y = Inl e \<Longrightarrow> keeps P (f e)) \<Longrightarrow> (\<And>x. y = Inr x \<Longrightarrow> keeps P (g x)) \<Longrightarrow>
   keeps P (case y of Inl e \<Rightarrow> f e | Inr x \<Rightarrow> g x)"
  by (cases y) auto

text \<open>What an operation that keeps an invariant also tells of the value it returns.\<close>

definition yields :: "('s \<Rightarrow> bool) \<Rightarrow> ('a, 's) op \<Rightarrow> ('a \<Rightarrow> bool) \<Rightarrow> bool" where
  "yields P m Q \<longleftrightarrow> keeps P m \<and> (\<forall>s x t. P s \<longrightarrow> m s = (Inr x, t) \<longrightarrow> Q x)"

lemma yieldsI: "keeps P m \<Longrightarrow> (\<And>s x t. P s \<Longrightarrow> m s = (Inr x, t) \<Longrightarrow> Q x) \<Longrightarrow> yields P m Q"
  by (auto simp: yields_def)

lemma keeps_yields: "yields P m Q \<Longrightarrow> (\<And>x. Q x \<Longrightarrow> keeps P (f x)) \<Longrightarrow> keeps P (andThen m f)"
  unfolding yields_def keeps_def andThen_def by (fastforce split: prod.splits sum.splits)

lemma yields_andThen:
  "yields P m Q \<Longrightarrow> (\<And>x. Q x \<Longrightarrow> yields P (f x) R) \<Longrightarrow> yields P (andThen m f) R"
proof (rule yieldsI)
  assume m: "yields P m Q" and f: "\<And>x. Q x \<Longrightarrow> yields P (f x) R"
  from f show "keeps P (andThen m f)" by (intro keeps_yields [OF m]) (simp add: yields_def)
  fix s x t assume "P s" and "andThen m f s = (Inr x, t)"
  then obtain y s' where "m s = (Inr y, s')" "f y s' = (Inr x, t)" by (auto simp: andThen_eq_Inr)
  with m f \<open>P s\<close> show "R x" unfolding yields_def by (metis keeps_step)
qed

lemma yields_ret: "Q x \<Longrightarrow> yields P (ret x) Q"
  by (simp add: yields_def keeps_ret)

lemma yields_fail: "yields P (fail e) Q"
  by (simp add: yields_def keeps_fail)

lemma yields_liftE: "(\<And>x. r = Inr x \<Longrightarrow> Q x) \<Longrightarrow> yields P (liftE r) Q"
  by (simp add: yields_def keeps_liftE)

section \<open>Signed 64-bit integers\<close>

text \<open>
  Counters that the source increments without a bound check are kept at their width:
  \<open>int64\<close> is a 64-bit word read by \<open>sint\<close>, compared by \<open><s\<close> and wrapping on \<open>+\<close>.
  Identifiers are only compared and are modelled by \<^typ>\<open>int\<close>.
\<close>

type_synonym int64 = "64 word"

definition max_int64 :: int64 where
  "max_int64 = 0x7FFFFFFFFFFFFFFF"

lemma sint_max_int64 [simp]: "sint max_int64 = 2 ^ 63 - 1"
  by (simp add: max_int64_def)

lemma max_int64_succ: "sint (max_int64 + 1) = - (2 ^ 63)"
  by (simp add: max_int64_def)

lemma sint_succ:
  fixes v :: int64
  assumes "v \<noteq> max_int64"
  shows "sint (v + 1) = sint v + 1"
proof -
  have "sint v \<noteq> 2 ^ 63 - 1"
    using assms by (metis sint_max_int64 signed_word_eqI)
  moreover have "sint v < 2 ^ 63" and "- (2 ^ 63) \<le> sint v"
    using sint_range_size [of v] by (simp_all add: word_size)
  ultimately have "- (2 ^ 63) \<le> sint v + 1" and "sint v + 1 < 2 ^ 63"
    by linarith+
  moreover have "sint (v + 1) = signed_take_bit 63 (sint v + 1)"
    by (simp add: sint_word_ariths)
  ultimately show ?thesis
    by (simp add: signed_take_bit_int_eq_self)
qed

section \<open>Lists\<close>

lemma find_append: "find P (xs @ ys) = (case find P xs of Some x \<Rightarrow> Some x | None \<Rightarrow> find P ys)"
  by (induction xs) auto

lemma find_Some_in: "find P xs = Some x \<Longrightarrow> x \<in> set xs \<and> P x"
  by (induction xs) (auto split: if_splits)

lemma find_cong_on: "(\<And>x. x \<in> set xs \<Longrightarrow> P x = Q x) \<Longrightarrow> find P xs = find Q xs"
  by (induction xs) auto

end
