(* ===== verification/GoStrings.thy ===== *)
theory GoStrings
  imports Prelude "HOL-Library.Sublist"
begin

text \<open>
  The parts of Go's \<open>strings\<close>, \<open>strconv\<close> and \<open>utf8\<close> packages the program uses. A Go string is a sequence of
  bytes, so it is a \<^typ>\<open>string\<close> here (an Isabelle \<^typ>\<open>char\<close> is a byte) and \<open>len\<close> is
  \<^const>\<open>length\<close>. White space is Unicode's, in its UTF-8 spelling; \<open>ToLower\<close> is modelled
  on ASCII letters, other bytes staying as they are, and \<open>EqualFold\<close> on the code points
  that fold to an ASCII letter.
\<close>

section \<open>White space\<close>

text \<open>\<open>unicode.IsSpace\<close> on a code point.\<close>

definition is_space_rune :: "nat \<Rightarrow> bool" where
  "is_space_rune r \<longleftrightarrow> (9 \<le> r \<and> r \<le> 13) \<or> r = 32 \<or> r = 0x85 \<or> r = 0xA0 \<or> r = 0x1680 \<or>
     (0x2000 \<le> r \<and> r \<le> 0x200A) \<or> r = 0x2028 \<or> r = 0x2029 \<or> r = 0x202F \<or> r = 0x205F \<or> r = 0x3000"

definition is_ascii_space :: "char \<Rightarrow> bool" where
  "is_ascii_space c \<longleftrightarrow> (let n = of_char c :: nat in (9 \<le> n \<and> n \<le> 13) \<or> n = 32)"

text \<open>
  The code points of two and three bytes that \<open>unicode.IsSpace\<close> accepts, by their UTF-8
  bytes: U+0085, U+00A0; U+1680, U+2000 to U+200A, U+2028, U+2029, U+202F, U+205F, U+3000.
\<close>

definition is_space2 :: "char \<Rightarrow> char \<Rightarrow> bool" where
  "is_space2 a b \<longleftrightarrow> of_char a = (0xC2::nat) \<and> of_char b \<in> {0x85, 0xA0::nat}"

definition is_space3 :: "char \<Rightarrow> char \<Rightarrow> char \<Rightarrow> bool" where
  "is_space3 a b c \<longleftrightarrow>
     (let x = of_char a :: nat; y = of_char b :: nat; z = of_char c :: nat in
      (x = 0xE1 \<and> y = 0x9A \<and> z = 0x80) \<or>
      (x = 0xE2 \<and> y = 0x80 \<and> (0x80 \<le> z \<and> z \<le> 0x8A \<or> z = 0xA8 \<or> z = 0xA9 \<or> z = 0xAF)) \<or>
      (x = 0xE2 \<and> y = 0x81 \<and> z = 0x9F) \<or> (x = 0xE3 \<and> y = 0x80 \<and> z = 0x80))"

text \<open>How many bytes the white-space rune at the head of the string takes, 0 if none is there.\<close>

fun space_width :: "string \<Rightarrow> nat" where
  "space_width [] = 0"
| "space_width (a # s) =
     (if is_ascii_space a then 1
      else case s of b # t \<Rightarrow> (if is_space2 a b then 2
                          else case t of c # _ \<Rightarrow> (if is_space3 a b c then 3 else 0) | [] \<Rightarrow> 0)
           | [] \<Rightarrow> 0)"

text \<open>The same for the end of the string, on its reversal.\<close>

fun space_width_rev :: "string \<Rightarrow> nat" where
  "space_width_rev [] = 0"
| "space_width_rev (a # s) =
     (if is_ascii_space a then 1
      else case s of b # t \<Rightarrow> (if is_space2 b a then 2
                          else case t of c # _ \<Rightarrow> (if is_space3 c b a then 3 else 0) | [] \<Rightarrow> 0)
           | [] \<Rightarrow> 0)"

lemma space_width_le: "space_width s \<le> length s"
  by (cases s) (auto split: list.splits)

lemma space_width_rev_le: "space_width_rev s \<le> length s"
  by (cases s) (auto split: list.splits)

function drop_space :: "(string \<Rightarrow> nat) \<Rightarrow> string \<Rightarrow> string" where
  "drop_space w s = (if 0 < w s \<and> w s \<le> length s then drop_space w (drop (w s) s) else s)"
  by pat_completeness auto
termination by (relation "measure (\<lambda>(w, s). length s)") auto

declare drop_space.simps [simp del]

definition TrimSpace :: "string \<Rightarrow> string" where
  "TrimSpace s = rev (drop_space space_width_rev (rev (drop_space space_width s)))"

lemma drop_space_suffix: "suffix (drop_space w s) s"
proof (induction w s rule: drop_space.induct)
  case (1 w s)
  then show ?case
    by (subst drop_space.simps) (auto intro: suffix_order.trans suffix_drop)
qed

lemma drop_space_length: "length (drop_space w s) \<le> length s"
  using drop_space_suffix [of w s] by (simp add: suffix_length_le)

lemma drop_space_fix: "w s = 0 \<Longrightarrow> drop_space w s = s"
  by (subst drop_space.simps) simp

lemma drop_space_done:
  assumes "\<And>s. w s \<le> length s"
  shows "w (drop_space w s) = 0"
  using assms
proof (induction w s rule: drop_space.induct)
  case (1 w s)
  then show ?case
    by (subst drop_space.simps) auto
qed

lemma TrimSpace_length: "length (TrimSpace s) \<le> length s"
  using drop_space_length [of space_width_rev "rev (drop_space space_width s)"]
    drop_space_length [of space_width s]
  by (simp add: TrimSpace_def)

lemma TrimSpace_Nil [simp]: "TrimSpace [] = []"
  by (simp add: TrimSpace_def drop_space_fix)

lemma TrimSpace_no_trailing: "space_width_rev (rev (TrimSpace s)) = 0"
  by (simp add: TrimSpace_def drop_space_done space_width_rev_le)

section \<open>Searching and splitting\<close>

fun Contains :: "string \<Rightarrow> string \<Rightarrow> bool" where
  "Contains s sub = (prefix sub s \<or> (case s of [] \<Rightarrow> False | _ # t \<Rightarrow> Contains t sub))"

declare Contains.simps [simp del]

lemma Contains_iff: "Contains s sub \<longleftrightarrow> (\<exists>u v. s = u @ sub @ v)"
proof (induction s)
  case Nil
  then show ?case by (simp add: Contains.simps [of "[]"])
next
  case (Cons a s)
  have "Contains (a # s) sub \<longleftrightarrow> prefix sub (a # s) \<or> Contains s sub"
    by (simp add: Contains.simps [of "a # s"])
  also have "\<dots> \<longleftrightarrow> (\<exists>u v. a # s = u @ sub @ v)"
    using Cons.IH by (metis append_Cons append_Nil neq_Nil_conv list.inject prefix_def)
  finally show ?case .
qed

text \<open>\<open>strings.Index(s, sep)\<close> for a one-byte separator, as the text before and after it.\<close>

fun cut_at :: "char \<Rightarrow> string \<Rightarrow> (string \<times> string) option" where
  "cut_at c [] = None"
| "cut_at c (x # xs) = (if x = c then Some ([], xs) else map_option (\<lambda>(u, v). (x # u, v)) (cut_at c xs))"

lemma cut_at_Some: "cut_at c s = Some (u, v) \<Longrightarrow> s = u @ c # v \<and> c \<notin> set u"
  by (induction s arbitrary: u) (auto split: if_splits)

lemma cut_at_None: "cut_at c s = None \<longleftrightarrow> c \<notin> set s"
  by (induction s) auto

lemma cut_at_append: "c \<notin> set u \<Longrightarrow> cut_at c (u @ c # v) = Some (u, v)"
  by (induction u) auto

text \<open>\<open>strings.Split(s, sep)\<close> for a one-byte separator: always at least one piece.\<close>

fun split_on :: "char \<Rightarrow> string \<Rightarrow> string list" where
  "split_on c [] = [[]]"
| "split_on c (x # xs) =
     (case split_on c xs of p # ps \<Rightarrow> (if x = c then [] # p # ps else (x # p) # ps) | [] \<Rightarrow> [[x]])"

lemma split_on_nonempty: "split_on c s \<noteq> []"
  by (cases s) (simp_all split: list.splits if_splits)

lemma split_on_pieces: "p \<in> set (split_on c s) \<Longrightarrow> c \<notin> set p"
  by (induction s arbitrary: p) (auto simp: split_on_nonempty split: list.splits if_splits)

text \<open>\<open>strings.Join(parts, sep)\<close>.\<close>

fun Join :: "string list \<Rightarrow> string \<Rightarrow> string" where
  "Join [] sep = []"
| "Join [p] sep = p"
| "Join (p # ps) sep = p @ sep @ Join ps sep"

lemma Join_split_on: "Join (split_on c s) [c] = s"
proof (induction s)
  case (Cons x xs)
  obtain p ps where "split_on c xs = p # ps"
    using split_on_nonempty by (meson neq_Nil_conv)
  with Cons.IH show ?case
    by (cases ps) auto
qed simp

definition to_lower_char :: "char \<Rightarrow> char" where
  "to_lower_char c = (let n = of_char c :: nat in if 65 \<le> n \<and> n \<le> 90 then char_of (n + 32) else c)"

definition ToLower :: "string \<Rightarrow> string" where
  "ToLower s = map to_lower_char s"

text \<open>
  \<open>strings.EqualFold\<close> compares under simple folding, where two code points outside ASCII fold
  to ASCII letters: U+017F to \<open>s\<close> and U+212A to \<open>k\<close>.
\<close>

fun simple_fold :: "string \<Rightarrow> string" where
  "simple_fold [] = []"
| "simple_fold (a # s) =
     (if a = CHR 0xC5 \<and> prefix [CHR 0xBF] s then CHR ''s'' # simple_fold (drop 1 s)
      else if a = CHR 0xE2 \<and> prefix [CHR 0x84, CHR 0xAA] s then CHR ''k'' # simple_fold (drop 2 s)
      else to_lower_char a # simple_fold s)"

definition EqualFold :: "string \<Rightarrow> string \<Rightarrow> bool" where
  "EqualFold s t \<longleftrightarrow> simple_fold s = simple_fold t"

lemma EqualFold_refl [simp]: "EqualFold s s"
  by (simp add: EqualFold_def)

text \<open>\<open>strings.ReplaceAll(s, old, new)\<close> for one-byte \<open>old\<close> and \<open>new\<close>.\<close>

definition replace_char :: "char \<Rightarrow> char \<Rightarrow> string \<Rightarrow> string" where
  "replace_char a b s = map (\<lambda>c. if c = a then b else c) s"

section \<open>Decimal numbers\<close>

definition digit_char :: "nat \<Rightarrow> char" where
  "digit_char d = char_of (48 + d)"

fun show_nat :: "nat \<Rightarrow> string" where
  "show_nat n = (if n < 10 then [digit_char n] else show_nat (n div 10) @ [digit_char (n mod 10)])"

declare show_nat.simps [simp del]

text \<open>\<open>strconv.FormatInt(n, 10)\<close> and the \<open>%d\<close> verb.\<close>

definition FormatInt :: "int \<Rightarrow> string" where
  "FormatInt n = (if n < 0 then CHR ''-'' # show_nat (nat (- n)) else show_nat (nat n))"

definition digit_val :: "char \<Rightarrow> nat option" where
  "digit_val c = (let n = of_char c :: nat in if 48 \<le> n \<and> n \<le> 57 then Some (n - 48) else None)"

fun parse_digits :: "nat \<Rightarrow> string \<Rightarrow> nat option" where
  "parse_digits acc [] = Some acc"
| "parse_digits acc (c # cs) =
     (case digit_val c of None \<Rightarrow> None | Some d \<Rightarrow> parse_digits (10 * acc + d) cs)"

definition parse_nat :: "string \<Rightarrow> nat option" where
  "parse_nat s = (if s = [] then None else parse_digits 0 s)"

text \<open>
  \<open>strconv.ParseInt(s, 10, 64)\<close>: an optional sign, at least one digit, nothing else, and a
  value that fits in 64 bits.
\<close>

definition ParseInt :: "string \<Rightarrow> int option" where
  "ParseInt s =
     (let v = (case s of
                 c # cs \<Rightarrow> if c = CHR ''-'' then map_option (\<lambda>n. - int n) (parse_nat cs)
                           else if c = CHR ''+'' then map_option int (parse_nat cs)
                           else map_option int (parse_nat s)
               | [] \<Rightarrow> None)
      in case v of None \<Rightarrow> None
         | Some n \<Rightarrow> if - (2 ^ 63) \<le> n \<and> n < 2 ^ 63 then Some n else None)"

lemma digit_val_digit_char: "d < 10 \<Longrightarrow> digit_val (digit_char d) = Some d"
  by (simp add: digit_val_def digit_char_def of_char_of)

lemma digit_char_not_sign:
  "d < 10 \<Longrightarrow> digit_char d \<noteq> CHR ''-'' \<and> digit_char d \<noteq> CHR ''+'' \<and> digit_char d \<noteq> CHR '':''"
  using digit_val_digit_char [of d] by (auto simp: digit_val_def)

lemma parse_digits_append:
  "parse_digits acc (u @ v) = (case parse_digits acc u of None \<Rightarrow> None | Some a \<Rightarrow> parse_digits a v)"
  by (induction u arbitrary: acc) (auto split: option.splits)

lemma show_nat_nonempty: "show_nat n \<noteq> []"
  by (subst show_nat.simps) simp

lemma parse_digits_show_nat: "parse_digits 0 (show_nat n) = Some n"
proof (induction n rule: show_nat.induct)
  case (1 n)
  show ?case
  proof (cases "n < 10")
    case True
    then show ?thesis by (subst show_nat.simps) (simp add: digit_val_digit_char)
  next
    case False
    with "1" show ?thesis
      by (subst show_nat.simps) (simp add: parse_digits_append digit_val_digit_char)
  qed
qed

lemma parse_nat_show_nat: "parse_nat (show_nat n) = Some n"
  by (simp add: parse_nat_def show_nat_nonempty parse_digits_show_nat)

lemma show_nat_digits: "c \<in> set (show_nat n) \<Longrightarrow> \<exists>d<10. c = digit_char d"
proof (induction n rule: show_nat.induct)
  case (1 n)
  show ?case
  proof (cases "n < 10")
    case True
    with "1.prems" show ?thesis by (subst (asm) show_nat.simps) auto
  next
    case False
    with "1.prems" have "c \<in> set (show_nat (n div 10)) \<or> c = digit_char (n mod 10)"
      by (subst (asm) show_nat.simps) auto
    with "1.IH" [OF False] show ?thesis by (metis mod_less_divisor zero_less_numeral)
  qed
qed

lemma show_nat_hd: "\<exists>c cs. show_nat n = c # cs \<and> c \<noteq> CHR ''-'' \<and> c \<noteq> CHR ''+''"
  using show_nat_nonempty [of n] show_nat_digits [of _ n] digit_char_not_sign
  by (metis list.exhaust list.set_intros(1))

lemma ParseInt_FormatInt: "- (2 ^ 63) \<le> n \<Longrightarrow> n < 2 ^ 63 \<Longrightarrow> ParseInt (FormatInt n) = Some n"
proof (cases "n < 0")
  case True
  assume "- (2 ^ 63) \<le> n"
  with True show ?thesis by (simp add: ParseInt_def FormatInt_def parse_nat_show_nat)
next
  case False
  assume "n < 2 ^ 63"
  obtain c cs where c: "show_nat (nat n) = c # cs" "c \<noteq> CHR ''-''" "c \<noteq> CHR ''+''"
    using show_nat_hd by blast
  then have "parse_nat (c # cs) = Some (nat n)" by (metis parse_nat_show_nat)
  with c False \<open>n < 2 ^ 63\<close> show ?thesis by (simp add: ParseInt_def FormatInt_def)
qed

lemma FormatInt_inject: "FormatInt m = FormatInt n \<longleftrightarrow> m = n"
proof
  assume eq: "FormatInt m = FormatInt n"
  have show_inj: "show_nat a = show_nat b \<Longrightarrow> a = b" for a b
    by (metis option.inject parse_nat_show_nat)
  show "m = n"
  proof (cases "m < 0"; cases "n < 0")
    assume "m < 0" "n < 0"
    then show ?thesis using eq show_inj by (fastforce simp: FormatInt_def)
  next
    assume "\<not> m < 0" "\<not> n < 0"
    then show ?thesis using eq show_inj by (fastforce simp: FormatInt_def)
  next
    assume "m < 0" "\<not> n < 0"
    then show ?thesis using eq show_nat_hd [of "nat n"] by (auto simp: FormatInt_def)
  next
    assume "\<not> m < 0" "n < 0"
    then show ?thesis using eq show_nat_hd [of "nat m"] by (auto simp: FormatInt_def)
  qed
qed simp

section \<open>Evaluation\<close>

text \<open>
  The same functions by the bits of a byte, on binary integers and deciding as early as they can:
  what the kernel evaluates.
\<close>

lemma equal_list_eval [code]:
  fixes xs ys :: "'a :: equal list"
  shows "HOL.equal [] ([] :: 'a list) \<longleftrightarrow> True" "HOL.equal [] (y # ys) \<longleftrightarrow> False" "HOL.equal (x # xs) [] \<longleftrightarrow> False"
    "HOL.equal (x # xs) (y # ys) \<longleftrightarrow> (if x = y then HOL.equal xs ys else False)"
  by (simp_all add: equal_eq)

lemma equal_char_eval [code]:
  "HOL.equal (Char a0 a1 a2 a3 a4 a5 a6 a7) (Char b0 b1 b2 b3 b4 b5 b6 b7) \<longleftrightarrow>
     (if a0 = b0 then if a1 = b1 then if a2 = b2 then if a3 = b3 then if a4 = b4 then if a5 = b5 then if a6 = b6 then a7 = b7
      else False else False else False else False else False else False else False)"
  by (simp add: equal_eq)

lemma to_lower_char_eval [code]:
  "to_lower_char (Char b0 b1 b2 b3 b4 b5 b6 b7) =
     (if b7 then Char b0 b1 b2 b3 b4 b5 b6 b7 else if b6 then if b5 then Char b0 b1 b2 b3 b4 b5 b6 b7
      else if b4 \<and> b3 \<and> (b2 \<or> b1 \<and> b0) \<or> \<not> (b0 \<or> b1 \<or> b2 \<or> b3 \<or> b4) then Char b0 b1 b2 b3 b4 b5 b6 b7
      else Char b0 b1 b2 b3 b4 True b6 b7 else Char b0 b1 b2 b3 b4 b5 b6 b7)"
  by (cases b0; cases b1; cases b2; cases b3; cases b4; cases b5; cases b6; cases b7)
    (simp_all add: to_lower_char_def char_of_def bit_Suc_0_iff)

lemma simple_fold_Nil: "simple_fold s = [] \<longleftrightarrow> s = []"
  by (cases s) auto

text \<open>The first bytes decide, unless one of them begins a code point outside ASCII.\<close>

lemma EqualFold_eval [code]:
  "EqualFold s t = (case s of [] \<Rightarrow> (case t of [] \<Rightarrow> True | _ # _ \<Rightarrow> False)
     | a # u \<Rightarrow> (case t of [] \<Rightarrow> False
       | b # v \<Rightarrow> if a = CHR 0xC5 \<or> a = CHR 0xE2 \<or> b = CHR 0xC5 \<or> b = CHR 0xE2 then simple_fold s = simple_fold t
           else if to_lower_char a = to_lower_char b then EqualFold u v else False))"
proof (cases s)
  case Nil
  then show ?thesis by (cases t) (simp_all add: EqualFold_def)
next
  case (Cons a u)
  show ?thesis
  proof (cases t)
    case Nil
    with Cons show ?thesis by (simp add: EqualFold_def simple_fold_Nil del: simple_fold.simps(2))
  next
    case (Cons b v)
    show ?thesis
    proof (cases "a = CHR 0xC5 \<or> a = CHR 0xE2 \<or> b = CHR 0xC5 \<or> b = CHR 0xE2")
      case True
      with \<open>s = a # u\<close> Cons show ?thesis by (simp only: EqualFold_def list.case if_True)
    next
      case False
      then have "simple_fold s = to_lower_char a # simple_fold u" "simple_fold t = to_lower_char b # simple_fold v"
        using \<open>s = a # u\<close> Cons by simp_all
      with False \<open>s = a # u\<close> Cons show ?thesis by (simp only: EqualFold_def list.case if_False list.inject) auto
    qed
  qed
qed

lemma is_ascii_space_eval [code]:
  "is_ascii_space c \<longleftrightarrow> (if digit7 c then False else if digit6 c then False
     else c = CHR '' '' \<or> c = CHR 0x09 \<or> c = CHR 0x0A \<or> c = CHR 0x0B \<or> c = CHR 0x0C \<or> c = CHR 0x0D)"
proof (cases c)
  case (Char b0 b1 b2 b3 b4 b5 b6 b7)
  then show ?thesis
    by (cases b0; cases b1; cases b2; cases b3; cases b4; cases b5; cases b6; cases b7) (simp_all add: is_ascii_space_def)
qed

lemma is_space2_eval [code]: "is_space2 a b \<longleftrightarrow> (if a = CHR 0xC2 then b = CHR 0x85 \<or> b = CHR 0xA0 else False)"
proof -
  have "of_char x = (of_char y :: nat) \<longleftrightarrow> x = y" for x y by simp
  from this [of a "CHR 0xC2"] this [of b "CHR 0x85"] this [of b "CHR 0xA0"] show ?thesis by (simp add: is_space2_def)
qed

lemma is_space3_eval [code]:
  "is_space3 a b c \<longleftrightarrow> (if digit7 a then let x = of_char a :: nat; y = of_char b :: nat; z = of_char c :: nat in
      (x = 0xE1 \<and> y = 0x9A \<and> z = 0x80) \<or>
      (x = 0xE2 \<and> y = 0x80 \<and> (0x80 \<le> z \<and> z \<le> 0x8A \<or> z = 0xA8 \<or> z = 0xA9 \<or> z = 0xAF)) \<or>
      (x = 0xE2 \<and> y = 0x81 \<and> z = 0x9F) \<or> (x = 0xE3 \<and> y = 0x80 \<and> z = 0x80) else False)"
proof (cases a)
  case (Char b0 b1 b2 b3 b4 b5 b6 b7)
  have "\<not> b7 \<Longrightarrow> (of_char a :: nat) < 128" using Char
    by (cases b0; cases b1; cases b2; cases b3; cases b4; cases b5; cases b6) simp_all
  with Char show ?thesis by (auto simp: is_space3_def Let_def)
qed

lemma digit_val_eval [code]:
  "digit_val (Char b0 b1 b2 b3 b4 b5 b6 b7) =
     (if b7 then None else if b6 then None else if \<not> b5 then None else if \<not> b4 then None
      else if b3 then (if b2 then None else if b1 then None else Some (if b0 then 9 else 8))
      else Some (if b2 then (if b1 then (if b0 then 7 else 6) else if b0 then 5 else 4)
                 else if b1 then (if b0 then 3 else 2) else if b0 then 1 else 0))"
  by (cases b0; cases b1; cases b2; cases b3; cases b4; cases b5; cases b6; cases b7) (simp_all add: digit_val_def)

definition digit_of :: "int \<Rightarrow> char" where
  "digit_of n =
     (if n < 5 then (if n < 2 then (if n < 1 then CHR ''0'' else CHR ''1'')
                     else if n < 3 then CHR ''2'' else if n < 4 then CHR ''3'' else CHR ''4'')
      else (if n < 7 then (if n < 6 then CHR ''5'' else CHR ''6'')
            else if n < 8 then CHR ''7'' else if n < 9 then CHR ''8'' else CHR ''9''))"

function show_int :: "int \<Rightarrow> string" where
  "show_int n = (if n < 10 then [digit_of n] else show_int (n div 10) @ [digit_of (n mod 10)])"
  by pat_completeness auto
termination by (relation "measure nat") auto

declare show_int.simps [simp del]

lemma digit_of_char: "d < 10 \<Longrightarrow> digit_char d = digit_of (int d)"
proof -
  assume "d < 10"
  then have "d \<in> {0, 1, 2, 3, 4, 5, 6, 7, 8, 9}" by auto
  then show ?thesis by (elim insertE) (simp_all add: digit_char_def digit_of_def char_of_def bit_Suc_0_iff)
qed

lemma show_int_nat: "show_nat n = show_int (int n)"
proof (induction n rule: show_nat.induct)
  case (1 n)
  then show ?case
    by (subst show_nat.simps, subst show_int.simps) (simp add: digit_of_char zdiv_int zmod_int)
qed

lemma FormatInt_eval [code]: "FormatInt n = (if n < 0 then CHR ''-'' # show_int (- n) else show_int n)"
  by (simp add: FormatInt_def show_int_nat)

end
