(* ===== verification/Auth.thy ===== *)
theory Auth
  imports GoStrings
begin

text \<open>
  Request signatures (\<open>internal/auth/auth.go\<close>). The keyed hash \<open>HMAC-SHA256\<close> is an argument
  \<open>mac secret body\<close> of the definitions: every statement below holds for any function in its
  place, and those that speak of forged requests say what they need of it. Hex encoding and
  decoding (\<open>encoding/hex\<close>) are concrete.
\<close>

section \<open>Hexadecimal\<close>

definition hex_char :: "nat \<Rightarrow> char" where
  "hex_char d = (if d < 10 then char_of (48 + d) else char_of (87 + d))"

definition hex_val :: "char \<Rightarrow> nat option" where
  "hex_val c = (let n = of_char c :: nat in
     if 48 \<le> n \<and> n \<le> 57 then Some (n - 48)
     else if 97 \<le> n \<and> n \<le> 102 then Some (n - 87)
     else if 65 \<le> n \<and> n \<le> 70 then Some (n - 55) else None)"

definition hex_byte :: "char \<Rightarrow> string" where
  "hex_byte b = [hex_char (of_char b div 16), hex_char (of_char b mod 16)]"

definition EncodeToString :: "string \<Rightarrow> string" where
  "EncodeToString bs = concat (map hex_byte bs)"

fun DecodeString :: "string \<Rightarrow> string option" where
  "DecodeString [] = Some []"
| "DecodeString [_] = None"
| "DecodeString (a # b # s) =
     (case (hex_val a, hex_val b, DecodeString s) of
        (Some x, Some y, Some bs) \<Rightarrow> Some (char_of (16 * x + y) # bs)
      | _ \<Rightarrow> None)"

lemma hex_val_char: "d < 16 \<Longrightarrow> hex_val (hex_char d) = Some d"
  by (simp add: hex_val_def hex_char_def Let_def of_char_of)

lemma of_char_bound: "(of_char c :: nat) < 256"
  by simp

lemma DecodeString_EncodeToString: "DecodeString (EncodeToString bs) = Some bs"
proof (induction bs)
  case (Cons b bs)
  have "hex_val (hex_char (of_char b div 16)) = Some (of_char b div 16)"
    by (rule hex_val_char) (use of_char_bound [of b] in linarith)
  moreover have "hex_val (hex_char (of_char b mod 16)) = Some (of_char b mod 16)"
    by (rule hex_val_char) simp
  ultimately show ?case
    using Cons.IH by (simp add: EncodeToString_def hex_byte_def)
qed (simp add: EncodeToString_def)

lemma hex_val_visible: "hex_val c = Some d \<Longrightarrow> \<not> is_ascii_space c \<and> (of_char c :: nat) < 128"
  by (auto simp: hex_val_def is_ascii_space_def Let_def split: if_splits)

lemma DecodeString_last:
  "DecodeString s = Some bs \<Longrightarrow> s \<noteq> [] \<Longrightarrow> \<exists>d. hex_val (last s) = Some d"
  by (induction s arbitrary: bs rule: DecodeString.induct) (auto split: option.splits)

section \<open>Verification and signing\<close>

definition ErrMissingAuthorization :: goerr where
  "ErrMissingAuthorization = errorf ''missing authorization header''"

definition ErrInvalidAuthorizationFormat :: goerr where
  "ErrInvalidAuthorizationFormat = errorf ''invalid authorization header format''"

definition ErrInvalidSignature :: goerr where
  "ErrInvalidSignature = errorf ''invalid request signature''"

text \<open>\<open>fmt.Errorf("%w: detail", err)\<close>\<close>

definition detailed :: "goerr \<Rightarrow> string \<Rightarrow> goerr" where
  "detailed e d = Err (err_text e @ '': '' @ d) (err_kind e)"

definition VerifyRequest ::
    "(string \<Rightarrow> string \<Rightarrow> string) \<Rightarrow> string \<Rightarrow> string \<Rightarrow> string list \<Rightarrow> unit res" where
  "VerifyRequest mac body authorization sharedSecrets =
     (if sharedSecrets = [] then Inr ()
      else if TrimSpace authorization = [] then Inl ErrMissingAuthorization
      else case cut_at CHR '' '' authorization of
        None \<Rightarrow> Inl ErrInvalidAuthorizationFormat
      | Some (scheme, versioned) \<Rightarrow>
          if \<not> EqualFold scheme ''Rpcsignature'' then Inl ErrInvalidAuthorizationFormat
          else if \<not> prefix ''rpc0:'' versioned
            then Inl (detailed ErrInvalidAuthorizationFormat ''expected rpc0 prefix'')
          else case DecodeString (drop (length ''rpc0:'') versioned) of
            None \<Rightarrow> Inl (detailed ErrInvalidAuthorizationFormat ''invalid hex'')
          | Some signature \<Rightarrow>
              if \<exists>secret \<in> set sharedSecrets. mac secret body = signature then Inr ()
              else Inl ErrInvalidSignature)"

definition SignRequestBody :: "(string \<Rightarrow> string \<Rightarrow> string) \<Rightarrow> string \<Rightarrow> string \<Rightarrow> string" where
  "SignRequestBody mac body secret = ''Rpcsignature rpc0:'' @ EncodeToString (mac secret body)"

section \<open>The header a request must carry\<close>

text \<open>
  The specification of the check: the header is the scheme, one space, the version and the
  hex digits of the MAC of the body under one of the secrets.
\<close>

definition signed_by :: "(string \<Rightarrow> string \<Rightarrow> string) \<Rightarrow> string \<Rightarrow> string list \<Rightarrow> string \<Rightarrow> bool" where
  "signed_by mac body secrets header \<longleftrightarrow>
     (\<exists>scheme digits. \<exists>secret \<in> set secrets. header = scheme @ '' rpc0:'' @ digits \<and>
        EqualFold scheme ''Rpcsignature'' \<and> CHR '' '' \<notin> set scheme \<and>
        DecodeString digits = Some (mac secret body))"

lemma fold_nonempty: "EqualFold s t \<Longrightarrow> t \<noteq> [] \<Longrightarrow> s \<noteq> []"
  by (cases t) (auto simp: EqualFold_def split: if_splits)

lemma space_width_0: "\<not> is_ascii_space a \<Longrightarrow> (of_char a :: nat) < 128 \<Longrightarrow> space_width (a # s) = 0"
  by (auto simp: is_space2_def is_space3_def Let_def split: list.splits)

lemma space_width_rev_0:
  "\<not> is_ascii_space a \<Longrightarrow> (of_char a :: nat) < 128 \<Longrightarrow> space_width_rev (a # s) = 0"
  by (auto simp: is_space2_def is_space3_def Let_def split: list.splits)

text \<open>A text that ends in a visible ASCII character is not blank.\<close>

lemma drop_space_keeps_last:
  assumes "s = u @ [c]" and "\<not> is_ascii_space c" and "(of_char c :: nat) < 128"
  shows "drop_space space_width s \<noteq> []"
  using assms
proof (induction space_width s arbitrary: u rule: drop_space.induct)
  case (1 s)
  show ?case
  proof (cases "0 < space_width s \<and> space_width s \<le> length s")
    case False
    then show ?thesis using "1.prems" by (subst drop_space.simps) auto
  next
    case True
    have not_all: "space_width s < length s"
    proof (rule ccontr)
      assume "\<not> space_width s < length s"
      with True have full: "space_width s = length s" by simp
      then show False
        using "1.prems"
        by (cases u; cases "tl u"; cases "tl (tl u)")
          (auto simp: is_space2_def is_space3_def Let_def split: if_splits list.splits)
    qed
    then obtain v where "drop (space_width s) s = v @ [c]"
      using "1.prems"(1) by simp
    then show ?thesis
      using "1.hyps" [of v] True "1.prems" by (subst drop_space.simps) simp
  qed
qed

lemma TrimSpace_nonempty:
  assumes "\<not> is_ascii_space c" and "(of_char c :: nat) < 128"
  shows "TrimSpace (u @ [c]) \<noteq> []"
proof -
  let ?d = "drop_space space_width (u @ [c])"
  have "?d \<noteq> []" by (rule drop_space_keeps_last) (use assms in auto)
  moreover have "suffix ?d (u @ [c])" by (rule drop_space_suffix)
  ultimately obtain v where "?d = v @ [c]"
    by (metis append_butlast_last_id last_appendR last_snoc suffix_def)
  then have "drop_space space_width_rev (rev ?d) = rev ?d"
    using assms by (simp add: drop_space_fix space_width_rev_0 del: space_width_rev.simps)
  with \<open>?d \<noteq> []\<close> show ?thesis by (simp add: TrimSpace_def)
qed

lemma signed_header_not_blank:
  assumes "DecodeString digits = Some bs"
  shows "TrimSpace (scheme @ '' rpc0:'' @ digits) \<noteq> []"
proof (cases "digits = []")
  case True
  then show ?thesis
    using TrimSpace_nonempty [of "CHR '':''" "scheme @ '' rpc0''"] by (simp add: is_ascii_space_def)
next
  case False
  with DecodeString_last [OF assms] obtain d where "hex_val (last digits) = Some d" by blast
  with hex_val_visible TrimSpace_nonempty [of "last digits" "scheme @ '' rpc0:'' @ butlast digits"] False
  show ?thesis by simp
qed

lemma VerifyRequest_accepts:
  "VerifyRequest mac body header secrets = Inr () \<longleftrightarrow> secrets = [] \<or> signed_by mac body secrets header"
proof (cases "secrets = []")
  case False
  show ?thesis
  proof
    assume ok: "VerifyRequest mac body header secrets = Inr ()"
    with False obtain scheme versioned where cut: "cut_at CHR '' '' header = Some (scheme, versioned)"
      and fold: "EqualFold scheme ''Rpcsignature''" and pre: "prefix ''rpc0:'' versioned"
      by (auto simp: VerifyRequest_def split: if_splits option.splits)
    from pre obtain digits where v: "versioned = ''rpc0:'' @ digits" by (auto simp: prefix_def)
    from ok False cut fold v obtain secret where "secret \<in> set secrets"
      and "DecodeString digits = Some (mac secret body)"
      by (auto simp: VerifyRequest_def split: if_splits option.splits)
    with cut_at_Some [OF cut] fold v show "secrets = [] \<or> signed_by mac body secrets header"
      unfolding signed_by_def by (metis append_Cons append_Nil)
  next
    assume "secrets = [] \<or> signed_by mac body secrets header"
    with False obtain scheme digits secret where h: "header = scheme @ '' rpc0:'' @ digits"
      and fold: "EqualFold scheme ''Rpcsignature''" and sp: "CHR '' '' \<notin> set scheme"
      and sec: "secret \<in> set secrets" and dec: "DecodeString digits = Some (mac secret body)"
      unfolding signed_by_def by blast
    have "cut_at CHR '' '' header = Some (scheme, ''rpc0:'' @ digits)"
      using cut_at_append [OF sp, of "''rpc0:'' @ digits"] h by simp
    with False signed_header_not_blank [OF dec, of scheme] h fold sec dec
    show "VerifyRequest mac body header secrets = Inr ()"
      by (auto simp: VerifyRequest_def)
  qed
qed (simp add: VerifyRequest_def)

lemma SignRequestBody_signed:
  assumes "secret \<in> set secrets"
  shows "signed_by mac body secrets (SignRequestBody mac body secret)"
proof -
  have "SignRequestBody mac body secret = ''Rpcsignature'' @ '' rpc0:'' @ EncodeToString (mac secret body)"
    by (simp add: SignRequestBody_def)
  moreover have "CHR '' '' \<notin> set ''Rpcsignature''"
    by simp
  ultimately show ?thesis
    unfolding signed_by_def using assms DecodeString_EncodeToString EqualFold_refl by blast
qed

section \<open>Properties\<close>

text \<open>C6: the check accepts exactly the requests it means to. With no secret configured every
  request passes; otherwise a request passes exactly when its header is the scheme, one space,
  the version and the hex digits of the MAC of this body under one of the secrets.\<close>

theorem VerifyRequest_spec:
  "VerifyRequest mac body header secrets = Inr () \<longleftrightarrow> secrets = [] \<or>
     (\<exists>scheme digits. \<exists>secret \<in> set secrets. header = scheme @ '' rpc0:'' @ digits \<and>
        EqualFold scheme ''Rpcsignature'' \<and> CHR '' '' \<notin> set scheme \<and>
        DecodeString digits = Some (mac secret body))"
  by (simp add: VerifyRequest_accepts signed_by_def)

text \<open>What one side signs the other accepts: the header \<open>SignRequestBody\<close> builds with one of
  the configured secrets verifies; and it verifies for another body only if some secret gives
  that body the same MAC.\<close>

theorem sign_then_verify:
  assumes "secret \<in> set secrets"
  shows "VerifyRequest mac body (SignRequestBody mac body secret) secrets = Inr () \<and>
    (VerifyRequest mac forged (SignRequestBody mac body secret) secrets = Inr () \<longrightarrow>
      (\<exists>s \<in> set secrets. mac s forged = mac secret body))"
proof (intro conjI impI)
  show "VerifyRequest mac body (SignRequestBody mac body secret) secrets = Inr ()"
    using assms SignRequestBody_signed VerifyRequest_accepts by blast
next
  assume "VerifyRequest mac forged (SignRequestBody mac body secret) secrets = Inr ()"
  with assms obtain scheme digits s where s: "s \<in> set secrets"
    and header: "''Rpcsignature'' @ '' rpc0:'' @ EncodeToString (mac secret body) = scheme @ '' rpc0:'' @ digits"
    and sp: "CHR '' '' \<notin> set scheme" and dec: "DecodeString digits = Some (mac s forged)"
    unfolding VerifyRequest_accepts signed_by_def SignRequestBody_def by auto
  have "cut_at CHR '' '' (''Rpcsignature'' @ CHR '' '' # ''rpc0:'' @ EncodeToString (mac secret body)) =
      cut_at CHR '' '' (scheme @ CHR '' '' # ''rpc0:'' @ digits)"
    using header by simp
  then have "digits = EncodeToString (mac secret body)"
    using cut_at_append [OF sp] cut_at_append [of "CHR '' ''" "''Rpcsignature''"] by simp
  with dec s show "\<exists>s \<in> set secrets. mac s forged = mac secret body"
    by (auto simp: DecodeString_EncodeToString)
qed

theorem sign_then_verify_witness:
  "VerifyRequest (\<lambda>s b. s @ b) ''hi'' (SignRequestBody (\<lambda>s b. s @ b) ''hi'' ''k2'') [''k1'', ''k2''] = Inr ()"
proof -
  have "''k2'' \<in> set [''k1'', ''k2'']" by simp
  from sign_then_verify [OF this, of "\<lambda>s b. s @ b" "''hi''"] show ?thesis by blast
qed

end
