(* ===== verification/Utf8.thy ===== *)
theory Utf8
  imports GoStrings
begin

text \<open>
  UTF-8 as the program uses it: \<open>utf8.Valid\<close>, and \<open>[]rune(s)\<close> of a valid text, whose runes are
  the groups of bytes \<open>runes\<close> splits it into. Taking the first runes of a trimmed text
  leaves a text that is not blank.
\<close>

definition is_cont :: "char \<Rightarrow> bool" where
  "is_cont c \<longleftrightarrow> (let n = of_char c :: nat in 0x80 \<le> n \<and> n < 0xC0)"

definition byte_in :: "nat \<Rightarrow> nat \<Rightarrow> char \<Rightarrow> bool" where
  "byte_in lo hi c \<longleftrightarrow> lo \<le> of_char c \<and> of_char c \<le> hi"

text \<open>\<open>utf8.Valid\<close>: the well-formed byte sequences of RFC 3629.\<close>

fun utf8_valid :: "string \<Rightarrow> bool" where
  "utf8_valid [] = True"
| "utf8_valid (a # s) =
     (let n = of_char a :: nat in
      if n < 0x80 then utf8_valid s
      else if 0xC2 \<le> n \<and> n \<le> 0xDF then
        (case s of b # s' \<Rightarrow> is_cont b \<and> utf8_valid s' | [] \<Rightarrow> False)
      else if 0xE0 \<le> n \<and> n \<le> 0xEF then
        (case s of b # c # s' \<Rightarrow> byte_in (if n = 0xE0 then 0xA0 else 0x80) (if n = 0xED then 0x9F else 0xBF) b \<and>
             is_cont c \<and> utf8_valid s' | _ \<Rightarrow> False)
      else if 0xF0 \<le> n \<and> n \<le> 0xF4 then
        (case s of b # c # d # s' \<Rightarrow> byte_in (if n = 0xF0 then 0x90 else 0x80) (if n = 0xF4 then 0x8F else 0xBF) b \<and>
             is_cont c \<and> is_cont d \<and> utf8_valid s' | _ \<Rightarrow> False)
      else False)"

text \<open>
  How many bytes the rune at the head takes, 0 if the bytes there are no rune; and a text as
  the JSON encoder writes it, with U+FFFD for every byte that belongs to no rune.
\<close>

definition rune_len :: "string \<Rightarrow> nat" where
  "rune_len t = (case t of [] \<Rightarrow> 0 | a # s \<Rightarrow>
     (let n = of_char a :: nat in
      if n < 0x80 then 1
      else if 0xC2 \<le> n \<and> n \<le> 0xDF then (case s of b # s' \<Rightarrow> if is_cont b then 2 else 0 | [] \<Rightarrow> 0)
      else if 0xE0 \<le> n \<and> n \<le> 0xEF then
        (case s of b # c # s' \<Rightarrow> if byte_in (if n = 0xE0 then 0xA0 else 0x80) (if n = 0xED then 0x9F else 0xBF) b \<and>
             is_cont c then 3 else 0 | _ \<Rightarrow> 0)
      else if 0xF0 \<le> n \<and> n \<le> 0xF4 then
        (case s of b # c # d # s' \<Rightarrow> if byte_in (if n = 0xF0 then 0x90 else 0x80) (if n = 0xF4 then 0x8F else 0xBF) b \<and>
             is_cont c \<and> is_cont d then 4 else 0 | _ \<Rightarrow> 0)
      else 0))"

text \<open>For the kernel: ASCII bytes are told by their bits.\<close>

lemma ascii_bit: "(of_char c :: nat) < 128 \<longleftrightarrow> \<not> digit7 c"
proof (cases c)
  case (Char b0 b1 b2 b3 b4 b5 b6 b7)
  then show ?thesis by (cases b0; cases b1; cases b2; cases b3; cases b4; cases b5; cases b6; cases b7) simp_all
qed

lemma is_cont_eval [code]: "is_cont c \<longleftrightarrow> (if digit7 c then \<not> digit6 c else False)"
proof (cases c)
  case (Char b0 b1 b2 b3 b4 b5 b6 b7)
  then show ?thesis
    by (cases b0; cases b1; cases b2; cases b3; cases b4; cases b5; cases b6; cases b7) (simp_all add: is_cont_def)
qed

lemma utf8_valid_eval [code]:
  "utf8_valid [] = True"
  "utf8_valid (a # s) = (if digit7 a then
     (let n = of_char a :: nat in
      if 0xC2 \<le> n \<and> n \<le> 0xDF then
        (case s of b # s' \<Rightarrow> is_cont b \<and> utf8_valid s' | [] \<Rightarrow> False)
      else if 0xE0 \<le> n \<and> n \<le> 0xEF then
        (case s of b # c # s' \<Rightarrow> byte_in (if n = 0xE0 then 0xA0 else 0x80) (if n = 0xED then 0x9F else 0xBF) b \<and>
             is_cont c \<and> utf8_valid s' | _ \<Rightarrow> False)
      else if 0xF0 \<le> n \<and> n \<le> 0xF4 then
        (case s of b # c # d # s' \<Rightarrow> byte_in (if n = 0xF0 then 0x90 else 0x80) (if n = 0xF4 then 0x8F else 0xBF) b \<and>
             is_cont c \<and> is_cont d \<and> utf8_valid s' | _ \<Rightarrow> False)
      else False) else utf8_valid s)"
  using ascii_bit [of a] by (simp_all add: Let_def)

lemma rune_len_eval [code]: "rune_len t = (case t of [] \<Rightarrow> 0 | a # s \<Rightarrow> if digit7 a then
     (let n = of_char a :: nat in
      if 0xC2 \<le> n \<and> n \<le> 0xDF then (case s of b # s' \<Rightarrow> if is_cont b then 2 else 0 | [] \<Rightarrow> 0)
      else if 0xE0 \<le> n \<and> n \<le> 0xEF then
        (case s of b # c # s' \<Rightarrow> if byte_in (if n = 0xE0 then 0xA0 else 0x80) (if n = 0xED then 0x9F else 0xBF) b \<and>
             is_cont c then 3 else 0 | _ \<Rightarrow> 0)
      else if 0xF0 \<le> n \<and> n \<le> 0xF4 then
        (case s of b # c # d # s' \<Rightarrow> if byte_in (if n = 0xF0 then 0x90 else 0x80) (if n = 0xF4 then 0x8F else 0xBF) b \<and>
             is_cont c \<and> is_cont d then 4 else 0 | _ \<Rightarrow> 0)
      else 0) else 1)"
  unfolding rune_len_def using ascii_bit [of "hd t"] by (cases t) (simp_all add: Let_def)

function ToValidUTF8 :: "string \<Rightarrow> string" where
  "ToValidUTF8 t = (if t = [] then []
     else if rune_len t = 0 then [CHR 0xEF, CHR 0xBF, CHR 0xBD] @ ToValidUTF8 (tl t)
     else take (rune_len t) t @ ToValidUTF8 (drop (rune_len t) t))"
  by pat_completeness auto
termination by (relation "measure length") auto

declare ToValidUTF8.simps [simp del]

lemma utf8_valid_step: "utf8_valid (a # s) \<longleftrightarrow> rune_len (a # s) \<noteq> 0 \<and> utf8_valid (drop (rune_len (a # s)) (a # s))"
proof -
  define n where "n = (of_char a :: nat)"
  consider "n < 0x80" | "\<not> n < 0x80" "0xC2 \<le> n \<and> n \<le> 0xDF"
    | "\<not> n < 0x80" "\<not> (0xC2 \<le> n \<and> n \<le> 0xDF)" "0xE0 \<le> n \<and> n \<le> 0xEF"
    | "\<not> n < 0x80" "\<not> (0xC2 \<le> n \<and> n \<le> 0xDF)" "\<not> (0xE0 \<le> n \<and> n \<le> 0xEF)" "0xF0 \<le> n \<and> n \<le> 0xF4"
    | "\<not> n < 0x80" "\<not> (0xC2 \<le> n \<and> n \<le> 0xDF)" "\<not> (0xE0 \<le> n \<and> n \<le> 0xEF)" "\<not> (0xF0 \<le> n \<and> n \<le> 0xF4)"
    by blast
  then show ?thesis
  proof cases
    case 1
    then show ?thesis by (subst utf8_valid.simps(2)) (simp add: rune_len_def n_def [symmetric] del: utf8_valid.simps)
  next
    case 2
    then show ?thesis
      by (subst utf8_valid.simps(2), cases s) (simp_all add: rune_len_def n_def [symmetric] del: utf8_valid.simps)
  next
    case 3
    then show ?thesis
      by (subst utf8_valid.simps(2), cases s; cases "tl s")
        (simp_all add: rune_len_def n_def [symmetric] del: utf8_valid.simps, blast?)
  next
    case 4
    then show ?thesis
      by (subst utf8_valid.simps(2), cases s; cases "tl s"; cases "tl (tl s)")
        (simp_all add: rune_len_def n_def [symmetric] del: utf8_valid.simps, blast?)
  next
    case 5
    then show ?thesis
      by (subst utf8_valid.simps(2)) (simp only: rune_len_def n_def [symmetric] Let_def list.case if_not_P; simp)
  qed
qed

lemma ToValidUTF8_Nil [simp]: "ToValidUTF8 [] = []"
  by (subst ToValidUTF8.simps) simp

lemma ToValidUTF8_id: "utf8_valid t \<Longrightarrow> ToValidUTF8 t = t"
proof (induction t rule: ToValidUTF8.induct)
  case (1 t)
  then show ?case
    using utf8_valid_step [of "hd t" "tl t"]
    by (cases "t = []") (simp_all add: ToValidUTF8.simps [of t] del: utf8_valid.simps(2))
qed

text \<open>A text that is not UTF-8 is changed.\<close>

lemma ToValidUTF8_changes: "\<not> utf8_valid t \<Longrightarrow> ToValidUTF8 t \<noteq> t"
proof (induction t rule: ToValidUTF8.induct)
  case (1 t)
  then have "t \<noteq> []" by auto
  show ?case
  proof (cases "rune_len t = 0")
    case True
    have "rune_len (CHR 0xEF # CHR 0xBF # CHR 0xBD # u) = 3" for u
      by (simp add: rune_len_def is_cont_def byte_in_def)
    with True \<open>t \<noteq> []\<close> show ?thesis
      by (metis ToValidUTF8.simps [of t] append_Cons append_Nil zero_neq_numeral)
  next
    case False
    with 1 \<open>t \<noteq> []\<close> utf8_valid_step [of "hd t" "tl t"]
    have "ToValidUTF8 (drop (rune_len t) t) \<noteq> drop (rune_len t) t" by simp
    with False \<open>t \<noteq> []\<close> show ?thesis
      by (metis ToValidUTF8.simps [of t] append_take_drop_id same_append_eq)
  qed
qed

text \<open>\<open>[]rune(s)\<close> of a valid text: each rune as its bytes.\<close>

function runes :: "string \<Rightarrow> string list" where
  "runes [] = []"
| "runes (a # s) = (a # takeWhile is_cont s) # runes (dropWhile is_cont s)"
  by pat_completeness auto
termination by (relation "measure length") (auto simp: le_imp_less_Suc length_dropWhile_le)

lemma concat_runes [simp]: "concat (runes s) = s"
  by (induction s rule: runes.induct) simp_all

section \<open>The first runes of a text\<close>

lemma runes_append: "u \<noteq> [] \<Longrightarrow> (v = [] \<or> \<not> is_cont (hd v)) \<Longrightarrow> runes (u @ v) = runes u @ runes v"
proof (induction u rule: runes.induct)
  case (2 a s)
  show ?case
  proof (cases "dropWhile is_cont s = []")
    case True
    then have "\<forall>c \<in> set s. is_cont c" by (simp add: dropWhile_eq_Nil_conv)
    moreover have "takeWhile is_cont v = []" "dropWhile is_cont v = v"
      using "2.prems"(2) by (cases v; simp)+
    ultimately have "takeWhile is_cont (s @ v) = s" "dropWhile is_cont (s @ v) = v"
      by (simp_all add: takeWhile_append2 dropWhile_append2)
    moreover have "takeWhile is_cont s = s" using \<open>\<forall>c \<in> set s. is_cont c\<close> by (simp only: takeWhile_eq_all_conv)
    moreover have "(a # s) @ v = a # (s @ v)" by simp
    ultimately show ?thesis using True by (simp only: runes.simps append_Cons append_Nil)
  next
    case False
    then obtain c where "c \<in> set s" "\<not> is_cont c" by (auto simp: dropWhile_eq_Nil_conv)
    then have "takeWhile is_cont (s @ v) = takeWhile is_cont s"
      "dropWhile is_cont (s @ v) = dropWhile is_cont s @ v"
      by (simp_all add: takeWhile_append1 dropWhile_append1)
    with "2.IH" [OF False "2.prems"(2)] show ?thesis by simp
  qed
qed simp

lemma runes_take: "runes (concat (take n (runes s))) = take n (runes s)"
proof (induction s arbitrary: n rule: runes.induct)
  case (2 a s)
  show ?case
  proof (cases n)
    case (Suc m)
    let ?v = "concat (take m (runes (dropWhile is_cont s)))"
    have "?v = [] \<or> \<not> is_cont (hd ?v)"
    proof (cases "dropWhile is_cont s")
      case Nil
      then show ?thesis by (simp del: dropWhile_eq_Nil_conv)
    next
      case (Cons b t)
      then have "\<not> is_cont b" using hd_dropWhile [of is_cont s] by fastforce
      with Cons show ?thesis by (cases m) simp_all
    qed
    then have "runes ((a # takeWhile is_cont s) @ ?v) = runes (a # takeWhile is_cont s) @ runes ?v"
      by (intro runes_append) simp_all
    moreover have "runes (a # takeWhile is_cont s) = [a # takeWhile is_cont s]"
    proof -
      have "\<forall>c \<in> set (takeWhile is_cont s). is_cont c" by (auto dest: set_takeWhileD)
      then have "takeWhile is_cont (takeWhile is_cont s) = takeWhile is_cont s"
        "dropWhile is_cont (takeWhile is_cont s) = []"
        by (simp_all only: takeWhile_eq_all_conv dropWhile_eq_Nil_conv)
      then show ?thesis by (simp only: runes.simps)
    qed
    moreover have "concat (take n (runes (a # s))) = (a # takeWhile is_cont s) @ ?v" using Suc by simp
    moreover have "take n (runes (a # s)) = (a # takeWhile is_cont s) # take m (runes (dropWhile is_cont s))"
      using Suc by simp
    ultimately show ?thesis using "2.IH" [of m] by (simp only: append_Cons append_Nil)
  qed simp
qed simp

lemma length_runes_take: "length (runes (concat (take n (runes s)))) \<le> n"
  by (simp add: runes_take)

section \<open>Texts that are not blank\<close>

lemma space_width_prefix: "prefix p s \<Longrightarrow> space_width s = 0 \<Longrightarrow> space_width p = 0"
  by (cases p; cases s) (auto split: list.splits if_splits)

lemma space_width_append: "space_width_rev z = length z \<Longrightarrow> z \<noteq> [] \<Longrightarrow> space_width (rev z @ y) \<noteq> 0"
  by (cases z rule: space_width_rev.cases) (auto split: list.splits if_splits)

lemma drop_space_all:
  "drop_space w x = [] \<Longrightarrow> x \<noteq> [] \<Longrightarrow> \<exists>y z. x = y @ z \<and> z \<noteq> [] \<and> w z = length z"
proof (induction w x rule: drop_space.induct)
  case (1 w s)
  show ?case
  proof (cases "0 < w s \<and> w s \<le> length s")
    case True
    then have rest: "drop_space w (drop (w s) s) = []" using "1.prems"(1) by (subst (asm) drop_space.simps) simp
    show ?thesis
    proof (cases "drop (w s) s = []")
      case True
      with \<open>0 < w s \<and> w s \<le> length s\<close> "1.prems"(2) show ?thesis by (intro exI [of _ "[]"] exI [of _ s]) simp
    next
      case False
      with "1.IH" [OF True rest] obtain y z where "drop (w s) s = y @ z" "z \<noteq> []" "w z = length z" by blast
      then show ?thesis by (intro exI [of _ "take (w s) s @ y"] exI [of _ z]) (simp flip: \<open>drop (w s) s = y @ z\<close>)
    qed
  next
    case False
    with "1.prems" show ?thesis by (subst (asm) drop_space.simps) simp
  qed
qed

lemma TrimSpace_nonblank:
  assumes "p \<noteq> []" and "space_width p = 0" shows "TrimSpace p \<noteq> []"
proof
  assume "TrimSpace p = []"
  then have "drop_space space_width_rev (rev p) = []" using assms(2) by (simp add: TrimSpace_def drop_space_fix)
  with assms(1) obtain y z where "rev p = y @ z" "z \<noteq> []" "space_width_rev z = length z"
    using drop_space_all [of space_width_rev "rev p"] by auto
  then have "p = rev z @ rev y" by (metis rev_append rev_rev_ident)
  with space_width_append [of z "rev y"] \<open>z \<noteq> []\<close> \<open>space_width_rev z = length z\<close> assms(2) show False by simp
qed

lemma TrimSpace_prefix: "prefix (TrimSpace s) (drop_space space_width s)"
  using drop_space_suffix [of space_width_rev "rev (drop_space space_width s)"]
  by (simp add: TrimSpace_def suffix_to_prefix)

lemma TrimSpace_no_leading: "space_width (TrimSpace s) = 0"
  using TrimSpace_prefix drop_space_done [of space_width] space_width_le by (metis space_width_prefix)

lemma TrimSpace_idem [simp]: "TrimSpace (TrimSpace s) = TrimSpace s"
  by (simp add: TrimSpace_def [of "TrimSpace s"] drop_space_fix TrimSpace_no_leading TrimSpace_no_trailing)

text \<open>The first runes of a trimmed text are not blank, unless there was nothing.\<close>

lemma first_runes_nonblank:
  assumes "TrimSpace s \<noteq> []" and "0 < n"
  shows "TrimSpace (concat (take n (runes (TrimSpace s)))) \<noteq> []"
proof (rule TrimSpace_nonblank)
  have "prefix (concat (take n (runes (TrimSpace s)))) (TrimSpace s)"
    by (metis append_take_drop_id concat_append concat_runes prefixI)
  then show "space_width (concat (take n (runes (TrimSpace s)))) = 0"
    using space_width_prefix TrimSpace_no_leading by blast
  show "concat (take n (runes (TrimSpace s))) \<noteq> []"
    using assms by (cases "TrimSpace s"; cases n) simp_all
qed

end
