(* ===== verification/Config.thy ===== *)
theory Config
  imports Complex_Main Utf8 "HOL-Library.Multiset"
begin

text \<open>
  Configuration (\<open>internal/config\<close>): the environment reader \<open>Load\<close> with its defaulting helpers
  and validations, and the \<open>ModelSelector\<close> that rotates over the configured models. The
  environment is a function from variable names to values, the empty text for an unset one.

  A \<open>float64\<close> is a rational, an infinity or not a number, compared as IEEE 754 compares;
  which value a text denotes (\<open>strconv.ParseFloat\<close>, \<open>time.ParseDuration\<close>) is an argument
  of \<open>Load\<close>, of which nothing is assumed. Durations are counted in nanoseconds.
\<close>

section \<open>Floating-point numbers\<close>

datatype gofloat = NaN | PosInf | NegInf | Fin rat

fun float_less :: "gofloat \<Rightarrow> gofloat \<Rightarrow> bool" where
  "float_less NaN _ = False"
| "float_less _ NaN = False"
| "float_less PosInf _ = False"
| "float_less NegInf y = (y \<noteq> NegInf)"
| "float_less (Fin x) PosInf = True"
| "float_less (Fin x) NegInf = False"
| "float_less (Fin x) (Fin y) = (x < y)"

section \<open>The configuration\<close>

record Config =
  cfg_Addr :: string
  cfg_LogLevel :: string
  cfg_DatabasePath :: string
  cfg_SharedSecrets :: "string list"
  cfg_SentryDSN :: string
  cfg_SentrySampleRate :: gofloat
  cfg_SentryTracesRate :: gofloat
  cfg_SentrySendDefaultPII :: bool
  cfg_LLMProvider :: string
  cfg_LLMBaseURL :: string
  cfg_LLMAPIKey :: string
  cfg_LLMModel :: "string list"
  cfg_LLMMaxTokens :: int
  cfg_LLMTemperature :: gofloat
  cfg_EmbeddingProvider :: string
  cfg_EmbeddingBaseURL :: string
  cfg_EmbeddingAPIKey :: string
  cfg_EmbeddingModel :: "string list"
  cfg_EmbeddingDimensions :: int
  cfg_VectorStore :: string
  cfg_VectorStoreDSN :: string
  cfg_VectorDimensions :: int
  cfg_SimilarityThreshold :: gofloat
  cfg_HTTPReferer :: string
  cfg_OutboundTimeout :: int
  cfg_GitHubToken :: string
  cfg_GitHubBaseURL :: string
  cfg_GitLabToken :: string
  cfg_GitLabBaseURL :: string
  cfg_GiteaToken :: string
  cfg_GiteaBaseURL :: string
  cfg_BitbucketToken :: string
  cfg_BitbucketBaseURL :: string
  cfg_GCPServiceAccountJSON :: string
  cfg_CodeIndexChunkSize :: int
  cfg_CodeIndexChunkOverlap :: int

type_synonym env = "string \<Rightarrow> string"

text \<open>The parsers of the standard library \<open>Load\<close> hands texts to.\<close>

record parsers =
  ParseFloat :: "string \<Rightarrow> gofloat option"
  ParseDuration :: "string \<Rightarrow> int option"

definition ParseBool :: "string \<Rightarrow> bool option" where
  "ParseBool s =
     (if s \<in> {''1'', ''t'', ''T'', ''TRUE'', ''true'', ''True''} then Some True
      else if s \<in> {''0'', ''f'', ''F'', ''FALSE'', ''false'', ''False''} then Some False
      else None)"

text \<open>\<open>60 * time.Second\<close>\<close>

definition DefaultOutboundTimeout :: int where
  "DefaultOutboundTimeout = 60 * 1000000000"

section \<open>Reading variables\<close>

definition envDefault :: "env \<Rightarrow> string \<Rightarrow> string \<Rightarrow> string" where
  "envDefault env key fallback =
     (let value = TrimSpace (env key) in if value \<noteq> [] then value else fallback)"

text \<open>
  The four typed readers differ in their parser and in the message they append to \<open>errs\<close>;
  each answers the fallback for an unset variable and for a value it cannot parse.
\<close>

definition parsed_default ::
    "(string \<Rightarrow> 'a option) \<Rightarrow> string \<Rightarrow> env \<Rightarrow> string \<Rightarrow> 'a \<Rightarrow> string list \<Rightarrow> 'a \<times> string list" where
  "parsed_default parse complaint env key fallback errs =
     (let value = TrimSpace (env key) in
      if value = [] then (fallback, errs)
      else case parse value of
        None \<Rightarrow> (fallback, errs @ [key @ complaint])
      | Some parsed \<Rightarrow> (parsed, errs))"

definition intDefault :: "env \<Rightarrow> string \<Rightarrow> int \<Rightarrow> string list \<Rightarrow> int \<times> string list" where
  "intDefault = parsed_default ParseInt '' must be an integer''"

definition floatDefault :: "parsers \<Rightarrow> env \<Rightarrow> string \<Rightarrow> gofloat \<Rightarrow> string list \<Rightarrow> gofloat \<times> string list" where
  "floatDefault ps = parsed_default (ParseFloat ps) '' must be a float''"

definition boolDefault :: "env \<Rightarrow> string \<Rightarrow> bool \<Rightarrow> string list \<Rightarrow> bool \<times> string list" where
  "boolDefault = parsed_default ParseBool '' must be a boolean''"

definition durationDefault :: "parsers \<Rightarrow> env \<Rightarrow> string \<Rightarrow> int \<Rightarrow> string list \<Rightarrow> int \<times> string list" where
  "durationDefault ps = parsed_default (ParseDuration ps) '' must be a duration such as 30s or 2m''"

definition splitList :: "string \<Rightarrow> string list" where
  "splitList raw = filter (\<lambda>v. v \<noteq> []) (map TrimSpace (split_on CHR '','' raw))"

text \<open>\<open>strings.FieldsFunc\<close> with the separators \<open>,\<close> and \<open>;\<close>: the non-empty runs between them.\<close>

definition secret_fields :: "string \<Rightarrow> string list" where
  "secret_fields raw = filter (\<lambda>f. f \<noteq> []) (split_on CHR '','' (replace_char CHR '';'' CHR '','' raw))"

definition splitSecrets :: "string \<Rightarrow> string list" where
  "splitSecrets raw =
     (if raw = [] then [] else filter (\<lambda>v. v \<noteq> []) (map TrimSpace (secret_fields raw)))"

fun firstNonEmpty :: "string list \<Rightarrow> string" where
  "firstNonEmpty [] = []"
| "firstNonEmpty (value # values) = (if TrimSpace value \<noteq> [] then value else firstNonEmpty values)"

section \<open>Validation\<close>

text \<open>The complaints \<open>Load\<close> appends after the readers' own, in the order of the code.\<close>

definition complain :: "bool \<Rightarrow> string \<Rightarrow> string list" where
  "complain b msg = (if b then [msg] else [])"

definition validate :: "Config \<Rightarrow> string list" where
  "validate cfg =
     complain (cfg_OutboundTimeout cfg \<le> 0) ''OUTBOUND_TIMEOUT must be greater than zero'' @
     complain (cfg_CodeIndexChunkSize cfg \<le> 0) ''CODE_INDEX_CHUNK_SIZE must be greater than zero'' @
     complain (cfg_CodeIndexChunkOverlap cfg < 0 \<or> cfg_CodeIndexChunkOverlap cfg \<ge> cfg_CodeIndexChunkSize cfg)
       ''CODE_INDEX_CHUNK_OVERLAP must be zero or greater and smaller than CODE_INDEX_CHUNK_SIZE'' @
     complain (cfg_GiteaToken cfg \<noteq> [] \<and> cfg_GiteaBaseURL cfg = [])
       ''GITEA_BASE_URL is required when GITEA_TOKEN is set'' @
     complain (cfg_VectorStore cfg \<noteq> ''sqlitevec'' \<and> cfg_VectorStore cfg \<noteq> ''pgvector'')
       ''VECTOR_STORE must be one of sqlitevec or pgvector'' @
     complain (cfg_VectorStore cfg = ''pgvector'' \<and> cfg_VectorStoreDSN cfg = [])
       ''VECTOR_STORE_DSN is required when VECTOR_STORE=pgvector'' @
     complain (cfg_VectorDimensions cfg \<le> 0) ''VECTOR_DIMENSIONS must be greater than zero'' @
     complain (float_less (cfg_SentrySampleRate cfg) (Fin 0) \<or> float_less (Fin 1) (cfg_SentrySampleRate cfg))
       ''SENTRY_SAMPLE_RATE must be between 0 and 1'' @
     complain (float_less (cfg_SentryTracesRate cfg) (Fin 0) \<or> float_less (Fin 1) (cfg_SentryTracesRate cfg))
       ''SENTRY_TRACES_SAMPLE_RATE must be between 0 and 1'' @
     complain (cfg_LLMModel cfg = []) ''LLM_MODEL must list at least one model'' @
     complain (cfg_EmbeddingModel cfg = []) ''EMBEDDING_MODEL must list at least one model'' @
     complain (cfg_LLMProvider cfg \<in> {''openrouter'', ''custom'', ''openai''} \<and>
         cfg_LLMProvider cfg \<noteq> ''openai'' \<and> cfg_LLMBaseURL cfg = [])
       ''LLM_BASE_URL is required for openrouter/custom'' @
     complain (cfg_EmbeddingProvider cfg \<in> {''openrouter'', ''custom'', ''openai''} \<and>
         cfg_EmbeddingProvider cfg \<noteq> ''openai'' \<and> cfg_EmbeddingBaseURL cfg = [])
       ''EMBEDDING_BASE_URL is required for openrouter/custom''"


text \<open>The fields \<open>Load\<close> reads, and what the typed readers complained of on the way.\<close>

definition read_env :: "parsers \<Rightarrow> env \<Rightarrow> Config \<times> string list" where
  "read_env ps env =
     (let (sample, e1) = floatDefault ps env ''SENTRY_SAMPLE_RATE'' (Fin 1) [];
          (traces, e2) = floatDefault ps env ''SENTRY_TRACES_SAMPLE_RATE'' (Fin 1) e1;
          (pii, e3) = boolDefault env ''SENTRY_SEND_DEFAULT_PII'' False e2;
          (tokens, e4) = intDefault env ''LLM_MAX_TOKENS'' 2048 e3;
          (temperature, e5) = floatDefault ps env ''LLM_TEMPERATURE'' (Fin (1 / 5)) e4;
          (dims, e6) = intDefault env ''EMBEDDING_DIMENSIONS'' 256 e5;
          (vdims, e7) = intDefault env ''VECTOR_DIMENSIONS'' dims e6;
          (threshold, e8) = floatDefault ps env ''SIMILARITY_THRESHOLD'' (Fin (1 / 10)) e7;
          (size, e9) = intDefault env ''CODE_INDEX_CHUNK_SIZE'' 1000 e8;
          (overlap, e10) = intDefault env ''CODE_INDEX_CHUNK_OVERLAP'' 200 e9;
          (timeout, e11) = durationDefault ps env ''OUTBOUND_TIMEOUT'' DefaultOutboundTimeout e10
      in (\<lparr>cfg_Addr = envDefault env ''ADDR'' '':9091'',
           cfg_LogLevel = envDefault env ''LOG_LEVEL'' ''info'',
           cfg_DatabasePath = envDefault env ''DATABASE_PATH'' ''data/faux-seer.db'',
           cfg_SharedSecrets = splitSecrets (firstNonEmpty [env ''SEER_SHARED_SECRET'',
             env ''SEER_RPC_SHARED_SECRET'', env ''SEER_API_SHARED_SECRET'', env ''SHARED_SECRET'']),
           cfg_SentryDSN = TrimSpace (env ''SENTRY_DSN''),
           cfg_SentrySampleRate = sample, cfg_SentryTracesRate = traces, cfg_SentrySendDefaultPII = pii,
           cfg_LLMProvider = ToLower (envDefault env ''LLM_PROVIDER'' ''stub''),
           cfg_LLMBaseURL = TrimSpace (env ''LLM_BASE_URL''),
           cfg_LLMAPIKey = TrimSpace (env ''LLM_API_KEY''),
           cfg_LLMModel = splitList (envDefault env ''LLM_MODEL'' ''gpt-4.1-mini''),
           cfg_LLMMaxTokens = tokens, cfg_LLMTemperature = temperature,
           cfg_EmbeddingProvider = ToLower (envDefault env ''EMBEDDING_PROVIDER'' ''stub''),
           cfg_EmbeddingBaseURL = TrimSpace (env ''EMBEDDING_BASE_URL''),
           cfg_EmbeddingAPIKey = TrimSpace (env ''EMBEDDING_API_KEY''),
           cfg_EmbeddingModel = splitList (envDefault env ''EMBEDDING_MODEL'' ''text-embedding-3-small''),
           cfg_EmbeddingDimensions = dims,
           cfg_VectorStore = ToLower (envDefault env ''VECTOR_STORE'' ''sqlitevec''),
           cfg_VectorStoreDSN = TrimSpace (env ''VECTOR_STORE_DSN''),
           cfg_VectorDimensions = vdims, cfg_SimilarityThreshold = threshold,
           cfg_HTTPReferer = TrimSpace (env ''HTTP_REFERER''),
           cfg_OutboundTimeout = timeout,
           cfg_GitHubToken = TrimSpace (env ''GITHUB_TOKEN''),
           cfg_GitHubBaseURL = envDefault env ''GITHUB_BASE_URL'' ''https://api.github.com'',
           cfg_GitLabToken = TrimSpace (env ''GITLAB_TOKEN''),
           cfg_GitLabBaseURL = envDefault env ''GITLAB_BASE_URL'' ''https://gitlab.com/api/v4'',
           cfg_GiteaToken = TrimSpace (env ''GITEA_TOKEN''),
           cfg_GiteaBaseURL = TrimSpace (env ''GITEA_BASE_URL''),
           cfg_BitbucketToken = TrimSpace (env ''BITBUCKET_TOKEN''),
           cfg_BitbucketBaseURL = envDefault env ''BITBUCKET_BASE_URL'' ''https://api.bitbucket.org/2.0'',
           cfg_GCPServiceAccountJSON = TrimSpace (env ''GCP_SERVICE_ACCOUNT_JSON''),
           cfg_CodeIndexChunkSize = size, cfg_CodeIndexChunkOverlap = overlap\<rparr>, e11))"

definition Load :: "parsers \<Rightarrow> env \<Rightarrow> Config res" where
  "Load ps env =
     (let (cfg, unread) = read_env ps env; errs = unread @ validate cfg
      in if errs \<noteq> [] then Inl (errorf (Join errs ''; '')) else Inr cfg)"

lemma complain_Nil [simp]: "complain b msg = [] \<longleftrightarrow> \<not> b"
  by (simp add: complain_def)

lemma Load_Inr: "Load ps env = Inr cfg \<longleftrightarrow> read_env ps env = (cfg, []) \<and> validate cfg = []"
  by (auto simp: Load_def split: prod.splits)

text \<open>Every text of the three lists is trimmed and not empty.\<close>

definition clean_text :: "string \<Rightarrow> bool" where
  "clean_text s \<longleftrightarrow> s \<noteq> [] \<and> TrimSpace s = s"

lemma split_clean: "list_all clean_text (splitList raw)" "list_all clean_text (splitSecrets raw)"
  by (auto simp: splitList_def splitSecrets_def clean_text_def list_all_iff TrimSpace_idem)

text \<open>A variable that is set holds what its reader can parse.\<close>

definition readable :: "(string \<Rightarrow> 'a option) \<Rightarrow> env \<Rightarrow> string \<Rightarrow> bool" where
  "readable parse env key \<longleftrightarrow> TrimSpace (env key) = [] \<or> parse (TrimSpace (env key)) \<noteq> None"

lemma parsed_default_readable:
  "parsed_default parse complaint env key fallback errs = (v, []) \<Longrightarrow> errs = [] \<and> readable parse env key"
  by (auto simp: parsed_default_def readable_def Let_def split: if_splits option.splits)

lemma read_env_readable:
  assumes "read_env ps env = (cfg, [])"
  shows "list_all (readable ParseInt env)
       [''LLM_MAX_TOKENS'', ''EMBEDDING_DIMENSIONS'', ''VECTOR_DIMENSIONS'', ''CODE_INDEX_CHUNK_SIZE'', ''CODE_INDEX_CHUNK_OVERLAP''] \<and>
    list_all (readable (ParseFloat ps) env)
       [''SENTRY_SAMPLE_RATE'', ''SENTRY_TRACES_SAMPLE_RATE'', ''LLM_TEMPERATURE'', ''SIMILARITY_THRESHOLD''] \<and>
    readable ParseBool env ''SENTRY_SEND_DEFAULT_PII'' \<and> readable (ParseDuration ps) env ''OUTBOUND_TIMEOUT''"
  using assms unfolding read_env_def intDefault_def floatDefault_def boolDefault_def durationDefault_def Let_def
  by (clarsimp simp only: prod.case Pair_inject list.pred_inject split: prod.splits)
    ((drule parsed_default_readable, clarify?)+, intro conjI TrueI; assumption)

lemma read_env_lists:
  "read_env ps env = (cfg, errs) \<Longrightarrow>
     cfg_LLMModel cfg = splitList (envDefault env ''LLM_MODEL'' ''gpt-4.1-mini'') \<and>
     cfg_EmbeddingModel cfg = splitList (envDefault env ''EMBEDDING_MODEL'' ''text-embedding-3-small'') \<and>
     cfg_SharedSecrets cfg = splitSecrets (firstNonEmpty [env ''SEER_SHARED_SECRET'',
       env ''SEER_RPC_SHARED_SECRET'', env ''SEER_API_SHARED_SECRET'', env ''SHARED_SECRET''])"
  by (clarsimp simp only: read_env_def Let_def prod.case split: prod.splits) simp

text \<open>
  The secrets end up empty exactly when no piece between separators has a visible
  character; \<open>VerifyRequest\<close> reads an empty list as \<open>accept everything\<close>.
\<close>

lemma splitSecrets_Nil:
  "splitSecrets raw = [] \<longleftrightarrow>
     (\<forall>p \<in> set (split_on CHR '','' (replace_char CHR '';'' CHR '','' raw)). TrimSpace p = [])"
  by (auto simp: splitSecrets_def secret_fields_def replace_char_def filter_empty_conv)

section \<open>Rotating over the models\<close>

record ModelSelector =
  ms_models :: "string list"
  ms_counter :: "64 word"

definition NewModelSelector :: "string list \<Rightarrow> ModelSelector" where
  "NewModelSelector models = \<lparr>ms_models = models, ms_counter = 0\<rparr>"

text \<open>\<open>Next\<close>: \<open>atomic.AddUint64\<close> adds and answers the new value.\<close>

definition Next :: "ModelSelector \<Rightarrow> string \<times> ModelSelector" where
  "Next m =
     (if ms_models m = [] then ([], m)
      else let counter = ms_counter m + 1; index = counter - 1
           in (ms_models m ! unat (index mod of_nat (length (ms_models m))), m\<lparr>ms_counter := counter\<rparr>))"

fun picks :: "nat \<Rightarrow> ModelSelector \<Rightarrow> string list" where
  "picks 0 m = []"
| "picks (Suc n) m = (case Next m of (x, m') \<Rightarrow> x # picks n m')"

lemma Next_pick:
  assumes "ms_models m \<noteq> []" and "length (ms_models m) < 2 ^ 64"
  shows "Next m = (ms_models m ! (unat (ms_counter m) mod length (ms_models m)),
    m\<lparr>ms_counter := ms_counter m + 1\<rparr>)"
  using assms by (simp add: Next_def unat_mod unat_of_nat take_bit_eq_mod)

lemma picks_nth:
  assumes "ms_models m \<noteq> []" and "length (ms_models m) < 2 ^ 64"
    and "unat (ms_counter m) + n \<le> 2 ^ 64"
  shows "picks n m = map (\<lambda>i. ms_models m ! ((unat (ms_counter m) + i) mod length (ms_models m))) [0..<n]"
  using assms
proof (induction n arbitrary: m)
  case (Suc n)
  let ?m = "m\<lparr>ms_counter := ms_counter m + 1\<rparr>"
  show ?case
  proof (cases n)
    case 0
    with Suc.prems show ?thesis by (simp add: Next_pick)
  next
    case (Suc k)
    with Suc.prems have "unat (ms_counter m + 1) = unat (ms_counter m) + 1"
      by (simp add: unat_word_ariths)
    moreover have "picks n ?m = map (\<lambda>i. ms_models ?m ! ((unat (ms_counter ?m) + i) mod length (ms_models ?m))) [0..<n]"
      by (rule Suc.IH) (use Suc.prems calculation in simp_all)
    ultimately show ?thesis
      using Suc.prems by (simp add: Next_pick upt_conv_Cons map_Suc_upt [symmetric] del: upt_Suc)
  qed
qed simp

text \<open>A full round is the list itself, rotated to where the counter stands.\<close>

lemma picks_round:
  assumes "ms_models m \<noteq> []" and "unat (ms_counter m) + length (ms_models m) \<le> 2 ^ 64"
    and "length (ms_models m) < 2 ^ 64"
  shows "picks (length (ms_models m)) m = rotate (unat (ms_counter m)) (ms_models m)"
  by (rule nth_equalityI) (use assms in \<open>simp_all add: picks_nth nth_rotate\<close>)

section \<open>Properties\<close>

text \<open>C13: a configuration that loads satisfies every constraint of Load: the outbound timeout is positive, chunks
  overlap by less than their size, the vector dimension is positive, both model lists are non-empty, the
  vector store is one the program knows and has its DSN, a Gitea token comes with a base URL, no sample rate is
  below 0 or above 1 (one that is not a number passes, as the comparisons of the code let it), the openrouter and custom
  providers of either kind come with a base URL; each model and each secret is trimmed and non-empty; and
  each typed variable that is set holds what its reader can parse.\<close>

theorem Load_validates:
  assumes "Load ps env = Inr cfg"
  shows "(0 < cfg_OutboundTimeout cfg \<and>
    0 \<le> cfg_CodeIndexChunkOverlap cfg \<and> cfg_CodeIndexChunkOverlap cfg < cfg_CodeIndexChunkSize cfg \<and>
    0 < cfg_VectorDimensions cfg \<and> cfg_LLMModel cfg \<noteq> [] \<and> cfg_EmbeddingModel cfg \<noteq> [] \<and>
    (cfg_VectorStore cfg = ''sqlitevec'' \<or> cfg_VectorStore cfg = ''pgvector'' \<and> cfg_VectorStoreDSN cfg \<noteq> []) \<and>
    (cfg_GiteaToken cfg = [] \<or> cfg_GiteaBaseURL cfg \<noteq> []) \<and>
    \<not> float_less (cfg_SentrySampleRate cfg) (Fin 0) \<and> \<not> float_less (Fin 1) (cfg_SentrySampleRate cfg) \<and>
    \<not> float_less (cfg_SentryTracesRate cfg) (Fin 0) \<and> \<not> float_less (Fin 1) (cfg_SentryTracesRate cfg) \<and>
    (cfg_LLMProvider cfg \<notin> {''openrouter'', ''custom''} \<or> cfg_LLMBaseURL cfg \<noteq> []) \<and>
    (cfg_EmbeddingProvider cfg \<notin> {''openrouter'', ''custom''} \<or> cfg_EmbeddingBaseURL cfg \<noteq> [])) \<and>
    list_all clean_text (cfg_LLMModel cfg @ cfg_EmbeddingModel cfg @ cfg_SharedSecrets cfg) \<and>
    list_all (readable ParseInt env)
       [''LLM_MAX_TOKENS'', ''EMBEDDING_DIMENSIONS'', ''VECTOR_DIMENSIONS'', ''CODE_INDEX_CHUNK_SIZE'', ''CODE_INDEX_CHUNK_OVERLAP''] \<and>
    list_all (readable (ParseFloat ps) env)
       [''SENTRY_SAMPLE_RATE'', ''SENTRY_TRACES_SAMPLE_RATE'', ''LLM_TEMPERATURE'', ''SIMILARITY_THRESHOLD''] \<and>
    readable ParseBool env ''SENTRY_SEND_DEFAULT_PII'' \<and> readable (ParseDuration ps) env ''OUTBOUND_TIMEOUT''"
proof -
  from assms have read: "read_env ps env = (cfg, [])" and valid: "validate cfg = []"
    by (simp_all add: Load_Inr)
  have lists: "list_all clean_text (cfg_LLMModel cfg @ cfg_EmbeddingModel cfg @ cfg_SharedSecrets cfg)"
    using read_env_lists [OF read] split_clean by simp
  from valid show ?thesis by (intro conjI [OF _ conjI [OF lists read_env_readable [OF read]]]) (auto simp: validate_def)
qed
definition no_parsers :: parsers where
  "no_parsers = \<lparr>ParseFloat = (\<lambda>_. None), ParseDuration = (\<lambda>_. None)\<rparr>"

definition sample_env :: env where
  "sample_env key = (if key = ''SHARED_SECRET'' then '' , ; '' else [])"

theorem Load_validates_witness:
  "(case Load no_parsers sample_env of Inr cfg \<Rightarrow> cfg_CodeIndexChunkOverlap cfg < cfg_CodeIndexChunkSize cfg | Inl e \<Rightarrow> False)"
proof -
  have "isl (Load no_parsers sample_env) = False" by code_simp
  then obtain cfg where "Load no_parsers sample_env = Inr cfg" by (metis isl_def sum.exhaust)
  from Load_validates [OF this] this show ?thesis by simp
qed

text \<open>A full round of \<open>Next\<close> is fair. From any position, as many picks as there are models
  are the configured list rotated to that position, so every model is picked exactly as often
  as it is listed (while the 64-bit counter does not wrap within the round).\<close>

theorem Next_round_robin:
  assumes "ms_models m \<noteq> []" and "unat (ms_counter m) + length (ms_models m) \<le> 2 ^ 64"
    and "length (ms_models m) < 2 ^ 64"
  shows "picks (length (ms_models m)) m = rotate (unat (ms_counter m)) (ms_models m) \<and>
    mset (picks (length (ms_models m)) m) = mset (ms_models m)"
proof -
  have r: "picks (length (ms_models m)) m = rotate (unat (ms_counter m)) (ms_models m)"
    using assms by (rule picks_round)
  moreover have "mset (rotate n xs) = mset xs" for n and xs :: "string list"
    by (metis append_take_drop_id mset_append rotate_drop_take union_commute)
  ultimately show ?thesis by simp
qed

theorem Next_round_robin_witness:
  "picks 3 (snd (Next (NewModelSelector [''a'', ''b'', ''c'']))) = [''b'', ''c'', ''a'']"
proof -
  let ?m = "snd (Next (NewModelSelector [''a'', ''b'', ''c'']))"
  have m: "ms_models ?m = [''a'', ''b'', ''c'']" "unat (ms_counter ?m) = 1"
    by (simp_all add: Next_def NewModelSelector_def Let_def)
  have "picks (length (ms_models ?m)) ?m = rotate (unat (ms_counter ?m)) (ms_models ?m)"
    using Next_round_robin [of ?m] m by simp
  then show ?thesis unfolding m by (simp add: numeral_3_eq_3 del: picks.simps)
qed

end
