(* ===== verification/Json.thy ===== *)
theory Json
  imports GoStrings
begin

text \<open>
  What the program uses of \<open>encoding/json\<close>. A document is modelled by the value tree it
  denotes, an object by its members in document order; a byte payload (a request body, a
  stored column) is empty, not JSON, or a document. \<open>json.Unmarshal\<close> into a struct reads
  each member by its folded name, ignores unknown members, lets the last duplicate win,
  leaves the zero value for an absent or null member and fails on a member of the wrong
  type; \<open>json.Marshal\<close> of the program's structs and maps always succeeds and yields the
  tree built by the \<open>enc_\<close> functions. Numbers are integers (\<open>JNum\<close>) or literals with a
  fraction or an exponent (\<open>JDec\<close>); the text of decoding errors and the float64 rounding
  of untyped integers beyond \<open>2^53\<close> are not modelled.
\<close>

datatype json =
    JNull
  | JBool bool
  | JNum int
  | JDec string
  | JStr string
  | JArr "json list"
  | JObj "(string \<times> json) list"

type_synonym members = "(string \<times> json) list"

datatype blob =
    Blank              \<comment> \<open>no bytes\<close>
  | Garbage string     \<comment> \<open>bytes that are no JSON document\<close>
  | Doc json           \<comment> \<open>a document denoting this value\<close>

section \<open>Go maps with string keys\<close>

text \<open>A \<open>map[string]V\<close>: the entries, each key once.\<close>

type_synonym 'v gomap = "(string \<times> 'v) list"

fun mput :: "'k \<Rightarrow> 'v \<Rightarrow> ('k \<times> 'v) list \<Rightarrow> ('k \<times> 'v) list" where
  "mput k v [] = [(k, v)]"
| "mput k v ((a, b) # m) = (if a = k then (k, v) # m else (a, b) # mput k v m)"

definition mput_all :: "('k \<times> 'v) list \<Rightarrow> ('k \<times> 'v) list \<Rightarrow> ('k \<times> 'v) list" where
  "mput_all kvs m = fold (\<lambda>(k, v). mput k v) kvs m"

text \<open>Decoding an object into a map: members are stored in document order.\<close>

definition of_members :: "('k \<times> 'v) list \<Rightarrow> ('k \<times> 'v) list" where
  "of_members kvs = mput_all kvs []"

definition wf_map :: "('k \<times> 'v) list \<Rightarrow> bool" where
  "wf_map m \<longleftrightarrow> distinct (map fst m)"

lemma map_of_mput [simp]: "map_of (mput k v m) = (map_of m)(k \<mapsto> v)"
  by (induction k v m rule: mput.induct) (auto simp: fun_eq_iff)

lemma keys_mput [simp]: "fst ` set (mput k v m) = insert k (fst ` set m)"
  by (induction k v m rule: mput.induct) auto

lemma wf_map_Nil [simp]: "wf_map []"
  by (simp add: wf_map_def)

lemma wf_map_mput [simp]: "wf_map m \<Longrightarrow> wf_map (mput k v m)"
  unfolding wf_map_def
  by (induction k v m rule: mput.induct) (simp_all, metis)

lemma mput_nonempty [simp]: "mput k v m \<noteq> []"
  by (induction k v m rule: mput.induct) auto

lemma wf_map_mput_all [simp]: "wf_map m \<Longrightarrow> wf_map (mput_all kvs m)"
  unfolding mput_all_def by (induction kvs arbitrary: m) auto

lemma map_of_mput_all: "map_of (mput_all kvs m) = map_of m ++ map_of (rev kvs)"
  unfolding mput_all_def
  by (induction kvs arbitrary: m) (auto simp: map_add_def fun_eq_iff split: option.splits)

lemma keys_mput_all: "fst ` set (mput_all kvs m) = fst ` set kvs \<union> fst ` set m"
  unfolding mput_all_def by (induction kvs arbitrary: m) (simp_all add: split_beta)

lemma wf_of_members [simp]: "wf_map (of_members kvs)"
  by (simp add: of_members_def)

lemma map_of_of_members: "map_of (of_members kvs) = map_of (rev kvs)"
  by (simp add: of_members_def map_of_mput_all)

lemma keys_of_members: "fst ` set (of_members kvs) = fst ` set kvs"
  by (simp add: of_members_def keys_mput_all)

lemma mput_append:
  "mput k v (xs @ ys) = (if k \<in> fst ` set xs then mput k v xs @ ys else xs @ mput k v ys)"
  by (induction k v xs rule: mput.induct) auto

lemma mput_all_wf:
  "distinct (map fst kvs) \<Longrightarrow> fst ` set kvs \<inter> fst ` set m = {} \<Longrightarrow> mput_all kvs m = m @ kvs"
proof (induction kvs arbitrary: m)
  case (Cons kv kvs)
  obtain k v where kv: "kv = (k, v)" by (cases kv)
  have "mput k v m = m @ [(k, v)]"
    using Cons.prems mput_append [of k v m "[]"] by (auto simp: kv)
  then show ?case
    using Cons.IH [of "m @ [(k, v)]"] Cons.prems
    by (auto simp: kv mput_all_def)
qed (simp add: mput_all_def)

text \<open>Decoding what was encoded from a map gives the map back.\<close>

lemma of_members_wf: "wf_map m \<Longrightarrow> of_members m = m"
  by (simp add: wf_map_def of_members_def mput_all_wf)

section \<open>Decoding\<close>

definition dec_err :: goerr where
  "dec_err = errorf ''json: cannot unmarshal value''"

text \<open>The member a struct field reads: names fold, the last occurrence wins.\<close>

fun jfield :: "string \<Rightarrow> members \<Rightarrow> json option" where
  "jfield k [] = None"
| "jfield k ((d, v) # ms) =
     (case jfield k ms of Some w \<Rightarrow> Some w | None \<Rightarrow> if EqualFold d k then Some v else None)"

definition field :: "string \<Rightarrow> (json \<Rightarrow> 'a res) \<Rightarrow> 'a \<Rightarrow> members \<Rightarrow> 'a res" where
  "field k d z ms =
     (case jfield k ms of None \<Rightarrow> Inr z | Some v \<Rightarrow> if v = JNull then Inr z else d v)"

text \<open>A struct target: null leaves the zero value, an object is read field by field.\<close>

fun dec_struct :: "(members \<Rightarrow> 'a res) \<Rightarrow> json \<Rightarrow> 'a res" where
  "dec_struct f (JObj ms) = f ms"
| "dec_struct f JNull = f []"
| "dec_struct f _ = Inl dec_err"

fun dec_int64 :: "json \<Rightarrow> int res" where
  "dec_int64 (JNum n) = (if - (2 ^ 63) \<le> n \<and> n < 2 ^ 63 then Inr n else Inl dec_err)"
| "dec_int64 _ = Inl dec_err"

definition fits64 :: "int \<Rightarrow> bool" where
  "fits64 n \<longleftrightarrow> - (2 ^ 63) \<le> n \<and> n < 2 ^ 63"

lemma dec_int64_fits: "dec_int64 j = Inr n \<Longrightarrow> fits64 n"
  by (cases j) (auto simp: fits64_def split: if_splits)

lemma dec_int64_num: "fits64 n \<Longrightarrow> dec_int64 (JNum n) = Inr n"
  by (simp add: fits64_def)

fun dec_string :: "json \<Rightarrow> string res" where
  "dec_string (JStr s) = Inr s"
| "dec_string _ = Inl dec_err"

fun dec_bool :: "json \<Rightarrow> bool res" where
  "dec_bool (JBool b) = Inr b"
| "dec_bool _ = Inl dec_err"

definition dec_ptr :: "(json \<Rightarrow> 'a res) \<Rightarrow> json \<Rightarrow> 'a option res" where
  "dec_ptr d j = bindE (d j) (\<lambda>x. Inr (Some x))"

text \<open>Elements of an array; a null element leaves the zero value \<open>z\<close> of the element type.\<close>

fun dec_elems :: "(json \<Rightarrow> 'a res) \<Rightarrow> 'a \<Rightarrow> json list \<Rightarrow> 'a list res" where
  "dec_elems d z [] = Inr []"
| "dec_elems d z (j # js) =
     bindE (if j = JNull then Inr z else d j) (\<lambda>x. bindE (dec_elems d z js) (\<lambda>xs. Inr (x # xs)))"

fun dec_array :: "(json \<Rightarrow> 'a res) \<Rightarrow> 'a \<Rightarrow> json \<Rightarrow> 'a list res" where
  "dec_array d z (JArr js) = dec_elems d z js"
| "dec_array d z _ = Inl dec_err"

text \<open>\<open>map[string]any\<close>: any object, its values untouched.\<close>

fun dec_anymap :: "json \<Rightarrow> json gomap res" where
  "dec_anymap (JObj ms) = Inr (of_members ms)"
| "dec_anymap _ = Inl dec_err"

text \<open>\<open>map[string]T\<close> for a struct \<open>T\<close>.\<close>

fun dec_vals :: "(json \<Rightarrow> 'a res) \<Rightarrow> 'a \<Rightarrow> members \<Rightarrow> (string \<times> 'a) list res" where
  "dec_vals d z [] = Inr []"
| "dec_vals d z ((k, j) # ms) =
     bindE (if j = JNull then Inr z else d j) (\<lambda>x. bindE (dec_vals d z ms) (\<lambda>xs. Inr ((k, x) # xs)))"

fun dec_map :: "(json \<Rightarrow> 'a res) \<Rightarrow> 'a \<Rightarrow> json \<Rightarrow> 'a gomap res" where
  "dec_map d z (JObj ms) = bindE (dec_vals d z ms) (\<lambda>kvs. Inr (of_members kvs))"
| "dec_map d z _ = Inl dec_err"

fun unmarshal :: "(json \<Rightarrow> 'a res) \<Rightarrow> blob \<Rightarrow> 'a res" where
  "unmarshal d Blank = Inl (errorf ''unexpected end of JSON input'')"
| "unmarshal d (Garbage s) = Inl (errorf ''invalid character'')"
| "unmarshal d (Doc j) = d j"

text \<open>
  \<open>rawMap\<close> and its copies: a payload read as a map, the empty map for anything else
  (an empty payload, bytes that are not JSON, a document that is no object).
\<close>

fun raw_map :: "blob \<Rightarrow> json gomap" where
  "raw_map (Doc (JObj ms)) = of_members ms"
| "raw_map _ = []"

lemma wf_raw_map [simp]: "wf_map (raw_map b)"
  by (cases b rule: raw_map.cases) auto

text \<open>Type assertions \<open>v.(string)\<close> and \<open>v.(map[string]any)\<close> on a map entry, comma-ok form.\<close>

definition as_string :: "json option \<Rightarrow> string option" where
  "as_string v = (case v of Some (JStr s) \<Rightarrow> Some s | _ \<Rightarrow> None)"

definition as_map :: "json option \<Rightarrow> json gomap option" where
  "as_map v = (case v of Some (JObj ms) \<Rightarrow> Some (of_members ms) | _ \<Rightarrow> None)"

lemma as_string_simps [simp]:
  "as_string None = None" "as_string (Some (JStr s)) = Some s"
  "as_string (Some (JObj ms)) = None" "as_string (Some JNull) = None"
  by (simp_all add: as_string_def)

lemma as_map_simps [simp]:
  "as_map None = None" "as_map (Some (JObj ms)) = Some (of_members ms)"
  "as_map (Some (JStr s)) = None" "as_map (Some JNull) = None"
  by (simp_all add: as_map_def)

section \<open>Encoding\<close>

definition marshal :: "json \<Rightarrow> blob" where
  "marshal j = Doc j"

text \<open>A member with the \<open>omitempty\<close> option, and an optional pointer without it.\<close>

fun omitempty :: "string \<Rightarrow> json option \<Rightarrow> members" where
  "omitempty k None = []"
| "omitempty k (Some v) = [(k, v)]"

definition omit_string :: "string \<Rightarrow> string \<Rightarrow> members" where
  "omit_string k s = (if s = [] then [] else [(k, JStr s)])"

lemma jfield_append:
  "jfield k (xs @ ys) = (case jfield k ys of Some w \<Rightarrow> Some w | None \<Rightarrow> jfield k xs)"
  by (induction xs) (auto split: option.splits)

lemma jfield_omitempty:
  "jfield k (omitempty d v) = (if EqualFold d k then v else None)"
  by (cases v) auto

lemma jfield_omit_string:
  "jfield k (omit_string d s) = (if EqualFold d k \<and> s \<noteq> [] then Some (JStr s) else None)"
  by (simp add: omit_string_def)

text \<open>Folded comparison of the program's literal member names, evaluated.\<close>

lemmas fold_eval = EqualFold_def to_lower_char_def

lemmas field_eval = field_def jfield_append jfield_omitempty jfield_omit_string fold_eval Let_def

lemma dec_elems_map:
  assumes "\<And>x. x \<in> set xs \<Longrightarrow> e x \<noteq> JNull \<and> d (e x) = Inr x"
  shows "dec_elems d z (map e xs) = Inr xs"
  using assms by (induction xs) auto

lemma dec_vals_map:
  assumes "\<And>k x. (k, x) \<in> set m \<Longrightarrow> e x \<noteq> JNull \<and> d (e x) = Inr x"
  shows "dec_vals d z (map (\<lambda>(k, x). (k, e x)) m) = Inr m"
  using assms
proof (induction m)
  case (Cons kx m)
  have "dec_vals d z (map (\<lambda>(k, x). (k, e x)) m) = Inr m"
    by (rule Cons.IH) (use Cons.prems in \<open>meson list.set_intros(2)\<close>)
  with Cons.prems [of "fst kx" "snd kx"] show ?case
    by (cases kx) simp
qed simp

lemma dec_map_enc:
  assumes "wf_map m" and "\<And>k x. (k, x) \<in> set m \<Longrightarrow> e x \<noteq> JNull \<and> d (e x) = Inr x"
  shows "dec_map d z (JObj (map (\<lambda>(k, x). (k, e x)) m)) = Inr m"
  using assms by (simp add: dec_vals_map of_members_wf)

section \<open>Structs with optional members\<close>

text \<open>
  The object of a struct: a member per field, left out where the value is \<open>None\<close> (the
  \<open>omitempty\<close> option). No two field names of a struct fold to the same name.
\<close>

definition object_members :: "(string \<times> json option) list \<Rightarrow> members" where
  "object_members kvs = concat (map (\<lambda>(k, v). omitempty k v) kvs)"

definition object :: "(string \<times> json option) list \<Rightarrow> json" where
  "object kvs = JObj (object_members kvs)"

definition nonempty_string :: "string \<Rightarrow> json option" where
  "nonempty_string s = (if s = [] then None else Some (JStr s))"

fun fold_distinct :: "string list \<Rightarrow> bool" where
  "fold_distinct [] = True"
| "fold_distinct (k # ks) = ((\<forall>l \<in> set ks. \<not> EqualFold k l \<and> \<not> EqualFold l k) \<and> fold_distinct ks)"

lemma object_not_null [simp]: "object kvs \<noteq> JNull"
  by (simp add: object_def)

lemma jfield_absent: "(\<And>l. l \<in> fst ` set kvs \<Longrightarrow> \<not> EqualFold l k) \<Longrightarrow> jfield k (object_members kvs) = None"
proof (induction kvs)
  case (Cons kv kvs)
  obtain l v where kv: "kv = (l, v)" by (cases kv)
  have "jfield k (object_members kvs) = None" by (rule Cons.IH) (use Cons.prems in auto)
  moreover have "\<not> EqualFold l k" using Cons.prems kv by simp
  ultimately show ?case by (simp add: kv object_members_def jfield_append jfield_omitempty)
qed (simp add: object_members_def)

lemma jfield_object:
  "fold_distinct (map fst kvs) \<Longrightarrow> map_of kvs k = Some v \<Longrightarrow> jfield k (object_members kvs) = v"
proof (induction kvs)
  case (Cons kv kvs)
  obtain l u where kv: "kv = (l, u)" by (cases kv)
  show ?case
  proof (cases "l = k")
    case True
    then have "jfield k (object_members kvs) = None"
      using Cons.prems(1) kv by (intro jfield_absent) auto
    with True Cons.prems(2) kv show ?thesis
      by (simp add: object_members_def jfield_append jfield_omitempty)
  next
    case False
    with Cons kv have rest: "jfield k (object_members kvs) = v" and m: "map_of kvs k = Some v" by auto
    have "\<not> EqualFold l k" using Cons.prems(1) kv m by (auto dest!: map_of_SomeD)
    with rest show ?thesis
      by (cases v) (simp_all add: kv object_members_def jfield_append jfield_omitempty)
  qed
qed simp

declare fold_distinct.simps [simp del]

lemma field_object:
  assumes "fold_distinct (map fst kvs)" and "map_of kvs k = Some v"
  shows "field k d z (object_members kvs) =
    (case v of None \<Rightarrow> Inr z | Some w \<Rightarrow> if w = JNull then Inr z else d w)"
  using jfield_object [OF assms] by (simp add: field_def)

lemma field_ptr:
  "(\<And>x. v = Some x \<Longrightarrow> e x \<noteq> JNull \<and> d (e x) = Inr x) \<Longrightarrow>
   (case map_option e v of None \<Rightarrow> Inr None | Some w \<Rightarrow> if w = JNull then Inr None else dec_ptr d w) = Inr v"
  by (cases v) (simp_all add: dec_ptr_def)

end
