(* ===== verification/LlmJson.thy ===== *)
theory LlmJson
  imports Json
begin

text \<open>
  Finding the JSON value a model wrapped in prose (\<open>internal/llm/json.go\<close>). Offsets are
  integers, -1 standing for "none" as in the source. \<open>json.Unmarshal\<close> into the caller's
  variable is an argument of \<open>ExtractJSON\<close>: a partial function on texts.

  The specification is the language of nested texts: characters outside strings that open
  or close nothing, string literals with escapes, and bracketed nested texts. Every JSON
  text is one (\<open>json_text\<close> renders documents with Go's escapes, \<open>nested_json_text\<close>).
\<close>

section \<open>The scanner\<close>

definition is_open :: "char \<Rightarrow> bool" where
  "is_open c \<longleftrightarrow> c = CHR ''{'' \<or> c = CHR ''[''"

definition is_close :: "char \<Rightarrow> bool" where
  "is_close c \<longleftrightarrow> c = CHR ''}'' \<or> c = CHR '']''"

abbreviation quote :: char where "quote \<equiv> CHR 0x22"
abbreviation backslash :: char where "backslash \<equiv> CHR 0x5C"

fun start_from :: "int \<Rightarrow> string \<Rightarrow> int" where
  "start_from index [] = -1"
| "start_from index (c # cs) = (if is_open c then index else start_from (index + 1) cs)"

definition firstJSONStart :: "string \<Rightarrow> int" where
  "firstJSONStart text = start_from 0 text"

text \<open>The loop of \<open>jsonEnd\<close> at \<open>index\<close>, on the characters from there on.\<close>

fun scan :: "int \<Rightarrow> int \<Rightarrow> bool \<Rightarrow> bool \<Rightarrow> string \<Rightarrow> int" where
  "scan index depth inString escaped [] = -1"
| "scan index depth inString escaped (c # cs) =
     (if escaped then scan (index + 1) depth inString False cs
      else if c = backslash \<and> inString then scan (index + 1) depth inString True cs
      else if c = quote then scan (index + 1) depth (\<not> inString) False cs
      else if inString then scan (index + 1) depth inString False cs
      else if is_open c then scan (index + 1) (depth + 1) inString False cs
      else if is_close c then
        (if depth - 1 = 0 then index + 1 else scan (index + 1) (depth - 1) inString False cs)
      else scan (index + 1) depth inString False cs)"

definition jsonEnd :: "string \<Rightarrow> int \<Rightarrow> int" where
  "jsonEnd text start = scan start 0 False False (drop (nat start) text)"

text \<open>\<open>text[start:end]\<close>\<close>

definition slice :: "string \<Rightarrow> int \<Rightarrow> int \<Rightarrow> string" where
  "slice text start stop = take (nat (stop - start)) (drop (nat start) text)"

definition ExtractJSON :: "(string \<Rightarrow> 'a option) \<Rightarrow> string \<Rightarrow> 'a option" where
  "ExtractJSON parse text =
     (let start = firstJSONStart text; stop = jsonEnd text start in
      if start \<ge> 0 \<and> stop > start then
        (case parse (slice text start stop) of Some v \<Rightarrow> Some v | None \<Rightarrow> parse text)
      else parse text)"

section \<open>Nested texts\<close>

text \<open>The inside of a string literal: plain characters and escape pairs.\<close>

inductive str_body :: "string \<Rightarrow> bool" where
  empty: "str_body []"
| plain: "c \<noteq> quote \<Longrightarrow> c \<noteq> backslash \<Longrightarrow> str_body s \<Longrightarrow> str_body (c # s)"
| escape: "str_body s \<Longrightarrow> str_body (backslash # c # s)"

inductive nested :: "string \<Rightarrow> bool" where
  empty: "nested []"
| plain: "c \<noteq> quote \<Longrightarrow> \<not> is_open c \<Longrightarrow> \<not> is_close c \<Longrightarrow> nested s \<Longrightarrow> nested (c # s)"
| string: "str_body b \<Longrightarrow> nested s \<Longrightarrow> nested (quote # b @ quote # s)"
| bracket: "is_open a \<Longrightarrow> is_close z \<Longrightarrow> nested b \<Longrightarrow> nested s \<Longrightarrow> nested (a # b @ z # s)"

lemma str_body_append: "str_body u \<Longrightarrow> str_body v \<Longrightarrow> str_body (u @ v)"
  by (induction rule: str_body.induct) (auto intro: str_body.intros)

lemma nested_append: "nested u \<Longrightarrow> nested v \<Longrightarrow> nested (u @ v)"
  by (induction rule: nested.induct) (auto intro: nested.intros)

lemma scan_string:
  "str_body b \<Longrightarrow> scan i d True False (b @ quote # s) = scan (i + int (length b) + 1) d False False s"
proof (induction arbitrary: i rule: str_body.induct)
  case (plain c b)
  then show ?case by (simp add: plain.IH [of "i + 1"] algebra_simps)
next
  case (escape b c)
  then show ?case by (simp add: escape.IH [of "i + 1 + 1"] algebra_simps)
qed simp

lemma bracket_not_quote: "is_open c \<Longrightarrow> c \<noteq> quote" "is_close c \<Longrightarrow> c \<noteq> quote" "is_close c \<Longrightarrow> \<not> is_open c"
  by (auto simp: is_open_def is_close_def)

text \<open>Inside a value (depth at least one) the scanner passes over a nested text.\<close>

lemma scan_nested:
  "nested b \<Longrightarrow> 0 < d \<Longrightarrow> scan i d False False (b @ s) = scan (i + int (length b)) d False False s"
proof (induction arbitrary: i d s rule: nested.induct)
  case (plain c b)
  then show ?case by (simp add: plain.IH [of d "i + 1"] algebra_simps)
next
  case (string u b)
  have "scan i d False False ((quote # u @ quote # b) @ s) = scan (i + 1) d True False (u @ quote # b @ s)"
    by simp
  also have "\<dots> = scan (i + 1 + int (length u) + 1) d False False (b @ s)"
    using string.hyps(1) by (rule scan_string)
  also have "\<dots> = scan (i + 1 + int (length u) + 1 + int (length b)) d False False s"
    using string.prems by (rule string.IH)
  finally show ?case by (simp add: algebra_simps)
next
  case (bracket a z u b)
  have "scan i d False False ((a # u @ z # b) @ s) = scan (i + 1) (d + 1) False False (u @ z # b @ s)"
    using bracket.hyps by (simp add: bracket_not_quote)
  also have "\<dots> = scan (i + 1 + int (length u)) (d + 1) False False (z # b @ s)"
    using bracket.prems by (intro bracket.IH) simp
  also have "\<dots> = scan (i + 1 + int (length u) + 1) d False False (b @ s)"
    using bracket.hyps bracket.prems by (simp add: bracket_not_quote)
  also have "\<dots> = scan (i + 1 + int (length u) + 1 + int (length b)) d False False s"
    using bracket.prems by (rule bracket.IH)
  finally show ?case by (simp add: algebra_simps)
qed simp

lemma start_from_append:
  "\<forall>c \<in> set u. \<not> is_open c \<Longrightarrow> start_from i (u @ s) = start_from (i + int (length u)) s"
  by (induction u arbitrary: i) (auto simp: algebra_simps)

lemma start_from_none: "\<forall>c \<in> set u. \<not> is_open c \<Longrightarrow> start_from i u = -1"
  by (induction u arbitrary: i) auto

lemma firstJSONStart_prose:
  "\<forall>c \<in> set u. \<not> is_open c \<Longrightarrow> is_open a \<Longrightarrow> firstJSONStart (u @ a # s) = int (length u)"
  by (simp add: firstJSONStart_def start_from_append)

lemma jsonEnd_value:
  assumes "is_open a" and "is_close z" and "nested b"
  shows "jsonEnd (u @ a # b @ z # s) (int (length u)) = int (length u + length b + 2)"
proof -
  have "jsonEnd (u @ a # b @ z # s) (int (length u)) = scan (int (length u) + 1) 1 False False (b @ z # s)"
    using assms(1) by (auto simp: jsonEnd_def is_open_def)
  also have "\<dots> = scan (int (length u) + 1 + int (length b)) 1 False False (z # s)"
    using assms(3) by (simp add: scan_nested)
  finally show ?thesis
    using assms(2) by (simp add: bracket_not_quote)
qed

lemma ExtractJSON_value:
  assumes "\<forall>c \<in> set u. \<not> is_open c" and "is_open a" and "is_close z" and "nested b"
    and "parse (a # b @ [z]) = Some v"
  shows "ExtractJSON parse (u @ (a # b @ [z]) @ s) = Some v"
proof -
  have "nat (2 + int (length b)) = Suc (Suc (length b))"
    by simp
  then have "slice (u @ a # b @ z # s) (int (length u)) (int (length u + length b + 2)) = a # b @ [z]"
    by (simp add: slice_def)
  then show ?thesis
    using firstJSONStart_prose [OF assms(1,2), of "b @ z # s"] jsonEnd_value [OF assms(2-4), of u s] assms(5)
    by (simp add: ExtractJSON_def Let_def)
qed

text \<open>The end offset is always inside the text, so the slice of the source never panics.\<close>

lemma scan_bounds: "scan i d q e s = -1 \<or> (i < scan i d q e s \<and> scan i d q e s \<le> i + int (length s))"
proof (induction i d q e s rule: scan.induct)
  case (2 i d q e c cs)
  have shift: "scan (i + 1) d' q' e' cs = -1 \<or> (i + 1 < scan (i + 1) d' q' e' cs \<and>
      scan (i + 1) d' q' e' cs \<le> i + 1 + int (length cs)) \<Longrightarrow>
      scan (i + 1) d' q' e' cs = -1 \<or> (i < scan (i + 1) d' q' e' cs \<and>
      scan (i + 1) d' q' e' cs \<le> i + int (length (c # cs)))" for d' q' e'
    by auto
  show ?case
    using "2.IH" by (simp add: shift) (smt (verit) of_nat_0_le_iff)
qed simp

lemma start_from_bounds:
  "start_from i s = -1 \<or> (i \<le> start_from i s \<and> start_from i s < i + int (length s))"
proof (induction s arbitrary: i)
  case (Cons c s)
  from Cons.IH [of "i + 1"] show ?case by auto
qed simp

section \<open>Rendering documents\<close>

text \<open>
  The text Go's encoder writes: quotes, backslashes and control characters are escaped, and
  so are the three characters that matter in HTML; other bytes are copied.
\<close>

definition hex_digit :: "nat \<Rightarrow> char" where
  "hex_digit d = (if d < 10 then char_of (48 + d) else char_of (87 + d))"

definition hex4 :: "nat \<Rightarrow> string" where
  "hex4 n = [CHR ''0'', CHR ''0'', hex_digit (n div 16 mod 16), hex_digit (n mod 16)]"

definition escape_char :: "char \<Rightarrow> string" where
  "escape_char c =
     (if c = quote \<or> c = backslash then [backslash, c]
      else if c = CHR 0x0A then [backslash, CHR ''n'']
      else if c = CHR 0x0D then [backslash, CHR ''r'']
      else if c = CHR 0x09 then [backslash, CHR ''t'']
      else if c = CHR 0x08 then [backslash, CHR ''b'']
      else if c = CHR 0x0C then [backslash, CHR ''f'']
      else if (of_char c :: nat) < 32 \<or> c = CHR ''<'' \<or> c = CHR ''>'' \<or> c = CHR ''&''
        then backslash # CHR ''u'' # hex4 (of_char c)
      else [c])"

lemma escape_char_eval [code]:
  "escape_char c =
     (if c = quote then [backslash, c] else if c = backslash then [backslash, c]
      else if digit7 c then [c] else if digit6 c then [c]
      else if digit5 c then (if c = CHR ''<'' \<or> c = CHR ''>'' \<or> c = CHR ''&'' then backslash # CHR ''u'' # hex4 (of_char c) else [c])
      else if c = CHR 0x0A then [backslash, CHR ''n'']
      else if c = CHR 0x0D then [backslash, CHR ''r'']
      else if c = CHR 0x09 then [backslash, CHR ''t'']
      else if c = CHR 0x08 then [backslash, CHR ''b'']
      else if c = CHR 0x0C then [backslash, CHR ''f'']
      else backslash # CHR ''u'' # hex4 (of_char c))"
proof (cases c)
  case (Char b0 b1 b2 b3 b4 b5 b6 b7)
  then show ?thesis
    by (cases b0; cases b1; cases b2; cases b3; cases b4; cases b5; cases b6; cases b7) (simp_all add: escape_char_def)
qed

definition string_text :: "string \<Rightarrow> string" where
  "string_text s = quote # concat (map escape_char s) @ [quote]"

fun json_text :: "json \<Rightarrow> string" where
  "json_text JNull = ''null''"
| "json_text (JBool b) = (if b then ''true'' else ''false'')"
| "json_text (JNum n) = FormatInt n"
| "json_text (JDec d) = d"
| "json_text (JStr s) = string_text s"
| "json_text (JArr js) = CHR ''['' # Join (map json_text js) '','' @ '']''"
| "json_text (JObj ms) = CHR ''{'' # Join (map (\<lambda>(k, v). string_text k @ CHR '':'' # json_text v) ms) '','' @ ''}''"

text \<open>A literal of a number with a fraction or an exponent holds no bracket and no quote.\<close>

definition literal_ok :: "string \<Rightarrow> bool" where
  "literal_ok d \<longleftrightarrow> (\<forall>c \<in> set d. c \<noteq> quote \<and> \<not> is_open c \<and> \<not> is_close c)"

fun literals_ok :: "json \<Rightarrow> bool" where
  "literals_ok (JDec d) = literal_ok d"
| "literals_ok (JArr js) = (\<forall>j \<in> set js. literals_ok j)"
| "literals_ok (JObj ms) = (\<forall>m \<in> set ms. literals_ok (snd m))"
| "literals_ok _ = True"

lemma nested_literal: "literal_ok d \<Longrightarrow> nested d"
  by (induction d) (auto simp: literal_ok_def intro: nested.intros)

lemma digit_ok: "d < 10 \<Longrightarrow> digit_char d \<noteq> quote \<and> \<not> is_open (digit_char d) \<and> \<not> is_close (digit_char d)"
  using digit_val_digit_char [of d] by (auto simp: digit_val_def is_open_def is_close_def)

lemma literal_FormatInt: "literal_ok (FormatInt n)"
  using show_nat_digits digit_ok
  by (fastforce simp: literal_ok_def FormatInt_def is_open_def is_close_def)

lemma hex_digit_plain: "d < 16 \<Longrightarrow> hex_digit d \<noteq> quote \<and> hex_digit d \<noteq> backslash"
proof -
  assume "d < 16"
  then have "(of_char (hex_digit d) :: nat) = (if d < 10 then 48 + d else 87 + d)"
    by (simp add: hex_digit_def of_char_of)
  with \<open>d < 16\<close> show ?thesis by (auto split: if_splits)
qed

lemma hex4_plain: "c \<in> set (hex4 n) \<Longrightarrow> c \<noteq> quote \<and> c \<noteq> backslash"
  using hex_digit_plain [of "n div 16 mod 16"] hex_digit_plain [of "n mod 16"]
  by (simp add: hex4_def) auto

lemma str_body_plain: "\<forall>c \<in> set s. c \<noteq> quote \<and> c \<noteq> backslash \<Longrightarrow> str_body s"
  by (induction s) (auto intro: str_body.intros)

lemma str_body_escape: "str_body (escape_char c)"
proof -
  have "str_body [backslash, x]" for x
    by (intro str_body.escape str_body.empty)
  moreover have "str_body (backslash # CHR ''u'' # hex4 n)" for n
    by (intro str_body.escape str_body_plain) (use hex4_plain in blast)
  moreover have "str_body [c]" if "c \<noteq> quote" "c \<noteq> backslash"
    using that by (intro str_body.plain str_body.empty)
  ultimately show ?thesis by (simp add: escape_char_def)
qed

lemma nested_string_text: "nested s \<Longrightarrow> nested (string_text t @ s)"
proof -
  have "str_body (concat (map escape_char t))"
    by (induction t) (auto intro: str_body_append str_body_escape str_body.empty)
  then show "nested s \<Longrightarrow> ?thesis" by (simp add: string_text_def nested.string)
qed

lemma nested_comma: "nested s \<Longrightarrow> nested (CHR '','' # s)"
  by (rule nested.plain) (auto simp: is_open_def is_close_def)

lemma nested_Join: "(\<And>p. p \<in> set ps \<Longrightarrow> nested p) \<Longrightarrow> nested (Join ps '','')"
proof (induction ps)
  case (Cons p ps)
  then show ?case
    by (cases ps) (simp_all add: nested_append nested_comma)
qed (simp add: nested.empty)

lemma nested_elements:
  "(\<And>j. j \<in> set js \<Longrightarrow> nested (json_text j)) \<Longrightarrow> nested (Join (map json_text js) '','')"
  by (rule nested_Join) auto

lemma nested_members:
  assumes "\<And>k v. (k, v) \<in> set ms \<Longrightarrow> nested (json_text v)"
  shows "nested (Join (map (\<lambda>(k, v). string_text k @ CHR '':'' # json_text v) ms) '','')"
proof (rule nested_Join)
  fix p assume "p \<in> set (map (\<lambda>(k, v). string_text k @ CHR '':'' # json_text v) ms)"
  then obtain k v where "(k, v) \<in> set ms" and p: "p = string_text k @ CHR '':'' # json_text v" by auto
  then have "nested (json_text v)" using assms by blast
  then show "nested p"
    unfolding p by (intro nested_string_text nested.plain) (auto simp: is_open_def is_close_def)
qed

lemma nested_value:
  "nested b \<Longrightarrow> nested (CHR ''['' # b @ '']'')" "nested b \<Longrightarrow> nested (CHR ''{'' # b @ ''}'')"
  using nested.bracket [of "CHR ''[''" "CHR '']''" b "[]"] nested.bracket [of "CHR ''{''" "CHR ''}''" b "[]"]
  by (simp_all add: is_open_def is_close_def nested.empty)

lemma nested_json_text: "literals_ok j \<Longrightarrow> nested (json_text j)"
proof (induction j)
  case (JArr js)
  then have "nested (Join (map json_text js) '','')" by (intro nested_elements) auto
  then show ?case by (simp add: nested_value)
next
  case (JObj ms)
  have "nested (json_text v)" if "(k, v) \<in> set ms" for k v
    using JObj.IH [of "(k, v)" v] JObj.prems that by auto
  then have "nested (Join (map (\<lambda>(k, v). string_text k @ CHR '':'' # json_text v) ms) '','')"
    by (rule nested_members)
  then show ?case by (simp add: nested_value)
next
  case (JStr s)
  show ?case using nested_string_text [OF nested.empty, of s] by simp
next
  case (JNum n)
  show ?case by (simp add: nested_literal literal_FormatInt)
next
  case (JDec d)
  then show ?case by (simp add: nested_literal)
qed (auto simp: is_open_def is_close_def intro!: nested.plain nested.empty)

text \<open>Objects and arrays render to an opener, a nested text and a closer.\<close>

definition is_container :: "json \<Rightarrow> bool" where
  "is_container j \<longleftrightarrow> (case j of JArr _ \<Rightarrow> True | JObj _ \<Rightarrow> True | _ \<Rightarrow> False)"

lemma container_text:
  assumes "is_container j" and "literals_ok j"
  shows "\<exists>a b z. json_text j = a # b @ [z] \<and> is_open a \<and> is_close z \<and> nested b"
proof (cases j)
  case (JArr js)
  with assms(2) have "nested (Join (map json_text js) '','')"
    by (intro nested_elements nested_json_text) auto
  then show ?thesis
    by (intro exI [of _ "CHR ''[''"] exI [of _ "Join (map json_text js) '',''"] exI [of _ "CHR '']''"])
      (simp add: JArr is_open_def is_close_def)
next
  case (JObj ms)
  with assms(2) have "nested (Join (map (\<lambda>(k, v). string_text k @ CHR '':'' # json_text v) ms) '','')"
    by (intro nested_members nested_json_text) auto
  then show ?thesis
    by (intro exI [of _ "CHR ''{''"] exI [of _ "Join (map (\<lambda>(k, v). string_text k @ CHR '':'' # json_text v) ms) '',''"]
        exI [of _ "CHR ''}''"]) (simp add: JObj is_open_def is_close_def)
qed (use assms in \<open>simp_all add: is_container_def\<close>)

lemma ExtractJSON_document:
  assumes "\<forall>c \<in> set u. \<not> is_open c" and "is_container j" and "literals_ok j"
    and "parse (json_text j) = Some v"
  shows "ExtractJSON parse (u @ json_text j @ s) = Some v"
proof -
  obtain a b z where "json_text j = a # b @ [z]" "is_open a" "is_close z" "nested b"
    using container_text [OF assms(2,3)] by blast
  with ExtractJSON_value [OF assms(1), of a z b parse v s] assms(4) show ?thesis by simp
qed

section \<open>Properties\<close>

text \<open>C9: \<open>ExtractJSON\<close> finds the document in the prose. When the prose before it holds no opening
  brace or bracket, and the document is an object or an array, it is decoded exactly,
  whatever its strings hold (braces, quotes, backslashes) and whatever text follows.\<close>

theorem ExtractJSON_finds_document:
  assumes "\<forall>c \<in> set prose. c \<noteq> CHR ''{'' \<and> c \<noteq> CHR ''[''"
    and "is_container j" and "literals_ok j" and "parse (json_text j) = Some v"
  shows "ExtractJSON parse (prose @ json_text j @ rest) = Some v"
  using assms by (intro ExtractJSON_document) (auto simp: is_open_def)

theorem ExtractJSON_finds_document_witness:
  "ExtractJSON (\<lambda>t. if t = json_text (JObj [(''a'', JStr ''}'')]) then Some () else None)
     (''Here: '' @ json_text (JObj [(''a'', JStr ''}'')]) @ '' done'') = Some ()"
  by (rule ExtractJSON_finds_document) (simp_all add: is_container_def)

text \<open>The scanner never leaves the text. Whatever the text and the start, \<open>jsonEnd\<close> answers
  -1 or an offset after the start and within the text, so the slice \<open>ExtractJSON\<close> takes is in
  range, and so is the start \<open>firstJSONStart\<close> found.\<close>

theorem scanner_offsets_in_range:
  assumes "0 \<le> start" and "start \<le> int (length text)"
  shows "(jsonEnd text start = -1 \<or> start < jsonEnd text start \<and> jsonEnd text start \<le> int (length text)) \<and>
    (firstJSONStart text = -1 \<or> 0 \<le> firstJSONStart text \<and> firstJSONStart text < int (length text))"
  using scan_bounds [of start 0 False False "drop (nat start) text"] start_from_bounds [of 0 "text"] assms
  by (auto simp: jsonEnd_def firstJSONStart_def)

theorem scanner_offsets_in_range_witness:
  "jsonEnd ''{}'' 0 = -1 \<or> 0 < jsonEnd ''{}'' 0 \<and> jsonEnd ''{}'' 0 \<le> 2"
  using scanner_offsets_in_range [of 0 "''{}''"] by simp

end
