(* ===== verification/Tables.thy ===== *)
theory Tables
  imports Prelude
begin

text \<open>
  SQL tables as lists of rows, the statements the program issues against them, and the
  interface the services rely on. A table is a bag of rows: \<open>WHERE id = ?\<close> is a search,
  \<open>ORDER BY\<close> a sort, \<open>UPDATE\<close> a map and \<open>DELETE\<close> a filter; \<open>table_map\<close> is the map from
  keys to rows that a table with a unique key stands for. The locales at the end state what
  the services assume of a store: \<open>row_store\<close> (read a row, rewrite a row), \<open>creating_store\<close>
  (insert under a fresh id) and \<open>upsert_store\<close> (insert or replace under a given key).
\<close>

section \<open>Rows and statements\<close>

definition row_at :: "('r \<Rightarrow> 'k) \<Rightarrow> 'r list \<Rightarrow> 'k \<Rightarrow> 'r option" where
  "row_at key rows k = find (\<lambda>r. key r = k) rows"

definition uniq :: "('r \<Rightarrow> 'k) \<Rightarrow> 'r list \<Rightarrow> bool" where
  "uniq key rows \<longleftrightarrow> distinct (map key rows)"

text \<open>\<open>UPDATE t SET ... WHERE key = k\<close>\<close>

definition update_at :: "('r \<Rightarrow> 'k) \<Rightarrow> 'k \<Rightarrow> ('r \<Rightarrow> 'r) \<Rightarrow> 'r list \<Rightarrow> 'r list" where
  "update_at key k f rows = map (\<lambda>r. if key r = k then f r else r) rows"

text \<open>\<open>INSERT ... ON CONFLICT(key) DO NOTHING\<close>\<close>

definition insert_ignore :: "('r \<Rightarrow> 'k) \<Rightarrow> 'r \<Rightarrow> 'r list \<Rightarrow> 'r list" where
  "insert_ignore key r rows = (if row_at key rows (key r) = None then rows @ [r] else rows)"

text \<open>\<open>INSERT ... ON CONFLICT(key) DO UPDATE SET ...\<close>: \<open>m old new\<close> is the rewritten row.\<close>

definition upsert :: "('r \<Rightarrow> 'k) \<Rightarrow> ('r \<Rightarrow> 'r \<Rightarrow> 'r) \<Rightarrow> 'r \<Rightarrow> 'r list \<Rightarrow> 'r list" where
  "upsert key m r rows =
     (if row_at key rows (key r) = None then rows @ [r] else update_at key (key r) (\<lambda>old. m old r) rows)"

text \<open>\<open>SELECT ... WHERE P ORDER BY k ASC|DESC\<close>, and \<open>LIMIT 1\<close> of such a query.\<close>

definition select_asc :: "('r \<Rightarrow> int) \<Rightarrow> ('r \<Rightarrow> bool) \<Rightarrow> 'r list \<Rightarrow> 'r list" where
  "select_asc k P rows = sort_key k (filter P rows)"

definition select_desc :: "('r \<Rightarrow> int) \<Rightarrow> ('r \<Rightarrow> bool) \<Rightarrow> 'r list \<Rightarrow> 'r list" where
  "select_desc k P rows = rev (sort_key k (filter P rows))"

fun first_row :: "'r list \<Rightarrow> 'r option" where
  "first_row [] = None"
| "first_row (r # _) = Some r"

named_theorems table_simps

lemma row_at_key: "row_at key rows k = Some r \<Longrightarrow> key r = k \<and> r \<in> set rows"
  by (auto simp: row_at_def dest: find_Some_in)

lemma row_at_None: "row_at key rows k = None \<longleftrightarrow> k \<notin> key ` set rows"
  by (induction rows) (auto simp: row_at_def)

lemma row_at_Nil [simp]: "row_at key [] k = None"
  by (simp add: row_at_def)

lemma row_at_snoc [table_simps]:
  "row_at key (rows @ [r]) k =
     (case row_at key rows k of None \<Rightarrow> if key r = k then Some r else None | Some x \<Rightarrow> Some x)"
  by (simp add: row_at_def find_append split: option.splits)

lemma row_at_update_at [table_simps]:
  assumes "\<And>r. key (f r) = key r"
  shows "row_at key (update_at key k f rows) j =
     (if j = k then map_option f (row_at key rows j) else row_at key rows j)"
  using assms by (induction rows) (auto simp: row_at_def update_at_def)

lemma row_at_insert_ignore [table_simps]:
  "row_at key (insert_ignore key r rows) k =
     (if row_at key rows k = None \<and> k = key r then Some r else row_at key rows k)"
  by (auto simp: insert_ignore_def row_at_snoc split: option.splits)

lemma row_at_upsert [table_simps]:
  assumes "\<And>old new. key (m old new) = key old"
  shows "row_at key (upsert key m r rows) k =
     (if k = key r then Some (case row_at key rows k of None \<Rightarrow> r | Some old \<Rightarrow> m old r)
      else row_at key rows k)"
  using assms by (auto simp: upsert_def row_at_snoc row_at_update_at split: option.splits)

lemma row_at_filter:
  "uniq key rows \<Longrightarrow> row_at key (filter P rows) k =
     (case row_at key rows k of Some r \<Rightarrow> if P r then Some r else None | None \<Rightarrow> None)"
proof (induction rows)
  case (Cons x rows)
  then have "key x \<notin> key ` set rows" and "uniq key rows" by (auto simp: uniq_def)
  with Cons.IH show ?case
    using row_at_None [of key "filter P rows" "key x"]
    by (auto simp: row_at_def image_iff split: option.splits)
qed simp

lemma row_at_uniq: "uniq key rows \<Longrightarrow> r \<in> set rows \<Longrightarrow> row_at key rows (key r) = Some r"
proof (induction rows)
  case (Cons x rows)
  then show ?case by (auto simp: uniq_def row_at_def image_iff)
qed simp

lemma uniq_Nil [simp]: "uniq key []"
  by (simp add: uniq_def)

lemma uniq_snoc: "uniq key (rows @ [r]) \<longleftrightarrow> uniq key rows \<and> row_at key rows (key r) = None"
  by (auto simp: uniq_def row_at_None)

lemma uniq_update_at: "(\<And>r. key (f r) = key r) \<Longrightarrow> uniq key (update_at key k f rows) = uniq key rows"
proof -
  assume key: "\<And>r. key (f r) = key r"
  have "map key (update_at key k f rows) = map key rows"
    by (induction rows) (auto simp: update_at_def key)
  then show ?thesis by (simp add: uniq_def)
qed

lemma uniq_insert_ignore: "uniq key rows \<Longrightarrow> uniq key (insert_ignore key r rows)"
  by (simp add: insert_ignore_def uniq_snoc)

lemma uniq_upsert:
  "(\<And>old new. key (m old new) = key old) \<Longrightarrow> uniq key rows \<Longrightarrow> uniq key (upsert key m r rows)"
  by (simp add: upsert_def uniq_snoc uniq_update_at)

lemma uniq_filter: "uniq key rows \<Longrightarrow> uniq key (filter P rows)"
  by (simp add: uniq_def distinct_map_filter)

lemma keys_update_at: "(\<And>r. key (f r) = key r) \<Longrightarrow> key ` set (update_at key k f rows) = key ` set rows"
  by (induction rows) (simp_all add: update_at_def)

lemma set_select_asc [simp]: "set (select_asc k P rows) = {r \<in> set rows. P r}"
  by (auto simp: select_asc_def)

lemma set_select_desc [simp]: "set (select_desc k P rows) = {r \<in> set rows. P r}"
  by (auto simp: select_desc_def)

lemma first_row_in: "first_row xs = Some r \<Longrightarrow> r \<in> set xs"
  by (cases xs) auto

lemma first_row_None: "first_row xs = None \<longleftrightarrow> xs = []"
  by (cases xs) auto

lemma first_asc_least:
  assumes "first_row (select_asc k P rows) = Some r"
  shows "r \<in> set rows \<and> P r \<and> (\<forall>x \<in> set rows. P x \<longrightarrow> k r \<le> k x)"
proof -
  obtain xs where xs: "select_asc k P rows = r # xs"
    using assms by (cases "select_asc k P rows") auto
  have "sorted (map k (r # xs))"
    using xs by (metis select_asc_def sorted_sort_key)
  moreover have "set (r # xs) = {x \<in> set rows. P x}"
    using xs by (metis set_select_asc)
  ultimately show ?thesis by (auto simp: set_eq_iff)
qed

lemma first_desc_greatest:
  assumes "first_row (select_desc k P rows) = Some r"
  shows "r \<in> set rows \<and> P r \<and> (\<forall>x \<in> set rows. P x \<longrightarrow> k x \<le> k r)"
proof -
  obtain xs where xs: "select_desc k P rows = r # xs"
    using assms by (cases "select_desc k P rows") auto
  have "sort_key k (filter P rows) = rev xs @ [r]"
    using xs by (metis rev.simps(2) rev_rev_ident select_desc_def)
  then have "sorted (map k (rev xs @ [r]))" by (metis sorted_sort_key)
  then have "\<forall>x \<in> set xs. k x \<le> k r" by (auto simp: sorted_append)
  moreover have "set (r # xs) = {x \<in> set rows. P x}"
    using xs by (metis set_select_desc)
  ultimately show ?thesis by (auto simp: set_eq_iff)
qed

section \<open>What an operation does to a view of the state\<close>

text \<open>
  For a view \<open>V\<close> of the state (a table read as a map): \<open>readonly\<close> operations leave it
  alone, \<open>only_at k\<close> operations change it at \<open>k\<close> at most, and \<open>all_or_nothing\<close> operations
  leave it alone whenever they return an error.
\<close>

definition readonly :: "('s \<Rightarrow> 'v) \<Rightarrow> ('a, 's) op \<Rightarrow> bool" where
  "readonly V m \<longleftrightarrow> (\<forall>s. V (snd (m s)) = V s)"

definition only_at :: "('s \<Rightarrow> 'k \<Rightarrow> 'v) \<Rightarrow> 'k \<Rightarrow> ('a, 's) op \<Rightarrow> bool" where
  "only_at V k m \<longleftrightarrow> (\<forall>s j. j \<noteq> k \<longrightarrow> V (snd (m s)) j = V s j)"

definition all_or_nothing :: "('s \<Rightarrow> 'v) \<Rightarrow> ('a, 's) op \<Rightarrow> bool" where
  "all_or_nothing V m \<longleftrightarrow> (\<forall>s e t. m s = (Inl e, t) \<longrightarrow> V t = V s)"

named_theorems effect_intro

lemma readonlyD: "readonly V m \<Longrightarrow> m s = (r, t) \<Longrightarrow> V t = V s"
  by (metis readonly_def snd_conv)

lemma readonly_ret [effect_intro]: "readonly V (ret x)"
  and readonly_fail [effect_intro]: "readonly V (fail e)"
  and readonly_liftE [effect_intro]: "readonly V (liftE r)"
  by (simp_all add: readonly_def)

lemma readonly_wrapping [effect_intro]: "readonly V m \<Longrightarrow> readonly V (wrapping p m)"
  by (simp add: readonly_def)

lemma readonly_andThen [effect_intro]:
  "readonly V m \<Longrightarrow> (\<And>x. readonly V (f x)) \<Longrightarrow> readonly V (andThen m f)"
  by (simp add: readonly_def snd_andThen split: sum.splits)

lemma readonly_if [effect_intro]:
  "(b \<Longrightarrow> readonly V m) \<Longrightarrow> (\<not> b \<Longrightarrow> readonly V n) \<Longrightarrow> readonly V (if b then m else n)"
  by simp

lemma readonly_option [effect_intro]:
  "readonly V m \<Longrightarrow> (\<And>x. y = Some x \<Longrightarrow> readonly V (f x)) \<Longrightarrow>
   readonly V (case y of None \<Rightarrow> m | Some x \<Rightarrow> f x)"
  by (cases y) auto

lemma readonly_only_at: "readonly V m \<Longrightarrow> only_at V k m"
  by (simp add: readonly_def only_at_def)

lemma only_at_ret [effect_intro]: "only_at V k (ret x)"
  and only_at_fail [effect_intro]: "only_at V k (fail e)"
  and only_at_liftE [effect_intro]: "only_at V k (liftE r)"
  by (simp_all add: only_at_def)

lemma only_at_wrapping [effect_intro]: "only_at V k m \<Longrightarrow> only_at V k (wrapping p m)"
  by (simp add: only_at_def)

lemma only_at_andThen [effect_intro]:
  "only_at V k m \<Longrightarrow> (\<And>x. only_at V k (f x)) \<Longrightarrow> only_at V k (andThen m f)"
  by (simp add: only_at_def snd_andThen split: sum.splits)

lemma only_at_if [effect_intro]:
  "(b \<Longrightarrow> only_at V k m) \<Longrightarrow> (\<not> b \<Longrightarrow> only_at V k n) \<Longrightarrow> only_at V k (if b then m else n)"
  by simp

lemma only_at_option [effect_intro]:
  "only_at V k m \<Longrightarrow> (\<And>x. y = Some x \<Longrightarrow> only_at V k (f x)) \<Longrightarrow>
   only_at V k (case y of None \<Rightarrow> m | Some x \<Rightarrow> f x)"
  by (cases y) auto

lemma only_atD: "only_at V k m \<Longrightarrow> m s = (r, t) \<Longrightarrow> j \<noteq> k \<Longrightarrow> V t j = V s j"
  by (metis only_at_def snd_conv)

lemma all_or_nothingD: "all_or_nothing V m \<Longrightarrow> m s = (Inl e, t) \<Longrightarrow> V t = V s"
  by (simp add: all_or_nothing_def)

lemma readonly_all_or_nothing: "readonly V m \<Longrightarrow> all_or_nothing V m"
  by (metis all_or_nothing_def readonlyD)

lemma all_or_nothing_ret [effect_intro]: "all_or_nothing V (ret x)"
  and all_or_nothing_fail [effect_intro]: "all_or_nothing V (fail e)"
  by (simp_all add: all_or_nothing_def)

lemma all_or_nothing_wrapping [effect_intro]:
  "all_or_nothing V m \<Longrightarrow> all_or_nothing V (wrapping p m)"
  by (fastforce simp: all_or_nothing_def wrapping_def split: prod.splits sum.splits)

text \<open>Only the last step may write: reads first, then one statement.\<close>

lemma all_or_nothing_andThen [effect_intro]:
  "readonly V m \<Longrightarrow> (\<And>x. all_or_nothing V (f x)) \<Longrightarrow> all_or_nothing V (andThen m f)"
  by (fastforce simp: all_or_nothing_def andThen_def split: prod.splits sum.splits dest: readonlyD)

lemma all_or_nothing_andThen_ret [effect_intro]:
  "all_or_nothing V m \<Longrightarrow> all_or_nothing V (andThen m (\<lambda>x. ret (g x)))"
  by (fastforce simp: all_or_nothing_def andThen_def split: prod.splits sum.splits)

lemma all_or_nothing_if [effect_intro]:
  "(b \<Longrightarrow> all_or_nothing V m) \<Longrightarrow> (\<not> b \<Longrightarrow> all_or_nothing V n) \<Longrightarrow> all_or_nothing V (if b then m else n)"
  by simp

lemma all_or_nothing_option [effect_intro]:
  "all_or_nothing V m \<Longrightarrow> (\<And>x. y = Some x \<Longrightarrow> all_or_nothing V (f x)) \<Longrightarrow>
   all_or_nothing V (case y of None \<Rightarrow> m | Some x \<Rightarrow> f x)"
  by (cases y) auto

section \<open>The interfaces of a store\<close>

text \<open>
  \<open>lookup k\<close> answers the row under a key, \<open>modify u\<close> is an \<open>UPDATE\<close> of the row \<open>target u\<close>
  (of no row when that key is absent); \<open>rewrite ts u\<close> is what it does to the row, \<open>ts\<close>
  being the time stamp the statement writes.
\<close>

locale row_store =
  fixes lookup :: "'k \<Rightarrow> ('r option, 's) op"
    and modify :: "'u \<Rightarrow> (unit, 's) op"
    and target :: "'u \<Rightarrow> 'k"
    and rewrite :: "string \<Rightarrow> 'u \<Rightarrow> 'r \<Rightarrow> 'r"
    and view :: "'s \<Rightarrow> 'k \<Rightarrow> 'r option"
  assumes lookup_readonly: "readonly view (lookup k)"
    and lookup_value: "lookup k s = (Inr r, t) \<Longrightarrow> r = view s k"
    and modify_ok: "modify u s = (Inr x, t) \<Longrightarrow>
      \<exists>ts. view t = (view s)(target u := map_option (rewrite ts u) (view s (target u)))"
    and modify_err: "all_or_nothing view (modify u)"
begin

lemma lookup_ok: "lookup k s = (Inr r, t) \<Longrightarrow> r = view s k \<and> view t = view s"
  using lookup_value lookup_readonly readonlyD by metis

lemma modify_other: "modify u s = (r, t) \<Longrightarrow> j \<noteq> target u \<Longrightarrow> view t j = view s j"
proof (cases r)
  case (Inl e)
  then show "modify u s = (r, t) \<Longrightarrow> ?thesis"
    using modify_err by (metis all_or_nothingD)
next
  case (Inr x)
  assume "modify u s = (r, t)" and "j \<noteq> target u"
  with Inr modify_ok [of u s x t] show ?thesis by auto
qed

lemma modify_only_at: "only_at view (target u) (modify u)"
  unfolding only_at_def by (metis modify_other prod.collapse)

lemma write_then_read:
  assumes "modify u s = (Inr x, t)" and "lookup (target u) t = (Inr r, t')"
  shows "\<exists>ts. r = map_option (rewrite ts u) (view s (target u))"
  using modify_ok [OF assms(1)] lookup_ok [OF assms(2)] by auto

text \<open>Get a row, compute an update of that row, write it back: the shape of every service operation.\<close>

lemma read_modify_write:
  assumes run: "andThen (lookup k) (\<lambda>r. case r of None \<Rightarrow> fail e | Some x \<Rightarrow> modify (f x)) s = (Inr y, t)"
    and target: "\<And>x. view s k = Some x \<Longrightarrow> target (f x) = k"
  shows "\<exists>x ts. view s k = Some x \<and> view t = (view s)(k \<mapsto> rewrite ts (f x) x)"
proof -
  from run obtain r s' where read: "lookup k s = (Inr r, s')"
    and rest: "(case r of None \<Rightarrow> fail e | Some x \<Rightarrow> modify (f x)) s' = (Inr y, t)"
    by (auto simp: andThen_eq_Inr)
  from read have r: "r = view s k" and s': "view s' = view s" by (auto dest: lookup_ok)
  from rest r obtain x where x: "view s k = Some x" and "modify (f x) s' = (Inr y, t)"
    by (auto split: option.splits)
  with modify_ok obtain ts where "view t = (view s')(target (f x) :=
      map_option (rewrite ts (f x)) (view s' (target (f x))))" by blast
  with x s' target [OF x] show ?thesis by auto
qed

end

locale creating_store = row_store lookup modify target rewrite view
  for lookup :: "'k \<Rightarrow> ('r option, 's) op" and modify :: "'u \<Rightarrow> (unit, 's) op"
    and target rewrite and view :: "'s \<Rightarrow> 'k \<Rightarrow> 'r option" +
  fixes create :: "'c \<Rightarrow> ('k, 's) op"
    and fresh :: "string \<Rightarrow> 'k \<Rightarrow> 'c \<Rightarrow> 'r"
    and ok :: "'s \<Rightarrow> bool"
  assumes create_ok: "ok s \<Longrightarrow> create c s = (Inr k, t) \<Longrightarrow>
      view s k = None \<and> (\<exists>ts. view t = (view s)(k \<mapsto> fresh ts k c))"
    and create_err: "all_or_nothing view (create c)"
    and create_keeps: "keeps ok (create c)"
    and modify_keeps: "keeps ok (modify u)"
    and lookup_keeps: "keeps ok (lookup k)"
begin

lemma create_then_read:
  assumes "ok s" and "create c s = (Inr k, t)" and "lookup k t = (Inr r, t')"
  shows "\<exists>ts. r = Some (fresh ts k c)"
  using create_ok [OF assms(1,2)] lookup_ok [OF assms(3)] by auto

lemma create_other:
  assumes "ok s" and "create c s = (Inr k, t)" and "j \<noteq> k"
  shows "view t j = view s j"
  using create_ok [OF assms(1,2)] assms(3) by auto

text \<open>Two inserts never hand out the same key.\<close>

lemma create_distinct:
  assumes "ok s" and "create c s = (Inr k, t)" and "create d t = (Inr j, u)"
  shows "j \<noteq> k"
proof -
  have "ok t" using create_keeps assms(1,2) by (metis keeps_step)
  with assms show ?thesis by (metis create_ok fun_upd_same option.distinct(1))
qed

end

text \<open>
  \<open>save r\<close> inserts the row under \<open>key r\<close> or, on conflict, replaces what the statement lists.
\<close>

locale upsert_store =
  fixes lookup :: "'k \<Rightarrow> ('r option, 's) op"
    and save :: "'r \<Rightarrow> (unit, 's) op"
    and key :: "'r \<Rightarrow> 'k"
    and merge :: "string \<Rightarrow> 'r option \<Rightarrow> 'r \<Rightarrow> 'r"
    and view :: "'s \<Rightarrow> 'k \<Rightarrow> 'r option"
  assumes lookup_readonly: "readonly view (lookup k)"
    and lookup_value: "lookup k s = (Inr y, t) \<Longrightarrow> y = view s k"
    and save_ok: "save r s = (Inr x, t) \<Longrightarrow>
      \<exists>ts. view t = (view s)(key r \<mapsto> merge ts (view s (key r)) r)"
    and save_err: "all_or_nothing view (save r)"
begin

lemma lookup_ok: "lookup k s = (Inr r, t) \<Longrightarrow> r = view s k \<and> view t = view s"
  using lookup_value lookup_readonly readonlyD by metis

lemma save_only_at: "only_at view (key r) (save r)"
  unfolding only_at_def
proof (intro allI impI)
  fix s j assume j: "j \<noteq> key r"
  obtain x t where run: "save r s = (x, t)" by (cases "save r s")
  show "view (snd (save r s)) j = view s j"
  proof (cases x)
    case (Inl e)
    with run save_err show ?thesis by (metis all_or_nothingD snd_conv)
  next
    case (Inr y)
    with run save_ok [of r s y t] j show ?thesis by auto
  qed
qed

lemma save_then_read:
  assumes "save r s = (Inr x, t)" and "lookup (key r) t = (Inr y, t')"
  shows "\<exists>ts. y = Some (merge ts (view s (key r)) r)"
  using save_ok [OF assms(1)] lookup_ok [OF assms(2)] by auto

end

text \<open>
  A log that keeps the first entry under a key: \<open>append e\<close> tells whether the entry is new,
  \<open>recorded k\<close> answers what the entry under \<open>k\<close> holds.
\<close>

locale append_log =
  fixes recorded :: "'k \<Rightarrow> ('v option, 's) op"
    and append :: "'e \<Rightarrow> (bool, 's) op"
    and key :: "'e \<Rightarrow> 'k" and val :: "'e \<Rightarrow> 'v"
    and log :: "'s \<Rightarrow> 'k \<Rightarrow> 'v option"
  assumes recorded_readonly: "readonly log (recorded k)"
    and recorded_value: "recorded k s = (Inr v, t) \<Longrightarrow> v = log s k"
    and append_ok: "append e s = (Inr new, t) \<Longrightarrow> (new \<longleftrightarrow> log s (key e) = None) \<and>
      log t = (if log s (key e) = None then (log s)(key e \<mapsto> val e) else log s)"
    and append_err: "all_or_nothing log (append e)"
begin

lemma recorded_ok: "recorded k s = (Inr v, t) \<Longrightarrow> v = log s k \<and> log t = log s"
  using recorded_value recorded_readonly readonlyD by metis

text \<open>An entry once made is never rewritten, whatever is appended later.\<close>

lemma append_keeps: "append e s = (r, t) \<Longrightarrow> log s k = Some v \<Longrightarrow> log t k = Some v"
  using append_ok [of e s _ t] all_or_nothingD [OF append_err [of e]] by (cases r) auto

lemma append_then_recorded:
  assumes "append e s = (Inr new, t)" and "recorded (key e) t = (Inr v, t')"
  shows "v = Some (case log s (key e) of None \<Rightarrow> val e | Some old \<Rightarrow> old)"
  using append_ok [OF assms(1)] recorded_ok [OF assms(2)] by (auto split: option.splits)

lemma append_twice: "append e s = (Inr x, t) \<Longrightarrow> key d = key e \<Longrightarrow> append d t = (Inr new, u) \<Longrightarrow>
    \<not> new \<and> log u = log t"
  using append_ok [of e s x t] append_ok [of d t new u] by (auto split: if_splits)

end

end
