(* ===== verification/Db.thy ===== *)
theory Db
  imports Complex_Main Json Tables
begin

text \<open>
  The SQLite application database (\<open>internal/db/db.go\<close>): one list of rows per table, the
  \<open>AUTOINCREMENT\<close> counters, and one definition per method of \<open>Store\<close>, the SQL text of the
  method being its statement on the rows.

  What the driver and the clock do is a parameter carried in the state: statement number
  \<open>n\<close> of the process fails without effect when \<open>sql_fault n\<close> is an error (a lost
  connection, a cancelled context, a full disk), and \<open>wall n\<close> is what the wall clock
  shows; \<open>clock\<close> numbers the interactions. Nothing is assumed of either.

  Columns that are written and never read (\<open>updated_at\<close> of the autofix and explorer
  tables, \<open>created_at\<close> of the grouping and supergroup tables) are left out. An empty byte
  payload is stored as \<open>NULL\<close> by \<open>nullString\<close> and read back as empty, so a nullable payload
  column is a \<^typ>\<open>blob\<close>. \<open>LastInsertId\<close> and \<open>RowsAffected\<close> of the SQLite driver do not fail.
\<close>

section \<open>Records\<close>

definition RunStatusProcessing :: string where "RunStatusProcessing = ''processing''"
definition RunStatusCompleted :: string where "RunStatusCompleted = ''completed''"
definition RunStatusError :: string where "RunStatusError = ''error''"
definition RunStatusAwaiting :: string where "RunStatusAwaiting = ''awaiting_user_input''"

lemmas status_defs =
  RunStatusProcessing_def RunStatusCompleted_def RunStatusError_def RunStatusAwaiting_def

record AutofixRunRecord =
  af_ID :: int
  af_GroupID :: "int option"
  af_Provider :: "string option"
  af_PRID :: "int option"
  af_Status :: string
  af_StateJSON :: blob

record ExplorerRunRecord =
  ex_ID :: int
  ex_OrganizationID :: int
  ex_UserID :: "int option"
  ex_Title :: string
  ex_CategoryKey :: "string option"
  ex_CategoryValue :: "string option"
  ex_Provider :: "string option"
  ex_PRID :: "int option"
  ex_Status :: string
  ex_StateJSON :: blob
  ex_CreatedAt :: string
  ex_LastTriggeredAt :: string

record RunRecord =
  run_ID :: int
  run_Kind :: string
  run_OrganizationID :: "int option"
  run_Status :: string
  run_RequestJSON :: blob
  run_ResultJSON :: blob
  run_Error :: "string option"
  run_WorkflowVersion :: int64
  run_IdempotencyKey :: "string option"
  run_CreatedAt :: string
  run_UpdatedAt :: string

record RunCommandRow =
  cmd_RunID :: int
  cmd_RequestID :: string
  cmd_WorkflowVersion :: int64
  cmd_CommandJSON :: blob
  cmd_CreatedAt :: string

record ReplayBreadcrumbSummaryRecord =
  rb_ReplayID :: string
  rb_OrganizationID :: "int option"
  rb_ProjectID :: "int option"
  rb_Status :: string
  rb_CreatedAt :: string
  rb_CompletedAt :: "string option"
  rb_SummaryJSON :: blob

record ProjectPreferenceRecord =
  pp_OrganizationID :: int
  pp_ReposJSON :: blob
  pp_IntegrationID :: "int option"
  pp_UpdatedAt :: string

text \<open>
  The rows of the vector tables. A \<open>[]float32\<close> is the list of the rationals its elements
  denote; nothing here computes with them.
\<close>

type_synonym vector = "rat list"

record GroupingRecord =
  gr_ProjectID :: int
  gr_Hash :: string
  gr_ExceptionType :: "string option"
  gr_Vector :: vector

record SupergroupRecord =
  sg_OrganizationID :: int
  sg_GroupID :: int
  sg_ProjectID :: int
  sg_Artifact :: json

record CodeChunk =
  cc_OrganizationID :: int
  cc_Provider :: string
  cc_Owner :: string
  cc_Name :: string
  cc_Ref :: string
  cc_Path :: string
  cc_ChunkIndex :: nat
  cc_StartLine :: nat
  cc_EndLine :: nat
  cc_Text :: string
  cc_Vector :: vector

text \<open>
  The tables, in the order of the migrations; the last two belong to the vector store, which
  keeps them in the same database.
\<close>

record store =
  autofix_runs :: "AutofixRunRecord list"
  explorer_runs :: "ExplorerRunRecord list"
  runs_tbl :: "RunRecord list"
  run_commands :: "RunCommandRow list"
  replay_tbl :: "ReplayBreadcrumbSummaryRecord list"
  preferences_tbl :: "ProjectPreferenceRecord list"
  grouping_tbl :: "GroupingRecord list"
  supergroups_tbl :: "SupergroupRecord list"
  vec_grouping :: "GroupingRecord list"
  vec_chunks :: "CodeChunk list"
  seq_autofix :: int
  seq_explorer :: int
  seq_runs :: int
  sql_fault :: "nat \<Rightarrow> goerr option"
  wall :: "nat \<Rightarrow> string"
  clock :: nat

text \<open>An empty database after \<open>New\<close> has run the migrations, with the given environment.\<close>

definition New :: "(nat \<Rightarrow> goerr option) \<Rightarrow> (nat \<Rightarrow> string) \<Rightarrow> store" where
  "New fault w =
     \<lparr>autofix_runs = [], explorer_runs = [], runs_tbl = [], run_commands = [], replay_tbl = [],
      preferences_tbl = [], grouping_tbl = [], supergroups_tbl = [], vec_grouping = [], vec_chunks = [],
      seq_autofix = 0, seq_explorer = 0, seq_runs = 0,
      sql_fault = fault, wall = w, clock = 0\<rparr>"

section \<open>Statements\<close>

definition tick :: "store \<Rightarrow> store" where
  "tick s = s\<lparr>clock := Suc (clock s)\<rparr>"

text \<open>\<open>nowString\<close>\<close>

definition nowString :: "(string, store) op" where
  "nowString = (\<lambda>s. (Inr (wall s (clock s)), tick s))"

text \<open>\<open>ExecContext\<close> and \<open>QueryContext\<close>: one statement, which the driver may refuse.\<close>

definition exec :: "(store \<Rightarrow> 'a res \<times> store) \<Rightarrow> ('a, store) op" where
  "exec stmt = (\<lambda>s. case sql_fault s (clock s) of
       Some e \<Rightarrow> (Inl e, tick s)
     | None \<Rightarrow> (case stmt s of (Inl e, _) \<Rightarrow> (Inl e, tick s) | (Inr x, t) \<Rightarrow> (Inr x, tick t)))"

definition query :: "(store \<Rightarrow> 'a) \<Rightarrow> ('a, store) op" where
  "query f = exec (\<lambda>s. (Inr (f s), s))"

definition update :: "(store \<Rightarrow> store) \<Rightarrow> (unit, store) op" where
  "update f = exec (\<lambda>s. (Inr (), f s))"

text \<open>
  \<open>AUTOINCREMENT\<close>: one more than the largest id the table ever held; when that is the
  largest 64-bit integer SQLite refuses the insert (\<open>SQLITE_FULL\<close>).
\<close>

definition next_id :: "int \<Rightarrow> int res" where
  "next_id seq = (if seq < 2 ^ 63 - 1 then Inr (seq + 1) else Inl (errorf ''database or disk is full''))"

section \<open>Autofix runs\<close>

definition CreateAutofixRun :: "int option \<Rightarrow> blob \<Rightarrow> (int, store) op" where
  "CreateAutofixRun groupID state =
     wrapping ''insert autofix run'' (exec (\<lambda>s. case next_id (seq_autofix s) of
         Inl e \<Rightarrow> (Inl e, s)
       | Inr i \<Rightarrow> (Inr i, s\<lparr>autofix_runs := autofix_runs s @
            [\<lparr>af_ID = i, af_GroupID = groupID, af_Provider = None, af_PRID = None,
              af_Status = RunStatusProcessing, af_StateJSON = state\<rparr>],
            seq_autofix := i\<rparr>)))"

definition CreateAutofixRunWithID :: "int \<Rightarrow> int option \<Rightarrow> blob \<Rightarrow> (unit, store) op" where
  "CreateAutofixRunWithID runID groupID state =
     wrapping ''insert autofix run with id'' (update (\<lambda>s.
       if row_at af_ID (autofix_runs s) runID = None
       then s\<lparr>autofix_runs := autofix_runs s @
              [\<lparr>af_ID = runID, af_GroupID = groupID, af_Provider = None, af_PRID = None,
                af_Status = RunStatusProcessing, af_StateJSON = state\<rparr>],
              seq_autofix := max (seq_autofix s) runID\<rparr>
       else s))"

text \<open>\<open>COALESCE(?, column)\<close>\<close>

fun coalesce :: "'a option \<Rightarrow> 'a option \<Rightarrow> 'a option" where
  "coalesce None y = y"
| "coalesce (Some x) y = Some x"

definition UpdateAutofixRun ::
    "int \<Rightarrow> string option \<Rightarrow> int option \<Rightarrow> string \<Rightarrow> blob \<Rightarrow> (unit, store) op" where
  "UpdateAutofixRun runID provider prID status state =
     wrapping ''update autofix run'' (update (\<lambda>s. s\<lparr>autofix_runs :=
       update_at af_ID runID (\<lambda>r. r\<lparr>af_Provider := coalesce provider (af_Provider r),
          af_PRID := coalesce prID (af_PRID r), af_Status := status, af_StateJSON := state\<rparr>)
         (autofix_runs s)\<rparr>))"

definition GetAutofixRun :: "int \<Rightarrow> (AutofixRunRecord option, store) op" where
  "GetAutofixRun runID =
     wrapping ''get autofix run'' (query (\<lambda>s. row_at af_ID (autofix_runs s) runID))"

definition GetAutofixRunByPR :: "string \<Rightarrow> int \<Rightarrow> (AutofixRunRecord option, store) op" where
  "GetAutofixRunByPR provider prID =
     wrapping ''get autofix run by pr'' (query (\<lambda>s. first_row (select_desc af_ID
       (\<lambda>r. af_Provider r = Some provider \<and> af_PRID r = Some prID) (autofix_runs s))))"

definition ListAutofixRuns :: "(AutofixRunRecord list, store) op" where
  "ListAutofixRuns =
     wrapping ''list autofix runs'' (query (\<lambda>s. select_asc af_ID (\<lambda>_. True) (autofix_runs s)))"

section \<open>Explorer runs\<close>

text \<open>The defaults \<open>CreateExplorerRun\<close> fills in before it inserts.\<close>

definition explorer_defaults :: "string \<Rightarrow> ExplorerRunRecord \<Rightarrow> ExplorerRunRecord" where
  "explorer_defaults timestamp record0 =
     (let r1 = (if ex_CreatedAt record0 = [] then record0\<lparr>ex_CreatedAt := timestamp\<rparr> else record0);
          r2 = (if ex_LastTriggeredAt r1 = [] then r1\<lparr>ex_LastTriggeredAt := ex_CreatedAt r1\<rparr> else r1)
      in if ex_Status r2 = [] then r2\<lparr>ex_Status := RunStatusProcessing\<rparr> else r2)"

definition CreateExplorerRun :: "ExplorerRunRecord \<Rightarrow> (int, store) op" where
  "CreateExplorerRun record0 =
     andThen nowString (\<lambda>timestamp.
       wrapping ''insert explorer run'' (exec (\<lambda>s. case next_id (seq_explorer s) of
            Inl e \<Rightarrow> (Inl e, s)
          | Inr i \<Rightarrow> (Inr i, s\<lparr>explorer_runs := explorer_runs s @
                                [(explorer_defaults timestamp record0)\<lparr>ex_ID := i\<rparr>],
                              seq_explorer := i\<rparr>))))"

definition UpdateExplorerRun :: "ExplorerRunRecord \<Rightarrow> (unit, store) op" where
  "UpdateExplorerRun rec =
     wrapping ''update explorer run'' (update (\<lambda>s. s\<lparr>explorer_runs :=
       update_at ex_ID (ex_ID rec) (\<lambda>r. r\<lparr>ex_Title := ex_Title rec,
          ex_CategoryKey := ex_CategoryKey rec, ex_CategoryValue := ex_CategoryValue rec,
          ex_Provider := ex_Provider rec, ex_PRID := ex_PRID rec, ex_Status := ex_Status rec,
          ex_StateJSON := ex_StateJSON rec, ex_LastTriggeredAt := ex_LastTriggeredAt rec\<rparr>)
         (explorer_runs s)\<rparr>))"

definition GetExplorerRun :: "int \<Rightarrow> (ExplorerRunRecord option, store) op" where
  "GetExplorerRun runID =
     wrapping ''get explorer run'' (query (\<lambda>s. row_at ex_ID (explorer_runs s) runID))"

definition GetExplorerRunByPR :: "int \<Rightarrow> string \<Rightarrow> int \<Rightarrow> (ExplorerRunRecord option, store) op" where
  "GetExplorerRunByPR organizationID provider prID =
     wrapping ''get explorer run by pr'' (query (\<lambda>s. first_row (select_desc ex_ID
       (\<lambda>r. ex_OrganizationID r = organizationID \<and> ex_Provider r = Some provider \<and>
            ex_PRID r = Some prID) (explorer_runs s))))"

section \<open>Generic runs and their commands\<close>

text \<open>The defaults both inserting methods fill in; only \<open>CreateRun\<close> also dates the record.\<close>

definition run_defaults :: "RunRecord \<Rightarrow> RunRecord" where
  "run_defaults record0 =
     (let r1 = (if run_Status record0 = [] then record0\<lparr>run_Status := RunStatusProcessing\<rparr> else record0)
      in if run_WorkflowVersion r1 = 0 then r1\<lparr>run_WorkflowVersion := 1\<rparr> else r1)"

definition CreateRun :: "RunRecord \<Rightarrow> (int, store) op" where
  "CreateRun record0 =
     andThen nowString (\<lambda>timestamp.
       let dated = (if run_CreatedAt record0 = [] then record0\<lparr>run_CreatedAt := timestamp\<rparr> else record0)
       in wrapping ''insert run'' (exec (\<lambda>s. case next_id (seq_runs s) of
            Inl e \<Rightarrow> (Inl e, s)
          | Inr i \<Rightarrow> (Inr i, s\<lparr>runs_tbl := runs_tbl s @
                                [(run_defaults dated)\<lparr>run_ID := i, run_UpdatedAt := timestamp\<rparr>],
                              seq_runs := i\<rparr>))))"

definition EnsureRun :: "int \<Rightarrow> RunRecord \<Rightarrow> (unit, store) op" where
  "EnsureRun i record0 =
     andThen nowString (\<lambda>timestamp.
       wrapping ''ensure run'' (update (\<lambda>s.
            if row_at run_ID (runs_tbl s) i = None
            then s\<lparr>runs_tbl := runs_tbl s @
                     [(run_defaults record0)\<lparr>run_ID := i, run_UpdatedAt := timestamp\<rparr>],
                   seq_runs := max (seq_runs s) i\<rparr>
            else s)))"

definition FindRunByIdempotencyKey :: "string \<Rightarrow> string \<Rightarrow> (RunRecord option, store) op" where
  "FindRunByIdempotencyKey kind key =
     (if key = [] then ret None
      else wrapping ''find run by idempotency key'' (query (\<lambda>s. first_row (select_asc run_ID
             (\<lambda>r. run_Kind r = kind \<and> run_IdempotencyKey r = Some key) (runs_tbl s)))))"

definition GetRun :: "int \<Rightarrow> (RunRecord option, store) op" where
  "GetRun runID = wrapping ''get run'' (query (\<lambda>s. row_at run_ID (runs_tbl s) runID))"

definition UpdateRun :: "RunRecord \<Rightarrow> (unit, store) op" where
  "UpdateRun rec =
     andThen nowString (\<lambda>timestamp.
       wrapping ''update run'' (update (\<lambda>s. s\<lparr>runs_tbl :=
         update_at run_ID (run_ID rec) (\<lambda>r. r\<lparr>run_Status := run_Status rec,
            run_ResultJSON := run_ResultJSON rec, run_Error := run_Error rec,
            run_WorkflowVersion := run_WorkflowVersion rec, run_UpdatedAt := timestamp\<rparr>)
           (runs_tbl s)\<rparr>)))"

abbreviation cmd_key :: "RunCommandRow \<Rightarrow> int \<times> string" where
  "cmd_key c \<equiv> (cmd_RunID c, cmd_RequestID c)"

definition AppendRunCommand :: "int \<Rightarrow> string \<Rightarrow> int64 \<Rightarrow> blob \<Rightarrow> (bool, store) op" where
  "AppendRunCommand runID requestID workflowVersion command =
     andThen nowString (\<lambda>timestamp.
       wrapping ''append run command'' (exec (\<lambda>s.
         (Inr (row_at cmd_key (run_commands s) (runID, requestID) = None),
          s\<lparr>run_commands := insert_ignore cmd_key
             \<lparr>cmd_RunID = runID, cmd_RequestID = requestID, cmd_WorkflowVersion = workflowVersion,
              cmd_CommandJSON = command, cmd_CreatedAt = timestamp\<rparr> (run_commands s)\<rparr>))))"

definition GetRunCommandVersion :: "int \<Rightarrow> string \<Rightarrow> (int64 option, store) op" where
  "GetRunCommandVersion runID requestID =
     wrapping ''get run command'' (query (\<lambda>s.
       map_option cmd_WorkflowVersion (row_at cmd_key (run_commands s) (runID, requestID))))"

section \<open>Replay summaries and project preferences\<close>

definition UpsertReplayBreadcrumbSummary :: "ReplayBreadcrumbSummaryRecord \<Rightarrow> (unit, store) op" where
  "UpsertReplayBreadcrumbSummary rec =
     wrapping ''upsert replay breadcrumb summary'' (update (\<lambda>s. s\<lparr>replay_tbl :=
       upsert rb_ReplayID (\<lambda>old new. old\<lparr>rb_OrganizationID := rb_OrganizationID new,
           rb_ProjectID := rb_ProjectID new, rb_Status := rb_Status new,
           rb_CompletedAt := rb_CompletedAt new, rb_SummaryJSON := rb_SummaryJSON new\<rparr>)
         rec (replay_tbl s)\<rparr>))"

definition GetReplayBreadcrumbSummary ::
    "string \<Rightarrow> (ReplayBreadcrumbSummaryRecord option, store) op" where
  "GetReplayBreadcrumbSummary replayID =
     wrapping ''get replay breadcrumb summary'' (query (\<lambda>s. row_at rb_ReplayID (replay_tbl s) replayID))"

fun DeleteReplayBreadcrumbSummaries :: "string list \<Rightarrow> (unit, store) op" where
  "DeleteReplayBreadcrumbSummaries [] = ret ()"
| "DeleteReplayBreadcrumbSummaries (replayID # replayIDs) =
     andThen (wrapping ''delete replay breadcrumb summary'' (update (\<lambda>s. s\<lparr>replay_tbl :=
         filter (\<lambda>r. rb_ReplayID r \<noteq> replayID) (replay_tbl s)\<rparr>)))
       (\<lambda>_. DeleteReplayBreadcrumbSummaries replayIDs)"

definition GetProjectPreference :: "int \<Rightarrow> (ProjectPreferenceRecord option, store) op" where
  "GetProjectPreference organizationID =
     wrapping ''get project preference'' (query (\<lambda>s.
       row_at pp_OrganizationID (preferences_tbl s) organizationID))"

definition SaveProjectPreference :: "ProjectPreferenceRecord \<Rightarrow> (unit, store) op" where
  "SaveProjectPreference rec =
     andThen nowString (\<lambda>timestamp.
       wrapping ''save project preference'' (update (\<lambda>s. s\<lparr>preferences_tbl :=
         upsert pp_OrganizationID (\<lambda>old new. old\<lparr>pp_ReposJSON := pp_ReposJSON new,
             pp_IntegrationID := pp_IntegrationID new, pp_UpdatedAt := pp_UpdatedAt new\<rparr>)
           (rec\<lparr>pp_UpdatedAt := timestamp\<rparr>) (preferences_tbl s)\<rparr>)))"

section \<open>Transactions, grouping vectors and supergroups\<close>

text \<open>\<open>BeginTx\<close>, \<open>PrepareContext\<close> and \<open>Commit\<close>: they may fail and touch no row.\<close>

definition tx_step :: "string \<Rightarrow> (unit, store) op" where
  "tx_step p = wrapping p (update (\<lambda>s. s))"

fun each :: "('x \<Rightarrow> (unit, 's) op) \<Rightarrow> 'x list \<Rightarrow> (unit, 's) op" where
  "each f [] = ret ()"
| "each f (x # xs) = andThen (f x) (\<lambda>_. each f xs)"

text \<open>\<open>defer tx.Rollback()\<close>: an early return leaves the tables as they were.\<close>

definition atomically :: "(unit, store) op \<Rightarrow> (unit, store) op" where
  "atomically m = (\<lambda>s. case m s of (Inl e, t) \<Rightarrow> (Inl e, s\<lparr>clock := clock t\<rparr>) | (Inr x, t) \<Rightarrow> (Inr x, t))"

abbreviation gr_key :: "GroupingRecord \<Rightarrow> int \<times> string" where
  "gr_key r \<equiv> (gr_ProjectID r, gr_Hash r)"

definition merge_grouping :: "GroupingRecord \<Rightarrow> GroupingRecord \<Rightarrow> GroupingRecord" where
  "merge_grouping old new = old\<lparr>gr_ExceptionType := gr_ExceptionType new, gr_Vector := gr_Vector new\<rparr>"

definition UpsertGroupingRecords :: "GroupingRecord list \<Rightarrow> (unit, store) op" where
  "UpsertGroupingRecords records = atomically
     (andThen (tx_step ''begin grouping tx'') (\<lambda>_.
      andThen (tx_step ''prepare grouping stmt'') (\<lambda>_.
      andThen (each (\<lambda>r. wrapping ''exec grouping upsert'' (update (\<lambda>s. s\<lparr>grouping_tbl :=
          upsert gr_key merge_grouping r (grouping_tbl s)\<rparr>))) records) (\<lambda>_.
        tx_step ''commit grouping tx''))))"

definition ListGroupingRecords :: "int \<Rightarrow> (GroupingRecord list, store) op" where
  "ListGroupingRecords projectID =
     wrapping ''query grouping records'' (query (\<lambda>s. filter (\<lambda>r. gr_ProjectID r = projectID) (grouping_tbl s)))"

definition DeleteGroupingRecordsForProject :: "int \<Rightarrow> (bool, store) op" where
  "DeleteGroupingRecordsForProject projectID =
     andThen (wrapping ''delete grouping records for project'' (update (\<lambda>s. s\<lparr>grouping_tbl :=
       filter (\<lambda>r. gr_ProjectID r \<noteq> projectID) (grouping_tbl s)\<rparr>))) (\<lambda>_. ret True)"

definition DeleteGroupingRecordsByHash :: "int \<Rightarrow> string list \<Rightarrow> (bool, store) op" where
  "DeleteGroupingRecordsByHash projectID hashes =
     andThen (each (\<lambda>h. wrapping ''delete grouping record by hash'' (update (\<lambda>s. s\<lparr>grouping_tbl :=
       filter (\<lambda>r. \<not> (gr_ProjectID r = projectID \<and> gr_Hash r = h)) (grouping_tbl s)\<rparr>))) hashes)
       (\<lambda>_. ret True)"

definition InsertSupergroup :: "SupergroupRecord \<Rightarrow> (unit, store) op" where
  "InsertSupergroup rec =
     wrapping ''insert supergroup'' (update (\<lambda>s. s\<lparr>supergroups_tbl := supergroups_tbl s @ [rec]\<rparr>))"

text \<open>
  The slice \<open>out[offset:]\<close> of the source panics when \<open>offset\<close> is negative; the panic is a
  failure here. Rows are read newest first, whatever projects the caller names.
\<close>

definition slice_panic :: goerr where
  "slice_panic = errorf ''panic: slice bounds out of range''"

definition page :: "int \<Rightarrow> int \<Rightarrow> 'a list \<Rightarrow> 'a list res" where
  "page offset limit out =
     (if offset > int (length out) then Inr []
      else if offset < 0 then Inl slice_panic
      else let rest = drop (nat offset) out
           in Inr (if limit > 0 \<and> int (length rest) > limit then take (nat limit) rest else rest))"

definition ListSupergroups :: "int \<Rightarrow> int list \<Rightarrow> int \<Rightarrow> int \<Rightarrow> (json list, store) op" where
  "ListSupergroups organizationID projectIDs offset limit =
     andThen (wrapping ''list supergroups'' (query (\<lambda>s.
         map sg_Artifact (rev (filter (\<lambda>r. sg_OrganizationID r = organizationID) (supergroups_tbl s))))))
       (\<lambda>out. liftE (page offset limit out))"

end
