(* ===== verification/DbLaws.thy ===== *)
theory DbLaws
  imports Db
begin

text \<open>
  What the services may rely on: the invariant \<open>store_ok\<close> of the database (keys are unique,
  ids never exceed their counter) which every method keeps, and the interpretations of the
  store interfaces by the methods of \<open>Store\<close>, one per table: \<open>runs_db\<close>, \<open>explorer_db\<close>,
  \<open>autofix_db\<close>, \<open>replay_db\<close> and \<open>preferences_db\<close>.
\<close>

section \<open>Statements and the driver\<close>

lemma tick_simps [simp]:
  "autofix_runs (tick s) = autofix_runs s" "explorer_runs (tick s) = explorer_runs s"
  "runs_tbl (tick s) = runs_tbl s" "run_commands (tick s) = run_commands s"
  "replay_tbl (tick s) = replay_tbl s" "preferences_tbl (tick s) = preferences_tbl s"
  "grouping_tbl (tick s) = grouping_tbl s" "supergroups_tbl (tick s) = supergroups_tbl s"
  "vec_grouping (tick s) = vec_grouping s" "vec_chunks (tick s) = vec_chunks s"
  "seq_autofix (tick s) = seq_autofix s" "seq_explorer (tick s) = seq_explorer s"
  "seq_runs (tick s) = seq_runs s" "sql_fault (tick s) = sql_fault s" "wall (tick s) = wall s"
  by (simp_all add: tick_def)

lemma exec_Inr:
  "exec stmt s = (Inr x, t) \<longleftrightarrow>
     sql_fault s (clock s) = None \<and> (\<exists>u. stmt s = (Inr x, u) \<and> t = tick u)"
  by (auto simp: exec_def split: option.splits prod.splits sum.splits)

lemma exec_Inl: "exec stmt s = (Inl e, t) \<Longrightarrow> t = tick s"
  by (auto simp: exec_def split: option.splits prod.splits sum.splits)

lemma query_Inr: "query f s = (Inr x, t) \<longleftrightarrow> sql_fault s (clock s) = None \<and> x = f s \<and> t = tick s"
  by (auto simp: query_def exec_Inr)

lemma update_Inr: "update f s = (Inr x, t) \<longleftrightarrow> sql_fault s (clock s) = None \<and> t = tick (f s)"
  by (auto simp: update_def exec_Inr)

lemma nowString_Inr: "nowString s = (r, t) \<longleftrightarrow> r = Inr (wall s (clock s)) \<and> t = tick s"
  by (auto simp: nowString_def)

lemmas stmt_Inr = wrapping_eq_Inr andThen_eq_Inr query_Inr update_Inr nowString_Inr exec_Inr

lemma readonly_query: "(\<And>s. V (tick s) = V s) \<Longrightarrow> readonly V (query f)"
  by (simp add: readonly_def query_def exec_def split: option.splits)

lemma readonly_nowString: "(\<And>s. V (tick s) = V s) \<Longrightarrow> readonly V nowString"
  by (simp add: readonly_def nowString_def)

lemma readonly_update: "(\<And>s. V (tick s) = V s) \<Longrightarrow> (\<And>s. V (f s) = V s) \<Longrightarrow> readonly V (update f)"
  by (simp add: readonly_def update_def exec_def split: option.splits)

lemma readonly_exec:
  "(\<And>s. V (tick s) = V s) \<Longrightarrow> (\<And>s. V (snd (stmt s)) = V s) \<Longrightarrow> readonly V (exec stmt)"
  by (simp add: readonly_def exec_def split: option.splits sum.splits prod.splits) (metis snd_conv)

lemma all_or_nothing_exec: "(\<And>s. V (tick s) = V s) \<Longrightarrow> all_or_nothing V (exec stmt)"
  by (auto simp: all_or_nothing_def dest: exec_Inl)

lemma all_or_nothing_update: "(\<And>s. V (tick s) = V s) \<Longrightarrow> all_or_nothing V (update f)"
  by (simp add: update_def all_or_nothing_exec)

lemma keeps_query: "(\<And>s. P s \<Longrightarrow> P (tick s)) \<Longrightarrow> keeps P (query f)"
  by (simp add: keeps_def query_def exec_def split: option.splits)

lemma keeps_nowString: "(\<And>s. P s \<Longrightarrow> P (tick s)) \<Longrightarrow> keeps P nowString"
  by (simp add: keeps_def nowString_def)

lemma keeps_update:
  "(\<And>s. P s \<Longrightarrow> P (tick s)) \<Longrightarrow> (\<And>s. P s \<Longrightarrow> P (f s)) \<Longrightarrow> keeps P (update f)"
  by (simp add: keeps_def update_def exec_def split: option.splits)

lemma keeps_exec:
  "(\<And>s. P s \<Longrightarrow> P (tick s)) \<Longrightarrow> (\<And>s x t. P s \<Longrightarrow> stmt s = (Inr x, t) \<Longrightarrow> P t) \<Longrightarrow> keeps P (exec stmt)"
  by (simp add: keeps_def exec_def split: option.splits sum.splits prod.splits)

text \<open>A driver that refuses no statement. No method touches the environment.\<close>

definition healthy :: "store \<Rightarrow> bool" where
  "healthy s \<longleftrightarrow> (\<forall>n. sql_fault s n = None)"

lemma healthy_New [simp]: "healthy (New (\<lambda>_. None) w)"
  by (simp add: healthy_def New_def)

lemma healthy_tick [simp]: "healthy (tick s) = healthy s"
  by (simp add: healthy_def)

lemma exec_healthy:
  "healthy s \<Longrightarrow> exec stmt s = (case stmt s of (Inl e, _) \<Rightarrow> (Inl e, tick s) | (Inr x, t) \<Rightarrow> (Inr x, tick t))"
  by (simp add: exec_def healthy_def)

lemma query_healthy: "healthy s \<Longrightarrow> query f s = (Inr (f s), tick s)"
  by (simp add: query_def exec_healthy)

lemma update_healthy: "healthy s \<Longrightarrow> update f s = (Inr (), tick (f s))"
  by (simp add: update_def exec_healthy)

section \<open>The invariant\<close>

definition ids_ok :: "('r \<Rightarrow> int) \<Rightarrow> 'r list \<Rightarrow> int \<Rightarrow> bool" where
  "ids_ok key rows seq \<longleftrightarrow> uniq key rows \<and> (\<forall>r \<in> set rows. key r \<le> seq)"

definition store_ok :: "store \<Rightarrow> bool" where
  "store_ok s \<longleftrightarrow> ids_ok af_ID (autofix_runs s) (seq_autofix s) \<and>
     ids_ok ex_ID (explorer_runs s) (seq_explorer s) \<and> ids_ok run_ID (runs_tbl s) (seq_runs s) \<and>
     uniq cmd_key (run_commands s) \<and> uniq rb_ReplayID (replay_tbl s) \<and>
     uniq pp_OrganizationID (preferences_tbl s)"

lemma store_ok_New: "store_ok (New f w)"
  by (simp add: store_ok_def ids_ok_def New_def)

lemma store_ok_tick [simp]: "store_ok (tick s) = store_ok s"
  by (simp add: store_ok_def)

lemma next_id_Inr: "next_id seq = Inr i \<longleftrightarrow> seq < 2 ^ 63 - 1 \<and> i = seq + 1"
  by (auto simp: next_id_def)

lemma ids_ok_fresh: "ids_ok key rows seq \<Longrightarrow> row_at key rows (seq + 1) = None"
  by (force simp: ids_ok_def row_at_None)

lemma ids_ok_snoc:
  "ids_ok key rows seq \<Longrightarrow> key r = seq + 1 \<Longrightarrow> ids_ok key (rows @ [r]) (seq + 1)"
  using ids_ok_fresh [of key rows seq] by (fastforce simp: ids_ok_def uniq_snoc)

lemma ids_ok_explicit:
  "ids_ok key rows seq \<Longrightarrow> row_at key rows i = None \<Longrightarrow> key r = i \<Longrightarrow>
   ids_ok key (rows @ [r]) (max seq i)"
  by (fastforce simp: ids_ok_def uniq_snoc)

lemma ids_ok_update_at:
  "(\<And>r. key (f r) = key r) \<Longrightarrow> ids_ok key (update_at key k f rows) seq = ids_ok key rows seq"
proof -
  assume key: "\<And>r. key (f r) = key r"
  then have "(\<forall>x \<in> key ` set (update_at key k f rows). x \<le> seq) = (\<forall>x \<in> key ` set rows. x \<le> seq)"
    by (simp only: keys_update_at)
  with key show ?thesis by (simp add: ids_ok_def uniq_update_at)
qed

named_theorems store_keeps

lemmas store_defs = CreateAutofixRun_def CreateAutofixRunWithID_def UpdateAutofixRun_def
  GetAutofixRun_def GetAutofixRunByPR_def ListAutofixRuns_def CreateExplorerRun_def
  UpdateExplorerRun_def GetExplorerRun_def GetExplorerRunByPR_def CreateRun_def EnsureRun_def
  FindRunByIdempotencyKey_def GetRun_def UpdateRun_def AppendRunCommand_def
  GetRunCommandVersion_def UpsertReplayBreadcrumbSummary_def GetReplayBreadcrumbSummary_def
  GetProjectPreference_def SaveProjectPreference_def Let_def

lemmas keeps_stmt = keeps_wrapping keeps_andThen keeps_ret keeps_query keeps_update keeps_nowString

lemma store_keeps_reads [store_keeps]:
  "keeps store_ok (GetAutofixRun i)" "keeps store_ok (GetAutofixRunByPR p q)"
  "keeps store_ok ListAutofixRuns" "keeps store_ok (GetExplorerRun i)"
  "keeps store_ok (GetExplorerRunByPR g p q)" "keeps store_ok (GetRun i)"
  "keeps store_ok (GetRunCommandVersion i c)" "keeps store_ok (GetReplayBreadcrumbSummary n)"
  "keeps store_ok (GetProjectPreference g)" "keeps store_ok nowString"
  unfolding store_defs by (intro keeps_stmt; simp)+

lemma store_keeps_Find [store_keeps]: "keeps store_ok (FindRunByIdempotencyKey k key)"
  unfolding store_defs by (intro keeps_if keeps_stmt; simp)

lemma store_keeps_updates [store_keeps]:
  "keeps store_ok (UpdateAutofixRun i p q st b)" "keeps store_ok (UpdateExplorerRun e)"
  "keeps store_ok (UpdateRun r)"
  unfolding store_defs
  by (intro keeps_stmt; simp add: store_ok_def ids_ok_update_at)+

lemma store_keeps_upserts [store_keeps]:
  "keeps store_ok (UpsertReplayBreadcrumbSummary rb)" "keeps store_ok (SaveProjectPreference pp)"
  unfolding store_defs
  by (intro keeps_stmt; simp add: store_ok_def uniq_upsert)+

lemma store_keeps_creates [store_keeps]:
  "keeps store_ok (CreateAutofixRun g b)" "keeps store_ok (CreateExplorerRun e)"
  "keeps store_ok (CreateRun r)"
  unfolding store_defs
  by (intro keeps_wrapping keeps_andThen keeps_nowString keeps_exec;
      auto simp: store_ok_def ids_ok_snoc next_id_Inr split: sum.splits)+

lemma store_keeps_ensures [store_keeps]:
  "keeps store_ok (CreateAutofixRunWithID i g b)" "keeps store_ok (EnsureRun i r)"
  unfolding store_defs
  by (intro keeps_stmt; simp add: store_ok_def ids_ok_explicit)+

lemma store_keeps_Append [store_keeps]: "keeps store_ok (AppendRunCommand i q v b)"
  unfolding store_defs
  by (intro keeps_wrapping keeps_andThen keeps_nowString keeps_exec)
    (auto simp: store_ok_def uniq_insert_ignore)

lemma store_keeps_Delete [store_keeps]: "keeps store_ok (DeleteReplayBreadcrumbSummaries ids)"
proof (induction ids)
  case Nil
  show ?case by (simp add: keeps_def)
next
  case (Cons i ids)
  then show ?case
    unfolding DeleteReplayBreadcrumbSummaries.simps
    by (intro keeps_andThen keeps_wrapping keeps_update)
      (simp_all add: store_ok_def uniq_filter)
qed

section \<open>The tables as maps, and the interfaces they provide\<close>

definition runs_view :: "store \<Rightarrow> int \<Rightarrow> RunRecord option" where
  "runs_view s = row_at run_ID (runs_tbl s)"

definition explorer_view :: "store \<Rightarrow> int \<Rightarrow> ExplorerRunRecord option" where
  "explorer_view s = row_at ex_ID (explorer_runs s)"

definition autofix_view :: "store \<Rightarrow> int \<Rightarrow> AutofixRunRecord option" where
  "autofix_view s = row_at af_ID (autofix_runs s)"

definition replay_view :: "store \<Rightarrow> string \<Rightarrow> ReplayBreadcrumbSummaryRecord option" where
  "replay_view s = row_at rb_ReplayID (replay_tbl s)"

definition preferences_view :: "store \<Rightarrow> int \<Rightarrow> ProjectPreferenceRecord option" where
  "preferences_view s = row_at pp_OrganizationID (preferences_tbl s)"

definition commands_view :: "store \<Rightarrow> int \<times> string \<Rightarrow> RunCommandRow option" where
  "commands_view s = row_at cmd_key (run_commands s)"

lemmas view_defs = runs_view_def explorer_view_def autofix_view_def replay_view_def
  preferences_view_def commands_view_def

lemma view_tick [simp]:
  "runs_view (tick s) = runs_view s" "explorer_view (tick s) = explorer_view s"
  "autofix_view (tick s) = autofix_view s" "replay_view (tick s) = replay_view s"
  "preferences_view (tick s) = preferences_view s" "commands_view (tick s) = commands_view s"
  by (simp_all add: view_defs)

lemmas readonly_stmt = readonly_wrapping readonly_andThen readonly_if readonly_ret readonly_query
  readonly_nowString readonly_update readonly_exec

text \<open>What \<open>UpdateRun\<close> rewrites of a row, and the row \<open>CreateRun\<close> and \<open>EnsureRun\<close> insert.\<close>

definition rewrite_run :: "string \<Rightarrow> RunRecord \<Rightarrow> RunRecord \<Rightarrow> RunRecord" where
  "rewrite_run ts rec r = r\<lparr>run_Status := run_Status rec, run_ResultJSON := run_ResultJSON rec,
     run_Error := run_Error rec, run_WorkflowVersion := run_WorkflowVersion rec, run_UpdatedAt := ts\<rparr>"

definition fresh_run :: "string \<Rightarrow> int \<Rightarrow> RunRecord \<Rightarrow> RunRecord" where
  "fresh_run ts i rec = rec\<lparr>run_ID := i,
     run_Status := (if run_Status rec = [] then RunStatusProcessing else run_Status rec),
     run_WorkflowVersion := (if run_WorkflowVersion rec = 0 then 1 else run_WorkflowVersion rec),
     run_CreatedAt := (if run_CreatedAt rec = [] then ts else run_CreatedAt rec),
     run_UpdatedAt := ts\<rparr>"

lemma fresh_run_id [simp]: "run_ID (fresh_run ts i rec) = i"
  by (simp add: fresh_run_def)

lemma fresh_run_row:
  "(run_defaults (if run_CreatedAt rec = [] then rec\<lparr>run_CreatedAt := ts\<rparr> else rec))
     \<lparr>run_ID := i, run_UpdatedAt := ts\<rparr> = fresh_run ts i rec"
  by (cases rec) (simp add: run_defaults_def fresh_run_def Let_def)

interpretation runs_db: creating_store GetRun UpdateRun run_ID rewrite_run runs_view
  CreateRun fresh_run store_ok
proof unfold_locales
  show "readonly runs_view (GetRun k)" for k
    unfolding GetRun_def by (intro readonly_stmt) simp
  show "GetRun k s = (Inr r, t) \<Longrightarrow> r = runs_view s k" for k s r t
    by (auto simp: GetRun_def stmt_Inr runs_view_def)
  show "UpdateRun u s = (Inr x, t) \<Longrightarrow>
      \<exists>ts. runs_view t = (runs_view s)(run_ID u := map_option (rewrite_run ts u) (runs_view s (run_ID u)))"
    for u s x t
    by (auto simp: UpdateRun_def stmt_Inr runs_view_def row_at_update_at rewrite_run_def fun_eq_iff
        intro!: exI [of _ "wall s (clock s)"] option.map_cong)
  show "all_or_nothing runs_view (UpdateRun u)" for u
    unfolding UpdateRun_def
    by (intro all_or_nothing_andThen readonly_nowString all_or_nothing_wrapping all_or_nothing_update) simp_all
  show "store_ok s \<Longrightarrow> CreateRun c s = (Inr k, t) \<Longrightarrow>
      runs_view s k = None \<and> (\<exists>ts. runs_view t = (runs_view s)(k \<mapsto> fresh_run ts k c))" for s c k t
    by (auto simp: CreateRun_def Let_def stmt_Inr runs_view_def next_id_Inr row_at_snoc fresh_run_row
        store_ok_def fun_eq_iff ids_ok_fresh fresh_run_id
        intro!: exI [of _ "wall s (clock s)"] split: sum.splits option.splits)
  show "all_or_nothing runs_view (CreateRun c)" for c
    unfolding CreateRun_def Let_def
    by (intro all_or_nothing_andThen readonly_nowString all_or_nothing_wrapping all_or_nothing_exec) simp_all
  show "keeps store_ok (CreateRun c)" "keeps store_ok (UpdateRun u)" "keeps store_ok (GetRun k)" for c u k
    by (rule store_keeps)+
qed

definition rewrite_explorer :: "string \<Rightarrow> ExplorerRunRecord \<Rightarrow> ExplorerRunRecord \<Rightarrow> ExplorerRunRecord" where
  "rewrite_explorer ts rec r = rec\<lparr>ex_ID := ex_ID r, ex_OrganizationID := ex_OrganizationID r,
     ex_UserID := ex_UserID r, ex_CreatedAt := ex_CreatedAt r\<rparr>"

definition fresh_explorer :: "string \<Rightarrow> int \<Rightarrow> ExplorerRunRecord \<Rightarrow> ExplorerRunRecord" where
  "fresh_explorer ts i rec =
     (let created = (if ex_CreatedAt rec = [] then ts else ex_CreatedAt rec)
      in rec\<lparr>ex_ID := i, ex_CreatedAt := created,
         ex_LastTriggeredAt := (if ex_LastTriggeredAt rec = [] then created else ex_LastTriggeredAt rec),
         ex_Status := (if ex_Status rec = [] then RunStatusProcessing else ex_Status rec)\<rparr>)"

lemma fresh_explorer_id [simp]: "ex_ID (fresh_explorer ts i rec) = i"
  by (simp add: fresh_explorer_def Let_def)

lemma fresh_explorer_row: "(explorer_defaults ts rec)\<lparr>ex_ID := i\<rparr> = fresh_explorer ts i rec"
  by (cases rec) (simp add: explorer_defaults_def fresh_explorer_def Let_def)

interpretation explorer_db: creating_store GetExplorerRun UpdateExplorerRun ex_ID rewrite_explorer
  explorer_view CreateExplorerRun fresh_explorer store_ok
proof unfold_locales
  show "readonly explorer_view (GetExplorerRun k)" for k
    unfolding GetExplorerRun_def by (intro readonly_stmt) simp
  show "GetExplorerRun k s = (Inr r, t) \<Longrightarrow> r = explorer_view s k" for k s r t
    by (auto simp: GetExplorerRun_def stmt_Inr explorer_view_def)
  show "UpdateExplorerRun u s = (Inr x, t) \<Longrightarrow> \<exists>ts. explorer_view t =
      (explorer_view s)(ex_ID u := map_option (rewrite_explorer ts u) (explorer_view s (ex_ID u)))"
    for u s x t
    by (auto simp: UpdateExplorerRun_def stmt_Inr explorer_view_def row_at_update_at rewrite_explorer_def
        fun_eq_iff intro!: option.map_cong)
  show "all_or_nothing explorer_view (UpdateExplorerRun u)" for u
    unfolding UpdateExplorerRun_def
    by (intro all_or_nothing_wrapping all_or_nothing_update) simp
  show "store_ok s \<Longrightarrow> CreateExplorerRun c s = (Inr k, t) \<Longrightarrow> explorer_view s k = None \<and>
      (\<exists>ts. explorer_view t = (explorer_view s)(k \<mapsto> fresh_explorer ts k c))" for s c k t
    by (auto simp: CreateExplorerRun_def Let_def stmt_Inr explorer_view_def next_id_Inr row_at_snoc
        fresh_explorer_row store_ok_def fun_eq_iff ids_ok_fresh
        intro!: exI [of _ "wall s (clock s)"] split: sum.splits option.splits)
  show "all_or_nothing explorer_view (CreateExplorerRun c)" for c
    unfolding CreateExplorerRun_def Let_def
    by (intro all_or_nothing_andThen readonly_nowString all_or_nothing_wrapping all_or_nothing_exec) simp_all
  show "keeps store_ok (CreateExplorerRun c)" "keeps store_ok (UpdateExplorerRun u)"
    "keeps store_ok (GetExplorerRun k)" for c u k
    by (rule store_keeps)+
qed

text \<open>An \<open>UpdateAutofixRun\<close> call, and the row the two inserting methods build.\<close>

type_synonym autofix_update = "int \<times> string option \<times> int option \<times> string \<times> blob"

fun modify_autofix :: "autofix_update \<Rightarrow> (unit, store) op" where
  "modify_autofix (i, p, q, st, b) = UpdateAutofixRun i p q st b"

fun rewrite_autofix :: "string \<Rightarrow> autofix_update \<Rightarrow> AutofixRunRecord \<Rightarrow> AutofixRunRecord" where
  "rewrite_autofix ts (i, p, q, st, b) r = r\<lparr>af_Provider := coalesce p (af_Provider r),
     af_PRID := coalesce q (af_PRID r), af_Status := st, af_StateJSON := b\<rparr>"

fun create_autofix :: "int option \<times> blob \<Rightarrow> (int, store) op" where
  "create_autofix (g, b) = CreateAutofixRun g b"

fun fresh_autofix :: "string \<Rightarrow> int \<Rightarrow> int option \<times> blob \<Rightarrow> AutofixRunRecord" where
  "fresh_autofix ts i (g, b) = \<lparr>af_ID = i, af_GroupID = g, af_Provider = None, af_PRID = None,
     af_Status = RunStatusProcessing, af_StateJSON = b\<rparr>"

interpretation autofix_db: creating_store GetAutofixRun modify_autofix fst rewrite_autofix
  autofix_view create_autofix fresh_autofix store_ok
proof unfold_locales
  show "readonly autofix_view (GetAutofixRun k)" for k
    unfolding GetAutofixRun_def by (intro readonly_stmt) simp
  show "GetAutofixRun k s = (Inr r, t) \<Longrightarrow> r = autofix_view s k" for k s r t
    by (auto simp: GetAutofixRun_def stmt_Inr autofix_view_def)
  show "modify_autofix u s = (Inr x, t) \<Longrightarrow> \<exists>ts. autofix_view t =
      (autofix_view s)(fst u := map_option (rewrite_autofix ts u) (autofix_view s (fst u)))"
    for u s x t
    by (cases u) (auto simp: UpdateAutofixRun_def stmt_Inr autofix_view_def row_at_update_at fun_eq_iff
        intro!: exI [of _ "wall s (clock s)"] option.map_cong)
  show "all_or_nothing autofix_view (modify_autofix u)" for u
    by (cases u) (simp add: UpdateAutofixRun_def all_or_nothing_wrapping all_or_nothing_update)
  show "store_ok s \<Longrightarrow> create_autofix c s = (Inr k, t) \<Longrightarrow> autofix_view s k = None \<and>
      (\<exists>ts. autofix_view t = (autofix_view s)(k \<mapsto> fresh_autofix ts k c))" for s c k t
    by (cases c) (auto simp: CreateAutofixRun_def stmt_Inr autofix_view_def next_id_Inr row_at_snoc
        store_ok_def fun_eq_iff ids_ok_fresh split: sum.splits option.splits)
  show "all_or_nothing autofix_view (create_autofix c)" for c
    by (cases c) (simp add: CreateAutofixRun_def all_or_nothing_wrapping all_or_nothing_exec)
  show "keeps store_ok (create_autofix c)" "keeps store_ok (modify_autofix u)"
    "keeps store_ok (GetAutofixRun k)" for c u k
    by (cases c; cases u; simp add: store_keeps)+
qed

definition merge_replay :: "string \<Rightarrow> ReplayBreadcrumbSummaryRecord option \<Rightarrow>
    ReplayBreadcrumbSummaryRecord \<Rightarrow> ReplayBreadcrumbSummaryRecord" where
  "merge_replay ts old new =
     (case old of None \<Rightarrow> new | Some r \<Rightarrow> new\<lparr>rb_ReplayID := rb_ReplayID r, rb_CreatedAt := rb_CreatedAt r\<rparr>)"

interpretation replay_db: upsert_store GetReplayBreadcrumbSummary UpsertReplayBreadcrumbSummary
  rb_ReplayID merge_replay replay_view
proof unfold_locales
  show "readonly replay_view (GetReplayBreadcrumbSummary k)" for k
    unfolding GetReplayBreadcrumbSummary_def by (intro readonly_stmt) simp
  show "GetReplayBreadcrumbSummary k s = (Inr r, t) \<Longrightarrow> r = replay_view s k" for k s r t
    by (auto simp: GetReplayBreadcrumbSummary_def stmt_Inr replay_view_def)
  show "UpsertReplayBreadcrumbSummary r s = (Inr x, t) \<Longrightarrow> \<exists>ts. replay_view t =
      (replay_view s)(rb_ReplayID r \<mapsto> merge_replay ts (replay_view s (rb_ReplayID r)) r)" for r s x t
    by (auto simp: UpsertReplayBreadcrumbSummary_def stmt_Inr replay_view_def row_at_upsert
        merge_replay_def fun_eq_iff split: option.splits)
  show "all_or_nothing replay_view (UpsertReplayBreadcrumbSummary r)" for r
    unfolding UpsertReplayBreadcrumbSummary_def
    by (intro all_or_nothing_wrapping all_or_nothing_update) simp
qed

definition merge_preference :: "string \<Rightarrow> ProjectPreferenceRecord option \<Rightarrow>
    ProjectPreferenceRecord \<Rightarrow> ProjectPreferenceRecord" where
  "merge_preference ts old new = new\<lparr>pp_UpdatedAt := ts\<rparr>"

interpretation preferences_db: upsert_store GetProjectPreference SaveProjectPreference
  pp_OrganizationID merge_preference preferences_view
proof unfold_locales
  show "readonly preferences_view (GetProjectPreference k)" for k
    unfolding GetProjectPreference_def by (intro readonly_stmt) simp
  show "GetProjectPreference k s = (Inr r, t) \<Longrightarrow> r = preferences_view s k" for k s r t
    by (auto simp: GetProjectPreference_def stmt_Inr preferences_view_def)
  show "SaveProjectPreference r s = (Inr x, t) \<Longrightarrow> \<exists>ts. preferences_view t =
      (preferences_view s)(pp_OrganizationID r \<mapsto>
         merge_preference ts (preferences_view s (pp_OrganizationID r)) r)" for r s x t
    by (auto simp: SaveProjectPreference_def stmt_Inr preferences_view_def row_at_upsert
        merge_preference_def fun_eq_iff split: option.splits dest!: row_at_key
        intro!: exI [of _ "wall s (clock s)"] ProjectPreferenceRecord.equality)
  show "all_or_nothing preferences_view (SaveProjectPreference r)" for r
    unfolding SaveProjectPreference_def
    by (intro all_or_nothing_andThen readonly_nowString all_or_nothing_wrapping all_or_nothing_update) simp_all
qed

section \<open>The runs table and the command log together\<close>

fun append_command :: "RunCommandRow \<Rightarrow> (bool, store) op" where
  "append_command c = AppendRunCommand (cmd_RunID c) (cmd_RequestID c) (cmd_WorkflowVersion c) (cmd_CommandJSON c)"

fun recorded_command :: "int \<times> string \<Rightarrow> (int64 option, store) op" where
  "recorded_command (i, q) = GetRunCommandVersion i q"

definition command_versions :: "store \<Rightarrow> int \<times> string \<Rightarrow> int64 option" where
  "command_versions s k = map_option cmd_WorkflowVersion (commands_view s k)"

lemma AppendRunCommand_log:
  assumes "AppendRunCommand i q v b s = (Inr new, t)"
  shows "(new \<longleftrightarrow> command_versions s (i, q) = None) \<and> runs_view t = runs_view s \<and>
    command_versions t = (if command_versions s (i, q) = None
      then (command_versions s)((i, q) \<mapsto> v) else command_versions s)"
  using assms
  by (auto simp: AppendRunCommand_def stmt_Inr command_versions_def commands_view_def runs_view_def
      row_at_insert_ignore fun_eq_iff split: if_splits)

interpretation commands_log: append_log recorded_command append_command cmd_key cmd_WorkflowVersion command_versions
proof unfold_locales
  show "readonly command_versions (recorded_command k)" for k
    by (cases k) (auto simp: GetRunCommandVersion_def command_versions_def fun_eq_iff
        intro!: readonly_wrapping readonly_query)
  show "recorded_command k s = (Inr v, t) \<Longrightarrow> v = command_versions s k" for k s v t
    by (cases k) (auto simp: GetRunCommandVersion_def stmt_Inr command_versions_def commands_view_def)
  show "append_command e s = (Inr new, t) \<Longrightarrow> (new \<longleftrightarrow> command_versions s (cmd_key e) = None) \<and>
      command_versions t = (if command_versions s (cmd_key e) = None
        then (command_versions s)(cmd_key e \<mapsto> cmd_WorkflowVersion e) else command_versions s)" for e s new t
    using AppendRunCommand_log [of "cmd_RunID e" "cmd_RequestID e" "cmd_WorkflowVersion e" "cmd_CommandJSON e" s new t]
    by auto
  show "all_or_nothing command_versions (append_command e)" for e
    unfolding append_command.simps AppendRunCommand_def
    by (intro all_or_nothing_andThen readonly_nowString all_or_nothing_wrapping all_or_nothing_exec)
      (simp_all add: command_versions_def fun_eq_iff)
qed

text \<open>What the services see of the two tables.\<close>

definition run_tables :: "store \<Rightarrow> (int \<Rightarrow> RunRecord option) \<times> (int \<times> string \<Rightarrow> int64 option)" where
  "run_tables s = (runs_view s, command_versions s)"

lemma run_tables_tick [simp]: "run_tables (tick s) = run_tables s"
  by (simp add: run_tables_def command_versions_def fun_eq_iff)

definition ensured_run :: "string \<Rightarrow> int \<Rightarrow> RunRecord \<Rightarrow> RunRecord" where
  "ensured_run ts i rec = (run_defaults rec)\<lparr>run_ID := i, run_UpdatedAt := ts\<rparr>"

lemma EnsureRun_tables:
  "EnsureRun i rec s = (Inr x, t) \<Longrightarrow> \<exists>ts. run_tables t =
     ((if runs_view s i = None then (runs_view s)(i \<mapsto> ensured_run ts i rec) else runs_view s),
      command_versions s)"
  by (auto simp: EnsureRun_def stmt_Inr run_tables_def runs_view_def command_versions_def commands_view_def
      row_at_snoc ensured_run_def fun_eq_iff intro!: exI [of _ "wall s (clock s)"] split: option.splits)

lemma readonly_run_tables [effect_intro]:
  "readonly run_tables (GetRun i)" "readonly run_tables (GetRunCommandVersion i q)"
  "readonly run_tables (FindRunByIdempotencyKey k key)"
  unfolding GetRun_def GetRunCommandVersion_def FindRunByIdempotencyKey_def
  by (intro readonly_stmt; simp)+

lemma GetRun_tables: "GetRun i s = (Inr r, t) \<Longrightarrow> r = runs_view s i \<and> run_tables t = run_tables s"
  using runs_db.lookup_value readonlyD [OF readonly_run_tables(1)] by blast

lemma GetRunCommandVersion_tables:
  "GetRunCommandVersion i q s = (Inr v, t) \<Longrightarrow> v = command_versions s (i, q) \<and> run_tables t = run_tables s"
  using commands_log.recorded_value [of "(i, q)"] readonlyD [OF readonly_run_tables(2)] by auto

lemma UpdateRun_tables:
  "UpdateRun rec s = (Inr x, t) \<Longrightarrow> \<exists>ts. run_tables t =
     ((runs_view s)(run_ID rec := map_option (rewrite_run ts rec) (runs_view s (run_ID rec))), command_versions s)"
  by (frule runs_db.modify_ok)
    (auto simp: UpdateRun_def stmt_Inr run_tables_def command_versions_def commands_view_def fun_eq_iff)

lemma AppendRunCommand_tables:
  "AppendRunCommand i q v b s = (Inr new, t) \<Longrightarrow> run_tables t = (runs_view s,
     if command_versions s (i, q) = None then (command_versions s)((i, q) \<mapsto> v) else command_versions s)"
  using AppendRunCommand_log [of i q v b s new t] by (simp add: run_tables_def)

end
