(* ===== verification/VectorStore.thy ===== *)
theory VectorStore
  imports DbLaws
begin

text \<open>
  The vector store interface (\<open>internal/vectorstore/store.go\<close>) and its SQLite implementation
  (\<open>internal/vectorstore/sqlitevec/store.go\<close>). The interface is a record of operations, as the
  Go interface is; the locale \<open>vector_store_laws\<close> says what its callers rely on, and the
  interpretation \<open>sqlitevec_laws\<close> proves it of the SQLite implementation.

  The extension's \<open>vec_distance_cosine\<close> is a parameter: on two vectors it fails (their
  dimensions differ), answers SQL's NULL (\<open>None\<close>), or a number. An \<open>ORDER BY\<close> puts NULL
  first, and scanning NULL into a Go \<open>float64\<close> fails.
\<close>

section \<open>Results and filters\<close>

record SimilarIssue =
  si_ParentHash :: string
  si_StacktraceDistance :: rat
  si_ShouldGroup :: bool

record CodeResult =
  cs_Provider :: string
  cs_Owner :: string
  cs_Name :: string
  cs_Ref :: string
  cs_Path :: string
  cs_ChunkIndex :: nat
  cs_StartLine :: nat
  cs_EndLine :: nat
  cs_Text :: string
  cs_Distance :: rat

record CodeFilters =
  cf_OrganizationID :: int
  cf_Provider :: string
  cf_Owner :: string
  cf_Name :: string
  cf_Ref :: string

record 's VectorStore =
  vs_UpsertGroupingRecords :: "GroupingRecord list \<Rightarrow> (unit, 's) op"
  vs_SearchSimilar :: "int \<Rightarrow> string \<Rightarrow> vector \<Rightarrow> int \<Rightarrow> rat \<Rightarrow> (SimilarIssue list, 's) op"
  vs_DeleteProject :: "int \<Rightarrow> (bool, 's) op"
  vs_DeleteHashes :: "int \<Rightarrow> string list \<Rightarrow> (bool, 's) op"
  vs_InsertSupergroup :: "SupergroupRecord \<Rightarrow> (unit, 's) op"
  vs_ListSupergroups :: "int \<Rightarrow> int list \<Rightarrow> int \<Rightarrow> int \<Rightarrow> (json gomap list, 's) op"
  vs_UpsertCodeChunks :: "CodeChunk list \<Rightarrow> (unit, 's) op"
  vs_SearchCode :: "vector \<Rightarrow> int \<Rightarrow> CodeFilters \<Rightarrow> (CodeResult list, 's) op"
  vs_DeleteCodeRepo :: "int \<Rightarrow> string \<Rightarrow> string \<Rightarrow> string \<Rightarrow> (bool, 's) op"
  vs_HasCodeChunks :: "int \<Rightarrow> (bool, 's) op"

type_synonym chunk_key = "int \<times> string \<times> string \<times> string \<times> string \<times> string \<times> nat"

definition cc_key :: "CodeChunk \<Rightarrow> chunk_key" where
  "cc_key c = (cc_OrganizationID c, cc_Provider c, cc_Owner c, cc_Name c, cc_Ref c, cc_Path c, cc_ChunkIndex c)"

text \<open>Whether a chunk belongs to a repository of an organization.\<close>

definition in_repo :: "int \<Rightarrow> string \<Rightarrow> string \<Rightarrow> string \<Rightarrow> CodeChunk \<Rightarrow> bool" where
  "in_repo org provider owner name c \<longleftrightarrow> cc_OrganizationID c = org \<and> cc_Provider c = provider \<and>
     cc_Owner c = owner \<and> cc_Name c = name"

text \<open>An empty filter field matches any value; the organization always restricts.\<close>

definition matches :: "CodeFilters \<Rightarrow> CodeChunk \<Rightarrow> bool" where
  "matches f c \<longleftrightarrow> cc_OrganizationID c = cf_OrganizationID f \<and>
     (cf_Provider f = [] \<or> cc_Provider c = cf_Provider f) \<and> (cf_Owner f = [] \<or> cc_Owner c = cf_Owner f) \<and>
     (cf_Name f = [] \<or> cc_Name c = cf_Name f) \<and> (cf_Ref f = [] \<or> cc_Ref c = cf_Ref f)"

definition code_result :: "CodeChunk \<Rightarrow> rat \<Rightarrow> CodeResult" where
  "code_result c d = \<lparr>cs_Provider = cc_Provider c, cs_Owner = cc_Owner c, cs_Name = cc_Name c,
     cs_Ref = cc_Ref c, cs_Path = cc_Path c, cs_ChunkIndex = cc_ChunkIndex c,
     cs_StartLine = cc_StartLine c, cs_EndLine = cc_EndLine c, cs_Text = cc_Text c, cs_Distance = d\<rparr>"

section \<open>The SQLite implementation\<close>

record sqlitevec =
  sv_dimensions :: int
  sv_distance :: "vector \<Rightarrow> vector \<Rightarrow> rat option res"

text \<open>The \<open>CHECK\<close> constraint the migration puts on the vector columns.\<close>

definition check_vector :: "sqlitevec \<Rightarrow> vector \<Rightarrow> bool" where
  "check_vector sv v \<longleftrightarrow> (sv_dimensions sv > 0 \<longrightarrow> int (length v) = sv_dimensions sv)"

definition check_failed :: goerr where
  "check_failed = errorf ''CHECK constraint failed''"

definition sv_UpsertGroupingRecords :: "sqlitevec \<Rightarrow> GroupingRecord list \<Rightarrow> (unit, store) op" where
  "sv_UpsertGroupingRecords sv records = atomically
     (andThen (tx_step ''begin sqlite-vec upsert tx'') (\<lambda>_.
      andThen (tx_step ''prepare sqlite-vec upsert'') (\<lambda>_.
      andThen (each (\<lambda>r. wrapping ''exec sqlite-vec upsert'' (exec (\<lambda>s.
          if check_vector sv (gr_Vector r)
          then (Inr (), s\<lparr>vec_grouping := upsert gr_key merge_grouping r (vec_grouping s)\<rparr>)
          else (Inl check_failed, s)))) records) (\<lambda>_.
        tx_step ''commit sqlite-vec upsert tx''))))"

text \<open>Each row with its distance from the query vector.\<close>

fun rated :: "('r \<Rightarrow> rat option res) \<Rightarrow> 'r list \<Rightarrow> ('r \<times> rat option) list res" where
  "rated f [] = Inr []"
| "rated f (r # rs) = bindE (f r) (\<lambda>d. bindE (rated f rs) (\<lambda>ds. Inr ((r, d) # ds)))"

text \<open>\<open>ORDER BY distance ASC LIMIT k\<close>\<close>

definition nearest :: "nat \<Rightarrow> ('r \<times> rat option) list \<Rightarrow> ('r \<times> rat option) list" where
  "nearest k ds = take k (filter (\<lambda>x. snd x = None) ds @
     sort_key (\<lambda>x. the (snd x)) (filter (\<lambda>x. snd x \<noteq> None) ds))"

definition sv_SearchSimilar ::
    "sqlitevec \<Rightarrow> int \<Rightarrow> string \<Rightarrow> vector \<Rightarrow> int \<Rightarrow> rat \<Rightarrow> (SimilarIssue list, store) op" where
  "sv_SearchSimilar sv projectID hash v k0 threshold =
     (let k = (if k0 \<le> 0 then 1 else k0) in
      andThen (wrapping ''query sqlite-vec nearest neighbors'' (exec (\<lambda>s.
          (rated (\<lambda>r. sv_distance sv (gr_Vector r) v)
             (filter (\<lambda>r. gr_ProjectID r = projectID \<and> gr_Hash r \<noteq> hash) (vec_grouping s)), s)))) (\<lambda>ds.
        ret (map (\<lambda>(r, d). \<lparr>si_ParentHash = gr_Hash r, si_StacktraceDistance = the d, si_ShouldGroup = True\<rparr>)
          (nearest (nat k) (filter (\<lambda>x. case snd x of None \<Rightarrow> False | Some d \<Rightarrow> d \<le> threshold) ds)))))"

definition sv_DeleteProject :: "int \<Rightarrow> (bool, store) op" where
  "sv_DeleteProject projectID =
     andThen (wrapping ''delete sqlite-vec project records'' (update (\<lambda>s. s\<lparr>vec_grouping :=
       filter (\<lambda>r. gr_ProjectID r \<noteq> projectID) (vec_grouping s)\<rparr>))) (\<lambda>_. ret True)"

definition sv_DeleteHashes :: "int \<Rightarrow> string list \<Rightarrow> (bool, store) op" where
  "sv_DeleteHashes projectID hashes =
     (if hashes = [] then ret True
      else andThen (wrapping ''delete sqlite-vec hashes'' (update (\<lambda>s. s\<lparr>vec_grouping :=
        filter (\<lambda>r. \<not> (gr_ProjectID r = projectID \<and> gr_Hash r \<in> set hashes)) (vec_grouping s)\<rparr>))) (\<lambda>_. ret True))"

text \<open>Artifacts were encoded from maps, so decoding a row gives the map back.\<close>

fun decode_rows :: "json list \<Rightarrow> json gomap list res" where
  "decode_rows [] = Inr []"
| "decode_rows (j # js) =
     (case (if j = JNull then Inr [] else dec_anymap j) of
        Inl e \<Rightarrow> Inl (wrap ''decode supergroup row'' e)
      | Inr m \<Rightarrow> bindE (decode_rows js) (\<lambda>ms. Inr (m # ms)))"

definition sv_ListSupergroups :: "int \<Rightarrow> int list \<Rightarrow> int \<Rightarrow> int \<Rightarrow> (json gomap list, store) op" where
  "sv_ListSupergroups organizationID projectIDs offset limit =
     andThen (ListSupergroups organizationID projectIDs offset limit) (\<lambda>rows. liftE (decode_rows rows))"

definition merge_chunk :: "CodeChunk \<Rightarrow> CodeChunk \<Rightarrow> CodeChunk" where
  "merge_chunk old new = old\<lparr>cc_StartLine := cc_StartLine new, cc_EndLine := cc_EndLine new,
     cc_Text := cc_Text new, cc_Vector := cc_Vector new\<rparr>"

definition sv_UpsertCodeChunks :: "sqlitevec \<Rightarrow> CodeChunk list \<Rightarrow> (unit, store) op" where
  "sv_UpsertCodeChunks sv chunks =
     (if chunks = [] then ret ()
      else atomically
       (andThen (tx_step ''begin sqlite-vec code chunk tx'') (\<lambda>_.
        andThen (tx_step ''prepare sqlite-vec code chunk upsert'') (\<lambda>_.
        andThen (each (\<lambda>c. wrapping ''exec sqlite-vec code chunk upsert'' (exec (\<lambda>s.
            if check_vector sv (cc_Vector c)
            then (Inr (), s\<lparr>vec_chunks := upsert cc_key merge_chunk c (vec_chunks s)\<rparr>)
            else (Inl check_failed, s)))) chunks) (\<lambda>_.
          tx_step ''commit sqlite-vec code chunk tx'')))))"

definition sv_SearchCode :: "sqlitevec \<Rightarrow> vector \<Rightarrow> int \<Rightarrow> CodeFilters \<Rightarrow> (CodeResult list, store) op" where
  "sv_SearchCode sv v k0 filters =
     (let k = (if k0 \<le> 0 then 10 else k0) in
      andThen (wrapping ''query sqlite-vec code chunks'' (exec (\<lambda>s.
          (rated (\<lambda>c. sv_distance sv (cc_Vector c) v) (filter (matches filters) (vec_chunks s)), s)))) (\<lambda>ds.
        let found = nearest (nat k) ds in
        if \<exists>x \<in> set found. snd x = None
        then fail (errorf ''scan sqlite-vec code chunk: converting NULL to float64 is unsupported'')
        else ret (map (\<lambda>(c, d). code_result c (the d)) found)))"

definition sv_DeleteCodeRepo :: "int \<Rightarrow> string \<Rightarrow> string \<Rightarrow> string \<Rightarrow> (bool, store) op" where
  "sv_DeleteCodeRepo organizationID provider owner name =
     andThen (wrapping ''delete sqlite-vec code chunks'' (update (\<lambda>s. s\<lparr>vec_chunks :=
       filter (\<lambda>c. \<not> in_repo organizationID provider owner name c) (vec_chunks s)\<rparr>))) (\<lambda>_. ret True)"

definition sv_HasCodeChunks :: "int \<Rightarrow> (bool, store) op" where
  "sv_HasCodeChunks organizationID =
     wrapping ''check sqlite-vec code chunks'' (query (\<lambda>s. \<exists>c \<in> set (vec_chunks s). cc_OrganizationID c = organizationID))"

definition sqlitevec_store :: "sqlitevec \<Rightarrow> store VectorStore" where
  "sqlitevec_store sv = \<lparr>vs_UpsertGroupingRecords = sv_UpsertGroupingRecords sv,
     vs_SearchSimilar = sv_SearchSimilar sv, vs_DeleteProject = sv_DeleteProject,
     vs_DeleteHashes = sv_DeleteHashes, vs_InsertSupergroup = InsertSupergroup,
     vs_ListSupergroups = sv_ListSupergroups, vs_UpsertCodeChunks = sv_UpsertCodeChunks sv,
     vs_SearchCode = sv_SearchCode sv, vs_DeleteCodeRepo = sv_DeleteCodeRepo,
     vs_HasCodeChunks = sv_HasCodeChunks\<rparr>"

section \<open>What the callers rely on\<close>

fun put_all :: "('r \<Rightarrow> 'k) \<Rightarrow> 'r list \<Rightarrow> ('k \<Rightarrow> 'r option) \<Rightarrow> 'k \<Rightarrow> 'r option" where
  "put_all key [] m = m"
| "put_all key (r # rs) m = put_all key rs (m(key r \<mapsto> r))"

lemma put_all_other: "k \<notin> key ` set rs \<Longrightarrow> put_all key rs m k = m k"
  by (induction rs arbitrary: m) auto

lemma put_all_Some: "put_all key rs m k = Some r \<Longrightarrow> r \<in> set rs \<and> key r = k \<or> m k = Some r"
proof (induction rs arbitrary: m)
  case (Cons a rs)
  from Cons.IH [of "m(key a \<mapsto> a)"] Cons.prems show ?case by (auto simp: fun_upd_def split: if_splits)
qed simp

lemma put_all_in: "k \<in> key ` set rs \<Longrightarrow> \<exists>r. put_all key rs m k = Some r \<and> r \<in> set rs \<and> key r = k"
proof (induction rs arbitrary: m)
  case (Cons x xs)
  show ?case
  proof (cases "k \<in> key ` set xs")
    case True
    from Cons.IH [OF this, of "m(key x \<mapsto> x)"] show ?thesis by (auto simp: fun_upd_def)
  next
    case False
    with Cons.prems have "key x = k" by auto
    with False put_all_other [of k key xs "m(key x \<mapsto> x)"] show ?thesis by auto
  qed
qed simp

text \<open>
  The laws: \<open>groups\<close> and \<open>chunks\<close> are the two tables read as maps. Upserts and deletes are
  all or nothing and touch one table; searches change nothing and answer rows that are there
  and match, no more than asked for.
\<close>

locale vector_store_laws =
  fixes S :: "'s VectorStore"
    and groups :: "'s \<Rightarrow> int \<times> string \<Rightarrow> GroupingRecord option"
    and chunks :: "'s \<Rightarrow> chunk_key \<Rightarrow> CodeChunk option"
    and ok :: "'s \<Rightarrow> bool"
  assumes upsert_groups: "vs_UpsertGroupingRecords S rs s = (Inr x, t) \<Longrightarrow>
      groups t = put_all gr_key rs (groups s) \<and> chunks t = chunks s"
    and upsert_groups_err: "all_or_nothing (\<lambda>s. (groups s, chunks s)) (vs_UpsertGroupingRecords S rs)"
    and search_similar: "ok s \<Longrightarrow> vs_SearchSimilar S p h v k th s = (Inr out, t) \<Longrightarrow> i \<in> set out \<Longrightarrow>
      \<exists>r. groups s (p, si_ParentHash i) = Some r \<and> si_ParentHash i \<noteq> h \<and> si_StacktraceDistance i \<le> th"
    and search_similar_bound: "vs_SearchSimilar S p h v k th s = (Inr out, t) \<Longrightarrow> length out \<le> nat (max 1 k)"
    and search_similar_reads: "readonly (\<lambda>s. (groups s, chunks s)) (vs_SearchSimilar S p h v k th)"
    and delete_project: "ok s \<Longrightarrow> vs_DeleteProject S p s = (Inr b, t) \<Longrightarrow>
      b \<and> groups t = (\<lambda>gk. if fst gk = p then None else groups s gk) \<and> chunks t = chunks s"
    and delete_hashes: "ok s \<Longrightarrow> vs_DeleteHashes S p hs s = (Inr b, t) \<Longrightarrow>
      b \<and> groups t = (\<lambda>gk. if fst gk = p \<and> snd gk \<in> set hs then None else groups s gk) \<and> chunks t = chunks s"
    and delete_groups_err: "all_or_nothing (\<lambda>s. (groups s, chunks s)) (vs_DeleteProject S p)"
      "all_or_nothing (\<lambda>s. (groups s, chunks s)) (vs_DeleteHashes S p hs)"
    and upsert_chunks: "vs_UpsertCodeChunks S cs s = (Inr x, t) \<Longrightarrow>
      chunks t = put_all cc_key cs (chunks s) \<and> groups t = groups s"
    and upsert_chunks_err: "all_or_nothing (\<lambda>s. (groups s, chunks s)) (vs_UpsertCodeChunks S cs)"
    and search_code: "ok s \<Longrightarrow> vs_SearchCode S v k f s = (Inr found, t) \<Longrightarrow> y \<in> set found \<Longrightarrow>
      \<exists>c. chunks s (cc_key c) = Some c \<and> matches f c \<and> y = code_result c (cs_Distance y)"
    and search_code_bound: "vs_SearchCode S v k f s = (Inr found, t) \<Longrightarrow> length found \<le> nat (if k \<le> 0 then 10 else k)"
    and search_code_reads: "readonly (\<lambda>s. (groups s, chunks s)) (vs_SearchCode S v k f)"
    and delete_repo: "ok s \<Longrightarrow> vs_DeleteCodeRepo S g pv w n s = (Inr b, t) \<Longrightarrow>
      b \<and> groups t = groups s \<and> chunks t = (\<lambda>ck. case chunks s ck of
        Some c \<Rightarrow> if in_repo g pv w n c then None else Some c | None \<Rightarrow> None)"
    and delete_repo_err: "all_or_nothing (\<lambda>s. (groups s, chunks s)) (vs_DeleteCodeRepo S g pv w n)"
    and has_chunks: "ok s \<Longrightarrow> vs_HasCodeChunks S g s = (Inr b, t) \<Longrightarrow>
      (b \<longleftrightarrow> (\<exists>ck c. chunks s ck = Some c \<and> cc_OrganizationID c = g))"
    and has_chunks_reads: "readonly (\<lambda>s. (groups s, chunks s)) (vs_HasCodeChunks S g)"
    and keeps_ok: "keeps ok (vs_UpsertGroupingRecords S rs)" "keeps ok (vs_DeleteProject S p)"
      "keeps ok (vs_DeleteHashes S p hs)" "keeps ok (vs_UpsertCodeChunks S cs)"
      "keeps ok (vs_DeleteCodeRepo S g pv w n)" "keeps ok (vs_SearchCode S v k f)"
      "keeps ok (vs_SearchSimilar S p h v k th)" "keeps ok (vs_HasCodeChunks S g)"
begin

text \<open>Deleting a repository and storing new chunks replaces its part of the table.\<close>

lemma replace_repo:
  assumes "ok s" and d: "vs_DeleteCodeRepo S g p w n s = (Inr b, s1)"
    and u: "vs_UpsertCodeChunks S cs s1 = (Inr x, t)"
    and mine: "\<And>c. c \<in> set cs \<Longrightarrow> in_repo g p w n c"
    and keyed: "\<And>k c. chunks s k = Some c \<Longrightarrow> cc_key c = k"
  shows "(\<forall>c. chunks t (cc_key c) = Some c \<and> in_repo g p w n c \<longrightarrow> c \<in> set cs) \<and>
    (\<forall>c \<in> set cs. \<exists>d \<in> set cs. cc_key d = cc_key c \<and> chunks t (cc_key c) = Some d) \<and>
    (\<forall>k c. \<not> in_repo g p w n c \<longrightarrow> (chunks t k = Some c \<longleftrightarrow> chunks s k = Some c)) \<and> groups t = groups s"
proof -
  note del = delete_repo [OF assms(1) d] and ups = upsert_chunks [OF u]
  have own: "c \<in> set cs" if "chunks t (cc_key c) = Some c" "in_repo g p w n c" for c
    using that del ups put_all_Some [of cc_key cs "chunks s1" "cc_key c" c]
    by (auto split: option.splits if_splits)
  have new: "\<exists>d \<in> set cs. cc_key d = cc_key c \<and> chunks t (cc_key c) = Some d" if "c \<in> set cs" for c
    using put_all_in [of "cc_key c" cc_key cs "chunks s1"] that ups by auto
  have frame: "chunks t k = Some c \<longleftrightarrow> chunks s k = Some c" if other: "\<not> in_repo g p w n c" for k c
  proof (cases "k \<in> cc_key ` set cs")
    case True
    then obtain d where d: "d \<in> set cs" "cc_key d = k" by auto
    have "chunks s k \<noteq> Some c"
    proof
      assume "chunks s k = Some c"
      then have "cc_key c = cc_key d" using keyed d(2) by simp
      then have "in_repo g p w n c" using mine [OF d(1)] by (simp add: cc_key_def in_repo_def)
      with other show False ..
    qed
    moreover have "chunks t k \<noteq> Some c"
      using put_all_in [OF True, of "chunks s1"] ups mine other by auto
    ultimately show ?thesis by simp
  next
    case False
    with ups del other show ?thesis by (auto simp: put_all_other split: option.splits)
  qed
  show ?thesis using own new frame del ups by auto
qed

end

section \<open>The SQLite implementation keeps the laws\<close>

definition vec_groups :: "store \<Rightarrow> int \<times> string \<Rightarrow> GroupingRecord option" where
  "vec_groups s = row_at gr_key (vec_grouping s)"

definition vec_code :: "store \<Rightarrow> chunk_key \<Rightarrow> CodeChunk option" where
  "vec_code s = row_at cc_key (vec_chunks s)"

definition vec_ok :: "store \<Rightarrow> bool" where
  "vec_ok s \<longleftrightarrow> uniq gr_key (vec_grouping s) \<and> uniq cc_key (vec_chunks s)"

lemma vec_simps [simp]:
  "vec_groups (tick s) = vec_groups s" "vec_code (tick s) = vec_code s" "vec_ok (tick s) = vec_ok s"
  "vec_groups (s\<lparr>clock := n\<rparr>) = vec_groups s" "vec_code (s\<lparr>clock := n\<rparr>) = vec_code s"
  "vec_ok (s\<lparr>clock := n\<rparr>) = vec_ok s"
  by (simp_all add: vec_groups_def vec_code_def vec_ok_def)

lemma row_at_replace:
  assumes "\<And>old new. key (m old new) = key old" and "\<And>old. key old = key r \<Longrightarrow> m old r = r"
  shows "row_at key (upsert key m r rows) = (row_at key rows)(key r \<mapsto> r)"
proof
  fix k
  have "row_at key (upsert key m r rows) k =
     (if k = key r then Some (case row_at key rows k of None \<Rightarrow> r | Some old \<Rightarrow> m old r) else row_at key rows k)"
    using assms(1) by (rule row_at_upsert)
  then show "row_at key (upsert key m r rows) k = ((row_at key rows)(key r \<mapsto> r)) k"
    using assms(2) by (auto split: option.splits dest: row_at_key)
qed

lemma merge_grouping_new: "gr_key old = gr_key r \<Longrightarrow> merge_grouping old r = r"
  by (cases old; cases r) (simp add: merge_grouping_def)

lemma merge_chunk_new: "cc_key old = cc_key r \<Longrightarrow> merge_chunk old r = r"
  by (cases old; cases r) (simp add: merge_chunk_def cc_key_def)

lemma merge_keys [simp]:
  "gr_ProjectID (merge_grouping x y) = gr_ProjectID x" "gr_Hash (merge_grouping x y) = gr_Hash x"
  "cc_key (merge_chunk old r) = cc_key old"
  by (simp_all add: merge_grouping_def merge_chunk_def cc_key_def)

lemma atomically_Inr: "atomically m s = (Inr x, t) \<longleftrightarrow> m s = (Inr x, t)"
  by (auto simp: atomically_def split: prod.splits sum.splits)

lemma atomically_all_or_nothing: "(\<And>s n. V (s\<lparr>clock := n\<rparr>) = V s) \<Longrightarrow> all_or_nothing V (atomically m)"
  by (auto simp: all_or_nothing_def atomically_def split: prod.splits sum.splits)

lemma keeps_atomically:
  "(\<And>s n. P (s\<lparr>clock := n\<rparr>) = P s) \<Longrightarrow> keeps P m \<Longrightarrow> keeps P (atomically m)"
  by (fastforce simp: keeps_def atomically_def split: prod.splits sum.splits)

lemma keeps_each: "(\<And>x. keeps P (f x)) \<Longrightarrow> keeps P (each f xs)"
  by (induction xs) (auto intro: keeps_intro)

lemma each_Cons_Inr:
  "each f (x # xs) s = (Inr y, t) \<longleftrightarrow> (\<exists>a u. f x s = (Inr a, u) \<and> each f xs u = (Inr y, t))"
  by (simp add: andThen_eq_Inr)

text \<open>A run of upserts under a check of the row, whatever the check.\<close>

lemma upsert_groups_each:
  "each (\<lambda>r. wrapping p (exec (\<lambda>s. if fits r
      then (Inr (), s\<lparr>vec_grouping := upsert gr_key merge_grouping r (vec_grouping s)\<rparr>)
      else (Inl e, s)))) rs s = (Inr x, t) \<Longrightarrow>
   vec_groups t = put_all gr_key rs (vec_groups s) \<and> vec_code t = vec_code s"
proof (induction rs arbitrary: s)
  case (Cons r rs)
  from Cons.prems obtain u where
    u: "u = tick (s\<lparr>vec_grouping := upsert gr_key merge_grouping r (vec_grouping s)\<rparr>)"
    and rest: "each (\<lambda>r. wrapping p (exec (\<lambda>s. if fits r
      then (Inr (), s\<lparr>vec_grouping := upsert gr_key merge_grouping r (vec_grouping s)\<rparr>)
      else (Inl e, s)))) rs u = (Inr x, t)"
    by (auto simp only: each_Cons_Inr wrapping_eq_Inr exec_Inr split: if_splits)
  have "vec_groups u = (vec_groups s)(gr_key r \<mapsto> r)" "vec_code u = vec_code s"
    by (simp_all add: u vec_groups_def vec_code_def row_at_replace merge_grouping_new)
  with Cons.IH [OF rest] show ?case by (simp add: fun_upd_def)
qed simp

lemma upsert_chunks_each:
  "each (\<lambda>c. wrapping p (exec (\<lambda>s. if fits c
      then (Inr (), s\<lparr>vec_chunks := upsert cc_key merge_chunk c (vec_chunks s)\<rparr>)
      else (Inl e, s)))) cs s = (Inr x, t) \<Longrightarrow>
   vec_code t = put_all cc_key cs (vec_code s) \<and> vec_groups t = vec_groups s"
proof (induction cs arbitrary: s)
  case (Cons c cs)
  from Cons.prems obtain u where
    u: "u = tick (s\<lparr>vec_chunks := upsert cc_key merge_chunk c (vec_chunks s)\<rparr>)"
    and rest: "each (\<lambda>c. wrapping p (exec (\<lambda>s. if fits c
      then (Inr (), s\<lparr>vec_chunks := upsert cc_key merge_chunk c (vec_chunks s)\<rparr>)
      else (Inl e, s)))) cs u = (Inr x, t)"
    by (auto simp only: each_Cons_Inr wrapping_eq_Inr exec_Inr split: if_splits)
  have "vec_code u = (vec_code s)(cc_key c \<mapsto> c)" "vec_groups u = vec_groups s"
    by (simp_all add: u vec_groups_def vec_code_def row_at_replace merge_chunk_new)
  with Cons.IH [OF rest] show ?case by (simp add: fun_upd_def)
qed simp

lemma rated_in: "rated f rs = Inr ds \<Longrightarrow> (r, d) \<in> set ds \<Longrightarrow> r \<in> set rs \<and> f r = Inr d"
  by (induction rs arbitrary: ds) (auto simp: bindE_eq_Inr)

lemma nearest_in: "x \<in> set (nearest k ds) \<Longrightarrow> x \<in> set ds"
  by (auto simp: nearest_def dest!: in_set_takeD)

lemma nearest_length: "length (nearest k ds) \<le> k"
  by (simp add: nearest_def)

lemma search_similar_run:
  assumes "sv_SearchSimilar sv p h v k th s = (Inr found, t)"
  shows "\<exists>ds. rated (\<lambda>r. sv_distance sv (gr_Vector r) v)
      (filter (\<lambda>r. gr_ProjectID r = p \<and> gr_Hash r \<noteq> h) (vec_grouping s)) = Inr ds \<and>
    found = map (\<lambda>(r, d). \<lparr>si_ParentHash = gr_Hash r, si_StacktraceDistance = the d, si_ShouldGroup = True\<rparr>)
      (nearest (nat (if k \<le> 0 then 1 else k)) (filter (\<lambda>x. case snd x of None \<Rightarrow> False | Some d \<Rightarrow> d \<le> th) ds))"
  using assms by (auto simp: sv_SearchSimilar_def Let_def stmt_Inr)

lemma search_code_run:
  assumes "sv_SearchCode sv v k f s = (Inr found, t)"
  shows "\<exists>ds. rated (\<lambda>c. sv_distance sv (cc_Vector c) v) (filter (matches f) (vec_chunks s)) = Inr ds \<and>
    (\<forall>x \<in> set (nearest (nat (if k \<le> 0 then 10 else k)) ds). snd x \<noteq> None) \<and>
    found = map (\<lambda>(c, d). code_result c (the d)) (nearest (nat (if k \<le> 0 then 10 else k)) ds)"
  using assms by (auto simp: sv_SearchCode_def Let_def stmt_Inr split: if_splits)

abbreviation vec_tables :: "store \<Rightarrow> (int \<times> string \<Rightarrow> GroupingRecord option) \<times> (chunk_key \<Rightarrow> CodeChunk option)" where
  "vec_tables \<equiv> \<lambda>s. (vec_groups s, vec_code s)"

lemma row_at_ex:
  assumes "uniq key rows"
  shows "(\<exists>k r. row_at key rows k = Some r \<and> P r) \<longleftrightarrow> (\<exists>r \<in> set rows. P r)"
proof
  assume "\<exists>k r. row_at key rows k = Some r \<and> P r"
  then show "\<exists>r \<in> set rows. P r" using row_at_key by fast
next
  assume "\<exists>r \<in> set rows. P r"
  then show "\<exists>k r. row_at key rows k = Some r \<and> P r" using row_at_uniq [OF assms] by blast
qed

lemma search_reads:
  "readonly vec_tables (sv_SearchSimilar sv p h v k th)" "readonly vec_tables (sv_SearchCode sv v k f)"
  unfolding sv_SearchSimilar_def sv_SearchCode_def Let_def
  by (intro readonly_andThen readonly_wrapping readonly_exec readonly_if readonly_fail readonly_ret; simp)+

lemma keeps_ok_step:
  "(\<And>s x t. vec_ok s \<Longrightarrow> stmt s = (Inr x, t) \<Longrightarrow> vec_ok t) \<Longrightarrow> keeps vec_ok (wrapping p (exec stmt))"
  by (intro keeps_wrapping keeps_exec) auto

lemma keeps_tx_step: "keeps vec_ok (tx_step p)"
  unfolding tx_step_def by (intro keeps_wrapping keeps_update) simp_all

lemma vec_keeps:
  "keeps vec_ok (sv_UpsertGroupingRecords sv rs)" "keeps vec_ok (sv_UpsertCodeChunks sv cs)"
  "keeps vec_ok (sv_DeleteProject p)" "keeps vec_ok (sv_DeleteHashes p hs)"
  "keeps vec_ok (sv_DeleteCodeRepo g pv w n)" "keeps vec_ok (sv_SearchCode sv v k f)"
  "keeps vec_ok (sv_SearchSimilar sv p h v k th)" "keeps vec_ok (sv_HasCodeChunks g)"
  unfolding sv_UpsertGroupingRecords_def sv_UpsertCodeChunks_def sv_DeleteProject_def sv_DeleteHashes_def
    sv_DeleteCodeRepo_def sv_SearchCode_def sv_SearchSimilar_def sv_HasCodeChunks_def Let_def
  by (intro keeps_if keeps_ret keeps_atomically keeps_each keeps_tx_step keeps_ok_step keeps_andThen
        keeps_fail keeps_wrapping keeps_query keeps_update;
      auto simp: vec_ok_def uniq_upsert uniq_filter split: if_splits)+

interpretation sqlitevec_laws: vector_store_laws "sqlitevec_store sv" vec_groups vec_code vec_ok for sv
proof unfold_locales
  show "vec_groups t = put_all gr_key rs (vec_groups s) \<and> vec_code t = vec_code s"
    if "vs_UpsertGroupingRecords (sqlitevec_store sv) rs s = (Inr x, t)" for rs s x t
    using that by (auto simp: sqlitevec_store_def sv_UpsertGroupingRecords_def atomically_Inr tx_step_def stmt_Inr
        dest!: upsert_groups_each)
  show "vec_code t = put_all cc_key cs (vec_code s) \<and> vec_groups t = vec_groups s"
    if "vs_UpsertCodeChunks (sqlitevec_store sv) cs s = (Inr x, t)" for cs s x t
    using that by (cases "cs = []")
      (auto simp: sqlitevec_store_def sv_UpsertCodeChunks_def atomically_Inr tx_step_def stmt_Inr
        dest!: upsert_chunks_each)
  show "all_or_nothing vec_tables (vs_UpsertGroupingRecords (sqlitevec_store sv) rs)" for rs
    by (simp add: sqlitevec_store_def sv_UpsertGroupingRecords_def atomically_all_or_nothing)
  show "all_or_nothing vec_tables (vs_UpsertCodeChunks (sqlitevec_store sv) cs)" for cs
    by (simp add: sqlitevec_store_def sv_UpsertCodeChunks_def atomically_all_or_nothing all_or_nothing_ret)
  show "\<exists>r. vec_groups s (p, si_ParentHash i) = Some r \<and> si_ParentHash i \<noteq> h \<and> si_StacktraceDistance i \<le> th"
    if ok: "vec_ok s" and run: "vs_SearchSimilar (sqlitevec_store sv) p h v k th s = (Inr out, t)" and i: "i \<in> set out"
    for s p h v k th out t i
  proof -
    from run obtain ds where rate: "rated (\<lambda>r. sv_distance sv (gr_Vector r) v)
      (filter (\<lambda>r. gr_ProjectID r = p \<and> gr_Hash r \<noteq> h) (vec_grouping s)) = Inr ds" and
      out: "out = map (\<lambda>(r, d). \<lparr>si_ParentHash = gr_Hash r, si_StacktraceDistance = the d, si_ShouldGroup = True\<rparr>)
      (nearest (nat (if k \<le> 0 then 1 else k)) (filter (\<lambda>x. case snd x of None \<Rightarrow> False | Some d \<Rightarrow> d \<le> th) ds))"
      using search_similar_run by (force simp: sqlitevec_store_def)
    from i out obtain r d where rd: "(r, d) \<in> set ds" "\<exists>x. d = Some x \<and> x \<le> th"
      and hash: "si_ParentHash i = gr_Hash r" "si_StacktraceDistance i = the d"
      by (force dest!: nearest_in split: option.splits)
    with rated_in [OF rate rd(1)] have "r \<in> set (vec_grouping s)" "gr_ProjectID r = p" "gr_Hash r \<noteq> h" by auto
    moreover from this(1) ok have "row_at gr_key (vec_grouping s) (gr_key r) = Some r"
      using row_at_uniq [of gr_key "vec_grouping s" r] by (simp add: vec_ok_def)
    ultimately show ?thesis using rd(2) hash by (auto simp: vec_groups_def)
  qed
  show "length out \<le> nat (max 1 k)" if "vs_SearchSimilar (sqlitevec_store sv) p h v k th s = (Inr out, t)"
    for p h v k th s out t
    using that nearest_length by (fastforce simp: sqlitevec_store_def dest!: search_similar_run split: if_splits)
  show "readonly vec_tables (vs_SearchSimilar (sqlitevec_store sv) p h v k th)" for p h v k th
    by (simp add: sqlitevec_store_def search_reads)
  show "b \<and> vec_groups t = (\<lambda>gk. if fst gk = p then None else vec_groups s gk) \<and> vec_code t = vec_code s"
    if "vec_ok s" "vs_DeleteProject (sqlitevec_store sv) p s = (Inr b, t)" for s p b t
    using that by (auto simp: sqlitevec_store_def sv_DeleteProject_def stmt_Inr vec_groups_def vec_code_def
        vec_ok_def row_at_filter fun_eq_iff split: option.splits dest: row_at_key)
  show "b \<and> vec_groups t = (\<lambda>gk. if fst gk = p \<and> snd gk \<in> set hs then None else vec_groups s gk) \<and> vec_code t = vec_code s"
    if "vec_ok s" "vs_DeleteHashes (sqlitevec_store sv) p hs s = (Inr b, t)" for s p hs b t
    using that by (cases "hs = []") (auto simp: sqlitevec_store_def sv_DeleteHashes_def stmt_Inr vec_groups_def vec_code_def
        vec_ok_def row_at_filter fun_eq_iff split: option.splits dest: row_at_key)
  show "all_or_nothing vec_tables (vs_DeleteProject (sqlitevec_store sv) p)" for p
    by (simp add: sqlitevec_store_def sv_DeleteProject_def)
      (intro all_or_nothing_andThen_ret all_or_nothing_wrapping all_or_nothing_update; simp)
  show "all_or_nothing vec_tables (vs_DeleteHashes (sqlitevec_store sv) p hs)" for p hs
    by (simp add: sqlitevec_store_def sv_DeleteHashes_def)
      (intro conjI impI all_or_nothing_ret all_or_nothing_andThen_ret all_or_nothing_wrapping all_or_nothing_update; simp)
  show "\<exists>c. vec_code s (cc_key c) = Some c \<and> matches f c \<and> y = code_result c (cs_Distance y)"
    if ok: "vec_ok s" and run: "vs_SearchCode (sqlitevec_store sv) v k f s = (Inr found, t)" and y: "y \<in> set found"
    for s v k f found t y
  proof -
    from run obtain ds where rate: "rated (\<lambda>c. sv_distance sv (cc_Vector c) v) (filter (matches f) (vec_chunks s)) = Inr ds"
      and found: "found = map (\<lambda>(c, d). code_result c (the d)) (nearest (nat (if k \<le> 0 then 10 else k)) ds)"
      using search_code_run by (force simp: sqlitevec_store_def)
    from y found obtain c d where cd: "(c, d) \<in> set ds" and res: "y = code_result c (the d)"
      by (force dest!: nearest_in)
    with rated_in [OF rate cd] have "c \<in> set (vec_chunks s)" "matches f c" by auto
    moreover from this(1) ok have "row_at cc_key (vec_chunks s) (cc_key c) = Some c"
      by (simp add: vec_ok_def row_at_uniq)
    ultimately show ?thesis using res by (auto simp: vec_code_def code_result_def)
  qed
  show "length found \<le> nat (if k \<le> 0 then 10 else k)" if "vs_SearchCode (sqlitevec_store sv) v k f s = (Inr found, t)"
    for v k f s found t
    using that nearest_length by (fastforce simp: sqlitevec_store_def dest!: search_code_run)
  show "readonly vec_tables (vs_SearchCode (sqlitevec_store sv) v k f)" for v k f
    by (simp add: sqlitevec_store_def search_reads)
  show "b \<and> vec_groups t = vec_groups s \<and> vec_code t = (\<lambda>ck. case vec_code s ck of
        Some c \<Rightarrow> if in_repo g pv w n c then None else Some c | None \<Rightarrow> None)"
    if "vec_ok s" "vs_DeleteCodeRepo (sqlitevec_store sv) g pv w n s = (Inr b, t)" for s g pv w n b t
    using that by (auto simp: sqlitevec_store_def sv_DeleteCodeRepo_def stmt_Inr vec_groups_def vec_code_def
        vec_ok_def row_at_filter fun_eq_iff split: option.splits)
  show "all_or_nothing vec_tables (vs_DeleteCodeRepo (sqlitevec_store sv) g pv w n)" for g pv w n
    by (simp add: sqlitevec_store_def sv_DeleteCodeRepo_def)
      (intro all_or_nothing_andThen_ret all_or_nothing_wrapping all_or_nothing_update; simp)
  show "b \<longleftrightarrow> (\<exists>ck c. vec_code s ck = Some c \<and> cc_OrganizationID c = g)"
    if "vec_ok s" "vs_HasCodeChunks (sqlitevec_store sv) g s = (Inr b, t)" for s g b t
    using that row_at_ex [of cc_key "vec_chunks s" "\<lambda>c. cc_OrganizationID c = g"]
    by (simp add: sqlitevec_store_def sv_HasCodeChunks_def stmt_Inr vec_code_def vec_ok_def)
  show "readonly vec_tables (vs_HasCodeChunks (sqlitevec_store sv) g)" for g
    by (simp add: sqlitevec_store_def sv_HasCodeChunks_def) (intro readonly_wrapping readonly_query; simp)
qed (simp_all add: sqlitevec_store_def vec_keeps)

end
