(* ===== verification/GitProvider.thy ===== *)
theory GitProvider
  imports Prelude
begin

text \<open>
  The data of a repository host (\<open>internal/git/provider.go\<close>): repositories, trees, pull
  requests and what is written to them.
\<close>

record Repo =
  hr_Provider :: string
  hr_Owner :: string
  hr_Name :: string
  hr_ExternalID :: string
  hr_DefaultBranch :: string
  hr_HasReadAccess :: bool
  hr_HasWriteAccess :: bool

record TreeEntry =
  te_Path :: string
  te_Type :: string
  te_Size :: int

definition IsFile :: "TreeEntry \<Rightarrow> bool" where
  "IsFile e \<longleftrightarrow> te_Type e = ''blob''"

record FileChange =
  fc_Path :: string
  fc_Content :: string

record PRFile =
  pf_Path :: string
  pf_Status :: string
  pf_Patch :: string

record PullRequest =
  pr_Number :: int
  pr_URL :: string
  pr_Title :: string
  pr_Body :: string
  pr_State :: string
  pr_Head :: string
  pr_HeadSHA :: string
  pr_Base :: string

record PRReviewComment =
  rc_Path :: string
  rc_Line :: int
  rc_Body :: string

text \<open>The sentinels.\<close>

definition not_configured :: "string \<Rightarrow> goerr" where
  "not_configured what = Err (''git provider is not configured: '' @ what) KNotConfigured"

definition not_found :: "string \<Rightarrow> goerr" where
  "not_found what = Err (''git resource not found: '' @ what) KNotFound"

definition IsNotFound :: "goerr \<Rightarrow> bool" where
  "IsNotFound e \<longleftrightarrow> err_kind e = KNotFound"

end
