(* ===== verification/CodeIndex.thy ===== *)
theory CodeIndex
  imports VectorStore Utf8 GitProvider
begin

text \<open>
  The code index (\<open>internal/codeindex/service.go\<close>): which files of a repository are indexed, how
  a file is cut into chunks, how chunks are embedded in batches and stored, and the search.
  The repository host (the \<open>git.Provider\<close> interface), the embedding client and the vector
  store are arguments, as they are fields of the Go service; the vector store obeys the laws
  of \<open>vector_store_laws\<close>, and \<open>sqlitevec_store\<close> is one that does.

  A loop that may not end is a \<open>partial_function\<close>, \<open>None\<close> standing for not returning.
\<close>

section \<open>Which files are indexed\<close>

definition maxCodeFileBytes :: int where "maxCodeFileBytes = 1048576"
definition embedBatchSize :: nat where "embedBatchSize = 64"

definition binaryExtensions :: "string list" where
  "binaryExtensions = [''.avif'', ''.bmp'', ''.class'', ''.dll'', ''.eot'', ''.exe'', ''.gif'', ''.gz'',
     ''.ico'', ''.jar'', ''.jpeg'', ''.jpg'', ''.lock'', ''.mov'', ''.mp3'', ''.mp4'', ''.o'', ''.otf'', ''.pdf'',
     ''.png'', ''.pyc'', ''.so'', ''.svgz'', ''.tar'', ''.ttf'', ''.wav'', ''.webm'', ''.webp'', ''.woff'',
     ''.woff2'', ''.zip'']"

definition skippedSegments :: "string list" where
  "skippedSegments = [''.git'', ''node_modules'', ''vendor'', ''dist'', ''build'', ''.venv'', ''venv'', ''__pycache__'']"

text \<open>\<open>path.Base\<close> and \<open>path.Ext\<close>.\<close>

definition path_Base :: "string \<Rightarrow> string" where
  "path_Base p =
     (if p = [] then ''.''
      else let trimmed = rev (dropWhile (\<lambda>c. c = CHR ''/'') (rev p))
           in if trimmed = [] then ''/'' else last (split_on CHR ''/'' trimmed))"

definition path_Ext :: "string \<Rightarrow> string" where
  "path_Ext p = (let e = takeWhile (\<lambda>c. c \<noteq> CHR ''.'' \<and> c \<noteq> CHR ''/'') (rev p);
       rest = drop (length e) (rev p)
     in case rest of c # _ \<Rightarrow> if c = CHR ''.'' then c # rev e else [] | [] \<Rightarrow> [])"

definition indexablePath :: "string \<Rightarrow> bool" where
  "indexablePath filePath =
     (let base = path_Base filePath in
      if base = [] \<or> base = ''.'' \<or> base = ''..'' then False
      else if ToLower (path_Ext base) \<in> set binaryExtensions then False
      else \<not> (\<exists>segment \<in> set (split_on CHR ''/'' filePath). segment \<in> set skippedSegments))"

definition bytesLookBinary :: "string \<Rightarrow> bool" where
  "bytesLookBinary content \<longleftrightarrow> CHR 0x00 \<in> set (take (min (length content) 512) content)"

section \<open>Cutting a text into chunks\<close>

record textChunk =
  tc_text :: string
  tc_startLine :: nat
  tc_endLine :: nat

definition lineNumber :: "string list \<Rightarrow> nat \<Rightarrow> nat" where
  "lineNumber rs offset = 1 + length (filter (\<lambda>r. r = [CHR 0x0A]) (take offset rs))"

definition segment :: "string list \<Rightarrow> nat \<Rightarrow> nat \<Rightarrow> string" where
  "segment rs start stop = concat (take (stop - start) (drop start rs))"

definition chunk_at :: "string list \<Rightarrow> nat \<Rightarrow> nat \<Rightarrow> textChunk" where
  "chunk_at rs start stop = \<lparr>tc_text = segment rs start stop, tc_startLine = lineNumber rs start,
     tc_endLine = lineNumber rs stop\<rparr>"

text \<open>The loop of \<open>chunkText\<close> from \<open>start\<close> on.\<close>

partial_function (option) chunk_from :: "string list \<Rightarrow> nat \<Rightarrow> nat \<Rightarrow> nat \<Rightarrow> textChunk list option" where
  "chunk_from rs width step start =
     (if start < length rs then
        let stop = min (start + width) (length rs) in
        if TrimSpace (segment rs start stop) = [] then
          (if stop = length rs then Some [] else chunk_from rs width step (start + step))
        else if stop = length rs then Some [chunk_at rs start stop]
        else Option.bind (chunk_from rs width step (start + step)) (\<lambda>cs. Some (chunk_at rs start stop # cs))
      else Some [])"

declare chunk_from.simps [code]

definition chunk_step :: "nat \<Rightarrow> nat \<Rightarrow> nat" where
  "chunk_step width overlap = (if width - overlap = 0 then width else width - overlap)"

definition chunkText :: "string \<Rightarrow> nat \<Rightarrow> nat \<Rightarrow> textChunk list option" where
  "chunkText content width overlap =
     (let rs = runes content in
      if rs = [] then Some [] else chunk_from rs width (chunk_step width overlap) 0)"

text \<open>
  With a positive step the loop ends; it visits windows that leave no gap, keeps exactly the
  windows that are not blank, and each is a run of at most \<open>width\<close> runes.
\<close>

definition window :: "string list \<Rightarrow> nat \<Rightarrow> nat \<Rightarrow> nat \<Rightarrow> bool" where
  "window rs width a b \<longleftrightarrow> a < b \<and> b \<le> length rs \<and> b - a \<le> width"

lemma chunk_from_total:
  assumes "0 < step" and "step \<le> width"
  shows "\<exists>cs. chunk_from rs width step start = Some cs \<and>
    (\<forall>c \<in> set cs. \<exists>a b. window rs width a b \<and> c = chunk_at rs a b \<and> TrimSpace (tc_text c) \<noteq> []) \<and>
    (\<forall>i. start \<le> i \<and> i < length rs \<longrightarrow> (\<exists>a b. window rs width a b \<and> a \<le> i \<and> i < b \<and>
       (TrimSpace (segment rs a b) = [] \<or> chunk_at rs a b \<in> set cs)))"
proof (induction "length rs - start" arbitrary: start rule: less_induct)
  case less
  let ?stop = "min (start + width) (length rs)"
  show ?case
  proof (cases "start < length rs")
    case False
    then show ?thesis by (subst chunk_from.simps) auto
  next
    case True
    have win: "window rs width start ?stop" using True assms by (auto simp: window_def)
    show ?thesis
    proof (cases "?stop = length rs")
      case last: True
      have "\<exists>a b. window rs width a b \<and> a \<le> i \<and> i < b \<and>
          (TrimSpace (segment rs a b) = [] \<or> chunk_at rs a b \<in> set (if TrimSpace (segment rs start ?stop) = []
             then [] else [chunk_at rs start ?stop]))" if "start \<le> i" "i < length rs" for i
        using that win last by (intro exI [of _ start] exI [of _ ?stop]) auto
      moreover have "chunk_from rs width step start = Some (if TrimSpace (segment rs start ?stop) = []
             then [] else [chunk_at rs start ?stop])"
        using True last by (subst chunk_from.simps) (simp add: Let_def)
      ultimately show ?thesis using win by (auto simp: chunk_at_def)
    next
      case more: False
      have "length rs - (start + step) < length rs - start" using True assms(1) by simp
      from less.hyps [OF this] obtain cs where
        rest: "chunk_from rs width step (start + step) = Some cs"
        and sound: "\<forall>c \<in> set cs. \<exists>a b. window rs width a b \<and> c = chunk_at rs a b \<and> TrimSpace (tc_text c) \<noteq> []"
        and cover: "\<forall>i. start + step \<le> i \<and> i < length rs \<longrightarrow> (\<exists>a b. window rs width a b \<and> a \<le> i \<and> i < b \<and>
           (TrimSpace (segment rs a b) = [] \<or> chunk_at rs a b \<in> set cs))"
        by blast
      let ?cs = "if TrimSpace (segment rs start ?stop) = [] then cs else chunk_at rs start ?stop # cs"
      have run: "chunk_from rs width step start = Some ?cs"
        using True rest more by (subst chunk_from.simps) (auto simp: Let_def min_def split: if_splits)
      have "\<exists>a b. window rs width a b \<and> a \<le> i \<and> i < b \<and>
          (TrimSpace (segment rs a b) = [] \<or> chunk_at rs a b \<in> set ?cs)" if i: "start \<le> i" "i < length rs" for i
      proof (cases "start + step \<le> i")
        case True
        with cover i obtain a b where "window rs width a b" "a \<le> i" "i < b"
          "TrimSpace (segment rs a b) = [] \<or> chunk_at rs a b \<in> set cs" by blast
        then show ?thesis by (intro exI [of _ a] exI [of _ b]) auto
      next
        case False
        with i assms(2) win more show ?thesis
          by (intro exI [of _ start] exI [of _ ?stop]) auto
      qed
      moreover have "\<forall>c \<in> set ?cs. \<exists>a b. window rs width a b \<and> c = chunk_at rs a b \<and> TrimSpace (tc_text c) \<noteq> []"
        using sound win by (auto simp: chunk_at_def)
      ultimately show ?thesis using run by blast
    qed
  qed
qed

lemma chunk_step_ok: "0 < width \<Longrightarrow> 0 < chunk_step width overlap \<and> chunk_step width overlap \<le> width"
  by (simp add: chunk_step_def)

lemma chunkText_total:
  assumes "0 < width"
  shows "\<exists>cs. chunkText content width overlap = Some cs \<and>
    (\<forall>c \<in> set cs. \<exists>a b. window (runes content) width a b \<and> c = chunk_at (runes content) a b \<and> TrimSpace (tc_text c) \<noteq> []) \<and>
    (\<forall>i < length (runes content). \<exists>a b. window (runes content) width a b \<and> a \<le> i \<and> i < b \<and>
       (TrimSpace (segment (runes content) a b) = [] \<or> chunk_at (runes content) a b \<in> set cs))"
proof (cases "runes content = []")
  case False
  with chunk_from_total [of "chunk_step width overlap" width "runes content" 0] chunk_step_ok [OF assms]
  show ?thesis by (simp add: chunkText_def Let_def)
qed (simp add: chunkText_def)

section \<open>The service\<close>

text \<open>What the service uses of a repository host.\<close>

record GitProvider =
  gp_Name :: string
  gp_GetDefaultBranch :: "string \<Rightarrow> string \<Rightarrow> string res"
  gp_ReadTree :: "string \<Rightarrow> string \<Rightarrow> string \<Rightarrow> TreeEntry list res"
  gp_ReadFile :: "string \<Rightarrow> string \<Rightarrow> string \<Rightarrow> string \<Rightarrow> string res"

text \<open>
  The embedding client. Its answers change from call to call (the repository's own rotates over its
  models, and behind it is a network), so a client is an operation on a state of its own; one call of
  the service sees \<open>emb n\<close> of it, what its \<open>n\<close>-th request is answered.
\<close>

type_synonym 'e embedder = "string list \<Rightarrow> (vector list, 'e) op"

type_synonym EmbedTexts = "nat \<Rightarrow> string list \<Rightarrow> vector list res"

definition numbered :: "EmbedTexts \<Rightarrow> nat embedder" where
  "numbered emb texts n = (emb n texts, n + 1)"

record 's CodeIndex =
  ci_provider :: "GitProvider option"
  ci_embeddings :: "EmbedTexts option"
  ci_store :: "'s VectorStore option"
  ci_chunkSize :: nat
  ci_chunkOverlap :: nat

definition ci_New :: "GitProvider option \<Rightarrow> EmbedTexts option \<Rightarrow> 's VectorStore option \<Rightarrow> int \<Rightarrow> int \<Rightarrow> 's CodeIndex" where
  "ci_New provider embeddings vs chunkSize chunkOverlap =
     (let sz = (if chunkSize \<le> 0 then 1000 else chunkSize);
          ov = (if chunkOverlap < 0 \<or> chunkOverlap \<ge> sz then sz div 5 else chunkOverlap)
      in \<lparr>ci_provider = provider, ci_embeddings = embeddings, ci_store = vs,
          ci_chunkSize = nat sz, ci_chunkOverlap = nat ov\<rparr>)"

record IndexRequest =
  iq_OrganizationID :: int
  iq_Provider :: string
  iq_Owner :: string
  iq_Name :: string
  iq_Ref :: string

record IndexStats =
  is_Ref :: string
  is_FilesIndexed :: nat
  is_FilesSkipped :: nat
  is_ChunksStored :: nat

record SearchOptions =
  so_OrganizationID :: int
  so_Provider :: string
  so_Owner :: string
  so_Name :: string
  so_Ref :: string
  so_K :: int

definition ErrNotConfigured :: goerr where
  "ErrNotConfigured = Err ''git provider is not configured: no git provider is configured'' KNotConfigured"

definition nil_panic :: goerr where
  "nil_panic = errorf ''panic: nil pointer dereference''"

definition no_return :: goerr where
  "no_return = errorf ''(does not return)''"

definition skipped :: "IndexStats \<Rightarrow> IndexStats" where
  "skipped st = st\<lparr>is_FilesSkipped := is_FilesSkipped st + 1\<rparr>"

text \<open>The chunks of a file, as the rows to store (their vectors come later).\<close>

definition file_rows :: "IndexRequest \<Rightarrow> string \<Rightarrow> string \<Rightarrow> textChunk list \<Rightarrow> CodeChunk list" where
  "file_rows request providerName p cs = map (\<lambda>(i, c).
     \<lparr>cc_OrganizationID = iq_OrganizationID request, cc_Provider = providerName,
      cc_Owner = iq_Owner request, cc_Name = iq_Name request, cc_Ref = iq_Ref request, cc_Path = p,
      cc_ChunkIndex = i, cc_StartLine = tc_startLine c, cc_EndLine = tc_endLine c,
      cc_Text = tc_text c, cc_Vector = []\<rparr>) (enumerate 0 cs)"

text \<open>
  The loop over the tree. \<open>poll n\<close> is what \<open>ctx.Err()\<close> answers before the \<open>n\<close>-th entry;
  \<open>request\<close> carries the resolved ref.
\<close>

fun collect :: "'s CodeIndex \<Rightarrow> GitProvider \<Rightarrow> (nat \<Rightarrow> goerr option) \<Rightarrow> IndexRequest \<Rightarrow> string \<Rightarrow>
    nat \<Rightarrow> TreeEntry list \<Rightarrow> IndexStats \<times> CodeChunk list \<Rightarrow> (IndexStats \<times> CodeChunk list) res" where
  "collect ci host poll request providerName n [] acc = Inr acc"
| "collect ci host poll request providerName n (entry # tree) (st, chunks) =
     (case poll n of Some e \<Rightarrow> Inl e | None \<Rightarrow>
      if \<not> IsFile entry \<or> \<not> indexablePath (te_Path entry) \<or> te_Size entry > maxCodeFileBytes
      then collect ci host poll request providerName (n + 1) tree (skipped st, chunks)
      else case gp_ReadFile host (iq_Owner request) (iq_Name request) (iq_Ref request) (te_Path entry) of
        Inl e \<Rightarrow> if err_kind e = KNotFound
          then collect ci host poll request providerName (n + 1) tree (skipped st, chunks) else Inl e
      | Inr content \<Rightarrow>
          if content = [] \<or> int (length content) > maxCodeFileBytes \<or> \<not> utf8_valid content \<or> bytesLookBinary content
          then collect ci host poll request providerName (n + 1) tree (skipped st, chunks)
          else case chunkText content (ci_chunkSize ci) (ci_chunkOverlap ci) of
            None \<Rightarrow> Inl no_return
          | Some fileChunks \<Rightarrow>
              if fileChunks = [] then collect ci host poll request providerName (n + 1) tree (skipped st, chunks)
              else collect ci host poll request providerName (n + 1) tree
                (st\<lparr>is_FilesIndexed := is_FilesIndexed st + 1\<rparr>,
                 chunks @ file_rows request providerName (te_Path entry) fileChunks))"

text \<open>\<open>embedChunks\<close>: batches of \<open>embedBatchSize\<close>, each answered with one vector per text.\<close>

function embedChunks :: "'e embedder \<Rightarrow> CodeChunk list \<Rightarrow> (CodeChunk list, 'e) op" where
  "embedChunks emb chunks =
     (if chunks = [] then ret []
      else let batch = take embedBatchSize chunks in
        andThen (wrapping ''embed code chunks'' (emb (map cc_Text batch))) (\<lambda>vectors.
          if length vectors \<noteq> length batch
          then fail (errorf (''embedding provider returned '' @ FormatInt (int (length vectors)) @
                 '' vectors for '' @ FormatInt (int (length batch)) @ '' chunks''))
          else andThen (embedChunks emb (drop embedBatchSize chunks)) (\<lambda>rest.
                 ret (map2 (\<lambda>c v. c\<lparr>cc_Vector := v\<rparr>) batch vectors @ rest))))"
  by pat_completeness auto
termination by (relation "measure (\<lambda>(e, cs). length cs)") (auto simp: embedBatchSize_def)

declare embedChunks.simps [simp del]

text \<open>The end of \<open>IndexRepo\<close>, once the chunks are collected: embed, delete, store.\<close>

definition replace_index :: "'s CodeIndex \<Rightarrow> IndexRequest \<Rightarrow> string \<Rightarrow> IndexStats \<times> CodeChunk list \<Rightarrow> (IndexStats, 's) op" where
  "replace_index ci request providerName res =
     (case res of (st, chunks) \<Rightarrow>
      if chunks = [] then ret st
      else case (ci_embeddings ci, ci_store ci) of
        (Some emb, Some vs) \<Rightarrow>
          andThen (liftE (fst (embedChunks (numbered emb) chunks 0))) (\<lambda>embedded.
          andThen (vs_DeleteCodeRepo vs (iq_OrganizationID request) providerName (iq_Owner request) (iq_Name request)) (\<lambda>_.
          andThen (vs_UpsertCodeChunks vs embedded) (\<lambda>_.
            ret (st\<lparr>is_ChunksStored := length chunks\<rparr>))))
      | _ \<Rightarrow> fail nil_panic)"

definition provider_name :: "GitProvider \<Rightarrow> IndexRequest \<Rightarrow> string" where
  "provider_name host request = (if iq_Provider request = [] then gp_Name host else iq_Provider request)"

definition resolve_ref :: "GitProvider \<Rightarrow> IndexRequest \<Rightarrow> string res" where
  "resolve_ref host request =
     (if iq_Ref request = [] then gp_GetDefaultBranch host (iq_Owner request) (iq_Name request)
      else Inr (iq_Ref request))"

definition IndexRepo :: "'s CodeIndex \<Rightarrow> (nat \<Rightarrow> goerr option) \<Rightarrow> IndexRequest \<Rightarrow> (IndexStats, 's) op" where
  "IndexRepo ci poll request =
     (case ci_provider ci of None \<Rightarrow> fail ErrNotConfigured
      | Some host \<Rightarrow>
        if iq_Owner request = [] \<or> iq_Name request = []
        then fail (errorf ''repository owner and name are required'')
        else
          andThen (liftE (resolve_ref host request)) (\<lambda>ref.
          andThen (liftE (gp_ReadTree host (iq_Owner request) (iq_Name request) ref)) (\<lambda>tree.
          andThen (liftE (collect ci host poll (request\<lparr>iq_Ref := ref\<rparr>) (provider_name host request) 0 tree
              (\<lparr>is_Ref = ref, is_FilesIndexed = 0, is_FilesSkipped = 0, is_ChunksStored = 0\<rparr>, [])))
            (replace_index ci request (provider_name host request)))))"

definition ci_Search :: "'s CodeIndex \<Rightarrow> string \<Rightarrow> SearchOptions \<Rightarrow> (CodeResult list, 's) op" where
  "ci_Search ci query0 options =
     (let q = TrimSpace query0 in
      if q = [] then ret []
      else case ci_embeddings ci of
        None \<Rightarrow> fail (errorf ''embedding client is not configured'')
      | Some emb \<Rightarrow>
          andThen (liftE (emb 0 [q])) (\<lambda>vectors.
            case vectors of
              [] \<Rightarrow> fail (errorf ''embedding provider returned no vector for the query'')
            | v # _ \<Rightarrow> (case ci_store ci of
                None \<Rightarrow> fail nil_panic
              | Some vs \<Rightarrow> vs_SearchCode vs v (if so_K options \<le> 0 then 6 else so_K options)
                  \<lparr>cf_OrganizationID = so_OrganizationID options, cf_Provider = so_Provider options,
                   cf_Owner = so_Owner options, cf_Name = so_Name options, cf_Ref = so_Ref options\<rparr>)))"

definition DeleteRepo :: "'s CodeIndex \<Rightarrow> int \<Rightarrow> string \<Rightarrow> string \<Rightarrow> string \<Rightarrow> (unit, 's) op" where
  "DeleteRepo ci organizationID provider0 owner name =
     (case ci_store ci of None \<Rightarrow> fail (errorf ''vector store is not configured'')
      | Some vs \<Rightarrow>
        if organizationID = 0 then fail (errorf ''organization id is required to delete an index'')
        else
          let provider = (case ci_provider ci of Some host \<Rightarrow> if provider0 = [] then gp_Name host else provider0
                          | None \<Rightarrow> provider0)
          in andThen (vs_DeleteCodeRepo vs organizationID provider owner name) (\<lambda>_. ret ()))"

definition HasOrgIndex :: "'s CodeIndex \<Rightarrow> int \<Rightarrow> (bool, 's) op" where
  "HasOrgIndex ci organizationID =
     (case ci_store ci of None \<Rightarrow> ret False
      | Some vs \<Rightarrow> if organizationID = 0 then ret False else vs_HasCodeChunks vs organizationID)"

definition Indexed :: "'s CodeIndex option \<Rightarrow> bool" where
  "Indexed s \<longleftrightarrow> (case s of None \<Rightarrow> False | Some ci \<Rightarrow> ci_provider ci \<noteq> None)"

section \<open>What indexing collects\<close>

text \<open>A row of the repository being indexed, from a file worth indexing.\<close>

definition proper_row :: "IndexRequest \<Rightarrow> string \<Rightarrow> CodeChunk \<Rightarrow> bool" where
  "proper_row request providerName c \<longleftrightarrow>
     in_repo (iq_OrganizationID request) providerName (iq_Owner request) (iq_Name request) c \<and>
     cc_Ref c = iq_Ref request \<and> indexablePath (cc_Path c)"

lemma file_rows_proper:
  "c \<in> set (file_rows request pn p cs) \<Longrightarrow> indexablePath p \<Longrightarrow> proper_row request pn c"
  by (auto simp: file_rows_def proper_row_def in_repo_def)

lemma collect_step:
  "collect ci host poll request pn n (entry # tree) (st, cs) = Inr res \<Longrightarrow>
     collect ci host poll request pn (n + 1) tree (skipped st, cs) = Inr res \<or>
     (\<exists>fcs. indexablePath (te_Path entry) \<and>
        collect ci host poll request pn (n + 1) tree (st\<lparr>is_FilesIndexed := is_FilesIndexed st + 1\<rparr>,
          cs @ file_rows request pn (te_Path entry) fcs) = Inr res)"
  by (auto split: option.splits if_splits sum.splits)

lemma collect_result:
  "collect ci host poll request pn n tree (st, cs) = Inr (st', cs') \<Longrightarrow> (\<forall>c \<in> set cs. proper_row request pn c) \<Longrightarrow>
   (\<forall>c \<in> set cs'. proper_row request pn c) \<and> is_ChunksStored st' = is_ChunksStored st \<and> is_Ref st' = is_Ref st"
proof (induction tree arbitrary: n st cs)
  case (Cons entry tree)
  from collect_step [OF Cons.prems(1)] show ?case
  proof
    assume "collect ci host poll request pn (n + 1) tree (skipped st, cs) = Inr (st', cs')"
    from Cons.IH [OF this Cons.prems(2)] show ?thesis by (simp add: skipped_def)
  next
    assume "\<exists>fcs. indexablePath (te_Path entry) \<and>
        collect ci host poll request pn (n + 1) tree (st\<lparr>is_FilesIndexed := is_FilesIndexed st + 1\<rparr>,
          cs @ file_rows request pn (te_Path entry) fcs) = Inr (st', cs')"
    then obtain fcs where path: "indexablePath (te_Path entry)" and
      run: "collect ci host poll request pn (n + 1) tree (st\<lparr>is_FilesIndexed := is_FilesIndexed st + 1\<rparr>,
          cs @ file_rows request pn (te_Path entry) fcs) = Inr (st', cs')" by blast
    have "\<forall>c \<in> set (cs @ file_rows request pn (te_Path entry) fcs). proper_row request pn c"
      using Cons.prems(2) file_rows_proper path by auto
    from Cons.IH [OF run this] show ?thesis by simp
  qed
qed simp

text \<open>Batching does not show: rows and texts stay, one vector is put into each row.\<close>

lemma map2_rows:
  "length vs = length cs \<Longrightarrow> map2 (\<lambda>c v. c\<lparr>cc_Vector := v\<rparr>) cs vs =
     map (\<lambda>i. (cs ! i)\<lparr>cc_Vector := vs ! i\<rparr>) [0..<length cs]"
  by (rule nth_equalityI) auto

text \<open>The texts the client is asked for: batch after batch, in the order of the chunks.\<close>

definition text_batches :: "CodeChunk list \<Rightarrow> string list list" where
  "text_batches cs = map (\<lambda>k. map cc_Text (take embedBatchSize (drop (embedBatchSize * k) cs)))
     [0..<(length cs + embedBatchSize - 1) div embedBatchSize]"

lemma text_batches_Nil [simp]: "text_batches [] = []"
  by (simp add: text_batches_def embedBatchSize_def)

lemma text_batches_step:
  assumes "cs \<noteq> []"
  shows "text_batches cs = map cc_Text (take embedBatchSize cs) # text_batches (drop embedBatchSize cs)"
proof -
  have "(length cs + 63) div 64 = Suc ((length cs - 64 + 63) div 64)"
    using assms by (cases "length cs \<le> 64") (auto simp: le_div_geq neq_Nil_conv)
  then show ?thesis
    by (simp add: text_batches_def embedBatchSize_def map_upt_Suc add.commute del: upt_Suc)
qed

text \<open>The batches answered in turn, each with one vector per text.\<close>

fun answers :: "'e embedder \<Rightarrow> string list list \<Rightarrow> 'e \<Rightarrow> vector list list \<Rightarrow> 'e \<Rightarrow> bool" where
  "answers emb [] e as e' \<longleftrightarrow> as = [] \<and> e' = e"
| "answers emb (b # bs) e [] e' \<longleftrightarrow> False"
| "answers emb (b # bs) e (a # as) e' \<longleftrightarrow> (case emb b e of (Inl x, e1) \<Rightarrow> False
     | (Inr v, e1) \<Rightarrow> v = a \<and> length a = length b \<and> answers emb bs e1 as e')"

text \<open>Why an answer to a batch is refused.\<close>

definition refusal :: "string list \<Rightarrow> vector list res \<Rightarrow> goerr option" where
  "refusal b r = (case r of Inl x \<Rightarrow> Some (wrap ''embed code chunks'' x)
     | Inr vs \<Rightarrow> if length vs = length b then None
         else Some (errorf (''embedding provider returned '' @ FormatInt (int (length vs)) @
                 '' vectors for '' @ FormatInt (int (length b)) @ '' chunks'')))"

fun first_refusal :: "'e embedder \<Rightarrow> string list list \<Rightarrow> 'e \<Rightarrow> goerr \<Rightarrow> 'e \<Rightarrow> bool" where
  "first_refusal emb [] e err e' \<longleftrightarrow> False"
| "first_refusal emb (b # bs) e err e' \<longleftrightarrow> (case emb b e of (r, e1) \<Rightarrow>
     (case refusal b r of Some x \<Rightarrow> x = err \<and> e1 = e' | None \<Rightarrow> first_refusal emb bs e1 err e'))"

lemma answers_Cons:
  "answers emb (b # bs) e as e' \<longleftrightarrow>
     (\<exists>a as' e1. as = a # as' \<and> emb b e = (Inr a, e1) \<and> length a = length b \<and> answers emb bs e1 as' e')"
  by (cases as) (auto split: prod.splits sum.splits)

lemma put_vectors:
  assumes "length a = length (take n cs)"
  shows "map2 (\<lambda>c v. c\<lparr>cc_Vector := v\<rparr>) (take n cs) a @ map2 (\<lambda>c v. c\<lparr>cc_Vector := v\<rparr>) (drop n cs) vs =
    map2 (\<lambda>c v. c\<lparr>cc_Vector := v\<rparr>) cs (a @ vs)"
proof -
  have "zip cs (a @ vs) = zip (take n cs @ drop n cs) (a @ vs)" by simp
  also have "\<dots> = zip (take n cs) a @ zip (drop n cs) vs" by (rule zip_append) (use assms in simp)
  finally show ?thesis by simp
qed

lemma embedChunks_Inr:
  "embedChunks emb cs e = (Inr es, e') \<longleftrightarrow>
     (\<exists>as. answers emb (text_batches cs) e as e' \<and> es = map2 (\<lambda>c v. c\<lparr>cc_Vector := v\<rparr>) cs (concat as))"
proof (induction emb cs arbitrary: e es rule: embedChunks.induct)
  case (1 emb cs)
  show ?case
  proof (cases "cs = []")
    case True
    then show ?thesis by (subst embedChunks.simps) auto
  next
    case False
    let ?b = "take embedBatchSize cs" and ?rest = "drop embedBatchSize cs"
    have IH: "embedChunks emb ?rest e1 = (Inr rs, e') \<longleftrightarrow>
        (\<exists>as. answers emb (text_batches ?rest) e1 as e' \<and> rs = map2 (\<lambda>c v. c\<lparr>cc_Vector := v\<rparr>) ?rest (concat as))"
      if "length a = length ?b" for a :: "vector list" and e1 rs
      using "1.IH" [OF False refl, of a] that by simp
    have "embedChunks emb cs e = (Inr es, e') \<longleftrightarrow> (\<exists>a e1 rs. emb (map cc_Text ?b) e = (Inr a, e1) \<and> length a = length ?b \<and>
        embedChunks emb ?rest e1 = (Inr rs, e') \<and> es = map2 (\<lambda>c v. c\<lparr>cc_Vector := v\<rparr>) ?b a @ rs)"
      using False by (subst embedChunks.simps) (auto simp: Let_def andThen_eq_Inr wrapping_def split: prod.splits sum.splits if_splits)
    also have "\<dots> \<longleftrightarrow> (\<exists>a e1 as. emb (map cc_Text ?b) e = (Inr a, e1) \<and> length a = length ?b \<and>
        answers emb (text_batches ?rest) e1 as e' \<and> es = map2 (\<lambda>c v. c\<lparr>cc_Vector := v\<rparr>) cs (a @ concat as))"
    proof (intro iffI; elim exE conjE)
      fix a e1 rs assume *: "emb (map cc_Text ?b) e = (Inr a, e1)" "length a = length ?b"
        "embedChunks emb ?rest e1 = (Inr rs, e')" "es = map2 (\<lambda>c v. c\<lparr>cc_Vector := v\<rparr>) ?b a @ rs"
      from IH [OF *(2)] *(3) obtain as where "answers emb (text_batches ?rest) e1 as e'"
        "rs = map2 (\<lambda>c v. c\<lparr>cc_Vector := v\<rparr>) ?rest (concat as)" by blast
      with * put_vectors [OF *(2)] show "\<exists>a e1 as. emb (map cc_Text ?b) e = (Inr a, e1) \<and> length a = length ?b \<and>
        answers emb (text_batches ?rest) e1 as e' \<and> es = map2 (\<lambda>c v. c\<lparr>cc_Vector := v\<rparr>) cs (a @ concat as)" by blast
    next
      fix a e1 as assume *: "emb (map cc_Text ?b) e = (Inr a, e1)" "length a = length ?b"
        "answers emb (text_batches ?rest) e1 as e'" "es = map2 (\<lambda>c v. c\<lparr>cc_Vector := v\<rparr>) cs (a @ concat as)"
      with IH [OF *(2), of e1 "map2 (\<lambda>c v. c\<lparr>cc_Vector := v\<rparr>) ?rest (concat as)"] put_vectors [OF *(2), of "concat as"]
      show "\<exists>a e1 rs. emb (map cc_Text ?b) e = (Inr a, e1) \<and> length a = length ?b \<and>
        embedChunks emb ?rest e1 = (Inr rs, e') \<and> es = map2 (\<lambda>c v. c\<lparr>cc_Vector := v\<rparr>) ?b a @ rs" by metis
    qed
    also have "\<dots> \<longleftrightarrow> (\<exists>as. answers emb (text_batches cs) e as e' \<and> es = map2 (\<lambda>c v. c\<lparr>cc_Vector := v\<rparr>) cs (concat as))"
      unfolding text_batches_step [OF False] answers_Cons by fastforce
    finally show ?thesis .
  qed
qed

lemma embedChunks_Inl:
  "embedChunks emb cs e = (Inl err, e') \<longleftrightarrow> first_refusal emb (text_batches cs) e err e'"
proof (induction emb cs arbitrary: e rule: embedChunks.induct)
  case (1 emb cs)
  show ?case
  proof (cases "cs = []")
    case True
    then show ?thesis by (subst embedChunks.simps) auto
  next
    case False
    let ?b = "take embedBatchSize cs"
    obtain r e1 where r: "emb (map cc_Text ?b) e = (r, e1)" by fastforce
    show ?thesis
    proof (cases r)
      case (Inl x)
      with r False show ?thesis
        unfolding text_batches_step [OF False]
        by (subst embedChunks.simps) (auto simp: Let_def andThen_def wrapping_def refusal_def)
    next
      case (Inr vs)
      show ?thesis
      proof (cases "length vs = length ?b")
        case True
        from "1.IH" [OF False refl, of vs] True have IH: "embedChunks emb (drop embedBatchSize cs) e1 = (Inl err, e') \<longleftrightarrow>
            first_refusal emb (text_batches (drop embedBatchSize cs)) e1 err e'" by simp
        have "embedChunks emb cs e = (Inl err, e') \<longleftrightarrow> embedChunks emb (drop embedBatchSize cs) e1 = (Inl err, e')"
          using r Inr True False by (subst embedChunks.simps) (auto simp: Let_def andThen_def wrapping_def split: prod.splits sum.splits)
        with IH r Inr True show ?thesis unfolding text_batches_step [OF False] by (simp add: refusal_def)
      next
        case False
        note wrong = this
        have "embedChunks emb cs e = (Inl err, e') \<longleftrightarrow> errorf (''embedding provider returned '' @ FormatInt (int (length vs)) @
                 '' vectors for '' @ FormatInt (int (length ?b)) @ '' chunks'') = err \<and> e1 = e'"
          using r Inr wrong \<open>cs \<noteq> []\<close> by (subst embedChunks.simps) (simp add: Let_def andThen_def wrapping_def)
        with r Inr wrong show ?thesis unfolding text_batches_step [OF \<open>cs \<noteq> []\<close>] by (simp add: refusal_def)
      qed
    qed
  qed
qed

text \<open>So the rows stay, and one vector is put into each.\<close>

lemma answers_length: "answers emb bs e as e' \<Longrightarrow> length (concat as) = length (concat bs)"
  by (induction bs arbitrary: e as) (auto simp: answers_Cons simp del: answers.simps(3))

lemma concat_batches: "concat (text_batches cs) = map cc_Text cs"
proof (induction "length cs" arbitrary: cs rule: less_induct)
  case less
  show ?case
  proof (cases "cs = []")
    case False
    then have "concat (text_batches (drop embedBatchSize cs)) = map cc_Text (drop embedBatchSize cs)"
      by (intro less) (simp add: embedBatchSize_def)
    with False show ?thesis by (simp add: text_batches_step map_append [symmetric] del: map_append)
  qed simp
qed

lemma embedChunks_rows:
  assumes "embedChunks emb cs e = (Inr es, e')"
  shows "map (\<lambda>c. c\<lparr>cc_Vector := []\<rparr>) es = map (\<lambda>c. c\<lparr>cc_Vector := []\<rparr>) cs"
proof -
  from assms obtain as where a: "answers emb (text_batches cs) e as e'" and
    es: "es = map2 (\<lambda>c v. c\<lparr>cc_Vector := v\<rparr>) cs (concat as)" by (auto simp: embedChunks_Inr)
  from answers_length [OF a] have "length (concat as) = length cs" unfolding concat_batches by simp
  with es show ?thesis by (intro nth_equalityI) auto
qed

lemma vector_free:
  "map (\<lambda>c. c\<lparr>cc_Vector := []\<rparr>) es = map (\<lambda>c. c\<lparr>cc_Vector := []\<rparr>) cs \<Longrightarrow>
   (\<And>c v. P (c\<lparr>cc_Vector := v\<rparr>) = P c) \<Longrightarrow> (\<forall>c \<in> set cs. P c) \<Longrightarrow> (\<forall>c \<in> set es. P c)"
proof (induction es arbitrary: cs)
  case (Cons e es)
  then obtain c ds where cs: "cs = c # ds" and e: "e\<lparr>cc_Vector := []\<rparr> = c\<lparr>cc_Vector := []\<rparr>"
    and rest: "map (\<lambda>c. c\<lparr>cc_Vector := []\<rparr>) es = map (\<lambda>c. c\<lparr>cc_Vector := []\<rparr>) ds"
    by (cases cs) auto
  have "P e" using e Cons.prems(2,3) cs by (metis list.set_intros(1))
  moreover have "\<forall>c \<in> set es. P c"
    by (rule Cons.IH [OF rest Cons.prems(2)]) (use Cons.prems(3) cs in auto)
  ultimately show ?case by simp
qed simp

text \<open>The successful ends of \<open>IndexRepo\<close>.\<close>

lemma IndexRepo_collected:
  assumes "IndexRepo ci poll request s = (Inr stats, t)"
  shows "\<exists>host ref tree st chunks. ci_provider ci = Some host \<and>
    collect ci host poll (request\<lparr>iq_Ref := ref\<rparr>) (provider_name host request) 0 tree
      (\<lparr>is_Ref = ref, is_FilesIndexed = 0, is_FilesSkipped = 0, is_ChunksStored = 0\<rparr>, []) = Inr (st, chunks) \<and>
    replace_index ci request (provider_name host request) (st, chunks) s = (Inr stats, t)"
  using assms by (auto simp: IndexRepo_def andThen_eq_Inr split: option.splits if_splits)

lemma IndexRepo_cases:
  assumes "IndexRepo ci poll request s = (Inr stats, t)"
  obtains (unchanged) "is_ChunksStored stats = 0" "t = s"
  | (stored) host ref vs embedded s1 b x where "ci_provider ci = Some host" "ci_store ci = Some vs"
      "vs_DeleteCodeRepo vs (iq_OrganizationID request) (provider_name host request) (iq_Owner request)
         (iq_Name request) s = (Inr b, s1)"
      "vs_UpsertCodeChunks vs embedded s1 = (Inr x, t)" "embedded \<noteq> []"
      "is_ChunksStored stats = length embedded" "is_Ref stats = ref"
      "\<forall>c \<in> set embedded. proper_row (request\<lparr>iq_Ref := ref\<rparr>) (provider_name host request) c"
proof -
  obtain host ref tree st chunks where host: "ci_provider ci = Some host" and
    c: "collect ci host poll (request\<lparr>iq_Ref := ref\<rparr>) (provider_name host request) 0 tree
      (\<lparr>is_Ref = ref, is_FilesIndexed = 0, is_FilesSkipped = 0, is_ChunksStored = 0\<rparr>, []) = Inr (st, chunks)"
    and rest: "replace_index ci request (provider_name host request) (st, chunks) s = (Inr stats, t)"
    using IndexRepo_collected [OF assms] by blast
  have st: "is_ChunksStored st = 0" "is_Ref st = ref"
    and rows: "\<forall>c \<in> set chunks. proper_row (request\<lparr>iq_Ref := ref\<rparr>) (provider_name host request) c"
    using collect_result [OF c] by simp_all
  show thesis
  proof (cases "chunks = []")
    case True
    with rest st have "stats = st" "t = s" by (simp_all add: replace_index_def)
    with st unchanged show thesis by simp
  next
    case False
    with rest obtain emb vs embedded b s1 x where e: "fst (embedChunks (numbered emb) chunks 0) = Inr embedded"
      and v: "ci_store ci = Some vs"
      and d: "vs_DeleteCodeRepo vs (iq_OrganizationID request) (provider_name host request) (iq_Owner request)
        (iq_Name request) s = (Inr b, s1)"
      and u: "vs_UpsertCodeChunks vs embedded s1 = (Inr x, t)"
      and stats: "stats = st\<lparr>is_ChunksStored := length chunks\<rparr>"
      by (auto simp: replace_index_def andThen_eq_Inr split: option.splits)
    from e obtain n where "embedChunks (numbered emb) chunks 0 = (Inr embedded, n)" by (metis prod.collapse)
    note same = embedChunks_rows [OF this]
    then have "length embedded = length chunks" by (metis length_map)
    moreover have "\<forall>c \<in> set embedded. proper_row (request\<lparr>iq_Ref := ref\<rparr>) (provider_name host request) c"
      by (rule vector_free [OF same _ rows]) (simp add: proper_row_def in_repo_def)
    moreover have "embedded \<noteq> []" using calculation(1) False by auto
    ultimately show thesis
      using stored [OF host v d u] stats st by simp
  qed
qed

context vector_store_laws
begin

text \<open>Indexing replaces the repository's rows and nothing else, on any store with the laws.\<close>

lemma IndexRepo_replaces:
  assumes "ok s" and store: "ci_store ci = Some S" and host: "ci_provider ci = Some host"
    and run: "IndexRepo ci poll request s = (Inr stats, t)" and some: "0 < is_ChunksStored stats"
    and keyed: "\<And>k c. chunks s k = Some c \<Longrightarrow> cc_key c = k"
  shows "\<exists>rows. is_ChunksStored stats = length rows \<and>
    (\<forall>c \<in> set rows. proper_row (request\<lparr>iq_Ref := is_Ref stats\<rparr>) (provider_name host request) c) \<and>
    (\<forall>c. chunks t (cc_key c) = Some c \<and> in_repo (iq_OrganizationID request) (provider_name host request)
        (iq_Owner request) (iq_Name request) c \<longrightarrow> c \<in> set rows) \<and>
    (\<forall>c \<in> set rows. \<exists>d \<in> set rows. cc_key d = cc_key c \<and> chunks t (cc_key c) = Some d) \<and>
    (\<forall>k c. \<not> in_repo (iq_OrganizationID request) (provider_name host request) (iq_Owner request) (iq_Name request) c
        \<longrightarrow> (chunks t k = Some c \<longleftrightarrow> chunks s k = Some c)) \<and> groups t = groups s"
  using run
proof (cases rule: IndexRepo_cases)
  case unchanged
  with some show ?thesis by simp
next
  case (stored host' ref vs embedded s1 b x)
  have same: "host' = host" "vs = S" using stored(1,2) host store by simp_all
  have mine: "in_repo (iq_OrganizationID request) (provider_name host request) (iq_Owner request) (iq_Name request) c"
    if "c \<in> set embedded" for c
    using stored(8) that same by (simp add: proper_row_def)
  from replace_repo [OF assms(1) stored(3,4) [unfolded same] mine keyed]
  have "(\<forall>c. chunks t (cc_key c) = Some c \<and> in_repo (iq_OrganizationID request) (provider_name host request)
        (iq_Owner request) (iq_Name request) c \<longrightarrow> c \<in> set embedded) \<and>
    (\<forall>c \<in> set embedded. \<exists>d \<in> set embedded. cc_key d = cc_key c \<and> chunks t (cc_key c) = Some d) \<and>
    (\<forall>k c. \<not> in_repo (iq_OrganizationID request) (provider_name host request) (iq_Owner request) (iq_Name request) c
        \<longrightarrow> (chunks t k = Some c \<longleftrightarrow> chunks s k = Some c)) \<and> groups t = groups s" by blast
  with stored(6,7,8) same show ?thesis by (intro exI [of _ embedded]) simp
qed

lemma ci_Search_scoped:
  assumes "ok s" and "ci_store ci = Some S" and "ci_Search ci q options s = (Inr found, t)" and "y \<in> set found"
  shows "\<exists>c. chunks s (cc_key c) = Some c \<and> cc_OrganizationID c = so_OrganizationID options \<and>
    (so_Provider options = [] \<or> cc_Provider c = so_Provider options) \<and>
    (so_Owner options = [] \<or> cc_Owner c = so_Owner options) \<and> (so_Name options = [] \<or> cc_Name c = so_Name options) \<and>
    (so_Ref options = [] \<or> cc_Ref c = so_Ref options) \<and> y = code_result c (cs_Distance y)"
proof -
  from assms(2,3,4) obtain vectors where "(case vectors of
              [] \<Rightarrow> fail (errorf ''embedding provider returned no vector for the query'')
            | v # _ \<Rightarrow> vs_SearchCode S v (if so_K options \<le> 0 then 6 else so_K options)
                  \<lparr>cf_OrganizationID = so_OrganizationID options, cf_Provider = so_Provider options,
                   cf_Owner = so_Owner options, cf_Name = so_Name options, cf_Ref = so_Ref options\<rparr>) s = (Inr found, t)"
    by (auto simp: ci_Search_def Let_def andThen_eq_Inr simp del: if_split split: option.splits if_split_asm)
  then obtain v where "vs_SearchCode S v (if so_K options \<le> 0 then 6 else so_K options) \<lparr>cf_OrganizationID = so_OrganizationID options,
      cf_Provider = so_Provider options, cf_Owner = so_Owner options, cf_Name = so_Name options,
      cf_Ref = so_Ref options\<rparr> s = (Inr found, t)"
    by (cases vectors) simp_all
  from search_code [OF assms(1) this assms(4)] show ?thesis by (auto simp: matches_def)
qed

end

lemma vec_code_keyed: "vec_code s k = Some c \<Longrightarrow> cc_key c = k"
  by (auto simp: vec_code_def dest: row_at_key)

text \<open>A batch of one vector per text, two runs of \<open>vs_\<close> operations: where a failure can happen.\<close>

lemma IndexRepo_error_cases:
  assumes "IndexRepo ci poll request s = (Inl e, t)"
  obtains (early) "t = s"
  | (delete) host vs where "ci_provider ci = Some host" "ci_store ci = Some vs"
      "vs_DeleteCodeRepo vs (iq_OrganizationID request) (provider_name host request) (iq_Owner request)
         (iq_Name request) s = (Inl e, t)"
  | (store) host vs embedded b s1 where "ci_provider ci = Some host" "ci_store ci = Some vs"
      "vs_DeleteCodeRepo vs (iq_OrganizationID request) (provider_name host request) (iq_Owner request)
         (iq_Name request) s = (Inr b, s1)"
      "vs_UpsertCodeChunks vs embedded s1 = (Inl e, t)"
proof -
  have early: "t = s \<or> (\<exists>host res. ci_provider ci = Some host \<and>
      replace_index ci request (provider_name host request) res s = (Inl e, t))"
    using assms by (auto simp: IndexRepo_def andThen_def split: option.splits if_splits sum.splits)
  show thesis
  proof (cases "t = s")
    case True
    then show thesis by (rule that(1))
  next
    case False
    with early obtain host st chunks where h: "ci_provider ci = Some host"
      and r: "replace_index ci request (provider_name host request) (st, chunks) s = (Inl e, t)" by fastforce
    from r False obtain vs embedded where vs: "ci_store ci = Some vs" and
      r': "andThen (vs_DeleteCodeRepo vs (iq_OrganizationID request) (provider_name host request)
          (iq_Owner request) (iq_Name request)) (\<lambda>_. andThen (vs_UpsertCodeChunks vs embedded) (\<lambda>_.
            ret (st\<lparr>is_ChunksStored := length chunks\<rparr>))) s = (Inl e, t)"
      by (cases "chunks = []"; cases "ci_embeddings ci"; cases "ci_store ci")
        (auto simp: replace_index_def andThen_def split: sum.splits)
    then show thesis
      by (auto simp: andThen_def split: prod.splits sum.splits intro: that(2) [OF h vs] that(3) [OF h vs])
  qed
qed

context vector_store_laws
begin

text \<open>A failing index run leaves the old index or none: it has no third outcome.\<close>

lemma IndexRepo_failure:
  assumes "ok s" and store: "ci_store ci = Some S" and host: "ci_provider ci = Some host"
    and run: "IndexRepo ci poll request s = (Inl e, t)"
  shows "groups t = groups s \<and> (chunks t = chunks s \<or>
    chunks t = (\<lambda>k. case chunks s k of None \<Rightarrow> None
      | Some c \<Rightarrow> if in_repo (iq_OrganizationID request) (provider_name host request) (iq_Owner request)
          (iq_Name request) c then None else Some c))"
  using run
proof (cases rule: IndexRepo_error_cases)
  case early
  then show ?thesis by simp
next
  case (delete host' vs)
  with host store all_or_nothingD [OF delete_repo_err] show ?thesis by fastforce
next
  case (store host' vs embedded b s1)
  with host assms(2) have "vs_DeleteCodeRepo S (iq_OrganizationID request) (provider_name host request)
      (iq_Owner request) (iq_Name request) s = (Inr b, s1)" and u: "vs_UpsertCodeChunks S embedded s1 = (Inl e, t)"
    by simp_all
  from delete_repo [OF assms(1) this(1)] all_or_nothingD [OF upsert_chunks_err u] show ?thesis
    by (auto simp: fun_eq_iff split: option.splits)
qed

end

section \<open>Properties\<close>

text \<open>A host with one small file, an embedding that answers one vector per text, a store.\<close>

definition demo_host :: GitProvider where
  "demo_host = \<lparr>gp_Name = ''github'', gp_GetDefaultBranch = (\<lambda>owner name. Inr ''main''),
     gp_ReadTree = (\<lambda>owner name ref. Inr [\<lparr>te_Path = ''a.go'', te_Type = ''blob'', te_Size = 4\<rparr>]),
     gp_ReadFile = (\<lambda>owner name ref p. Inr ''ab c'')\<rparr>"

definition empty_host :: GitProvider where
  "empty_host = demo_host\<lparr>gp_ReadTree := \<lambda>owner name ref. Inr []\<rparr>"

definition unit_vectors :: EmbedTexts where
  "unit_vectors n ts = Inr (map (\<lambda>t. [1, 0]) ts)"

definition demo_vec :: sqlitevec where
  "demo_vec = \<lparr>sv_dimensions = 2, sv_distance = \<lambda>u v. Inr (Some 0)\<rparr>"

definition demo_index :: "GitProvider \<Rightarrow> store CodeIndex" where
  "demo_index host = ci_New (Some host) (Some unit_vectors) (Some (sqlitevec_store demo_vec)) 3 1"

definition demo_request :: IndexRequest where
  "demo_request = \<lparr>iq_OrganizationID = 1, iq_Provider = [], iq_Owner = ''o'', iq_Name = ''r'', iq_Ref = []\<rparr>"

definition demo_chunk :: "nat \<Rightarrow> CodeChunk" where
  "demo_chunk i = \<lparr>cc_OrganizationID = 1, cc_Provider = ''github'', cc_Owner = ''o'', cc_Name = ''r'',
     cc_Ref = ''main'', cc_Path = ''old.go'', cc_ChunkIndex = i, cc_StartLine = 1, cc_EndLine = 1,
     cc_Text = ''old'', cc_Vector = [1, 0]\<rparr>"

definition demo_store :: "(nat \<Rightarrow> goerr option) \<Rightarrow> store" where
  "demo_store fault = (New fault (\<lambda>_. []))\<lparr>vec_chunks := [demo_chunk 0]\<rparr>"

lemmas demo_defs = demo_host_def empty_host_def unit_vectors_def demo_vec_def demo_index_def
  demo_request_def demo_chunk_def demo_store_def

lemma demo_store_ok [simp]: "vec_ok (demo_store fault)"
  by (simp add: vec_ok_def demo_store_def New_def uniq_def)

definition never :: "nat \<Rightarrow> goerr option" where
  "never n = None"

definition indexed_once :: "IndexStats res \<times> store" where
  "indexed_once = IndexRepo (demo_index demo_host) never demo_request (demo_store never)"

lemma indexed_once_run: "isl (fst indexed_once) = False" "is_ChunksStored (projr (fst indexed_once)) = 2"
  by code_simp+

definition host_keeps :: "IndexRequest \<Rightarrow> string \<Rightarrow> CodeChunk \<Rightarrow> bool" where
  "host_keeps request provider c \<longleftrightarrow> in_repo (iq_OrganizationID request) provider (iq_Owner request) (iq_Name request) c"

text \<open>C5: A successful run of IndexRepo that stored chunks replaces the repository's index in the SQLite vector
  store: afterwards the rows of this organization's repository are exactly the new ones (each of the resolved
  ref and of an indexable path, one per key, as many reported as embedded), every row of any other
  organization or repository is as before, and the grouping vectors are untouched.\<close>

theorem IndexRepo_replaces_index:
  assumes "vec_ok s" and "ci_store ci = Some (sqlitevec_store sv)" and "ci_provider ci = Some host"
    and "IndexRepo ci poll request s = (Inr stats, t)" and "0 < is_ChunksStored stats"
  shows "\<exists>rows. is_ChunksStored stats = length rows \<and>
    (\<forall>c \<in> set rows. proper_row (request\<lparr>iq_Ref := is_Ref stats\<rparr>) (provider_name host request) c) \<and>
    (\<forall>c. vec_code t (cc_key c) = Some c \<and> host_keeps request (provider_name host request) c \<longrightarrow> c \<in> set rows) \<and>
    (\<forall>c \<in> set rows. \<exists>d \<in> set rows. cc_key d = cc_key c \<and> vec_code t (cc_key c) = Some d) \<and>
    (\<forall>k c. \<not> host_keeps request (provider_name host request) c \<longrightarrow> (vec_code t k = Some c \<longleftrightarrow> vec_code s k = Some c)) \<and>
    vec_groups t = vec_groups s"
  using sqlitevec_laws.IndexRepo_replaces [OF assms vec_code_keyed] unfolding host_keeps_def .

theorem IndexRepo_replaces_index_witness:
  "\<exists>stats t rows. IndexRepo (demo_index demo_host) never demo_request (demo_store never) = (Inr stats, t) \<and>
     length rows = 2 \<and>
     (\<forall>c. vec_code t (cc_key c) = Some c \<and> host_keeps demo_request ''github'' c \<longrightarrow> c \<in> set rows)"
proof -
  from run_Inr [OF indexed_once_run(1)] obtain stats t where
    run: "IndexRepo (demo_index demo_host) never demo_request (demo_store never) = (Inr stats, t)"
    and two: "is_ChunksStored stats = 2"
    using indexed_once_run(2) by (metis fst_conv indexed_once_def sum.sel(2))
  have "provider_name demo_host demo_request = ''github''" by (simp add: provider_name_def demo_defs)
  with IndexRepo_replaces_index [OF demo_store_ok, of "demo_index demo_host" demo_vec demo_host never demo_request never stats t]
    run two show ?thesis
    by (auto simp: demo_index_def ci_New_def)
qed

text \<open>A run of IndexRepo that fails changes nothing, or has removed this repository's rows (when the store
  refused the new chunks after the old ones were deleted): no other rows and no grouping vector are touched,
  and no partial set of new chunks is left.\<close>

theorem IndexRepo_failure_outcomes:
  assumes "vec_ok s" and "ci_store ci = Some (sqlitevec_store sv)" and "ci_provider ci = Some host"
    and "IndexRepo ci poll request s = (Inl e, t)"
  shows "vec_groups t = vec_groups s \<and> (vec_code t = vec_code s \<or>
    vec_code t = (\<lambda>k. case vec_code s k of None \<Rightarrow> None
      | Some c \<Rightarrow> if host_keeps request (provider_name host request) c then None else Some c))"
  using sqlitevec_laws.IndexRepo_failure [OF assms] unfolding host_keeps_def .

text \<open>The statement after the deletion is refused; the deletion stays.\<close>

definition second_refused :: "nat \<Rightarrow> goerr option" where
  "second_refused n = (if n = 1 then Some (errorf ''disk I/O error'') else None)"

definition index_lost :: "IndexStats res \<times> store" where
  "index_lost = IndexRepo (demo_index demo_host) never demo_request (demo_store second_refused)"

lemma index_lost_run: "isl (fst index_lost)" "vec_chunks (snd index_lost) = []"
  by code_simp+

theorem IndexRepo_failure_outcomes_witness:
  "\<exists>e t. IndexRepo (demo_index demo_host) never demo_request (demo_store second_refused) = (Inl e, t) \<and>
     vec_chunks (demo_store second_refused) = [demo_chunk 0] \<and> vec_chunks t = [] \<and>
     vec_groups t = vec_groups (demo_store second_refused)"
proof -
  from run_Inl [OF index_lost_run(1)] obtain e t where
    run: "IndexRepo (demo_index demo_host) never demo_request (demo_store second_refused) = (Inl e, t)"
    and none: "vec_chunks t = []"
    using index_lost_run(2) by (metis index_lost_def snd_conv)
  with IndexRepo_failure_outcomes [OF demo_store_ok, of "demo_index demo_host" demo_vec demo_host never demo_request second_refused e t]
  show ?thesis by (auto simp: demo_index_def ci_New_def demo_store_def)
qed

text \<open>When the tree has no file worth indexing, IndexRepo reports success and leaves the repository's old
  index in place: it does not replace every previously stored chunk.\<close>

theorem IndexRepo_keeps_stale_index:
  assumes "ci_provider ci = Some host" and "iq_Owner request \<noteq> []" and "iq_Name request \<noteq> []" and "iq_Ref request \<noteq> []"
    and "gp_ReadTree host (iq_Owner request) (iq_Name request) (iq_Ref request) = Inr tree"
    and "\<And>n. poll n = None"
    and "\<And>entry. entry \<in> set tree \<Longrightarrow> \<not> IsFile entry \<or> \<not> indexablePath (te_Path entry)"
  shows "IndexRepo ci poll request s =
    (Inr \<lparr>is_Ref = iq_Ref request, is_FilesIndexed = 0, is_FilesSkipped = length tree, is_ChunksStored = 0\<rparr>, s)"
proof -
  have skip: "collect ci host poll request pn n tree (st, cs) =
      Inr (st\<lparr>is_FilesSkipped := is_FilesSkipped st + length tree\<rparr>, cs)" for n st cs pn
    using assms(7)
  proof (induction tree arbitrary: n st)
    case (Cons entry tree)
    have "collect ci host poll request pn (n + 1) tree (skipped st, cs) =
        Inr (st\<lparr>is_FilesSkipped := is_FilesSkipped st + length (entry # tree)\<rparr>, cs)"
      using Cons.IH [of "n + 1" "skipped st"] Cons.prems by (simp add: skipped_def)
    moreover have "\<not> IsFile entry \<or> \<not> indexablePath (te_Path entry)" using Cons.prems by simp
    ultimately show ?case using assms(6) [of n] by (elim disjE) simp_all
  qed simp
  have same_ref: "request\<lparr>iq_Ref := iq_Ref request\<rparr> = request" by (cases request) simp
  show ?thesis
    using assms(1-5) skip [of "provider_name host request" 0]
    by (simp add: IndexRepo_def resolve_ref_def replace_index_def andThen_liftE same_ref)
qed

theorem IndexRepo_keeps_stale_index_witness:
  "IndexRepo (demo_index empty_host) never (demo_request\<lparr>iq_Ref := ''main''\<rparr>) (demo_store never) =
     (Inr \<lparr>is_Ref = ''main'', is_FilesIndexed = 0, is_FilesSkipped = 0, is_ChunksStored = 0\<rparr>, demo_store never) \<and>
   vec_chunks (demo_store never) = [demo_chunk 0]"
  using IndexRepo_keeps_stale_index [of "demo_index empty_host" empty_host "demo_request\<lparr>iq_Ref := ''main''\<rparr>" "[]" never
      "demo_store never"]
  by (simp add: demo_defs ci_New_def never_def)

text \<open>C10: A service made by New cuts any text without looping or failing: whatever chunk size and overlap are
  configured, chunkText returns, each chunk is a non-blank run of at most the chunk size in runes, and
  every rune of the text lies in a window that is blank or a chunk.\<close>

theorem chunkText_covers:
  fixes provider :: "GitProvider option" and vs :: "'s VectorStore option"
  shows "\<exists>cs. chunkText content (ci_chunkSize (ci_New provider embeddings vs size0 overlap))
        (ci_chunkOverlap (ci_New provider embeddings vs size0 overlap)) = Some cs \<and>
    (\<forall>c \<in> set cs. \<exists>a b. window (runes content) (ci_chunkSize (ci_New provider embeddings vs size0 overlap)) a b \<and>
       c = chunk_at (runes content) a b \<and> TrimSpace (tc_text c) \<noteq> []) \<and>
    (\<forall>i < length (runes content). \<exists>a b.
       window (runes content) (ci_chunkSize (ci_New provider embeddings vs size0 overlap)) a b \<and> a \<le> i \<and> i < b \<and>
       (TrimSpace (segment (runes content) a b) = [] \<or> chunk_at (runes content) a b \<in> set cs))"
proof -
  have "0 < ci_chunkSize (ci_New provider embeddings vs size0 overlap)"
    by (simp add: ci_New_def Let_def)
  then show ?thesis by (rule chunkText_total)
qed

theorem chunkText_covers_witness:
  "\<exists>cs. chunkText ''ab'' 1000 200 = Some cs \<and>
     (\<forall>c \<in> set cs. \<exists>a b. window (runes ''ab'') 1000 a b \<and> c = chunk_at (runes ''ab'') a b \<and> TrimSpace (tc_text c) \<noteq> [])"
proof -
  let ?ci = "ci_New (Some demo_host) (Some unit_vectors) (Some (sqlitevec_store demo_vec)) 0 (- 1)"
  have "ci_chunkSize ?ci = 1000" "ci_chunkOverlap ?ci = 200" by (simp_all add: ci_New_def)
  with chunkText_covers [of "''ab''" "Some demo_host" "Some unit_vectors" "Some (sqlitevec_store demo_vec)" 0 "- 1"]
  show ?thesis by (elim exE conjE) (intro exI conjI; simp only:)
qed

lemma lineNumber_Suc: "i < length rs \<Longrightarrow> lineNumber rs (Suc i) = lineNumber rs i + (if rs ! i = [CHR 0x0A] then 1 else 0)"
  by (simp add: lineNumber_def take_Suc_conv_app_nth)

text \<open>A chunk's start line is the line of its first rune; its end line is the line of its last rune, but one
  line too many when that rune is a newline, so that a chunk cut after a newline names a line it has no part of.\<close>

theorem chunk_line_span:
  assumes "chunkText content width overlap = Some cs" and "0 < width" and "c \<in> set cs"
  shows "\<exists>a b. window (runes content) width a b \<and> tc_text c = concat (take (b - a) (drop a (runes content))) \<and>
    tc_startLine c = lineNumber (runes content) a \<and>
    tc_endLine c = lineNumber (runes content) (b - 1) + (if runes content ! (b - 1) = [CHR 0x0A] then 1 else 0)"
proof -
  from chunkText_total [OF assms(2), of content overlap] assms(1,3) obtain a b where
    w: "window (runes content) width a b" and c: "c = chunk_at (runes content) a b" by auto
  from w have "b - 1 < length (runes content)" and "Suc (b - 1) = b" by (auto simp: window_def)
  with lineNumber_Suc [of "b - 1" "runes content"] w c show ?thesis
    by (intro exI [of _ a] exI [of _ b]) (simp add: chunk_at_def segment_def)
qed

theorem chunk_line_span_witness:
  "chunkText [CHR ''a'', CHR 0x0A] 10 2 = Some [\<lparr>tc_text = [CHR ''a'', CHR 0x0A], tc_startLine = 1, tc_endLine = 2\<rparr>] \<and>
   lineNumber (runes [CHR ''a'', CHR 0x0A]) 1 = 1 \<and>
   (\<exists>a b. window (runes [CHR ''a'', CHR 0x0A]) 10 a b)"
proof -
  have "chunkText [CHR ''a'', CHR 0x0A] 10 2 = Some [\<lparr>tc_text = [CHR ''a'', CHR 0x0A], tc_startLine = 1, tc_endLine = 2\<rparr>]"
    by code_simp
  moreover obtain a b where "window (runes [CHR ''a'', CHR 0x0A]) 10 a b"
    by (rule exE [OF chunk_line_span [OF calculation, of "\<lparr>tc_text = [CHR ''a'', CHR 0x0A], tc_startLine = 1, tc_endLine = 2\<rparr>"]])
      (simp_all only: zero_less_numeral list.set insertI1, blast)
  moreover have "lineNumber (runes [CHR ''a'', CHR 0x0A]) 1 = 1" by code_simp
  ultimately show ?thesis by blast
qed

text \<open>C11: Sending the texts to the embedding provider in batches loses and confuses nothing, whatever the provider answers
  from one request to the next. embedChunks succeeds exactly when every batch, of the texts of 64 chunks in their order
  (fewer in the last), asked for in turn, is answered with one vector per text; the vectors of all answers together,
  in order, are then put one into each chunk, and nothing else of a chunk changes. It fails exactly when some batch
  is refused or answered with another number of vectors, with the error of the first such batch, and asks
  for none after it.\<close>

theorem embedding_by_batches:
  "(embedChunks emb cs e = (Inr es, e') \<longleftrightarrow>
      (\<exists>as. answers emb (text_batches cs) e as e' \<and> es = map2 (\<lambda>c v. c\<lparr>cc_Vector := v\<rparr>) cs (concat as))) \<and>
   (embedChunks emb cs e = (Inl err, e') \<longleftrightarrow> first_refusal emb (text_batches cs) e err e')"
  by (intro conjI embedChunks_Inr embedChunks_Inl)

text \<open>For a client that embeds text by text, whatever becomes of its state, each chunk gets the vector of its own text.\<close>

theorem embedding_by_text:
  assumes "\<And>ts e. \<exists>e'. emb ts e = (Inr (map f ts), e')"
  shows "\<exists>e'. embedChunks emb cs e = (Inr (map (\<lambda>c. c\<lparr>cc_Vector := f (cc_Text c)\<rparr>) cs), e')"
proof -
  have "\<exists>e'. answers emb bs e (map (map f) bs) e'" for bs e
  proof (induction bs arbitrary: e)
    case (Cons b bs)
    from assms obtain e1 where "emb b e = (Inr (map f b), e1)" by blast
    with Cons show ?case by simp
  next
    case Nil
    have "answers emb [] e [] e" by simp
    then show ?case by auto
  qed
  then obtain e' where "answers emb (text_batches cs) e (map (map f) (text_batches cs)) e'" by blast
  moreover have "map2 (\<lambda>c v. c\<lparr>cc_Vector := v\<rparr>) cs (concat (map (map f) (text_batches cs))) = map (\<lambda>c. c\<lparr>cc_Vector := f (cc_Text c)\<rparr>) cs"
    unfolding map_concat [symmetric] concat_batches by (intro nth_equalityI) auto
  ultimately show ?thesis unfolding embedChunks_Inr
    by (intro exI [of _ e'] exI [of _ "map (map f) (text_batches cs)"] conjI) (assumption, rule sym)
qed

theorem embedding_by_text_witness:
  "\<exists>e'. embedChunks (numbered unit_vectors) (map demo_chunk [0..<100]) 0 =
     (Inr (map (\<lambda>c. c\<lparr>cc_Vector := [1, 0]\<rparr>) (map demo_chunk [0..<100])), e')"
  by (rule embedding_by_text) (simp add: numbered_def unit_vectors_def)

text \<open>C12: Search over the SQLite store answers only chunks of the organization asked for that pass every filter
  given, each as it is stored.\<close>

theorem Search_stays_in_organization:
  assumes "vec_ok s" and "ci_store ci = Some (sqlitevec_store sv)" and "ci_Search ci q options s = (Inr found, t)"
    and "y \<in> set found"
  shows "\<exists>c. vec_code s (cc_key c) = Some c \<and> cc_OrganizationID c = so_OrganizationID options \<and>
    (so_Provider options = [] \<or> cc_Provider c = so_Provider options) \<and>
    (so_Owner options = [] \<or> cc_Owner c = so_Owner options) \<and> (so_Name options = [] \<or> cc_Name c = so_Name options) \<and>
    (so_Ref options = [] \<or> cc_Ref c = so_Ref options) \<and> y = code_result c (cs_Distance y)"
  by (rule sqlitevec_laws.ci_Search_scoped [OF assms])

definition demo_options :: SearchOptions where
  "demo_options = \<lparr>so_OrganizationID = 1, so_Provider = [], so_Owner = ''o'', so_Name = [], so_Ref = [], so_K = 0\<rparr>"

definition demo_search :: "CodeResult list res \<times> store" where
  "demo_search = ci_Search (demo_index demo_host) '' old '' demo_options (demo_store never)"

lemma demo_search_run: "isl (fst demo_search) = False" "projr (fst demo_search) = [code_result (demo_chunk 0) 0]"
  by code_simp+

theorem Search_stays_in_organization_witness:
  "\<exists>t. ci_Search (demo_index demo_host) '' old '' demo_options (demo_store never) = (Inr [code_result (demo_chunk 0) 0], t) \<and>
     (\<exists>c. vec_code (demo_store never) (cc_key c) = Some c \<and> cc_OrganizationID c = 1)"
proof -
  from run_Inr [OF demo_search_run(1)] demo_search_run(2) obtain t where
    run: "ci_Search (demo_index demo_host) '' old '' demo_options (demo_store never) = (Inr [code_result (demo_chunk 0) 0], t)"
    by (metis demo_search_def fst_conv sum.sel(2))
  from Search_stays_in_organization [OF demo_store_ok, of "demo_index demo_host" demo_vec, OF _ this] run
  show ?thesis by (auto simp: demo_index_def ci_New_def demo_options_def)
qed

end
