(* ===== verification/ExplorerState.thy ===== *)
theory ExplorerState
  imports Json CodeIndex
begin

text \<open>
  The state of an explorer run and what the service computes on it without touching the
  database (\<open>internal/explorer/service.go\<close>): the JSON form of the state blob, the blocks of a
  conversation, titles, user ids, failure reasons and the question whether a query is about
  code. A nil slice of blocks and an empty one are the same list; the service never stores a
  nil one. Field names carry a prefix per record.
\<close>

section \<open>The state blob\<close>

record Message =
  em_Role :: string
  em_Content :: string

record MemoryBlock =
  mb_ID :: string
  mb_Message :: Message
  mb_Timestamp :: string
  mb_Loading :: bool

record PendingUserInput =
  pu_ID :: string
  pu_InputType :: string
  pu_Data :: "json gomap option"

record RepoPRState =
  rp_RepoName :: string
  rp_PRNumber :: "int option"
  rp_PRURL :: "string option"
  rp_PRID :: "int option"
  rp_CommitSHA :: "string option"
  rp_PRCreationStatus :: "string option"
  rp_PRCreationError :: "string option"
  rp_Title :: "string option"
  rp_Description :: "string option"

record RunState =
  es_RunID :: int
  es_Blocks :: "MemoryBlock list"
  es_Status :: string
  es_UpdatedAt :: string
  es_OwnerUserID :: "int option"
  es_PendingUserInput :: "PendingUserInput option"
  es_RepoPRStates :: "RepoPRState gomap"
  es_FailureReason :: "string option"

definition enc_Message :: "Message \<Rightarrow> json" where
  "enc_Message m = object [(''role'', Some (JStr (em_Role m))), (''content'', nonempty_string (em_Content m))]"

definition enc_MemoryBlock :: "MemoryBlock \<Rightarrow> json" where
  "enc_MemoryBlock b = object [(''id'', Some (JStr (mb_ID b))), (''message'', Some (enc_Message (mb_Message b))),
     (''timestamp'', Some (JStr (mb_Timestamp b))), (''loading'', Some (JBool (mb_Loading b)))]"

definition enc_PendingUserInput :: "PendingUserInput \<Rightarrow> json" where
  "enc_PendingUserInput p = object [(''id'', Some (JStr (pu_ID p))), (''input_type'', Some (JStr (pu_InputType p))),
     (''data'', Some (case pu_Data p of None \<Rightarrow> JNull | Some m \<Rightarrow> JObj m))]"

definition enc_RepoPRState :: "RepoPRState \<Rightarrow> json" where
  "enc_RepoPRState r = object [(''repo_name'', Some (JStr (rp_RepoName r))),
     (''pr_number'', map_option JNum (rp_PRNumber r)), (''pr_url'', map_option JStr (rp_PRURL r)),
     (''pr_id'', map_option JNum (rp_PRID r)), (''commit_sha'', map_option JStr (rp_CommitSHA r)),
     (''pr_creation_status'', map_option JStr (rp_PRCreationStatus r)),
     (''pr_creation_error'', map_option JStr (rp_PRCreationError r)),
     (''title'', map_option JStr (rp_Title r)), (''description'', map_option JStr (rp_Description r))]"

definition enc_RunState :: "RunState \<Rightarrow> json" where
  "enc_RunState s = object [(''run_id'', Some (JNum (es_RunID s))),
     (''blocks'', Some (JArr (map enc_MemoryBlock (es_Blocks s)))),
     (''status'', Some (JStr (es_Status s))), (''updated_at'', Some (JStr (es_UpdatedAt s))),
     (''owner_user_id'', map_option JNum (es_OwnerUserID s)),
     (''pending_user_input'', map_option enc_PendingUserInput (es_PendingUserInput s)),
     (''repo_pr_states'', Some (JObj (map (\<lambda>(k, r). (k, enc_RepoPRState r)) (es_RepoPRStates s)))),
     (''failure_reason'', map_option JStr (es_FailureReason s))]"

definition dec_Message :: "json \<Rightarrow> Message res" where
  "dec_Message = dec_struct (\<lambda>ms.
     bindE (field ''role'' dec_string [] ms) (\<lambda>r.
     bindE (field ''content'' dec_string [] ms) (\<lambda>c.
       Inr \<lparr>em_Role = r, em_Content = c\<rparr>)))"

definition zero_Message :: Message where
  "zero_Message = \<lparr>em_Role = [], em_Content = []\<rparr>"

definition dec_MemoryBlock :: "json \<Rightarrow> MemoryBlock res" where
  "dec_MemoryBlock = dec_struct (\<lambda>ms.
     bindE (field ''id'' dec_string [] ms) (\<lambda>i.
     bindE (field ''message'' dec_Message zero_Message ms) (\<lambda>m.
     bindE (field ''timestamp'' dec_string [] ms) (\<lambda>t.
     bindE (field ''loading'' dec_bool False ms) (\<lambda>l.
       Inr \<lparr>mb_ID = i, mb_Message = m, mb_Timestamp = t, mb_Loading = l\<rparr>)))))"

definition zero_MemoryBlock :: MemoryBlock where
  "zero_MemoryBlock = \<lparr>mb_ID = [], mb_Message = zero_Message, mb_Timestamp = [], mb_Loading = False\<rparr>"

definition dec_PendingUserInput :: "json \<Rightarrow> PendingUserInput res" where
  "dec_PendingUserInput = dec_struct (\<lambda>ms.
     bindE (field ''id'' dec_string [] ms) (\<lambda>i.
     bindE (field ''input_type'' dec_string [] ms) (\<lambda>t.
     bindE (field ''data'' (dec_ptr dec_anymap) None ms) (\<lambda>d.
       Inr \<lparr>pu_ID = i, pu_InputType = t, pu_Data = d\<rparr>))))"

definition dec_RepoPRState :: "json \<Rightarrow> RepoPRState res" where
  "dec_RepoPRState = dec_struct (\<lambda>ms.
     bindE (field ''repo_name'' dec_string [] ms) (\<lambda>n.
     bindE (field ''pr_number'' (dec_ptr dec_int64) None ms) (\<lambda>num.
     bindE (field ''pr_url'' (dec_ptr dec_string) None ms) (\<lambda>url.
     bindE (field ''pr_id'' (dec_ptr dec_int64) None ms) (\<lambda>prid.
     bindE (field ''commit_sha'' (dec_ptr dec_string) None ms) (\<lambda>sha.
     bindE (field ''pr_creation_status'' (dec_ptr dec_string) None ms) (\<lambda>cs.
     bindE (field ''pr_creation_error'' (dec_ptr dec_string) None ms) (\<lambda>ce.
     bindE (field ''title'' (dec_ptr dec_string) None ms) (\<lambda>ti.
     bindE (field ''description'' (dec_ptr dec_string) None ms) (\<lambda>de.
       Inr \<lparr>rp_RepoName = n, rp_PRNumber = num, rp_PRURL = url, rp_PRID = prid, rp_CommitSHA = sha,
            rp_PRCreationStatus = cs, rp_PRCreationError = ce, rp_Title = ti, rp_Description = de\<rparr>))))))))))"

definition zero_RepoPRState :: RepoPRState where
  "zero_RepoPRState = \<lparr>rp_RepoName = [], rp_PRNumber = None, rp_PRURL = None, rp_PRID = None,
     rp_CommitSHA = None, rp_PRCreationStatus = None, rp_PRCreationError = None, rp_Title = None,
     rp_Description = None\<rparr>"

definition dec_RunState :: "json \<Rightarrow> RunState res" where
  "dec_RunState = dec_struct (\<lambda>ms.
     bindE (field ''run_id'' dec_int64 0 ms) (\<lambda>i.
     bindE (field ''blocks'' (dec_array dec_MemoryBlock zero_MemoryBlock) [] ms) (\<lambda>bs.
     bindE (field ''status'' dec_string [] ms) (\<lambda>st.
     bindE (field ''updated_at'' dec_string [] ms) (\<lambda>u.
     bindE (field ''owner_user_id'' (dec_ptr dec_int64) None ms) (\<lambda>ow.
     bindE (field ''pending_user_input'' (dec_ptr dec_PendingUserInput) None ms) (\<lambda>p.
     bindE (field ''repo_pr_states'' (dec_map dec_RepoPRState zero_RepoPRState) [] ms) (\<lambda>rs.
     bindE (field ''failure_reason'' (dec_ptr dec_string) None ms) (\<lambda>fr.
       Inr \<lparr>es_RunID = i, es_Blocks = bs, es_Status = st, es_UpdatedAt = u, es_OwnerUserID = ow,
            es_PendingUserInput = p, es_RepoPRStates = rs, es_FailureReason = fr\<rparr>)))))))))"

text \<open>\<open>decodeRunState\<close>; a nil map of PR states is replaced by an empty one.\<close>

definition decodeRunState :: "blob \<Rightarrow> RunState res" where
  "decodeRunState raw = (case unmarshal dec_RunState raw of
     Inl e \<Rightarrow> Inl (wrap ''decode explorer run state'' e) | Inr s \<Rightarrow> Inr s)"

subsection \<open>The round trip\<close>

text \<open>What Go's types guarantee of a state: integers fit in 64 bits and maps have distinct keys.\<close>

definition wf_repo :: "RepoPRState \<Rightarrow> bool" where
  "wf_repo r \<longleftrightarrow> pred_option fits64 (rp_PRNumber r) \<and> pred_option fits64 (rp_PRID r)"

definition wf_state :: "RunState \<Rightarrow> bool" where
  "wf_state s \<longleftrightarrow> fits64 (es_RunID s) \<and> pred_option fits64 (es_OwnerUserID s) \<and>
     pred_option (\<lambda>p. pred_option wf_map (pu_Data p)) (es_PendingUserInput s) \<and>
     wf_map (es_RepoPRStates s) \<and> (\<forall>r \<in> set (es_RepoPRStates s). wf_repo (snd r))"

lemma struct_keys:
  "fold_distinct [''role'', ''content'']" "fold_distinct [''id'', ''message'', ''timestamp'', ''loading'']"
  "fold_distinct [''id'', ''input_type'', ''data'']"
  "fold_distinct [''repo_name'', ''pr_number'', ''pr_url'', ''pr_id'', ''commit_sha'', ''pr_creation_status'',
     ''pr_creation_error'', ''title'', ''description'']"
  "fold_distinct [''run_id'', ''blocks'', ''status'', ''updated_at'', ''owner_user_id'', ''pending_user_input'',
     ''repo_pr_states'', ''failure_reason'']"
  by code_simp+

lemmas struct_eval = object_def field_object struct_keys field_ptr

lemma enc_not_null [simp]:
  "enc_Message m \<noteq> JNull" "enc_MemoryBlock b \<noteq> JNull" "enc_PendingUserInput p \<noteq> JNull" "enc_RepoPRState r \<noteq> JNull"
  by (simp_all add: enc_Message_def enc_MemoryBlock_def enc_PendingUserInput_def enc_RepoPRState_def)

lemma dec_enc_Message [simp]: "dec_Message (enc_Message m) = Inr m"
  by (cases m) (simp add: dec_Message_def enc_Message_def struct_eval nonempty_string_def)

lemma dec_enc_MemoryBlock [simp]: "dec_MemoryBlock (enc_MemoryBlock b) = Inr b"
  by (cases b) (simp add: dec_MemoryBlock_def enc_MemoryBlock_def struct_eval)

lemma dec_enc_Pending:
  "pred_option wf_map (pu_Data p) \<Longrightarrow> dec_PendingUserInput (enc_PendingUserInput p) = Inr p"
  by (cases p; cases "pu_Data p")
    (simp_all add: dec_PendingUserInput_def enc_PendingUserInput_def struct_eval dec_ptr_def of_members_wf)

lemma dec_enc_Repo: "wf_repo r \<Longrightarrow> dec_RepoPRState (enc_RepoPRState r) = Inr r"
  by (cases r) (simp add: dec_RepoPRState_def enc_RepoPRState_def struct_eval wf_repo_def fits64_def pred_option_def del: case_map_option)

lemma dec_enc_RunState:
  assumes "wf_state s" shows "dec_RunState (enc_RunState s) = Inr s"
proof -
  have b: "dec_elems dec_MemoryBlock zero_MemoryBlock (map enc_MemoryBlock bs) = Inr bs" for bs
    by (rule dec_elems_map) simp
  have r: "dec_map dec_RepoPRState zero_RepoPRState
      (JObj (map (\<lambda>(k, r). (k, enc_RepoPRState r)) (es_RepoPRStates s))) = Inr (es_RepoPRStates s)"
    by (rule dec_map_enc) (use assms dec_enc_Repo in \<open>force simp: wf_state_def\<close>)+
  show ?thesis
    using assms r by (cases s) (simp add: dec_RunState_def enc_RunState_def struct_eval
        b wf_state_def fits64_def pred_option_def dec_enc_Pending del: dec_map.simps case_map_option)
qed

lemma decode_encoded: "wf_state s \<Longrightarrow> decodeRunState (marshal (enc_RunState s)) = Inr s"
  by (simp add: decodeRunState_def marshal_def dec_enc_RunState)

end
