(* ===== verification/ExplorerBlocks.thy ===== *)
theory ExplorerBlocks
  imports ExplorerState
begin

text \<open>
  What the explorer computes without touching the database (\<open>internal/explorer/service.go\<close>): the
  blocks of a conversation, titles, user ids, failure reasons, the input a user submitted, and
  whether a query is about code.
\<close>

section \<open>Blocks\<close>

definition makeBlock :: "string \<Rightarrow> string \<Rightarrow> nat \<Rightarrow> string \<Rightarrow> MemoryBlock" where
  "makeBlock role content sequence timestamp =
     \<lparr>mb_ID = ''block-'' @ FormatInt (int sequence), mb_Message = \<lparr>em_Role = role, em_Content = content\<rparr>,
      mb_Timestamp = timestamp, mb_Loading = False\<rparr>"

definition makeLoadingBlock :: "nat \<Rightarrow> string \<Rightarrow> MemoryBlock" where
  "makeLoadingBlock sequence timestamp = (makeBlock ''assistant'' [] sequence timestamp)\<lparr>mb_Loading := True\<rparr>"

text \<open>The loop of \<open>resolveLoadingBlock\<close> runs from the last block to the first.\<close>

fun fill_first_loading :: "string \<Rightarrow> string \<Rightarrow> MemoryBlock list \<Rightarrow> MemoryBlock list option" where
  "fill_first_loading reply timestamp [] = None"
| "fill_first_loading reply timestamp (b # bs) =
     (if mb_Loading b
      then Some (b\<lparr>mb_Message := (mb_Message b)\<lparr>em_Content := reply\<rparr>, mb_Loading := False, mb_Timestamp := timestamp\<rparr> # bs)
      else map_option ((#) b) (fill_first_loading reply timestamp bs))"

definition resolveLoadingBlock :: "MemoryBlock list \<Rightarrow> string \<Rightarrow> string \<Rightarrow> MemoryBlock list" where
  "resolveLoadingBlock blocks reply timestamp =
     (case fill_first_loading reply timestamp (rev blocks) of
        Some bs \<Rightarrow> rev bs
      | None \<Rightarrow> blocks @ [makeBlock ''assistant'' reply (length blocks + 1) timestamp])"

definition dropLoadingBlocks :: "MemoryBlock list \<Rightarrow> MemoryBlock list" where
  "dropLoadingBlocks blocks = filter (\<lambda>b. \<not> mb_Loading b) blocks"

definition loading_blocks :: "MemoryBlock list \<Rightarrow> nat" where
  "loading_blocks bs = length (filter mb_Loading bs)"

lemma makeBlock_loading [simp]: "\<not> mb_Loading (makeBlock r c n t)" "mb_Loading (makeLoadingBlock n t)"
  by (simp_all add: makeBlock_def makeLoadingBlock_def)

lemma loading_simps [simp]:
  "loading_blocks [] = 0" "loading_blocks (xs @ ys) = loading_blocks xs + loading_blocks ys"
  "loading_blocks (b # bs) = (if mb_Loading b then 1 else 0) + loading_blocks bs"
  "loading_blocks (rev bs) = loading_blocks bs" "loading_blocks (dropLoadingBlocks bs) = 0"
  by (simp_all add: loading_blocks_def dropLoadingBlocks_def rev_filter [symmetric])

lemma fill_None: "fill_first_loading r t bs = None \<longleftrightarrow> loading_blocks bs = 0"
  by (induction bs) auto

lemma fill_Some: "fill_first_loading r t bs = Some cs \<Longrightarrow>
    loading_blocks bs = Suc (loading_blocks cs) \<and> length cs = length bs"
  by (induction bs arbitrary: cs) auto

lemma fill_at: "fill_first_loading r t bs = Some cs \<Longrightarrow>
    \<exists>i < length bs. mb_Loading (bs ! i) \<and> (\<forall>j < i. \<not> mb_Loading (bs ! j)) \<and>
      cs = bs[i := (bs ! i)\<lparr>mb_Message := (mb_Message (bs ! i))\<lparr>em_Content := r\<rparr>, mb_Loading := False, mb_Timestamp := t\<rparr>]"
proof (induction bs arbitrary: cs)
  case (Cons b bs)
  show ?case
  proof (cases "mb_Loading b")
    case True
    with Cons.prems show ?thesis by (intro exI [of _ 0]) simp
  next
    case False
    with Cons.prems obtain ds where ds: "fill_first_loading r t bs = Some ds" "cs = b # ds" by auto
    from Cons.IH [OF ds(1)] obtain i where i: "i < length bs" "mb_Loading (bs ! i)" "\<forall>j < i. \<not> mb_Loading (bs ! j)"
      "ds = bs[i := (bs ! i)\<lparr>mb_Message := (mb_Message (bs ! i))\<lparr>em_Content := r\<rparr>, mb_Loading := False, mb_Timestamp := t\<rparr>]"
      by blast
    with False ds(2) show ?thesis
      by (intro exI [of _ "Suc i"]) (auto simp: less_Suc_eq_0_disj)
  qed
qed simp

text \<open>
  A reply either fills the last pending block, leaving every other block, or is appended; one
  pending block fewer remains.
\<close>

lemma resolve_pending:
  "loading_blocks bs = 1 + n \<Longrightarrow> loading_blocks (resolveLoadingBlock bs r t) = n \<and> length (resolveLoadingBlock bs r t) = length bs"
  using fill_None [of r t "rev bs"] fill_Some [of r t "rev bs"]
  by (cases "fill_first_loading r t (rev bs)") (auto simp: resolveLoadingBlock_def)

lemma resolve_none: "loading_blocks bs = 0 \<Longrightarrow>
    resolveLoadingBlock bs r t = bs @ [makeBlock ''assistant'' r (length bs + 1) t]"
  using fill_None [of r t "rev bs"] by (simp add: resolveLoadingBlock_def)

section \<open>Titles, users and failures\<close>

definition summarizeTitle :: "string \<Rightarrow> string" where
  "summarizeTitle q =
     (let title = TrimSpace (replace_char CHR 0x0A CHR '' '' q) in
      if title = [] then ''Seer Explorer run''
      else if length title \<le> 120 then title
      else TrimSpace (take 117 title) @ ''...'')"

lemma summarizeTitle_length: "length (summarizeTitle q) \<le> 120 \<and> summarizeTitle q \<noteq> []"
  using TrimSpace_length [of "take 117 (TrimSpace (replace_char CHR 0x0A CHR '' '' q))"]
  by (auto simp: summarizeTitle_def Let_def)

text \<open>
  The \<open>float64\<close> a number with a fraction or an exponent is read as, converted to \<open>int64\<close>: cut
  towards zero; a value out of range converts to the least integer (the amd64 instruction).
\<close>

definition digits_of :: "string \<Rightarrow> nat" where
  "digits_of s = (case parse_digits 0 s of None \<Rightarrow> 0 | Some n \<Rightarrow> n)"

definition exponent_of :: "string \<Rightarrow> int" where
  "exponent_of s = (case s of c # cs \<Rightarrow> if c = CHR ''-'' then - int (digits_of cs)
       else if c = CHR ''+'' then int (digits_of cs) else int (digits_of s) | [] \<Rightarrow> 0)"

definition decimal_trunc :: "string \<Rightarrow> int" where
  "decimal_trunc lit =
     (let (neg, s) = (case lit of c # cs \<Rightarrow> if c = CHR ''-'' then (True, cs) else (False, lit) | [] \<Rightarrow> (False, lit));
          mant = takeWhile (\<lambda>c. c \<noteq> CHR ''e'' \<and> c \<noteq> CHR ''E'') s;
          ex = exponent_of (drop 1 (dropWhile (\<lambda>c. c \<noteq> CHR ''e'' \<and> c \<noteq> CHR ''E'') s));
          whole = takeWhile (\<lambda>c. c \<noteq> CHR ''.'') mant;
          frac = drop 1 (dropWhile (\<lambda>c. c \<noteq> CHR ''.'') mant);
          n = digits_of (whole @ frac);
          k = ex - int (length frac);
          mag = (if k \<ge> 0 then n * 10 ^ nat k else n div 10 ^ nat (- k))
      in if neg then - int mag else int mag)"

definition float_to_int64 :: "int \<Rightarrow> int" where
  "float_to_int64 n = (if - (2 ^ 63) \<le> n \<and> n < 2 ^ 63 then n else - (2 ^ 63))"

definition extractUserID :: "json gomap \<Rightarrow> int option" where
  "extractUserID ctxt =
     (case map_of ctxt ''user_id'' of
        Some (JNum n) \<Rightarrow> Some (float_to_int64 n)
      | Some (JDec lit) \<Rightarrow> Some (float_to_int64 (decimal_trunc lit))
      | Some (JStr s) \<Rightarrow> ParseInt (TrimSpace s)
      | _ \<Rightarrow> None)"

lemma ParseInt_fits: "ParseInt s = Some n \<Longrightarrow> fits64 n"
  by (auto simp: ParseInt_def fits64_def Let_def split: option.splits if_splits list.splits)

lemma extractUserID_fits: "pred_option fits64 (extractUserID ctxt)"
  using ParseInt_fits
  by (auto simp: extractUserID_def float_to_int64_def fits64_def pred_option_def
      split: option.splits json.splits if_splits)

definition classifyFailure :: "goerr \<Rightarrow> string" where
  "classifyFailure cause =
     (if err_kind cause = KCanceled then ''shutdown''
      else if err_kind cause = KDeadline \<or> err_kind cause = KTimeout then ''timeout''
      else err_text cause)"

section \<open>Payloads\<close>

fun first_answer :: "json gomap \<Rightarrow> string list \<Rightarrow> string" where
  "first_answer payload [] = []"
| "first_answer payload (k # ks) =
     (case as_string (map_of payload k) of
        Some v \<Rightarrow> if TrimSpace v \<noteq> [] then TrimSpace v else first_answer payload ks
      | None \<Rightarrow> first_answer payload ks)"

definition submittedInput :: "json gomap \<Rightarrow> string" where
  "submittedInput payload =
     first_answer payload [''response'', ''input'', ''content'', ''message'', ''text'', ''answer'']"

definition pendingUserInput :: "json gomap \<Rightarrow> PendingUserInput" where
  "pendingUserInput payload =
     (case as_map (map_of payload ''pending_user_input'') of
        None \<Rightarrow> \<lparr>pu_ID = ''pending-input'', pu_InputType = ''user_input'', pu_Data = Some []\<rparr>
      | Some raw \<Rightarrow>
          \<lparr>pu_ID = (case as_string (map_of raw ''id'') of Some i \<Rightarrow> if i \<noteq> [] then i else ''pending-input''
                    | None \<Rightarrow> ''pending-input''),
           pu_InputType = (case as_string (map_of raw ''input_type'') of Some t \<Rightarrow> if t \<noteq> [] then t else ''user_input''
                           | None \<Rightarrow> ''user_input''),
           pu_Data = Some (case as_map (map_of raw ''data'') of Some d \<Rightarrow> d | None \<Rightarrow> raw)\<rparr>)"

lemma as_map_wf: "as_map v = Some m \<Longrightarrow> wf_map m"
  by (auto simp: as_map_def split: option.splits json.splits)

lemma pendingUserInput_wf: "pred_option wf_map (pu_Data (pendingUserInput payload))"
  by (auto simp: pendingUserInput_def dest: as_map_wf split: option.splits)

section \<open>Questions about code\<close>

text \<open>
  \<open>codeExtensionPattern\<close>: somewhere, between two word boundaries, at least one character of a
  path, a dot and one of the extensions.
\<close>

definition word_char :: "char \<Rightarrow> bool" where
  "word_char c = (let n = of_char c :: nat in (48 \<le> n \<and> n \<le> 57) \<or> (65 \<le> n \<and> n \<le> 90) \<or> n = 95 \<or> (97 \<le> n \<and> n \<le> 122))"

definition path_char :: "char \<Rightarrow> bool" where
  "path_char c \<longleftrightarrow> word_char c \<or> c = CHR ''.'' \<or> c = CHR ''/'' \<or> c = CHR ''-''"

definition boundary :: "string \<Rightarrow> nat \<Rightarrow> bool" where
  "boundary s i \<longleftrightarrow> (0 < i \<and> word_char (s ! (i - 1))) \<noteq> (i < length s \<and> word_char (s ! i))"

definition codeExtensions :: "string list" where
  "codeExtensions = [''go'', ''py'', ''ts'', ''tsx'', ''js'', ''jsx'', ''rb'', ''java'', ''kt'', ''rs'', ''c'', ''h'', ''cc'',
     ''cpp'', ''cs'', ''php'', ''swift'', ''scala'', ''sql'', ''sh'', ''yml'', ''yaml'']"

definition file_reference :: "string \<Rightarrow> bool" where
  "file_reference m \<longleftrightarrow> (\<exists>e \<in> set codeExtensions. let stem = take (length m - length e - 1) m in
     m = stem @ ''.'' @ e \<and> stem \<noteq> [] \<and> list_all path_char stem)"

definition codeExtensionPattern :: "string \<Rightarrow> bool" where
  "codeExtensionPattern s = list_ex (\<lambda>i. boundary s i \<and>
     list_ex (\<lambda>j. boundary s j \<and> file_reference (take (j - i) (drop i s))) [i ..< Suc (length s)]) [0 ..< length s]"

definition codeKeywords :: "string list" where
  "codeKeywords = [''function'', ''class'', ''method'', ''implement'', ''stacktrace'', ''stack trace'', ''traceback'',
     ''symbol'', ''repository'', ''repo '', ''code'', ''file'', ''module'', ''package'', ''exception'']"

definition looksLikeCodeQuery :: "string \<Rightarrow> bool" where
  "looksLikeCodeQuery q =
     (let lowered = ToLower q in codeExtensionPattern lowered \<or> (\<exists>k \<in> set codeKeywords. Contains lowered k))"

end
