(* ===== verification/Runmgr.thy ===== *)
theory Runmgr
  imports Json
begin

text \<open>
  The background run manager (\<open>internal/runmgr/runmgr.go\<close>). A cancel function is a handle;
  \<open>inflight\<close> is the map from keys to handles, \<open>cancelled\<close> the handles whose context was
  cancelled, \<open>root_cancelled\<close> tells whether the process-lifetime context was, and
  \<open>goroutines\<close> lists the launched goroutines that have not ended, with the task each runs
  (the wait group counts them). The three deferred calls at the end of a goroutine are one
  step, \<open>finish\<close>; the body of \<open>Start\<close> under the mutex and the launch are one step as well.

  \<open>mgr_step\<close> lets these steps interleave in any order; \<open>reachable\<close> is what they lead to.
\<close>

section \<open>State and operations\<close>

record 't goroutine =
  g_handle :: nat
  g_key :: string
  g_task :: 't

record 't Manager =
  inflight :: "nat gomap"
  cancelled :: "nat set"
  root_cancelled :: bool
  goroutines :: "'t goroutine list"
  next_handle :: nat

definition mgr_New :: "'t Manager" where
  "mgr_New = \<lparr>inflight = [], cancelled = {}, root_cancelled = False, goroutines = [], next_handle = 0\<rparr>"

text \<open>\<open>delete(m, k)\<close> on a Go map.\<close>

definition mdelete :: "'k \<Rightarrow> ('k \<times> 'v) list \<Rightarrow> ('k \<times> 'v) list" where
  "mdelete k m = filter (\<lambda>e. fst e \<noteq> k) m"

definition mgr_Start :: "string \<Rightarrow> 't \<Rightarrow> 't Manager \<Rightarrow> 't Manager" where
  "mgr_Start key task m =
     (let h = next_handle m;
          cs = (case map_of (inflight m) key of Some previous \<Rightarrow> insert previous (cancelled m) | None \<Rightarrow> cancelled m)
      in m\<lparr>inflight := mput key h (inflight m), cancelled := cs,
           goroutines := goroutines m @ [\<lparr>g_handle = h, g_key = key, g_task = task\<rparr>],
           next_handle := h + 1\<rparr>)"

text \<open>The deferred calls of a goroutine, once its task has returned or panicked.\<close>

definition finish :: "'t goroutine \<Rightarrow> 't Manager \<Rightarrow> 't Manager" where
  "finish g m = m\<lparr>inflight := mdelete (g_key g) (inflight m),
     cancelled := insert (g_handle g) (cancelled m),
     goroutines := filter (\<lambda>x. g_handle x \<noteq> g_handle g) (goroutines m)\<rparr>"

definition Cancel :: "string \<Rightarrow> 't Manager \<Rightarrow> 't Manager" where
  "Cancel key m =
     (case map_of (inflight m) key of Some h \<Rightarrow> m\<lparr>cancelled := insert h (cancelled m)\<rparr> | None \<Rightarrow> m)"

definition CancelAll :: "'t Manager \<Rightarrow> 't Manager" where
  "CancelAll m = m\<lparr>root_cancelled := True\<rparr>"

definition Inflight :: "'t Manager \<Rightarrow> string list" where
  "Inflight m = map fst (inflight m)"

text \<open>\<open>Wait\<close> returns when the wait group is at zero.\<close>

definition drained :: "'t Manager \<Rightarrow> bool" where
  "drained m \<longleftrightarrow> goroutines m = []"

text \<open>Whether the context handed to the task of goroutine \<open>g\<close> is done.\<close>

definition ctx_done :: "'t goroutine \<Rightarrow> 't Manager \<Rightarrow> bool" where
  "ctx_done g m \<longleftrightarrow> root_cancelled m \<or> g_handle g \<in> cancelled m"

definition task_ctx :: "'t goroutine \<Rightarrow> 't Manager \<Rightarrow> goerr option" where
  "task_ctx g m = (if ctx_done g m then Some (Err ''context canceled'' KCanceled) else None)"

text \<open>
  \<open>WaitContext\<close>: the answers its \<open>select\<close> may give. A ready case is one whose channel is closed:
  the one of the waiting goroutine, once the manager has drained, and the one of the caller's context,
  when it is done. With both ready Go picks either; with none the call blocks.
\<close>

definition WaitContext :: "goerr option \<Rightarrow> 't Manager \<Rightarrow> unit res list" where
  "WaitContext ctx m = (if drained m then [Inr ()] else []) @
     (case ctx of None \<Rightarrow> [] | Some e \<Rightarrow> [Inl (wrap ''wait for background runs'' e)])"

section \<open>Interleavings\<close>

inductive mgr_step :: "'t Manager \<Rightarrow> 't Manager \<Rightarrow> bool" where
  start: "mgr_step m (mgr_Start key task m)"
| finish: "g \<in> set (goroutines m) \<Longrightarrow> mgr_step m (finish g m)"
| cancel: "mgr_step m (Cancel key m)"
| cancel_all: "mgr_step m (CancelAll m)"

inductive reachable :: "'t Manager \<Rightarrow> bool" where
  init: "reachable mgr_New"
| step: "reachable m \<Longrightarrow> mgr_step m m' \<Longrightarrow> reachable m'"

inductive_cases mgr_stepE: "mgr_step m m'"

text \<open>
  Handles are fresh and every entry of the map belongs to a goroutine that is still there,
  the latest one started under its key.
\<close>

definition entries_ok :: "nat gomap \<Rightarrow> 't goroutine list \<Rightarrow> bool" where
  "entries_ok fl gs \<longleftrightarrow> (\<forall>k h. map_of fl k = Some h \<longrightarrow>
     (\<exists>g \<in> set gs. g_handle g = h \<and> g_key g = k) \<and>
     (\<forall>g \<in> set gs. g_key g = k \<longrightarrow> g_handle g \<le> h))"

definition mgr_inv :: "'t Manager \<Rightarrow> bool" where
  "mgr_inv m \<longleftrightarrow> wf_map (inflight m) \<and> distinct (map g_handle (goroutines m)) \<and>
     (\<forall>g \<in> set (goroutines m). g_handle g < next_handle m) \<and>
     (\<forall>h \<in> cancelled m. h < next_handle m) \<and> entries_ok (inflight m) (goroutines m)"

lemma entryE:
  assumes "mgr_inv m" and "map_of (inflight m) k = Some h"
  obtains g where "g \<in> set (goroutines m)" "g_handle g = h" "g_key g = k"
    "\<And>x. x \<in> set (goroutines m) \<Longrightarrow> g_key x = k \<Longrightarrow> g_handle x \<le> h"
  using assms unfolding mgr_inv_def entries_ok_def by blast

lemma map_of_mdelete [simp]: "map_of (mdelete k m) = (map_of m)(k := None)"
  unfolding mdelete_def by (induction m) (auto simp: fun_eq_iff)

lemma wf_mdelete [simp]: "wf_map m \<Longrightarrow> wf_map (mdelete k m)"
  by (simp add: wf_map_def mdelete_def distinct_map_filter)

lemma mgr_inv_New: "mgr_inv mgr_New"
  by (simp add: mgr_inv_def mgr_New_def entries_ok_def)

lemma inv_entry: "mgr_inv m \<Longrightarrow> map_of (inflight m) k = Some h \<Longrightarrow> h < next_handle m"
  by (frule (1) entryE) (auto simp: mgr_inv_def)

lemma mgr_inv_Start:
  assumes "mgr_inv m" shows "mgr_inv (mgr_Start key task m)"
proof -
  have old: "g_handle g < next_handle m" if "g \<in> set (goroutines m)" for g
    using assms that by (simp add: mgr_inv_def)
  have entry: "h < next_handle m" if "map_of (inflight m) k = Some h" for k h
    using assms that by (rule inv_entry)
  have cs: "h < next_handle m" if "h \<in> cancelled m" for h
    using assms that by (simp add: mgr_inv_def)
  show ?thesis
    unfolding mgr_inv_def entries_ok_def
  proof (intro conjI allI ballI impI)
    show "wf_map (inflight (mgr_Start key task m))"
      using assms by (simp add: mgr_inv_def mgr_Start_def Let_def)
    show "distinct (map g_handle (goroutines (mgr_Start key task m)))"
      using assms old by (force simp: mgr_inv_def mgr_Start_def Let_def)
    show "g_handle g < next_handle (mgr_Start key task m)"
      if "g \<in> set (goroutines (mgr_Start key task m))" for g
      using that old by (auto simp: mgr_Start_def Let_def intro: less_SucI)
    show "h < next_handle (mgr_Start key task m)" if "h \<in> cancelled (mgr_Start key task m)" for h
      using that cs entry by (auto simp: mgr_Start_def Let_def split: option.splits intro: less_SucI)
  next
    fix k h assume e: "map_of (inflight (mgr_Start key task m)) k = Some h"
    show "\<exists>g \<in> set (goroutines (mgr_Start key task m)). g_handle g = h \<and> g_key g = k"
    proof (cases "k = key")
      case True
      with e show ?thesis by (simp add: mgr_Start_def Let_def)
    next
      case False
      with e have "map_of (inflight m) k = Some h" by (simp add: mgr_Start_def Let_def)
      with assms show ?thesis by (rule entryE) (auto simp: mgr_Start_def Let_def)
    qed
    fix g assume g: "g \<in> set (goroutines (mgr_Start key task m))" "g_key g = k"
    then have new: "g_handle g \<le> next_handle m"
      using old by (auto simp: mgr_Start_def Let_def intro: less_imp_le)
    show "g_handle g \<le> h"
    proof (cases "k = key")
      case True
      with e new show ?thesis by (simp add: mgr_Start_def Let_def)
    next
      case False
      with e have "map_of (inflight m) k = Some h" by (simp add: mgr_Start_def Let_def)
      moreover from False g have "g \<in> set (goroutines m)" by (auto simp: mgr_Start_def Let_def)
      ultimately show ?thesis using assms g(2) by (blast elim: entryE)
    qed
  qed
qed

lemma mgr_inv_finish:
  assumes "mgr_inv m" and "g \<in> set (goroutines m)"
  shows "mgr_inv (finish g m)"
proof -
  have same: "x = g" if "x \<in> set (goroutines m)" "g_handle x = g_handle g" for x
    using assms that by (metis distinct_map inj_onD mgr_inv_def)
  show ?thesis
    unfolding mgr_inv_def entries_ok_def
  proof (intro conjI allI ballI impI)
    show "wf_map (inflight (finish g m))" "distinct (map g_handle (goroutines (finish g m)))"
      using assms by (simp_all add: mgr_inv_def finish_def distinct_map_filter)
    show "g_handle x < next_handle (finish g m)" if "x \<in> set (goroutines (finish g m))" for x
      using that assms by (simp add: mgr_inv_def finish_def)
    show "h < next_handle (finish g m)" if "h \<in> cancelled (finish g m)" for h
      using that assms by (auto simp: mgr_inv_def finish_def)
  next
    fix k h assume e: "map_of (inflight (finish g m)) k = Some h"
    then have k: "k \<noteq> g_key g" and old: "map_of (inflight m) k = Some h"
      by (auto simp: finish_def split: if_splits)
    from assms(1) old obtain x where "x \<in> set (goroutines m)" "g_handle x = h" "g_key x = k"
      and last: "\<forall>x \<in> set (goroutines m). g_key x = k \<longrightarrow> g_handle x \<le> h"
      by (metis entryE)
    with k same show "\<exists>x \<in> set (goroutines (finish g m)). g_handle x = h \<and> g_key x = k"
      by (auto simp: finish_def)
    fix x assume "x \<in> set (goroutines (finish g m))" "g_key x = k"
    with last show "g_handle x \<le> h" by (simp add: finish_def)
  qed
qed

lemma mgr_inv_Cancel: "mgr_inv m \<Longrightarrow> mgr_inv (Cancel key m)"
proof (cases "map_of (inflight m) key")
  case (Some h)
  assume inv: "mgr_inv m"
  then have "h < next_handle m" using Some by (rule inv_entry)
  with inv have "mgr_inv (m\<lparr>cancelled := insert h (cancelled m)\<rparr>)"
    by (simp add: mgr_inv_def)
  with Some show ?thesis by (simp add: Cancel_def)
qed (simp add: Cancel_def)

lemma mgr_inv_CancelAll: "mgr_inv m \<Longrightarrow> mgr_inv (CancelAll m)"
  by (simp add: mgr_inv_def CancelAll_def)

lemma mgr_inv_step: "mgr_step m m' \<Longrightarrow> mgr_inv m \<Longrightarrow> mgr_inv m'"
  by (erule mgr_stepE)
    (simp_all add: mgr_inv_Start mgr_inv_finish mgr_inv_Cancel mgr_inv_CancelAll)

lemma reachable_inv: "reachable m \<Longrightarrow> mgr_inv m"
  by (induction rule: reachable.induct) (auto intro: mgr_inv_New mgr_inv_step)

section \<open>Cancellation\<close>

lemma reachable_steps: "mgr_step\<^sup>*\<^sup>* m m' \<Longrightarrow> reachable m \<Longrightarrow> reachable m'"
  by (induction rule: rtranclp_induct) (auto intro: reachable.step)

text \<open>Contexts never revive, and \<open>CancelAll\<close> is for ever.\<close>

lemma step_monotone:
  "mgr_step m m' \<Longrightarrow> cancelled m \<subseteq> cancelled m' \<and> (root_cancelled m \<longrightarrow> root_cancelled m')"
  by (erule mgr_stepE)
    (auto simp: mgr_Start_def finish_def Cancel_def CancelAll_def Let_def split: option.splits)

lemma steps_monotone:
  "mgr_step\<^sup>*\<^sup>* m m' \<Longrightarrow> cancelled m \<subseteq> cancelled m' \<and> (root_cancelled m \<longrightarrow> root_cancelled m')"
  by (induction rule: rtranclp_induct) (use step_monotone in fastforce)+

section \<open>Keys started once at a time\<close>

text \<open>
  The callers' discipline under which the map is exact: a key is started only while no
  goroutine of that key is alive.
\<close>

inductive solo_step :: "'t Manager \<Rightarrow> 't Manager \<Rightarrow> bool" where
  start: "key \<notin> g_key ` set (goroutines m) \<Longrightarrow> solo_step m (mgr_Start key task m)"
| finish: "g \<in> set (goroutines m) \<Longrightarrow> solo_step m (finish g m)"
| cancel: "solo_step m (Cancel key m)"
| cancel_all: "solo_step m (CancelAll m)"

inductive solo_reachable :: "'t Manager \<Rightarrow> bool" where
  init: "solo_reachable mgr_New"
| step: "solo_reachable m \<Longrightarrow> solo_step m m' \<Longrightarrow> solo_reachable m'"

inductive_cases solo_stepE: "solo_step m m'"

lemma solo_step_mgr: "solo_step m m' \<Longrightarrow> mgr_step m m'"
  by (erule solo_stepE) (auto intro: mgr_step.intros)

lemma solo_reachable_reachable: "solo_reachable m \<Longrightarrow> reachable m"
  by (induction rule: solo_reachable.induct) (auto intro: reachable.intros solo_step_mgr)

definition exact :: "'t Manager \<Rightarrow> bool" where
  "exact m \<longleftrightarrow> distinct (map g_key (goroutines m)) \<and>
     (\<forall>g \<in> set (goroutines m). map_of (inflight m) (g_key g) = Some (g_handle g))"

lemma exact_step:
  assumes "solo_step m m'" and "exact m"
  shows "exact m'"
  using assms(1)
proof cases
  case (start key task)
  with assms(2) show ?thesis by (auto simp: exact_def mgr_Start_def Let_def)
next
  case (finish g)
  have key: "g_key x \<noteq> g_key g" if "x \<in> set (goroutines m)" "g_handle x \<noteq> g_handle g" for x
    using assms(2) finish that unfolding exact_def by (metis option.inject)
  show ?thesis
    using assms(2) key by (auto simp: finish exact_def finish_def distinct_map_filter)
next
  case (cancel key)
  with assms(2) show ?thesis by (auto simp: exact_def Cancel_def split: option.splits)
next
  case cancel_all
  with assms(2) show ?thesis by (simp add: exact_def CancelAll_def)
qed

lemma solo_exact: "solo_reachable m \<Longrightarrow> exact m"
proof (induction rule: solo_reachable.induct)
  case init
  show ?case by (simp add: exact_def mgr_New_def)
next
  case (step m m')
  then show ?case using exact_step by blast
qed

section \<open>Shutdown\<close>

text \<open>Letting every goroutine end, in the order of the list.\<close>

fun finish_all :: "nat \<Rightarrow> 't Manager \<Rightarrow> 't Manager" where
  "finish_all 0 m = m"
| "finish_all (Suc n) m = (case goroutines m of [] \<Rightarrow> m | g # _ \<Rightarrow> finish_all n (finish g m))"

lemma finish_shrinks:
  "g \<in> set (goroutines m) \<Longrightarrow> length (goroutines (finish g m)) < length (goroutines m)"
  unfolding finish_def by (auto intro!: length_filter_less)

lemma finish_all_drains: "length (goroutines m) \<le> n \<Longrightarrow> drained (finish_all n m)"
proof (induction n arbitrary: m)
  case (Suc n)
  show ?case
  proof (cases "goroutines m")
    case (Cons g gs)
    with Suc.prems finish_shrinks [of g m] have "length (goroutines (finish g m)) \<le> n" by simp
    with Cons Suc.IH show ?thesis by simp
  qed (simp add: drained_def)
qed (simp add: drained_def)

lemma finish_all_steps: "mgr_step\<^sup>*\<^sup>* m (finish_all n m)"
proof (induction n arbitrary: m)
  case (Suc n)
  show ?case
  proof (cases "goroutines m")
    case (Cons g gs)
    then have "mgr_step m (finish g m)" by (intro mgr_step.finish) simp
    with Suc.IH [of "finish g m"] Cons show ?thesis by simp
  qed simp
qed simp

text \<open>A task just started has a live context while the process has.\<close>

lemma Start_live:
  assumes "mgr_inv m" and "\<not> root_cancelled m"
  shows "\<exists>g \<in> set (goroutines (mgr_Start k t m)). g_key g = k \<and> g_task g = t \<and> \<not> ctx_done g (mgr_Start k t m)"
proof -
  have "next_handle m \<notin> cancelled (mgr_Start k t m)"
    using assms(1) inv_entry [OF assms(1), of k]
    by (auto simp: mgr_Start_def Let_def mgr_inv_def split: option.splits)
  with assms(2) show ?thesis
    by (intro bexI [of _ "\<lparr>g_handle = next_handle m, g_key = k, g_task = t\<rparr>"])
      (simp_all add: ctx_done_def mgr_Start_def Let_def)
qed

section \<open>Properties\<close>

text \<open>C2: in every reachable state, an entry of the in-flight map names the goroutine started
  last under its key among those that have not ended; in particular \<open>Inflight\<close> reports no
  key without a live goroutine.\<close>

theorem inflight_latest:
  assumes "reachable m"
  shows "(\<forall>k h. map_of (inflight m) k = Some h \<longrightarrow>
      (\<exists>g \<in> set (goroutines m). g_handle g = h \<and> g_key g = k) \<and>
      (\<forall>g \<in> set (goroutines m). g_key g = k \<longrightarrow> g_handle g \<le> h)) \<and>
    set (Inflight m) \<subseteq> g_key ` set (goroutines m)"
proof -
  have entries: "entries_ok (inflight m) (goroutines m)" and wf: "wf_map (inflight m)"
    using reachable_inv [OF assms] by (simp_all add: mgr_inv_def)
  have "set (Inflight m) \<subseteq> g_key ` set (goroutines m)"
  proof
    fix k assume "k \<in> set (Inflight m)"
    then obtain h where "map_of (inflight m) k = Some h"
      using wf by (auto simp: Inflight_def wf_map_def)
    with entries show "k \<in> g_key ` set (goroutines m)" unfolding entries_ok_def by blast
  qed
  with entries show ?thesis unfolding entries_ok_def by blast
qed

lemma started_reachable: "reachable m \<Longrightarrow> reachable (mgr_Start k t m)"
  by (rule reachable.step [OF _ mgr_step.start])

theorem inflight_latest_witness:
  "set (Inflight (mgr_Start ''run:1'' () mgr_New)) \<subseteq> g_key ` set (goroutines (mgr_Start ''run:1'' () mgr_New))"
  using inflight_latest [OF started_reachable [OF reachable.init], of "''run:1''" "()"] by blast

text \<open>When no key is started while a goroutine of that key is alive, the in-flight map is
  exact: every live goroutine is listed under its own handle, \<open>Inflight\<close> is the set of their
  keys, and \<open>Cancel\<close> on the key of a live goroutine makes its context done.\<close>

theorem inflight_exact_without_restarts:
  assumes "solo_reachable m"
  shows "set (Inflight m) = g_key ` set (goroutines m) \<and> distinct (map g_key (goroutines m)) \<and>
    (\<forall>g \<in> set (goroutines m). map_of (inflight m) (g_key g) = Some (g_handle g) \<and>
       ctx_done g (Cancel (g_key g) m))"
proof -
  have ex: "exact m" and inv: "mgr_inv m"
    using assms by (auto intro: solo_exact reachable_inv solo_reachable_reachable)
  have listed: "map_of (inflight m) (g_key g) = Some (g_handle g)" if "g \<in> set (goroutines m)" for g
    using ex that by (simp add: exact_def)
  have "set (Inflight m) = g_key ` set (goroutines m)"
  proof
    show "set (Inflight m) \<subseteq> g_key ` set (goroutines m)"
    proof
      fix k assume "k \<in> set (Inflight m)"
      then obtain h where "map_of (inflight m) k = Some h"
        using inv by (auto simp: Inflight_def mgr_inv_def wf_map_def)
      with inv show "k \<in> g_key ` set (goroutines m)" by (blast elim: entryE)
    qed
    show "g_key ` set (goroutines m) \<subseteq> set (Inflight m)"
      using listed by (force simp: Inflight_def dest: map_of_SomeD)
  qed
  with ex listed show ?thesis by (auto simp: exact_def Cancel_def ctx_done_def)
qed

theorem inflight_exact_without_restarts_witness:
  "set (Inflight (mgr_Start ''run:1'' () mgr_New)) = {''run:1''}"
proof -
  have "solo_reachable (mgr_Start ''run:1'' () mgr_New)"
    by (rule solo_reachable.step [OF solo_reachable.init solo_step.start]) (simp add: mgr_New_def)
  from inflight_exact_without_restarts [OF this] show ?thesis
    by (simp add: mgr_Start_def mgr_New_def)
qed

text \<open>\<open>CancelAll\<close> reaches every task for ever: whatever is started, cancelled or finished
  after it, every goroutine that is alive has a done context; and from any such state letting
  the goroutines end drains the manager, so that \<open>Wait\<close> returns.\<close>

theorem shutdown_reaches_all:
  assumes "mgr_step\<^sup>*\<^sup>* (CancelAll m) m'"
  shows "(\<forall>g \<in> set (goroutines m'). ctx_done g m') \<and>
    mgr_step\<^sup>*\<^sup>* m' (finish_all (length (goroutines m')) m') \<and>
    drained (finish_all (length (goroutines m')) m') \<and>
    WaitContext None (finish_all (length (goroutines m')) m') = [Inr ()]"
proof -
  have "root_cancelled m'"
    using steps_monotone [OF assms] by (simp add: CancelAll_def)
  moreover have "drained (finish_all (length (goroutines m')) m')"
    by (rule finish_all_drains) simp
  ultimately show ?thesis
    by (simp add: ctx_done_def finish_all_steps WaitContext_def)
qed

theorem shutdown_reaches_all_witness:
  "ctx_done \<lparr>g_handle = 0, g_key = ''run:1'', g_task = ()\<rparr> (mgr_Start ''run:1'' () (CancelAll mgr_New))"
proof -
  have "mgr_step\<^sup>*\<^sup>* (CancelAll mgr_New) (mgr_Start ''run:1'' () (CancelAll mgr_New))"
    by (rule r_into_rtranclp) (rule mgr_step.start)
  from shutdown_reaches_all [OF this] show ?thesis
    by (simp add: mgr_Start_def mgr_New_def CancelAll_def)
qed

text \<open>C14: starting a key again while its first task is still winding down loses the second
  task. When the first goroutine ends, its deferred \<open>delete\<close> removes the entry of the second:
  a task runs with a live context, \<open>Inflight\<close> does not list it, \<open>Cancel\<close> on its key does
  nothing, and a third start leaves it running beside the new one.\<close>

theorem restart_orphans_task:
  fixes m :: "'t Manager"
  assumes "reachable m" and "\<not> root_cancelled m"
    and "first \<in> set (goroutines m)" and "g_key first = k"
  shows "\<exists>m' second. mgr_step\<^sup>*\<^sup>* m m' \<and> second \<in> set (goroutines m') \<and> g_key second = k \<and>
    g_task second = t \<and> \<not> ctx_done second m' \<and> k \<notin> set (Inflight m') \<and> Cancel k m' = m' \<and>
    (\<exists>third \<in> set (goroutines (mgr_Start k t m')). third \<noteq> second \<and> g_key third = k \<and>
       \<not> ctx_done second (mgr_Start k t m') \<and> \<not> ctx_done third (mgr_Start k t m'))"
proof -
  let ?m1 = "mgr_Start k t m" and ?second = "\<lparr>g_handle = next_handle m, g_key = k, g_task = t\<rparr>"
  let ?m2 = "finish first ?m1" and ?third = "\<lparr>g_handle = next_handle m + 1, g_key = k, g_task = t\<rparr>"
  have inv: "mgr_inv m" using assms(1) by (rule reachable_inv)
  have old: "g_handle first < next_handle m" and cs: "\<And>h. h \<in> cancelled m \<Longrightarrow> h < next_handle m"
    using inv assms(3) by (auto simp: mgr_inv_def)
  have prev: "h < next_handle m" if "map_of (inflight m) k = Some h" for h
    using inv that by (rule inv_entry)
  have first: "first \<in> set (goroutines ?m1)"
    using assms(3) by (simp add: mgr_Start_def Let_def)
  have live: "\<not> ctx_done ?second ?m2" "next_handle m \<notin> cancelled ?m2" "next_handle m + 1 \<notin> cancelled ?m2"
    using old cs prev assms(2)
    by (auto simp: ctx_done_def finish_def mgr_Start_def Let_def split: option.splits dest: cs prev)
  have gone: "map_of (inflight ?m2) k = None"
    using assms(4) by (simp add: finish_def)
  have "mgr_step\<^sup>*\<^sup>* m ?m2"
    using mgr_step.start [of m k t] mgr_step.finish [OF first] by (meson r_into_rtranclp rtranclp.rtrancl_into_rtrancl)
  moreover have "?second \<in> set (goroutines ?m2)"
    using old by (simp add: finish_def mgr_Start_def Let_def)
  moreover have "k \<notin> set (Inflight ?m2)"
    using gone by (force simp: Inflight_def map_of_eq_None_iff)
  moreover have "Cancel k ?m2 = ?m2"
    using gone by (simp add: Cancel_def)
  moreover have "?third \<in> set (goroutines (mgr_Start k t ?m2)) \<and> ?third \<noteq> ?second \<and>
      \<not> ctx_done ?second (mgr_Start k t ?m2) \<and> \<not> ctx_done ?third (mgr_Start k t ?m2)"
    using gone live assms(2)
    by (simp add: mgr_Start_def [of k t ?m2] ctx_done_def Let_def) (simp add: finish_def mgr_Start_def Let_def)
  ultimately show ?thesis
    using live(1) by (intro exI [of _ ?m2] exI [of _ ?second] conjI bexI [of _ ?third]) simp_all
qed

theorem restart_orphans_task_witness:
  "\<exists>m' second. mgr_step\<^sup>*\<^sup>* (mgr_Start ''run:1'' () mgr_New) m' \<and> second \<in> set (goroutines m') \<and>
    \<not> ctx_done second m' \<and> ''run:1'' \<notin> set (Inflight m')"
  using restart_orphans_task [OF started_reachable [OF reachable.init], of "''run:1''" "()"
      "\<lparr>g_handle = 0, g_key = ''run:1'', g_task = ()\<rparr>" "''run:1''" "()"]
  by (simp add: mgr_Start_def mgr_New_def) blast

section \<open>Waiting ends\<close>

text \<open>One running task ends: the step the manager makes on its own once nothing is started.\<close>

definition ends_one :: "'t Manager \<Rightarrow> 't Manager \<Rightarrow> bool" where
  "ends_one m m' \<longleftrightarrow> (\<exists>g \<in> set (goroutines m). m' = finish g m)"

lemma ends_one_length:
  assumes "mgr_inv m" and "ends_one m m'" shows "length (goroutines m) = Suc (length (goroutines m'))"
proof -
  from assms(2) obtain g where g: "g \<in> set (goroutines m)" "m' = finish g m" by (auto simp: ends_one_def)
  then obtain xs ys where split: "goroutines m = xs @ g # ys" by (auto dest: split_list)
  with assms(1) have "distinct (map g_handle (xs @ g # ys))" by (simp add: mgr_inv_def)
  then have "\<forall>x \<in> set xs \<union> set ys. g_handle x \<noteq> g_handle g" by (simp add: image_iff) (metis Un_iff)
  then have "filter (\<lambda>x. g_handle x \<noteq> g_handle g) xs = xs" "filter (\<lambda>x. g_handle x \<noteq> g_handle g) ys = ys"
    by (auto simp: filter_id_conv)
  with split g(2) show ?thesis by (simp add: finish_def)
qed

lemma ends_one_reachable: "reachable m \<Longrightarrow> ends_one m m' \<Longrightarrow> reachable m'"
  by (auto simp: ends_one_def intro: reachable.step mgr_step.finish)

text \<open>C25: a shutdown comes to an end. From every reachable state, when no task is started any more, the running tasks can
  end in any order: no more endings happen than there are tasks, an ending is possible as long as the manager
  has not drained, and after exactly as many endings as tasks Wait returns. Before that WaitContext blocks unless its
  context is done, and from then on it can answer without error, and must when its context is not done; an
  error it answers is the one of its own context, which it may give even after the manager has drained.\<close>

theorem wait_returns:
  assumes "reachable m" and "(ends_one ^^ n) m m'"
  shows "n \<le> length (goroutines m) \<and> (drained m' \<longleftrightarrow> n = length (goroutines m)) \<and>
    (\<not> drained m' \<longrightarrow> (\<exists>m''. ends_one m' m'')) \<and>
    (Inr () \<in> set (WaitContext c m') \<longleftrightarrow> n = length (goroutines m)) \<and>
    (\<forall>e. Inl e \<in> set (WaitContext c m') \<longleftrightarrow> (\<exists>cause. c = Some cause \<and> e = wrap ''wait for background runs'' cause)) \<and>
    WaitContext None m' = (if n = length (goroutines m) then [Inr ()] else [])"
proof -
  have "reachable m' \<and> length (goroutines m) = n + length (goroutines m')" using assms
  proof (induction n arbitrary: m')
    case (Suc n)
    then obtain m1 where m1: "(ends_one ^^ n) m m1" "ends_one m1 m'" by auto
    with Suc.IH [OF Suc.prems(1) m1(1)] ends_one_length [OF reachable_inv] ends_one_reachable show ?case by fastforce
  qed simp
  then show ?thesis
    by (cases "goroutines m'") (auto simp: drained_def ends_one_def WaitContext_def split: option.split)
qed

theorem wait_returns_witness:
  "\<exists>m'. (ends_one ^^ 1) (CancelAll (mgr_Start ''k'' (0::nat) mgr_New)) m' \<and> WaitContext None m' = [Inr ()] \<and>
     Inr () \<in> set (WaitContext (Some (Err ''deadline'' KCanceled)) m')"
proof -
  let ?m = "CancelAll (mgr_Start ''k'' (0::nat) mgr_New)"
  let ?g = "\<lparr>g_handle = 0, g_key = ''k'', g_task = (0::nat)\<rparr>"
  have r: "reachable ?m"
    by (rule reachable.step [OF started_reachable [OF reachable.init] mgr_step.cancel_all])
  have gs: "goroutines ?m = [?g]" by (simp add: CancelAll_def mgr_Start_def mgr_New_def Let_def)
  then have one: "(ends_one ^^ 1) ?m (finish ?g ?m)" by (auto simp: ends_one_def)
  from wait_returns [OF r one, of "Some (Err ''deadline'' KCanceled)"] gs
  have "WaitContext None (finish ?g ?m) = [Inr ()]" "Inr () \<in> set (WaitContext (Some (Err ''deadline'' KCanceled)) (finish ?g ?m))"
    by simp_all
  with one show ?thesis by blast
qed

end
