(* ===== verification/World.thy ===== *)
theory World
  imports DbLaws Runmgr
begin

text \<open>
  The state the services share: the application database, the background run manager and
  the model provider. The type parameter is the services' tasks: a closure handed to the
  manager is the descriptor of the task with the id of its run.

  A \<open>context.Context\<close> is \<open>None\<close> while it is alive (\<open>context.Background()\<close>,
  \<open>context.WithoutCancel(ctx)\<close>) and the error of \<open>ctx.Err()\<close> once it is done; every
  statement issued under a done context is refused with that error (\<open>under_ctx\<close>). What
  the provider answers to its \<open>n\<close>-th request is a parameter, \<open>llm\<close>, which sees the context
  and the request. \<open>loose\<close> are the goroutines a service started outside the manager and that
  have not run yet.
\<close>

type_synonym ctx = "goerr option"

definition canceled :: goerr where
  "canceled = Err ''context canceled'' KCanceled"

definition deadline_exceeded :: goerr where
  "deadline_exceeded = Err ''context deadline exceeded'' KDeadline"

record CompletionRequest =
  cr_SystemPrompt :: string
  cr_UserPrompt :: string
  cr_Temperature :: string
  cr_MaxTokens :: int

record 't world =
  db :: store
  mgr :: "('t \<times> int) Manager option"
  llm :: "nat \<Rightarrow> ctx \<Rightarrow> CompletionRequest \<Rightarrow> string res"
  llm_calls :: nat
  loose :: "('t \<times> int) list"

section \<open>Statements under a context\<close>

definition under_ctx :: "ctx \<Rightarrow> ('a, store) op \<Rightarrow> ('a, store) op" where
  "under_ctx c m = (case c of None \<Rightarrow> m
     | Some e \<Rightarrow> (\<lambda>s. case m (s\<lparr>sql_fault := \<lambda>_. Some e\<rparr>) of (r, t) \<Rightarrow> (r, t\<lparr>sql_fault := sql_fault s\<rparr>)))"

definition on_db :: "ctx \<Rightarrow> ('a, store) op \<Rightarrow> ('a, 't world) op" where
  "on_db c m = (\<lambda>w. case under_ctx c m (db w) of (r, s) \<Rightarrow> (r, w\<lparr>db := s\<rparr>))"

text \<open>\<open>Client.Complete\<close>\<close>

definition llm_complete :: "ctx \<Rightarrow> CompletionRequest \<Rightarrow> (string, 't world) op" where
  "llm_complete c req = (\<lambda>w. (llm w (llm_calls w) c req, w\<lparr>llm_calls := Suc (llm_calls w)\<rparr>))"

lemma on_db_alive: "on_db None m w = (case m (db w) of (r, s) \<Rightarrow> (r, w\<lparr>db := s\<rparr>))"
  by (simp add: on_db_def under_ctx_def)

text \<open>A view of the database that does not look at the driver.\<close>

definition blind :: "(store \<Rightarrow> 'v) \<Rightarrow> bool" where
  "blind V \<longleftrightarrow> (\<forall>s f. V (s\<lparr>sql_fault := f\<rparr>) = V s)"

lemma blindD [simp]: "blind V \<Longrightarrow> V (s\<lparr>sql_fault := f\<rparr>) = V s"
  by (simp add: blind_def)

lemma blind_views [simp]:
  "blind runs_view" "blind explorer_view" "blind autofix_view" "blind replay_view"
  "blind preferences_view" "blind commands_view" "blind store_ok"
  by (simp_all add: blind_def view_defs store_ok_def)

lemma on_db_run:
  assumes "on_db c m w = (r, w')" and "blind V"
  shows "\<exists>s t. m s = (r, t) \<and> V s = V (db w) \<and> V (db w') = V t"
proof (cases c)
  case None
  with assms(1) show ?thesis
    by (intro exI [of _ "db w"] exI [of _ "db w'"]) (auto simp: on_db_alive split: prod.splits)
next
  case (Some e)
  let ?s = "(db w)\<lparr>sql_fault := \<lambda>_. Some e\<rparr>"
  obtain q t where m: "m ?s = (q, t)" by (cases "m ?s")
  with Some assms(1) have "q = r" and "w' = w\<lparr>db := t\<lparr>sql_fault := sql_fault (db w)\<rparr>\<rparr>"
    by (simp_all add: on_db_def under_ctx_def)
  with m assms(2) show ?thesis by (intro exI [of _ ?s] exI [of _ t]) simp
qed

text \<open>What else of the world a database call can change: nothing.\<close>

lemma on_db_frame [simp]:
  "mgr (snd (on_db c m w)) = mgr w" "llm (snd (on_db c m w)) = llm w"
  "llm_calls (snd (on_db c m w)) = llm_calls w"
  by (simp_all add: on_db_def split: prod.splits)

lemma on_db_frameD:
  "on_db c m w = (r, w') \<Longrightarrow> mgr w' = mgr w \<and> llm w' = llm w \<and> llm_calls w' = llm_calls w"
  by (metis on_db_frame snd_conv)

lemma llm_complete_eq:
  "llm_complete c req w = (r, w') \<longleftrightarrow>
     r = llm w (llm_calls w) c req \<and> w' = w\<lparr>llm_calls := Suc (llm_calls w)\<rparr>"
  by (auto simp: llm_complete_def)

text \<open>\<open>if err := json.Unmarshal(raw, &request); err != nil { return fmt.Errorf("what: %w", err) }\<close>\<close>

definition decoding :: "string \<Rightarrow> (json \<Rightarrow> 'a res) \<Rightarrow> blob \<Rightarrow> ('a, 's) op" where
  "decoding what d raw = liftE (case unmarshal d raw of Inl e \<Rightarrow> Inl (wrap what e) | Inr x \<Rightarrow> Inr x)"

lemma decoding_eq: "decoding what d raw w = (Inr x, w') \<longleftrightarrow> unmarshal d raw = Inr x \<and> w' = w"
  by (auto simp: decoding_def split: sum.splits)

definition org_required :: goerr where
  "org_required = errorf ''organization_id is required''"

section \<open>The store interfaces, seen from the world\<close>

lemma readonly_on_db:
  assumes "readonly V m" and "blind V" shows "readonly (\<lambda>w. V (db w)) (on_db c m)"
  unfolding readonly_def
proof
  fix w :: "'t world"
  obtain r w' where run: "on_db c m w = (r, w')" by (cases "on_db c m w")
  from on_db_run [OF run assms(2)] readonlyD [OF assms(1)] run
  show "V (db (snd (on_db c m w))) = V (db w)" by auto
qed

lemma all_or_nothing_on_db:
  "all_or_nothing V m \<Longrightarrow> blind V \<Longrightarrow> all_or_nothing (\<lambda>w. V (db w)) (on_db c m)"
  unfolding all_or_nothing_def by (metis on_db_run)

lemma keeps_on_db:
  assumes "keeps P m" and "blind P" shows "keeps (\<lambda>w. P (db w)) (on_db c m)"
proof (rule keepsI)
  fix w :: "'t world" assume "P (db w)"
  obtain r w' where run: "on_db c m w = (r, w')" by (cases "on_db c m w")
  from on_db_run [OF run assms(2)] keeps_step [OF assms(1)] run \<open>P (db w)\<close>
  show "P (db (snd (on_db c m w)))" by auto
qed

lemma row_store_on_db:
  assumes store: "row_store lookup modify target rewrite view" and blind: "blind view"
  shows "row_store (\<lambda>k. on_db c (lookup k)) (\<lambda>u. on_db c (modify u)) target rewrite (\<lambda>w. view (db w))"
proof
  show "readonly (\<lambda>w. view (db w)) (on_db c (lookup k))" for k
    using row_store.lookup_readonly [OF store] blind by (rule readonly_on_db)
  show "all_or_nothing (\<lambda>w. view (db w)) (on_db c (modify u))" for u
    using row_store.modify_err [OF store] blind by (rule all_or_nothing_on_db)
  show "r = view (db w) k" if run: "on_db c (lookup k) w = (Inr r, w')" for k w r w'
    using on_db_run [OF run blind] row_store.lookup_value [OF store] by metis
  show "\<exists>ts. view (db w') = (view (db w))(target u := map_option (rewrite ts u) (view (db w) (target u)))"
    if run: "on_db c (modify u) w = (Inr x, w')" for u w x w'
    using on_db_run [OF run blind] row_store.modify_ok [OF store] by metis
qed

lemma creating_store_on_db:
  assumes store: "creating_store lookup modify target rewrite view create fresh ok"
    and blind: "blind view" "blind ok"
  shows "creating_store (\<lambda>k. on_db c (lookup k)) (\<lambda>u. on_db c (modify u)) target rewrite
    (\<lambda>w. view (db w)) (\<lambda>r. on_db c (create r)) fresh (\<lambda>w. ok (db w))"
proof (intro creating_store.intro creating_store_axioms.intro)
  show "row_store (\<lambda>k. on_db c (lookup k)) (\<lambda>u. on_db c (modify u)) target rewrite (\<lambda>w. view (db w))"
    using creating_store.axioms(1) [OF store] blind(1) by (rule row_store_on_db)
  show "all_or_nothing (\<lambda>w. view (db w)) (on_db c (create r))" for r
    using creating_store.create_err [OF store] blind(1) by (rule all_or_nothing_on_db)
  show "keeps (\<lambda>w. ok (db w)) (on_db c (create r))" "keeps (\<lambda>w. ok (db w)) (on_db c (modify u))"
    "keeps (\<lambda>w. ok (db w)) (on_db c (lookup k))" for r u k
    using creating_store.create_keeps [OF store] creating_store.modify_keeps [OF store]
      creating_store.lookup_keeps [OF store] blind(2) by (auto intro: keeps_on_db)
  show "view (db w) k = None \<and> (\<exists>ts. view (db w') = (view (db w))(k \<mapsto> fresh ts k r))"
    if ok: "ok (db w)" and run: "on_db c (create r) w = (Inr k, w')" for w r k w'
  proof -
    have "blind (\<lambda>s. (view s, ok s))" using blind by (simp add: blind_def)
    from on_db_run [OF run this] obtain s t where "create r s = (Inr k, t)"
      and "view s = view (db w)" "ok s = ok (db w)" "view (db w') = view t" by auto
    with creating_store.create_ok [OF store, of s r k t] ok show ?thesis by simp
  qed
qed

lemma upsert_store_on_db:
  assumes store: "upsert_store lookup save key merge view" and blind: "blind view"
  shows "upsert_store (\<lambda>k. on_db c (lookup k)) (\<lambda>r. on_db c (save r)) key merge (\<lambda>w. view (db w))"
proof
  show "readonly (\<lambda>w. view (db w)) (on_db c (lookup k))" for k
    using upsert_store.lookup_readonly [OF store] blind by (rule readonly_on_db)
  show "all_or_nothing (\<lambda>w. view (db w)) (on_db c (save r))" for r
    using upsert_store.save_err [OF store] blind by (rule all_or_nothing_on_db)
  show "y = view (db w) k" if run: "on_db c (lookup k) w = (Inr y, w')" for k w y w'
    using on_db_run [OF run blind] upsert_store.lookup_value [OF store] by metis
  show "\<exists>ts. view (db w') = (view (db w))(key r \<mapsto> merge ts (view (db w) (key r)) r)"
    if run: "on_db c (save r) w = (Inr x, w')" for r w x w'
    using on_db_run [OF run blind] upsert_store.save_ok [OF store] by metis
qed

interpretation runs_w: creating_store "\<lambda>k. on_db c (GetRun k)" "\<lambda>r. on_db c (UpdateRun r)" run_ID
    rewrite_run "\<lambda>w. runs_view (db w)" "\<lambda>r. on_db c (CreateRun r)" fresh_run "\<lambda>w. store_ok (db w)" for c
  by (rule creating_store_on_db [OF runs_db.creating_store_axioms]) simp_all

interpretation explorer_w: creating_store "\<lambda>k. on_db c (GetExplorerRun k)"
    "\<lambda>r. on_db c (UpdateExplorerRun r)" ex_ID rewrite_explorer "\<lambda>w. explorer_view (db w)"
    "\<lambda>r. on_db c (CreateExplorerRun r)" fresh_explorer "\<lambda>w. store_ok (db w)" for c
  by (rule creating_store_on_db [OF explorer_db.creating_store_axioms]) simp_all

interpretation autofix_w: creating_store "\<lambda>k. on_db c (GetAutofixRun k)"
    "\<lambda>u. on_db c (modify_autofix u)" fst rewrite_autofix "\<lambda>w. autofix_view (db w)"
    "\<lambda>r. on_db c (create_autofix r)" fresh_autofix "\<lambda>w. store_ok (db w)" for c
  by (rule creating_store_on_db [OF autofix_db.creating_store_axioms]) simp_all

interpretation replay_w: upsert_store "\<lambda>k. on_db c (GetReplayBreadcrumbSummary k)"
    "\<lambda>r. on_db c (UpsertReplayBreadcrumbSummary r)" rb_ReplayID merge_replay "\<lambda>w. replay_view (db w)" for c
  by (rule upsert_store_on_db [OF replay_db.upsert_store_axioms]) simp

interpretation preferences_w: upsert_store "\<lambda>k. on_db c (GetProjectPreference k)"
    "\<lambda>r. on_db c (SaveProjectPreference r)" pp_OrganizationID merge_preference
    "\<lambda>w. preferences_view (db w)" for c
  by (rule upsert_store_on_db [OF preferences_db.upsert_store_axioms]) simp

text \<open>
  What a client promises of a request under a done context: it fails, and \<open>errors.Is\<close> finds
  the error of the context in the answer (\<open>net/http\<close> reports a cancelled request that way).
\<close>

definition honours_ctx :: "'t world \<Rightarrow> bool" where
  "honours_ctx w \<longleftrightarrow> (\<forall>n e req. \<exists>e'. llm w n (Some e) req = Inl e' \<and> err_kind e' = err_kind e)"

section \<open>A world to evaluate the definitions in\<close>

text \<open>An empty database, an idle manager, and the given behaviour of the driver and the model.\<close>

definition start_world ::
    "(nat \<Rightarrow> goerr option) \<Rightarrow> (nat \<Rightarrow> ctx \<Rightarrow> CompletionRequest \<Rightarrow> string res) \<Rightarrow> 't world" where
  "start_world fault model =
     \<lparr>db = New fault (\<lambda>_. ''2024-01-01T00:00:00Z''), mgr = Some mgr_New, llm = model, llm_calls = 0, loose = []\<rparr>"

definition no_fault :: "nat \<Rightarrow> goerr option" where
  "no_fault n = None"

text \<open>A model that answers unless its context is done.\<close>

definition answering :: "string \<Rightarrow> nat \<Rightarrow> ctx \<Rightarrow> CompletionRequest \<Rightarrow> string res" where
  "answering a n c req = (case c of None \<Rightarrow> Inr a | Some e \<Rightarrow> Inl (wrap ''request failed'' e))"

lemma honours_start [simp]: "honours_ctx (start_world fault (answering a))"
  by (simp add: honours_ctx_def start_world_def answering_def)

lemma healthy_start [simp]: "healthy (db (start_world no_fault model))"
  by (simp add: start_world_def no_fault_def healthy_def New_def)

end
