(* ===== verification/Runs.thy ===== *)
theory Runs
  imports World
begin

text \<open>
  The generic runs (\<open>internal/runs/service.go\<close>): one row per run, a log of the commands
  accepted for it, and the dispatch of a task to the run manager. \<open>runner\<close> is how a task
  descriptor runs (the task is an argument of the source's functions); it is used only when
  no manager is configured, where \<open>dispatch\<close> runs the task inline.

  \<open>AcceptCommand\<close> is the sequence of two parts, \<open>accept_lookup\<close> (ensure and read the run,
  look the request id up) and \<open>accept_record\<close> (append the command, advance the run), so that
  two submissions can be interleaved between them.
\<close>

section \<open>Kinds and keys\<close>

definition KindInvestigation :: string where "KindInvestigation = ''investigation''"
definition KindAssistedQuery :: string where "KindAssistedQuery = ''assisted_query''"
definition KindAgentFeature :: string where "KindAgentFeature = ''agent_feature''"
definition KindCodeIndex :: string where "KindCodeIndex = ''code_index''"

lemmas kind_defs = KindInvestigation_def KindAssistedQuery_def KindAgentFeature_def KindCodeIndex_def

definition run_key :: "string \<Rightarrow> int \<Rightarrow> string" where
  "run_key kind runID = kind @ '':'' @ FormatInt runID"

lemma run_key_inject:
  assumes "run_key k i = run_key l j" and "CHR '':'' \<notin> set k" and "CHR '':'' \<notin> set l"
  shows "k = l \<and> i = j"
proof -
  have "cut_at CHR '':'' (run_key k i) = Some (k, FormatInt i)"
    "cut_at CHR '':'' (run_key l j) = Some (l, FormatInt j)"
    using assms(2,3) by (simp_all add: run_key_def cut_at_append)
  with assms(1) have "Some (k, FormatInt i) = Some (l, FormatInt j)" by metis
  then show ?thesis by (simp add: FormatInt_inject)
qed

section \<open>Operations\<close>

type_synonym 't runner = "ctx \<Rightarrow> 't \<Rightarrow> int \<Rightarrow> (unit, 't world) op"

definition dispatch :: "'t runner \<Rightarrow> string \<Rightarrow> int \<Rightarrow> 't option \<Rightarrow> (unit, 't world) op" where
  "dispatch runner kind runID task = (\<lambda>w. case task of None \<Rightarrow> (Inr (), w)
     | Some t \<Rightarrow> (case mgr w of
         None \<Rightarrow> (Inr (), snd (runner None t runID w))
       | Some m \<Rightarrow> (Inr (), w\<lparr>mgr := Some (mgr_Start (run_key kind runID) (t, runID) m)\<rparr>)))"

definition runs_Start :: "'t runner \<Rightarrow> ctx \<Rightarrow> RunRecord \<Rightarrow> 't option \<Rightarrow> (RunRecord, 't world) op" where
  "runs_Start runner c rec task =
     andThen (on_db c (CreateRun rec)) (\<lambda>i.
       andThen (dispatch runner (run_Kind rec) i task) (\<lambda>_. ret (rec\<lparr>run_ID := i\<rparr>)))"

definition StartWithID :: "'t runner \<Rightarrow> ctx \<Rightarrow> int \<Rightarrow> RunRecord \<Rightarrow> 't option \<Rightarrow> (RunRecord, 't world) op" where
  "StartWithID runner c i rec task =
     andThen (on_db c (EnsureRun i rec)) (\<lambda>_.
     andThen (on_db c (GetRun i)) (\<lambda>found.
       let stored = (case found of None \<Rightarrow> rec\<lparr>run_ID := i\<rparr> | Some r \<Rightarrow> r) in
       andThen (if task \<noteq> None then dispatch runner (run_Kind stored) i task else ret ()) (\<lambda>_. ret stored)))"

definition FindByIdempotencyKey :: "ctx \<Rightarrow> string \<Rightarrow> string \<Rightarrow> (RunRecord option, 't world) op" where
  "FindByIdempotencyKey c kind key = on_db c (FindRunByIdempotencyKey kind key)"

definition Dispatch :: "'t runner \<Rightarrow> string \<Rightarrow> int \<Rightarrow> 't option \<Rightarrow> (unit, 't world) op" where
  "Dispatch runner kind runID task = dispatch runner kind runID task"

definition runs_Get :: "ctx \<Rightarrow> int \<Rightarrow> (RunRecord option, 't world) op" where
  "runs_Get c runID = on_db c (GetRun runID)"

record AcceptResult =
  ar_Version :: int64
  ar_Duplicate :: bool
  ar_Record :: RunRecord

definition run_not_found :: "int \<Rightarrow> goerr" where
  "run_not_found i = errorf (''run '' @ FormatInt i @ '' not found'')"

definition accept_lookup ::
    "ctx \<Rightarrow> RunRecord \<Rightarrow> string \<Rightarrow> (RunRecord \<times> int64 option, 't world) op" where
  "accept_lookup c template requestID =
     andThen (on_db c (EnsureRun (run_ID template) template)) (\<lambda>_.
     andThen (on_db c (GetRun (run_ID template))) (\<lambda>found. case found of
         None \<Rightarrow> fail (run_not_found (run_ID template))
       | Some rec \<Rightarrow> andThen (on_db c (GetRunCommandVersion (run_ID template) requestID))
           (\<lambda>stored. ret (rec, stored))))"

text \<open>The later of the two versions, plus one: 64-bit addition, which wraps.\<close>

definition next_version :: "int64 \<Rightarrow> int64 \<Rightarrow> int64" where
  "next_version current expected = (if current <s expected then expected else current) + 1"

definition reopened :: "RunRecord \<Rightarrow> RunRecord" where
  "reopened rec = (if run_Status rec = RunStatusCompleted \<or> run_Status rec = RunStatusError
     then rec\<lparr>run_Status := RunStatusProcessing\<rparr> else rec)"

definition accept_record ::
    "ctx \<Rightarrow> RunRecord \<Rightarrow> string \<Rightarrow> int64 \<Rightarrow> RunRecord \<Rightarrow> (AcceptResult, 't world) op" where
  "accept_record c template requestID expectedVersion rec =
     (let version = next_version (run_WorkflowVersion rec) expectedVersion in
      andThen (on_db c (AppendRunCommand (run_ID template) requestID version Blank)) (\<lambda>_.
        let rec' = reopened (rec\<lparr>run_WorkflowVersion := version\<rparr>) in
        andThen (on_db c (UpdateRun rec')) (\<lambda>_.
          ret \<lparr>ar_Version = version, ar_Duplicate = False, ar_Record = rec'\<rparr>)))"

definition AcceptCommand :: "ctx \<Rightarrow> RunRecord \<Rightarrow> string \<Rightarrow> int64 \<Rightarrow> (AcceptResult, 't world) op" where
  "AcceptCommand c template requestID expectedVersion =
     andThen (accept_lookup c template requestID) (\<lambda>(rec, stored). case stored of
         Some v \<Rightarrow> ret \<lparr>ar_Version = v, ar_Duplicate = True, ar_Record = rec\<rparr>
       | None \<Rightarrow> accept_record c template requestID expectedVersion rec)"

definition Complete :: "ctx \<Rightarrow> int \<Rightarrow> json option \<Rightarrow> (unit, 't world) op" where
  "Complete c runID result =
     andThen (on_db c (GetRun runID)) (\<lambda>found. case found of
         None \<Rightarrow> fail (run_not_found runID)
       | Some rec \<Rightarrow>
           let rec1 = (case result of None \<Rightarrow> rec | Some j \<Rightarrow> rec\<lparr>run_ResultJSON := marshal j\<rparr>)
           in on_db c (UpdateRun (rec1\<lparr>run_Status := RunStatusCompleted, run_Error := None\<rparr>)))"

definition UpdateProjection :: "ctx \<Rightarrow> int \<Rightarrow> json gomap \<Rightarrow> (unit, 't world) op" where
  "UpdateProjection c runID projection =
     andThen (on_db c (GetRun runID)) (\<lambda>found. case found of
         None \<Rightarrow> fail (run_not_found runID)
       | Some rec \<Rightarrow> on_db c (UpdateRun (rec\<lparr>run_ResultJSON := marshal (JObj projection)\<rparr>)))"

definition fail_message :: "goerr \<Rightarrow> string" where
  "fail_message cause =
     (if err_kind cause = KCanceled \<or> err_kind cause = KDeadline then ''shutdown'' else err_text cause)"

text \<open>Every statement runs under \<open>context.WithoutCancel(ctx)\<close>.\<close>

definition Fail :: "int \<Rightarrow> goerr \<Rightarrow> (unit, 't world) op" where
  "Fail runID cause =
     andThen (on_db None (GetRun runID)) (\<lambda>found. case found of
         None \<Rightarrow> fail cause
       | Some rec \<Rightarrow>
           andThen (on_db None (UpdateRun (rec\<lparr>run_Status := RunStatusError,
               run_Error := Some (fail_message cause)\<rparr>))) (\<lambda>_. fail cause))"

definition CompleteText :: "ctx \<Rightarrow> string \<Rightarrow> string \<Rightarrow> int \<Rightarrow> (string, 't world) op" where
  "CompleteText c systemPrompt prompt maxTokens =
     andThen (llm_complete c \<lparr>cr_SystemPrompt = systemPrompt, cr_UserPrompt = prompt,
         cr_Temperature = ''0.1'', cr_MaxTokens = (if maxTokens \<le> 0 then 512 else maxTokens)\<rparr>)
       (\<lambda>answer. ret (TrimSpace answer))"

text \<open>
  A payload decoded into a \<open>map[string]any\<close>: the empty map when there are no bytes or the
  bytes do not decode; the document \<open>null\<close> makes the map nil, here \<open>None\<close>.
\<close>

fun decode_map :: "blob \<Rightarrow> json gomap option" where
  "decode_map (Doc (JObj ms)) = Some (of_members ms)"
| "decode_map (Doc JNull) = None"
| "decode_map _ = Some []"

definition Projection :: "RunRecord option \<Rightarrow> json gomap option" where
  "Projection rec = (case rec of None \<Rightarrow> Some [] | Some r \<Rightarrow> decode_map (run_ResultJSON r))"

definition Status :: "RunRecord option \<Rightarrow> string" where
  "Status rec = (case rec of None \<Rightarrow> RunStatusProcessing
     | Some r \<Rightarrow> if run_Status r = [] then RunStatusProcessing else run_Status r)"

definition RequestPayload :: "RunRecord option \<Rightarrow> json gomap option" where
  "RequestPayload rec = (case rec of None \<Rightarrow> Some [] | Some r \<Rightarrow> decode_map (run_RequestJSON r))"

section \<open>The two tables under the operations\<close>

abbreviation tables :: "'t world \<Rightarrow> (int \<Rightarrow> RunRecord option) \<times> (int \<times> string \<Rightarrow> int64 option)" where
  "tables w \<equiv> run_tables (db w)"

abbreviation runs_of :: "'t world \<Rightarrow> int \<Rightarrow> RunRecord option" where
  "runs_of w \<equiv> fst (tables w)"

abbreviation commands_of :: "'t world \<Rightarrow> int \<times> string \<Rightarrow> int64 option" where
  "commands_of w \<equiv> snd (tables w)"

lemma blind_run_tables [simp]: "blind run_tables"
  by (simp add: blind_def run_tables_def command_versions_def view_defs fun_eq_iff)

lemma tables_split: "tables w = (runs_of w, commands_of w)"
  by simp

lemma runs_of_view: "runs_of w = runs_view (db w)"
  by (simp add: run_tables_def)

lemma runs_of_id: "runs_of w i = Some r \<Longrightarrow> run_ID r = i"
  by (auto simp: runs_of_view runs_view_def dest: row_at_key)

lemma GetRun_w: "on_db c (GetRun i) w = (Inr r, w') \<Longrightarrow> r = runs_of w i \<and> tables w' = tables w"
  by (drule on_db_run [OF _ blind_run_tables])
    (auto dest!: GetRun_tables simp: run_tables_def)

lemma GetRunCommandVersion_w:
  "on_db c (GetRunCommandVersion i q) w = (Inr v, w') \<Longrightarrow> v = commands_of w (i, q) \<and> tables w' = tables w"
  by (drule on_db_run [OF _ blind_run_tables])
    (auto dest!: GetRunCommandVersion_tables simp: run_tables_def)

lemma UpdateRun_w:
  "on_db c (UpdateRun rec) w = (Inr x, w') \<Longrightarrow> \<exists>ts. tables w' =
     ((runs_of w)(run_ID rec := map_option (rewrite_run ts rec) (runs_of w (run_ID rec))), commands_of w)"
  by (drule on_db_run [OF _ blind_run_tables])
    (auto dest!: UpdateRun_tables simp: run_tables_def)

lemma EnsureRun_w:
  "on_db c (EnsureRun i rec) w = (Inr x, w') \<Longrightarrow> \<exists>ts. tables w' =
     ((if runs_of w i = None then (runs_of w)(i \<mapsto> ensured_run ts i rec) else runs_of w), commands_of w)"
  by (drule on_db_run [OF _ blind_run_tables])
    (auto dest!: EnsureRun_tables simp: run_tables_def)

lemma AppendRunCommand_w:
  "on_db c (AppendRunCommand i q v b) w = (Inr new, w') \<Longrightarrow> tables w' = (runs_of w,
     if commands_of w (i, q) = None then (commands_of w)((i, q) \<mapsto> v) else commands_of w)"
  by (drule on_db_run [OF _ blind_run_tables])
    (auto dest!: AppendRunCommand_tables simp: run_tables_def)

lemma reopened_id [simp]: "run_ID (reopened r) = run_ID r" "run_WorkflowVersion (reopened r) = run_WorkflowVersion r"
  "run_ResultJSON (reopened r) = run_ResultJSON r" "run_Kind (reopened r) = run_Kind r"
  by (simp_all add: reopened_def)

lemma rewrite_reopened:
  "rewrite_run ts (reopened (r\<lparr>run_WorkflowVersion := v\<rparr>)) r =
   (reopened (r\<lparr>run_WorkflowVersion := v\<rparr>))\<lparr>run_UpdatedAt := ts\<rparr>"
  by (cases r) (simp add: rewrite_run_def reopened_def)

lemma ensured_run_simps [simp]:
  "run_ID (ensured_run ts i r) = i"
  "run_WorkflowVersion (ensured_run ts i r) = (if run_WorkflowVersion r = 0 then 1 else run_WorkflowVersion r)"
  "run_Status (ensured_run ts i r) = (if run_Status r = [] then RunStatusProcessing else run_Status r)"
  by (simp_all add: ensured_run_def run_defaults_def Let_def)

lemma accept_lookup_w:
  assumes "accept_lookup c tmpl q w = (Inr (rec, stored), w')"
  shows "runs_of w' (run_ID tmpl) = Some rec \<and> stored = commands_of w (run_ID tmpl, q) \<and>
    commands_of w' = commands_of w \<and> (\<forall>j. j \<noteq> run_ID tmpl \<longrightarrow> runs_of w' j = runs_of w j) \<and>
    (\<exists>ts. rec = (case runs_of w (run_ID tmpl) of None \<Rightarrow> ensured_run ts (run_ID tmpl) tmpl | Some r \<Rightarrow> r))"
proof -
  let ?i = "run_ID tmpl"
  from assms obtain x w1 where e: "on_db c (EnsureRun ?i tmpl) w = (Inr x, w1)"
    and rest: "andThen (on_db c (GetRun ?i)) (\<lambda>found. case found of None \<Rightarrow> fail (run_not_found ?i)
      | Some rec \<Rightarrow> andThen (on_db c (GetRunCommandVersion ?i q)) (\<lambda>stored. ret (rec, stored))) w1
      = (Inr (rec, stored), w')"
    by (auto simp: accept_lookup_def andThen_eq_Inr)
  then obtain w2 where g: "on_db c (GetRun ?i) w1 = (Inr (Some rec), w2)"
    and v: "on_db c (GetRunCommandVersion ?i q) w2 = (Inr stored, w')"
    by (auto simp: andThen_eq_Inr split: option.splits)
  from EnsureRun_w [OF e] obtain ts where "tables w1 = ((if runs_of w ?i = None
      then (runs_of w)(?i \<mapsto> ensured_run ts ?i tmpl) else runs_of w), commands_of w)" ..
  with GetRun_w [OF g] GetRunCommandVersion_w [OF v] show ?thesis
    by (auto split: option.splits if_splits)
qed

lemma accept_record_w:
  assumes "accept_record c tmpl q e rec w = (Inr res, w')"
  shows "\<exists>ts. res = \<lparr>ar_Version = next_version (run_WorkflowVersion rec) e, ar_Duplicate = False,
      ar_Record = reopened (rec\<lparr>run_WorkflowVersion := next_version (run_WorkflowVersion rec) e\<rparr>)\<rparr> \<and>
    tables w' = ((runs_of w)(run_ID rec := map_option (rewrite_run ts (ar_Record res)) (runs_of w (run_ID rec))),
      if commands_of w (run_ID tmpl, q) = None
      then (commands_of w)((run_ID tmpl, q) \<mapsto> ar_Version res) else commands_of w)"
proof -
  let ?v = "next_version (run_WorkflowVersion rec) e"
  let ?r = "reopened (rec\<lparr>run_WorkflowVersion := ?v\<rparr>)"
  from assms obtain new w1 x where a: "on_db c (AppendRunCommand (run_ID tmpl) q ?v Blank) w = (Inr new, w1)"
    and u: "on_db c (UpdateRun ?r) w1 = (Inr x, w')"
    and res: "res = \<lparr>ar_Version = ?v, ar_Duplicate = False, ar_Record = ?r\<rparr>"
    by (auto simp: accept_record_def Let_def andThen_eq_Inr)
  from UpdateRun_w [OF u] AppendRunCommand_w [OF a] res show ?thesis by auto
qed

text \<open>The functional behaviour of \<open>AcceptCommand\<close> on each of its successful branches.\<close>

lemma AcceptCommand_duplicate:
  assumes "AcceptCommand c tmpl q e w = (Inr res, w')" and "commands_of w (run_ID tmpl, q) = Some v"
  shows "ar_Version res = v \<and> ar_Duplicate res \<and> commands_of w' = commands_of w \<and>
    runs_of w' (run_ID tmpl) = Some (ar_Record res) \<and>
    (\<forall>r. runs_of w (run_ID tmpl) = Some r \<longrightarrow> runs_of w' = runs_of w \<and> ar_Record res = r)"
proof -
  from assms(1) obtain rec stored w1 where l: "accept_lookup c tmpl q w = (Inr (rec, stored), w1)"
    and rest: "(case stored of Some v \<Rightarrow> ret \<lparr>ar_Version = v, ar_Duplicate = True, ar_Record = rec\<rparr>
       | None \<Rightarrow> accept_record c tmpl q e rec) w1 = (Inr res, w')"
    by (auto simp: AcceptCommand_def andThen_eq_Inr)
  from accept_lookup_w [OF l] assms(2) rest
  have *: "res = \<lparr>ar_Version = v, ar_Duplicate = True, ar_Record = rec\<rparr>" "w' = w1"
    by auto
  have "runs_of w1 = runs_of w" if "runs_of w (run_ID tmpl) = Some r" for r
  proof (intro ext)
    fix j show "runs_of w1 j = runs_of w j"
      using accept_lookup_w [OF l] that by (cases "j = run_ID tmpl") auto
  qed
  with * accept_lookup_w [OF l] show ?thesis by auto
qed

lemma AcceptCommand_fresh:
  assumes run: "AcceptCommand c tmpl q e w = (Inr res, w')" and fresh: "commands_of w (run_ID tmpl, q) = None"
  shows "\<not> ar_Duplicate res \<and> commands_of w' = (commands_of w)((run_ID tmpl, q) \<mapsto> ar_Version res) \<and>
    (\<exists>ts. runs_of w' = (runs_of w)(run_ID tmpl \<mapsto> (ar_Record res)\<lparr>run_UpdatedAt := ts\<rparr>)) \<and>
    run_WorkflowVersion (ar_Record res) = ar_Version res \<and>
    ar_Version res = next_version (case runs_of w (run_ID tmpl) of Some r \<Rightarrow> run_WorkflowVersion r
      | None \<Rightarrow> if run_WorkflowVersion tmpl = 0 then 1 else run_WorkflowVersion tmpl) e"
proof -
  let ?i = "run_ID tmpl"
  from run obtain rec stored w1 where l: "accept_lookup c tmpl q w = (Inr (rec, stored), w1)"
    and rest: "(case stored of Some v \<Rightarrow> ret \<lparr>ar_Version = v, ar_Duplicate = True, ar_Record = rec\<rparr>
       | None \<Rightarrow> accept_record c tmpl q e rec) w1 = (Inr res, w')"
    by (auto simp: AcceptCommand_def andThen_eq_Inr)
  note look = accept_lookup_w [OF l]
  from look obtain t0 where
    rec: "rec = (case runs_of w ?i of None \<Rightarrow> ensured_run t0 ?i tmpl | Some r \<Rightarrow> r)" by blast
  have id: "run_ID rec = ?i"
  proof (cases "runs_of w ?i")
    case (Some r)
    with rec have "rec = r" by simp
    with runs_of_id [OF Some] show ?thesis by (simp only:)
  qed (simp add: rec)
  from rec have ver: "run_WorkflowVersion rec = (case runs_of w ?i of Some r \<Rightarrow> run_WorkflowVersion r
      | None \<Rightarrow> if run_WorkflowVersion tmpl = 0 then 1 else run_WorkflowVersion tmpl)"
    by (cases "runs_of w ?i") auto
  have same: "runs_of w1 ?i = Some rec" "stored = None" "commands_of w1 = commands_of w"
    "\<And>j. j \<noteq> ?i \<Longrightarrow> runs_of w1 j = runs_of w j"
    using look fresh by auto
  with rest have "accept_record c tmpl q e rec w1 = (Inr res, w')" by simp
  from accept_record_w [OF this] obtain ts where
    res: "res = \<lparr>ar_Version = next_version (run_WorkflowVersion rec) e, ar_Duplicate = False,
      ar_Record = reopened (rec\<lparr>run_WorkflowVersion := next_version (run_WorkflowVersion rec) e\<rparr>)\<rparr>" and
    tab: "tables w' = ((runs_of w1)(?i := map_option (rewrite_run ts (ar_Record res)) (runs_of w1 ?i)),
      if commands_of w1 (?i, q) = None then (commands_of w1)((?i, q) \<mapsto> ar_Version res) else commands_of w1)"
    unfolding id by blast
  have rewr: "rewrite_run ts (ar_Record res) rec = (ar_Record res)\<lparr>run_UpdatedAt := ts\<rparr>"
    by (simp add: res rewrite_reopened)
  have "runs_of w' = (runs_of w)(?i \<mapsto> (ar_Record res)\<lparr>run_UpdatedAt := ts\<rparr>)"
    using tab same rewr by (auto simp: fun_eq_iff)
  moreover have "commands_of w' = (commands_of w)((?i, q) \<mapsto> ar_Version res)"
    using tab same fresh by simp
  ultimately show ?thesis using ver res by auto
qed

section \<open>Versions\<close>

lemma next_version_above:
  assumes "current \<noteq> max_int64" and "expected \<noteq> max_int64"
  shows "sint (next_version current expected) = max (sint current) (sint expected) + 1"
  using assms by (simp add: next_version_def sint_succ word_sless_alt max_def)

lemma next_version_wraps: "current = max_int64 \<or> expected = max_int64 \<Longrightarrow>
    next_version current expected = - max_int64 - 1"
proof -
  assume "current = max_int64 \<or> expected = max_int64"
  moreover have "\<not> max_int64 <s v" for v :: int64
    using sint_lt [of v] by (simp add: word_sless_alt)
  moreover have "current <s max_int64 \<or> current = max_int64"
    using sint_lt [of current] by (metis linorder_neqE_linordered_idom sint_max_int64 signed_word_eqI
        word_sless_alt calculation(2))
  ultimately have "(if current <s expected then expected else current) = max_int64" by auto
  then show ?thesis by (simp add: next_version_def max_int64_def)
qed

section \<open>Two submissions at once\<close>

text \<open>
  Both submissions look the request id up before either records it: both are accepted as
  new, under the same version.
\<close>

lemma accept_interleaved:
  assumes l1: "accept_lookup c tmpl q w = (Inr (r1, None), w1)"
    and l2: "accept_lookup d tmpl q w1 = (Inr (r2, s2), w2)"
    and a1: "accept_record c tmpl q e r1 w2 = (Inr x1, w3)"
    and a2: "accept_record d tmpl q e r2 w3 = (Inr x2, w4)"
  shows "s2 = None \<and> \<not> ar_Duplicate x1 \<and> \<not> ar_Duplicate x2 \<and> ar_Version x1 = ar_Version x2"
proof -
  have "r1 = r2" "s2 = None"
    using accept_lookup_w [OF l1] accept_lookup_w [OF l2] by auto
  with accept_record_w [OF a1] accept_record_w [OF a2] show ?thesis by auto
qed

section \<open>Results and failures\<close>

lemma Complete_row:
  assumes "Complete c i result w = (Inr x, w')"
    and "\<And>r. runs_of w i = Some r \<Longrightarrow> run_ID r = i"
  shows "\<exists>r ts. runs_of w i = Some r \<and> runs_of w' = (runs_of w)(i \<mapsto> r\<lparr>run_Status := RunStatusCompleted,
    run_Error := None, run_ResultJSON := (case result of None \<Rightarrow> run_ResultJSON r | Some j \<Rightarrow> Doc j),
    run_UpdatedAt := ts\<rparr>)"
proof -
  let ?f = "\<lambda>r. (case result of None \<Rightarrow> r | Some j \<Rightarrow> r\<lparr>run_ResultJSON := marshal j\<rparr>)
      \<lparr>run_Status := RunStatusCompleted, run_Error := None\<rparr>"
  have run: "andThen (on_db c (GetRun i)) (\<lambda>r. case r of None \<Rightarrow> fail (run_not_found i)
      | Some x \<Rightarrow> on_db c (UpdateRun (?f x))) w = (Inr x, w')"
    using assms(1) unfolding Complete_def Let_def .
  have "\<exists>r ts. runs_view (db w) i = Some r \<and>
      runs_view (db w') = (runs_view (db w))(i \<mapsto> rewrite_run ts (?f r) r)"
    by (rule runs_w.read_modify_write [OF run])
      (use assms(2) in \<open>auto simp: runs_of_view split: option.splits\<close>)
  moreover have "rewrite_run ts (?f r) r = r\<lparr>run_Status := RunStatusCompleted, run_Error := None,
      run_ResultJSON := (case result of None \<Rightarrow> run_ResultJSON r | Some j \<Rightarrow> Doc j), run_UpdatedAt := ts\<rparr>" for ts r
    by (cases result; cases r) (simp_all add: rewrite_run_def marshal_def)
  ultimately show ?thesis by (simp add: runs_of_view)
qed

lemma UpdateProjection_row:
  assumes "UpdateProjection c i projection w = (Inr x, w')"
    and "\<And>r. runs_of w i = Some r \<Longrightarrow> run_ID r = i"
  shows "\<exists>r ts. runs_of w i = Some r \<and> runs_of w' = (runs_of w)(i \<mapsto>
    r\<lparr>run_ResultJSON := Doc (JObj projection), run_UpdatedAt := ts\<rparr>)"
proof -
  let ?f = "\<lambda>r. r\<lparr>run_ResultJSON := marshal (JObj projection)\<rparr>"
  have run: "andThen (on_db c (GetRun i)) (\<lambda>r. case r of None \<Rightarrow> fail (run_not_found i)
      | Some x \<Rightarrow> on_db c (UpdateRun (?f x))) w = (Inr x, w')"
    using assms(1) by (simp add: UpdateProjection_def)
  have "\<exists>r ts. runs_view (db w) i = Some r \<and>
      runs_view (db w') = (runs_view (db w))(i \<mapsto> rewrite_run ts (?f r) r)"
    by (rule runs_w.read_modify_write [OF run]) (use assms(2) in \<open>auto simp: runs_of_view\<close>)
  moreover have "rewrite_run ts (?f r) r = r\<lparr>run_ResultJSON := Doc (JObj projection), run_UpdatedAt := ts\<rparr>" for ts r
    by (cases r) (simp add: rewrite_run_def marshal_def)
  ultimately show ?thesis by (simp add: runs_of_view)
qed

text \<open>On a driver that refuses nothing, the operations succeed.\<close>

lemma GetRun_healthy:
  "healthy (db w) \<Longrightarrow> on_db None (GetRun i) w = (Inr (runs_of w i), w\<lparr>db := tick (db w)\<rparr>)"
  by (simp add: on_db_alive GetRun_def wrapping_def query_healthy runs_of_view runs_view_def)

lemma UpdateRun_healthy:
  "healthy (db w) \<Longrightarrow> \<exists>w'. on_db None (UpdateRun rec) w = (Inr (), w') \<and> healthy (db w') \<and>
     mgr w' = mgr w \<and> llm w' = llm w \<and> llm_calls w' = llm_calls w"
  by (simp add: on_db_alive UpdateRun_def andThen_def nowString_def wrapping_def update_healthy healthy_def)

lemma Fail_row:
  assumes "healthy (db w)" and "runs_of w i = Some r"
  shows "\<exists>w' ts. Fail i cause w = (Inl cause, w') \<and> mgr w' = mgr w \<and> runs_of w' = (runs_of w)(i \<mapsto>
    r\<lparr>run_Status := RunStatusError, run_Error := Some (fail_message cause), run_UpdatedAt := ts\<rparr>)"
proof -
  let ?r = "r\<lparr>run_Status := RunStatusError, run_Error := Some (fail_message cause)\<rparr>"
  let ?w = "w\<lparr>db := tick (db w)\<rparr>"
  have id: "run_ID r = i" using assms(2) by (rule runs_of_id)
  from UpdateRun_healthy [of ?w ?r] assms(1) obtain w' where
    u: "on_db None (UpdateRun ?r) ?w = (Inr (), w')" and m: "mgr w' = mgr w" by auto
  have run: "Fail i cause w = (Inl cause, w')"
    using assms u by (simp add: Fail_def andThen_def GetRun_healthy)
  from UpdateRun_w [OF u] obtain ts where
    "runs_of w' = (runs_of w)(i := map_option (rewrite_run ts ?r) (runs_of w i))"
    using id by auto
  moreover have "rewrite_run ts ?r r = ?r\<lparr>run_UpdatedAt := ts\<rparr>"
    by (cases r) (simp add: rewrite_run_def)
  ultimately show ?thesis using run m assms(2) by auto
qed

section \<open>Dispatch\<close>

lemma dispatch_managed:
  assumes "mgr w = Some m"
  shows "dispatch runner kind i (Some t) w =
    (Inr (), w\<lparr>mgr := Some (mgr_Start (run_key kind i) (t, i) m)\<rparr>)"
  using assms by (simp add: dispatch_def)

lemma dispatch_tables:
  "mgr w = Some m \<Longrightarrow> dispatch runner kind i task w = (r, w') \<Longrightarrow> db w' = db w \<and> r = Inr ()"
  by (auto simp: dispatch_def split: option.splits)

text \<open>A second start under a key cancels the task the map still knows for it.\<close>

lemma Start_cancels:
  assumes "map_of (inflight m) key = Some (g_handle g)"
  shows "ctx_done g (mgr_Start key task m)"
  using assms by (simp add: ctx_done_def mgr_Start_def Let_def)

lemma AcceptCommand_logged:
  assumes "AcceptCommand c tmpl q e w = (Inr a, w1)"
  shows "commands_of w1 (run_ID tmpl, q) = Some (ar_Version a) \<and> (\<exists>r. runs_of w1 (run_ID tmpl) = Some r)"
proof (cases "commands_of w (run_ID tmpl, q)")
  case None
  from AcceptCommand_fresh [OF assms None] show ?thesis by auto
next
  case (Some v)
  from AcceptCommand_duplicate [OF assms Some] Some show ?thesis by auto
qed

lemma reopened_status:
  "run_Status (reopened r) \<noteq> RunStatusCompleted \<and> run_Status (reopened r) \<noteq> RunStatusError"
  by (simp add: reopened_def status_defs)

lemma AcceptCommand_status:
  assumes "AcceptCommand c tmpl q e w = (Inr a, w')" and "commands_of w (run_ID tmpl, q) = None"
  shows "run_Status (ar_Record a) \<noteq> RunStatusCompleted \<and> run_Status (ar_Record a) \<noteq> RunStatusError"
proof -
  from assms(1) obtain rec stored w1 where l: "accept_lookup c tmpl q w = (Inr (rec, stored), w1)"
    and rest: "(case stored of Some v \<Rightarrow> ret \<lparr>ar_Version = v, ar_Duplicate = True, ar_Record = rec\<rparr>
       | None \<Rightarrow> accept_record c tmpl q e rec) w1 = (Inr a, w')"
    by (auto simp: AcceptCommand_def andThen_eq_Inr)
  from accept_lookup_w [OF l] assms(2) have "stored = None" by simp
  with rest have "accept_record c tmpl q e rec w1 = (Inr a, w')" by simp
  from accept_record_w [OF this] show ?thesis using reopened_status by auto
qed

text \<open>No operation touches the driver or the model.\<close>

definition driver :: "'t world \<Rightarrow> (nat \<Rightarrow> goerr option) \<times> (nat \<Rightarrow> ctx \<Rightarrow> CompletionRequest \<Rightarrow> string res)" where
  "driver w = (sql_fault (db w), llm w)"

lemma readonly_driver_on_db: "readonly sql_fault m \<Longrightarrow> readonly driver (on_db c m)"
proof -
  assume m: "readonly sql_fault m"
  show ?thesis
    unfolding readonly_def driver_def
    using readonlyD [OF m] by (auto simp: on_db_def under_ctx_def split: option.splits prod.splits)
qed

lemma readonly_fault_stmts:
  "readonly sql_fault (GetRun i)" "readonly sql_fault (GetRunCommandVersion i q)"
  "readonly sql_fault (UpdateRun r)" "readonly sql_fault (EnsureRun i r)"
  "readonly sql_fault (AppendRunCommand i q v b)"
  unfolding store_defs by (intro readonly_stmt; simp)+

lemmas readonly_driver_stmts = readonly_fault_stmts [THEN readonly_driver_on_db]

lemma driver_AcceptCommand: "readonly driver (AcceptCommand c tmpl q e)"
  unfolding AcceptCommand_def accept_lookup_def accept_record_def Let_def case_prod_unfold
  by (intro effect_intro readonly_driver_stmts)

lemma driver_UpdateProjection: "readonly driver (UpdateProjection c i p)"
  unfolding UpdateProjection_def by (intro effect_intro readonly_driver_stmts)

lemma driver_healthy: "driver w' = driver w \<Longrightarrow> healthy (db w') = healthy (db w) \<and> honours_ctx w' = honours_ctx w"
  by (simp add: driver_def healthy_def honours_ctx_def)

lemma AcceptCommand_healthy: "healthy (db w) \<Longrightarrow> healthy (db (snd (AcceptCommand c tmpl q e w)))"
  using driver_AcceptCommand driver_healthy unfolding readonly_def by blast

lemma AcceptCommand_record:
  assumes "AcceptCommand c tmpl q e w = (Inr a, w')" and "ar_Duplicate a"
  shows "runs_of w' (run_ID tmpl) = Some (ar_Record a)"
proof (cases "commands_of w (run_ID tmpl, q)")
  case None
  from AcceptCommand_fresh [OF assms(1) None] assms(2) show ?thesis by simp
next
  case (Some v)
  from AcceptCommand_duplicate [OF assms(1) Some] show ?thesis by simp
qed

lemma AcceptCommand_kind:
  assumes "AcceptCommand c tmpl q e w = (Inr a, w')"
  shows "run_Kind (ar_Record a) =
    (case runs_of w (run_ID tmpl) of None \<Rightarrow> run_Kind tmpl | Some r \<Rightarrow> run_Kind r)"
proof -
  from assms obtain rec stored w1 where l: "accept_lookup c tmpl q w = (Inr (rec, stored), w1)"
    and rest: "(case stored of Some v \<Rightarrow> ret \<lparr>ar_Version = v, ar_Duplicate = True, ar_Record = rec\<rparr>
       | None \<Rightarrow> accept_record c tmpl q e rec) w1 = (Inr a, w')"
    by (auto simp: AcceptCommand_def andThen_eq_Inr)
  have "run_Kind (ar_Record a) = run_Kind rec"
    using rest by (cases stored) (auto dest: accept_record_w)
  with accept_lookup_w [OF l] show ?thesis
    by (auto simp: ensured_run_def run_defaults_def Let_def split: option.splits)
qed

lemma CompleteText_done:
  assumes "honours_ctx w"
  shows "\<exists>e'. CompleteText (Some e) sys p n w = (Inl e', w\<lparr>llm_calls := Suc (llm_calls w)\<rparr>) \<and> err_kind e' = err_kind e"
proof -
  let ?req = "\<lparr>cr_SystemPrompt = sys, cr_UserPrompt = p, cr_Temperature = ''0.1'',
    cr_MaxTokens = (if n \<le> 0 then 512 else n)\<rparr>"
  obtain e' where "llm w (llm_calls w) (Some e) ?req = Inl e'" "err_kind e' = err_kind e"
    using assms unfolding honours_ctx_def by blast
  then show ?thesis by (simp add: CompleteText_def andThen_def llm_complete_def)
qed

lemma Fail_error: "Fail i cause w \<noteq> (Inr x, w')"
  by (auto simp: Fail_def andThen_eq_Inr split: option.splits)

section \<open>Properties\<close>

text \<open>C3: submitting a command twice is submitting it once. After an accepted submission, any
  later submission of the same request id to the same run that returns answers the version of
  the first, flagged as a duplicate, and leaves every run and the whole command log as they
  were, whatever expected version or template it carries.\<close>

theorem AcceptCommand_idempotent:
  assumes first: "AcceptCommand c tmpl q e w = (Inr a, w1)"
    and again: "AcceptCommand d tmpl' q e' w1 = (Inr b, w2)"
    and same: "run_ID tmpl' = run_ID tmpl"
  shows "ar_Duplicate b \<and> ar_Version b = ar_Version a \<and> runs_of w2 = runs_of w1 \<and>
    commands_of w2 = commands_of w1 \<and> runs_of w1 (run_ID tmpl) = Some (ar_Record b)"
proof -
  obtain r where r: "runs_of w1 (run_ID tmpl) = Some r" and "commands_of w1 (run_ID tmpl', q) = Some (ar_Version a)"
    using AcceptCommand_logged [OF first] same by auto
  from AcceptCommand_duplicate [OF again this(2)] r same show ?thesis by auto
qed

definition sample_template :: RunRecord where
  "sample_template = \<lparr>run_ID = 7, run_Kind = KindInvestigation, run_OrganizationID = None,
     run_Status = RunStatusCompleted, run_RequestJSON = Blank, run_ResultJSON = Blank, run_Error = None,
     run_WorkflowVersion = 1, run_IdempotencyKey = None, run_CreatedAt = [], run_UpdatedAt = []\<rparr>"

abbreviation sample_accept :: "string \<Rightarrow> int64 \<Rightarrow> AcceptResult res \<times> unit world" where
  "sample_accept q e \<equiv> AcceptCommand None sample_template q e (start_world no_fault (answering ''ok''))"

theorem AcceptCommand_idempotent_witness:
  "(case AcceptCommand None sample_template ''q'' 9 (snd (sample_accept ''q'' 4)) of
      (Inr b, _) \<Rightarrow> ar_Duplicate b \<and> ar_Version b = 5 | _ \<Rightarrow> False)"
proof -
  have f: "fst (sample_accept ''q'' 4) = Inr \<lparr>ar_Version = 5, ar_Duplicate = False,
      ar_Record = sample_template\<lparr>run_WorkflowVersion := 5, run_Status := RunStatusProcessing,
        run_UpdatedAt := ''2024-01-01T00:00:00Z''\<rparr>\<rparr>"
    by code_simp
  then have first: "sample_accept ''q'' 4 = (Inr \<lparr>ar_Version = 5, ar_Duplicate = False,
      ar_Record = sample_template\<lparr>run_WorkflowVersion := 5, run_Status := RunStatusProcessing,
        run_UpdatedAt := ''2024-01-01T00:00:00Z''\<rparr>\<rparr>, snd (sample_accept ''q'' 4))"
    by (metis prod.collapse)
  have "isl (fst (AcceptCommand None sample_template ''q'' 9 (snd (sample_accept ''q'' 4)))) = False"
    by code_simp
  then obtain b w where "AcceptCommand None sample_template ''q'' 9 (snd (sample_accept ''q'' 4)) = (Inr b, w)"
    by (metis isl_def prod.collapse sum.exhaust)
  with AcceptCommand_idempotent [OF first this refl] show ?thesis by simp
qed

text \<open>C4: a new submission advances the run. Its version is one more than the larger of the
  stored and the expected version (below the largest 64-bit integer), it is what the log and
  the row now hold, a finished run goes back to processing, and no other run and no other
  entry of the log is touched.\<close>

theorem AcceptCommand_advances:
  assumes run: "AcceptCommand c tmpl q e w = (Inr a, w')" and new: "commands_of w (run_ID tmpl, q) = None"
    and stored: "runs_of w (run_ID tmpl) = Some r"
    and bound: "run_WorkflowVersion r \<noteq> max_int64" "e \<noteq> max_int64"
  shows "\<not> ar_Duplicate a \<and> sint (ar_Version a) = max (sint (run_WorkflowVersion r)) (sint e) + 1 \<and>
    commands_of w' = (commands_of w)((run_ID tmpl, q) \<mapsto> ar_Version a) \<and>
    (\<exists>r'. runs_of w' = (runs_of w)(run_ID tmpl \<mapsto> r') \<and> run_WorkflowVersion r' = ar_Version a \<and>
       run_Status r' \<noteq> RunStatusCompleted \<and> run_Status r' \<noteq> RunStatusError)"
proof -
  note fresh = AcceptCommand_fresh [OF run new]
  then have "ar_Version a = next_version (run_WorkflowVersion r) e"
    using stored by simp
  moreover have "run_Status (ar_Record a) \<noteq> RunStatusCompleted \<and> run_Status (ar_Record a) \<noteq> RunStatusError"
    using AcceptCommand_status [OF run new] .
  moreover obtain ts where "runs_of w' = (runs_of w)(run_ID tmpl \<mapsto> (ar_Record a)\<lparr>run_UpdatedAt := ts\<rparr>)"
    using fresh by blast
  ultimately show ?thesis using fresh next_version_above [OF bound] by auto
qed

theorem AcceptCommand_advances_witness:
  "(case AcceptCommand None sample_template ''q2'' 9 (snd (sample_accept ''q'' 4)) of
      (Inr b, _) \<Rightarrow> sint (ar_Version b) = 10 | _ \<Rightarrow> False)"
proof -
  let ?w = "snd (sample_accept ''q'' 4)"
  have new: "commands_of ?w (run_ID sample_template, ''q2'') = None" by code_simp
  have "map_option run_WorkflowVersion (runs_of ?w (run_ID sample_template)) = Some 5" by code_simp
  then obtain r where r: "runs_of ?w (run_ID sample_template) = Some r" "run_WorkflowVersion r = 5" by blast
  have "isl (fst (AcceptCommand None sample_template ''q2'' 9 ?w)) = False" by code_simp
  then obtain b w where "AcceptCommand None sample_template ''q2'' 9 ?w = (Inr b, w)"
    by (metis isl_def prod.collapse sum.exhaust)
  with AcceptCommand_advances [OF this new r(1)] r(2) show ?thesis
    by (simp add: max_int64_def)
qed

text \<open>An expected version at the 64-bit maximum wraps the workflow version to the 64-bit
  minimum: the answer, the log and the row all hold it, so the version of the run is then
  lower than every version a client has seen.\<close>

theorem AcceptCommand_version_wraps:
  assumes run: "AcceptCommand c tmpl q max_int64 w = (Inr a, w')"
    and new: "commands_of w (run_ID tmpl, q) = None"
  shows "sint (ar_Version a) = - (2 ^ 63) \<and> commands_of w' (run_ID tmpl, q) = Some (ar_Version a) \<and>
    map_option run_WorkflowVersion (runs_of w' (run_ID tmpl)) = Some (ar_Version a)"
proof -
  note fresh = AcceptCommand_fresh [OF run new]
  then have "ar_Version a = - max_int64 - 1"
    using next_version_wraps [of _ max_int64] by simp
  moreover have "sint (- max_int64 - 1) = - (2 ^ 63)"
    by (simp add: max_int64_def)
  ultimately show ?thesis using fresh by auto
qed

theorem AcceptCommand_version_wraps_witness:
  "(case sample_accept ''q'' max_int64 of (Inr b, _) \<Rightarrow> sint (ar_Version b) = - 9223372036854775808 | _ \<Rightarrow> False)"
proof -
  have new: "commands_of (start_world no_fault (answering ''ok'') :: unit world) (run_ID sample_template, ''q'') = None"
    by code_simp
  have "isl (fst (sample_accept ''q'' max_int64)) = False" by code_simp
  then obtain b w where "sample_accept ''q'' max_int64 = (Inr b, w)"
    by (metis isl_def prod.collapse sum.exhaust)
  with AcceptCommand_version_wraps [OF this new] show ?thesis by simp
qed

text \<open>\<open>AcceptCommand\<close> is not atomic. Two submissions of one request id that both look it
  up before either records it are both answered as new, with the same version, though the
  log keeps one entry.\<close>

theorem AcceptCommand_race:
  assumes "accept_lookup c tmpl q w = (Inr (r1, None), w1)"
    and "accept_lookup d tmpl q w1 = (Inr (r2, s2), w2)"
    and "accept_record c tmpl q e r1 w2 = (Inr a, w3)"
    and "accept_record d tmpl q e r2 w3 = (Inr b, w4)"
  shows "s2 = None \<and> \<not> ar_Duplicate a \<and> \<not> ar_Duplicate b \<and> ar_Version a = ar_Version b \<and>
    commands_of w4 (run_ID tmpl, q) = Some (ar_Version a)"
proof -
  have "commands_of w2 (run_ID tmpl, q) = None"
    using accept_lookup_w [OF assms(1)] accept_lookup_w [OF assms(2)] by auto
  with accept_record_w [OF assms(3)] have "commands_of w3 (run_ID tmpl, q) = Some (ar_Version a)"
    by auto
  with accept_record_w [OF assms(4)] have "commands_of w4 (run_ID tmpl, q) = Some (ar_Version a)"
    by auto
  with accept_interleaved [OF assms] show ?thesis by simp
qed

theorem AcceptCommand_race_witness:
  "\<exists>r1 r2 (w2 :: unit world) a b w3 w4. accept_record None sample_template ''q'' 3 r1 w2 = (Inr a, w3) \<and>
     accept_record None sample_template ''q'' 3 r2 w3 = (Inr b, w4) \<and>
     \<not> ar_Duplicate a \<and> \<not> ar_Duplicate b \<and> ar_Version a = ar_Version b"
proof -
  let ?w = "start_world no_fault (answering ''ok'') :: unit world"
  let ?r = "sample_template\<lparr>run_UpdatedAt := ''2024-01-01T00:00:00Z''\<rparr>"
  let ?a1 = "accept_lookup None sample_template ''q'' ?w"
  let ?a2 = "accept_lookup None sample_template ''q'' (snd ?a1)"
  let ?a3 = "accept_record None sample_template ''q'' 3 ?r (snd ?a2)"
  let ?a4 = "accept_record None sample_template ''q'' 3 ?r (snd ?a3)"
  have 1: "fst ?a1 = Inr (?r, None)" by code_simp
  have 2: "fst ?a2 = Inr (?r, None)" by code_simp
  have 3: "isl (fst ?a3) = False" by code_simp
  have 4: "isl (fst ?a4) = False" by code_simp
  obtain a where a: "fst ?a3 = Inr a" using 3 by (metis isl_def sum.exhaust)
  obtain b where b: "fst ?a4 = Inr b" using 4 by (metis isl_def sum.exhaust)
  have runs: "?a1 = (Inr (?r, None), snd ?a1)" "?a2 = (Inr (?r, None), snd ?a2)"
    "?a3 = (Inr a, snd ?a3)" "?a4 = (Inr b, snd ?a4)"
    using 1 2 a b by (metis prod.collapse)+
  show ?thesis
    using AcceptCommand_race [OF runs] runs(3,4) by blast
qed

text \<open>A failure is persisted even though the context of the task is done: \<open>Fail\<close> marks the
  row as failed, with the text \<open>shutdown\<close> when the cause is a cancelled or expired context and
  with the text of the cause otherwise; it keeps everything else of the row, touches no other
  run, and answers the cause.\<close>

theorem Fail_persists:
  assumes "healthy (db w)" and "runs_of w i = Some r"
  shows "\<exists>w' ts. Fail i cause w = (Inl cause, w') \<and> runs_of w' = (runs_of w)(i \<mapsto>
    r\<lparr>run_Status := RunStatusError, run_UpdatedAt := ts,
      run_Error := Some (if err_kind cause = KCanceled \<or> err_kind cause = KDeadline
                         then ''shutdown'' else err_text cause)\<rparr>)"
proof -
  obtain w' ts where "Fail i cause w = (Inl cause, w')" and "runs_of w' = (runs_of w)(i \<mapsto>
      r\<lparr>run_Status := RunStatusError, run_Error := Some (fail_message cause), run_UpdatedAt := ts\<rparr>)"
    using Fail_row [OF assms] by blast
  then show ?thesis
    by (intro exI [of _ w'] exI [of _ ts]) (auto simp: fail_message_def fun_eq_iff intro!: RunRecord.equality)
qed

theorem Fail_persists_witness:
  "\<exists>w'. Fail 7 canceled (snd (sample_accept ''q'' 4)) = (Inl canceled, w') \<and>
     map_option run_Error (runs_of w' 7) = Some (Some ''shutdown'')"
proof -
  let ?w = "snd (sample_accept ''q'' 4)"
  have "healthy (db (start_world no_fault (answering ''ok'') :: unit world))"
    by (simp add: healthy_def start_world_def New_def no_fault_def)
  then have h: "healthy (db ?w)" by (rule AcceptCommand_healthy)
  have "map_option run_WorkflowVersion (runs_of ?w 7) = Some 5" by code_simp
  then obtain r where "runs_of ?w 7 = Some r" by blast
  from Fail_persists [OF h this, of canceled] show ?thesis
    by (auto simp: canceled_def)
qed

end
