(* ===== verification/Explorer.thy ===== *)
theory Explorer
  imports ExplorerBlocks Runs
begin

text \<open>
  Explorer chat runs (\<open>internal/explorer/service.go\<close>). The service's mutex makes \<open>Update\<close>,
  \<open>completeRun\<close> and \<open>failRun\<close> each one step; \<open>startRun\<close> and \<open>continueRun\<close> do not take it, so
  \<open>continueRun\<close> is the sequence of its read (\<open>continue_read\<close>) and its write (\<open>continue_write\<close>),
  between which other steps may come. The code index is the modelled one over the same
  database, an optional argument as the field is a pointer that may be nil; without a run
  manager a reply is a goroutine of its own (\<open>loose\<close>).
\<close>

section \<open>Requests and responses\<close>

record chatRequest =
  xq_OrganizationID :: int
  xq_Query :: string
  xq_RunID :: "int option"
  xq_InsertIndex :: "int option"
  xq_OnPageContext :: "string option"
  xq_PageName :: "string option"
  xq_CategoryKey :: "string option"
  xq_CategoryValue :: "string option"
  xq_UserOrgContext :: "json gomap"

record stateRequest =
  sq_OrganizationID :: int
  sq_RunID :: int

record updateRequest =
  uq_OrganizationID :: int
  uq_RunID :: int
  uq_Payload :: "json gomap"

record prStateRequest =
  pq_OrganizationID :: int
  pq_Provider :: string
  pq_PRID :: int

record ChatResponse =
  xr_RunID :: int
  xr_HasExplorerIndex :: bool
  xr_HasOrgProjectContext :: bool

record AgentRun =
  ag_RunID :: int
  ag_Status :: string
  ag_Title :: string
  ag_LastTriggeredAt :: string
  ag_CreatedAt :: string
  ag_UserID :: "int option"
  ag_CategoryKey :: "string option"
  ag_CategoryValue :: "string option"

definition dec_chatRequest :: "json \<Rightarrow> chatRequest res" where
  "dec_chatRequest = dec_struct (\<lambda>ms.
     bindE (field ''organization_id'' dec_int64 0 ms) (\<lambda>org.
     bindE (field ''query'' dec_string [] ms) (\<lambda>q.
     bindE (field ''run_id'' (dec_ptr dec_int64) None ms) (\<lambda>r.
     bindE (field ''insert_index'' (dec_ptr dec_int64) None ms) (\<lambda>i.
     bindE (field ''on_page_context'' (dec_ptr dec_string) None ms) (\<lambda>c.
     bindE (field ''page_name'' (dec_ptr dec_string) None ms) (\<lambda>p.
     bindE (field ''category_key'' (dec_ptr dec_string) None ms) (\<lambda>ck.
     bindE (field ''category_value'' (dec_ptr dec_string) None ms) (\<lambda>cv.
     bindE (field ''user_org_context'' dec_anymap [] ms) (\<lambda>u.
       Inr \<lparr>xq_OrganizationID = org, xq_Query = q, xq_RunID = r, xq_InsertIndex = i, xq_OnPageContext = c,
            xq_PageName = p, xq_CategoryKey = ck, xq_CategoryValue = cv, xq_UserOrgContext = u\<rparr>))))))))))"

definition dec_stateRequest :: "json \<Rightarrow> stateRequest res" where
  "dec_stateRequest = dec_struct (\<lambda>ms.
     bindE (field ''organization_id'' dec_int64 0 ms) (\<lambda>org.
     bindE (field ''run_id'' dec_int64 0 ms) (\<lambda>r.
       Inr \<lparr>sq_OrganizationID = org, sq_RunID = r\<rparr>)))"

definition dec_runsByIdsRequest :: "json \<Rightarrow> int list res" where
  "dec_runsByIdsRequest = dec_struct (\<lambda>ms. field ''run_ids'' (dec_array dec_int64 0) [] ms)"

definition dec_updateRequest :: "json \<Rightarrow> updateRequest res" where
  "dec_updateRequest = dec_struct (\<lambda>ms.
     bindE (field ''organization_id'' dec_int64 0 ms) (\<lambda>org.
     bindE (field ''run_id'' dec_int64 0 ms) (\<lambda>r.
     bindE (field ''payload'' dec_anymap [] ms) (\<lambda>p.
       Inr \<lparr>uq_OrganizationID = org, uq_RunID = r, uq_Payload = p\<rparr>))))"

definition dec_prStateRequest :: "json \<Rightarrow> prStateRequest res" where
  "dec_prStateRequest = dec_struct (\<lambda>ms.
     bindE (field ''organization_id'' dec_int64 0 ms) (\<lambda>org.
     bindE (field ''provider'' dec_string [] ms) (\<lambda>p.
     bindE (field ''pr_id'' dec_int64 0 ms) (\<lambda>r.
       Inr \<lparr>pq_OrganizationID = org, pq_Provider = p, pq_PRID = r\<rparr>))))"

definition explorer_not_found :: goerr where
  "explorer_not_found = errorf ''explorer run not found''"

section \<open>Replies\<close>

text \<open>A chat turn to answer; the id of its run travels beside it.\<close>

record chatTask =
  ct_organizationID :: int
  ct_query :: string
  ct_pageName :: "string option"
  ct_onPageContext :: "string option"

type_synonym 'a xop = "('a, chatTask world) op"

definition nowTimestamp :: "string xop" where
  "nowTimestamp = on_db None nowString"

text \<open>Each writer stores the whole state, its status and time copied onto the row.\<close>

definition save_state :: "ctx \<Rightarrow> ExplorerRunRecord \<Rightarrow> RunState \<Rightarrow> unit xop" where
  "save_state c rec st = on_db c (UpdateExplorerRun (rec\<lparr>ex_Status := es_Status st,
     ex_LastTriggeredAt := es_UpdatedAt st, ex_StateJSON := marshal (enc_RunState st)\<rparr>))"

definition completed_state :: "int \<Rightarrow> string \<Rightarrow> string \<Rightarrow> RunState \<Rightarrow> RunState" where
  "completed_state i reply timestamp st =
     st\<lparr>es_Blocks := resolveLoadingBlock (es_Blocks st) reply timestamp, es_Status := RunStatusCompleted,
        es_FailureReason := None, es_UpdatedAt := timestamp, es_RunID := i\<rparr>"

definition completeRun :: "ctx \<Rightarrow> int \<Rightarrow> string \<Rightarrow> unit xop" where
  "completeRun c runID reply =
     andThen (on_db c (GetExplorerRun runID)) (\<lambda>found. case found of
         None \<Rightarrow> fail (errorf (''explorer run '' @ FormatInt runID @ '' not found''))
       | Some rec \<Rightarrow>
           andThen (liftE (decodeRunState (ex_StateJSON rec))) (\<lambda>st.
           andThen nowTimestamp (\<lambda>timestamp.
             save_state c rec (completed_state (ex_ID rec) reply timestamp st))))"

definition failed_state :: "goerr \<Rightarrow> string \<Rightarrow> RunState \<Rightarrow> RunState" where
  "failed_state cause timestamp st =
     st\<lparr>es_Blocks := dropLoadingBlocks (es_Blocks st), es_Status := RunStatusError,
        es_FailureReason := Some (classifyFailure cause), es_UpdatedAt := timestamp\<rparr>"

text \<open>Every statement runs under \<open>context.WithoutCancel(ctx)\<close>.\<close>

definition failRun :: "int \<Rightarrow> goerr \<Rightarrow> unit xop" where
  "failRun runID cause =
     andThen (on_db None (GetExplorerRun runID)) (\<lambda>found. case found of
         None \<Rightarrow> fail cause
       | Some rec \<Rightarrow>
           andThen (liftE (decodeRunState (ex_StateJSON rec))) (\<lambda>st.
           andThen nowTimestamp (\<lambda>timestamp.
           andThen (save_state None rec (failed_state cause timestamp st)) (\<lambda>_. fail cause))))"

definition render_chunk :: "CodeResult \<Rightarrow> string" where
  "render_chunk r = [CHR 0x0A] @ cs_Path r @ '':'' @ FormatInt (int (cs_StartLine r)) @ ''-'' @
     FormatInt (int (cs_EndLine r)) @ '' ('' @ cs_Owner r @ ''/'' @ cs_Name r @ ''@'' @ cs_Ref r @ '')'' @
     [CHR 0x0A] @ TrimSpace (cs_Text r) @ [CHR 0x0A]"

text \<open>It never fails: a search that fails adds no context.\<close>

definition codeContext :: "store CodeIndex option \<Rightarrow> ctx \<Rightarrow> string \<Rightarrow> int \<Rightarrow> string xop" where
  "codeContext index c q organizationID =
     (case index of None \<Rightarrow> ret []
      | Some ci \<Rightarrow>
        if organizationID = 0 \<or> \<not> looksLikeCodeQuery q then ret []
        else (\<lambda>w. case on_db c (ci_Search ci q \<lparr>so_OrganizationID = organizationID, so_Provider = [],
              so_Owner = [], so_Name = [], so_Ref = [], so_K = 4\<rparr>) w of
            (Inl e, w1) \<Rightarrow> (Inr [], w1)
          | (Inr results, w1) \<Rightarrow> (Inr (if results = [] then []
               else [CHR 0x0A, CHR 0x0A] @ ''Relevant repository code:'' @ [CHR 0x0A] @
                 concat (map render_chunk results)), w1)))"

definition page_section :: "string \<Rightarrow> string option \<Rightarrow> string" where
  "page_section heading v = (case v of None \<Rightarrow> []
     | Some t \<Rightarrow> if TrimSpace t = [] then []
                 else [CHR 0x0A, CHR 0x0A] @ heading @ [CHR 0x0A] @ TrimSpace t)"

definition explorerSystemPrompt :: string where
  "explorerSystemPrompt = ''You are faux-seer, a Sentry Explorer assistant. Answer directly using the supplied page context and repository code when it helps, and acknowledge uncertainty when context is incomplete.''"

definition generateReply :: "store CodeIndex option \<Rightarrow> ctx \<Rightarrow> chatTask \<Rightarrow> string xop" where
  "generateReply index c t =
     andThen (codeContext index c (ct_query t) (ct_organizationID t)) (\<lambda>code.
     andThen (wrapping ''generate explorer response'' (llm_complete c
        \<lparr>cr_SystemPrompt = explorerSystemPrompt,
         cr_UserPrompt = TrimSpace (ct_query t) @ page_section ''Page:'' (ct_pageName t) @
           page_section ''On-page context:'' (ct_onPageContext t) @ code,
         cr_Temperature = ''0.2'', cr_MaxTokens = 600\<rparr>)) (\<lambda>response.
       ret (TrimSpace response)))"

definition chatTask_Run :: "store CodeIndex option \<Rightarrow> ctx \<Rightarrow> chatTask \<Rightarrow> int \<Rightarrow> unit xop" where
  "chatTask_Run index c t runID = (\<lambda>w. case generateReply index c t w of
       (Inl e, w1) \<Rightarrow> failRun runID e w1
     | (Inr reply, w1) \<Rightarrow> completeRun c runID reply w1)"

definition explorer_dispatch :: "int \<Rightarrow> int \<Rightarrow> string \<Rightarrow> string option \<Rightarrow> string option \<Rightarrow> unit xop" where
  "explorer_dispatch runID organizationID q pageName onPageContext = (\<lambda>w.
     let task = \<lparr>ct_organizationID = organizationID, ct_query = q, ct_pageName = pageName,
                 ct_onPageContext = onPageContext\<rparr>
     in case mgr w of
          None \<Rightarrow> (Inr (), w\<lparr>loose := loose w @ [(task, runID)]\<rparr>)
        | Some m \<Rightarrow> (Inr (), w\<lparr>mgr := Some (mgr_Start (run_key ''explorer'' runID) (task, runID) m)\<rparr>))"

section \<open>Starting and continuing a chat\<close>

definition chatResponse :: "store CodeIndex option \<Rightarrow> ctx \<Rightarrow> int \<Rightarrow> int \<Rightarrow> ChatResponse xop" where
  "chatResponse index c organizationID runID =
     (case index of
        None \<Rightarrow> ret \<lparr>xr_RunID = runID, xr_HasExplorerIndex = False, xr_HasOrgProjectContext = False\<rparr>
      | Some ci \<Rightarrow> (\<lambda>w. case on_db c (HasOrgIndex ci organizationID) w of (r, w1) \<Rightarrow>
          let hasIndex = (case r of Inl e \<Rightarrow> False | Inr b \<Rightarrow> b) in
          (Inr \<lparr>xr_RunID = runID, xr_HasExplorerIndex = hasIndex, xr_HasOrgProjectContext = hasIndex\<rparr>, w1)))"

definition first_state :: "chatRequest \<Rightarrow> string \<Rightarrow> RunState" where
  "first_state request timestamp =
     \<lparr>es_RunID = 0,
      es_Blocks = [makeBlock ''user'' (xq_Query request) 1 timestamp, makeLoadingBlock 2 timestamp],
      es_Status = RunStatusProcessing, es_UpdatedAt = timestamp,
      es_OwnerUserID = extractUserID (xq_UserOrgContext request), es_PendingUserInput = None,
      es_RepoPRStates = [], es_FailureReason = None\<rparr>"

definition first_record :: "chatRequest \<Rightarrow> string \<Rightarrow> ExplorerRunRecord" where
  "first_record request timestamp =
     \<lparr>ex_ID = 0, ex_OrganizationID = xq_OrganizationID request,
      ex_UserID = extractUserID (xq_UserOrgContext request), ex_Title = summarizeTitle (xq_Query request),
      ex_CategoryKey = xq_CategoryKey request, ex_CategoryValue = xq_CategoryValue request,
      ex_Provider = None, ex_PRID = None, ex_Status = RunStatusProcessing,
      ex_StateJSON = marshal (enc_RunState (first_state request timestamp)),
      ex_CreatedAt = timestamp, ex_LastTriggeredAt = timestamp\<rparr>"

definition startRun :: "store CodeIndex option \<Rightarrow> ctx \<Rightarrow> chatRequest \<Rightarrow> ChatResponse xop" where
  "startRun index c request =
     andThen nowTimestamp (\<lambda>timestamp.
     andThen (on_db c (CreateExplorerRun (first_record request timestamp))) (\<lambda>runID.
     andThen (on_db c (UpdateExplorerRun ((first_record request timestamp)\<lparr>ex_ID := runID,
         ex_StateJSON := marshal (enc_RunState ((first_state request timestamp)\<lparr>es_RunID := runID\<rparr>))\<rparr>))) (\<lambda>_.
     andThen (explorer_dispatch runID (xq_OrganizationID request) (xq_Query request) (xq_PageName request)
         (xq_OnPageContext request)) (\<lambda>_.
       chatResponse index c (xq_OrganizationID request) runID))))"

definition continue_read :: "ctx \<Rightarrow> chatRequest \<Rightarrow> int \<Rightarrow> (ExplorerRunRecord \<times> RunState) xop" where
  "continue_read c request runID =
     andThen (on_db c (GetExplorerRun runID)) (\<lambda>found. case found of
         None \<Rightarrow> fail explorer_not_found
       | Some rec \<Rightarrow>
           if ex_OrganizationID rec \<noteq> xq_OrganizationID request then fail explorer_not_found
           else andThen (liftE (decodeRunState (ex_StateJSON rec))) (\<lambda>st. ret (rec, st)))"

text \<open>The blocks an \<open>insert_index\<close> leaves; an index past the end leaves all of them.\<close>

definition kept_blocks :: "int option \<Rightarrow> MemoryBlock list \<Rightarrow> MemoryBlock list" where
  "kept_blocks insertIndex blocks =
     (case insertIndex of None \<Rightarrow> blocks
      | Some i \<Rightarrow> let index = (if i < 0 then 0 else i) in
          if index < int (length blocks) then take (nat index) blocks else blocks)"

definition continued_state :: "int \<Rightarrow> chatRequest \<Rightarrow> string \<Rightarrow> RunState \<Rightarrow> RunState" where
  "continued_state i request timestamp st =
     (let blocks = kept_blocks (xq_InsertIndex request) (es_Blocks st) in
      st\<lparr>es_Blocks := blocks @ [makeBlock ''user'' (xq_Query request) (length blocks + 1) timestamp,
                                makeLoadingBlock (length blocks + 2) timestamp],
         es_Status := RunStatusProcessing, es_FailureReason := None, es_UpdatedAt := timestamp, es_RunID := i\<rparr>)"

definition continue_write ::
    "store CodeIndex option \<Rightarrow> ctx \<Rightarrow> chatRequest \<Rightarrow> ExplorerRunRecord \<times> RunState \<Rightarrow> ChatResponse xop" where
  "continue_write index c request = (\<lambda>(rec, st).
     andThen nowTimestamp (\<lambda>timestamp.
     andThen (save_state c rec (continued_state (ex_ID rec) request timestamp st)) (\<lambda>_.
     andThen (explorer_dispatch (ex_ID rec) (xq_OrganizationID request) (xq_Query request) (xq_PageName request)
         (xq_OnPageContext request)) (\<lambda>_.
       chatResponse index c (xq_OrganizationID request) (ex_ID rec)))))"

definition continueRun :: "store CodeIndex option \<Rightarrow> ctx \<Rightarrow> chatRequest \<Rightarrow> int \<Rightarrow> ChatResponse xop" where
  "continueRun index c request runID =
     andThen (continue_read c request runID) (continue_write index c request)"

definition Chat :: "store CodeIndex option \<Rightarrow> ctx \<Rightarrow> blob \<Rightarrow> ChatResponse xop" where
  "Chat index c raw =
     andThen (decoding ''decode explorer chat request'' dec_chatRequest raw) (\<lambda>decoded.
       let request = decoded\<lparr>xq_Query := TrimSpace (xq_Query decoded)\<rparr> in
       if xq_OrganizationID request = 0 then fail org_required
       else if xq_Query request = [] then fail (errorf ''query is required'')
       else case xq_RunID request of
              None \<Rightarrow> startRun index c request
            | Some runID \<Rightarrow> continueRun index c request runID)"

section \<open>Reading\<close>

definition session_of :: "ExplorerRunRecord \<Rightarrow> RunState option xop" where
  "session_of rec = andThen (liftE (decodeRunState (ex_StateJSON rec))) (\<lambda>st. ret (Some st))"

definition GetState :: "ctx \<Rightarrow> blob \<Rightarrow> RunState option xop" where
  "GetState c raw =
     andThen (decoding ''decode explorer state request'' dec_stateRequest raw) (\<lambda>request.
       if sq_OrganizationID request = 0 then fail org_required
       else andThen (on_db c (GetExplorerRun (sq_RunID request))) (\<lambda>found. case found of
           None \<Rightarrow> ret None
         | Some rec \<Rightarrow> if ex_OrganizationID rec \<noteq> sq_OrganizationID request then ret None else session_of rec))"

fun collect_runs :: "ctx \<Rightarrow> int list \<Rightarrow> AgentRun gomap \<Rightarrow> AgentRun gomap xop" where
  "collect_runs c [] data = ret data"
| "collect_runs c (runID # runIDs) data =
     andThen (on_db c (GetExplorerRun runID)) (\<lambda>found. case found of
         None \<Rightarrow> collect_runs c runIDs data
       | Some rec \<Rightarrow>
           andThen (liftE (decodeRunState (ex_StateJSON rec))) (\<lambda>st.
             collect_runs c runIDs (mput (FormatInt (ex_ID rec))
               \<lparr>ag_RunID = ex_ID rec, ag_Status = es_Status st, ag_Title = ex_Title rec,
                ag_LastTriggeredAt = ex_LastTriggeredAt rec, ag_CreatedAt = ex_CreatedAt rec,
                ag_UserID = ex_UserID rec, ag_CategoryKey = ex_CategoryKey rec,
                ag_CategoryValue = ex_CategoryValue rec\<rparr> data)))"

definition GetRunsByIDs :: "ctx \<Rightarrow> blob \<Rightarrow> AgentRun gomap xop" where
  "GetRunsByIDs c raw =
     andThen (decoding ''decode explorer runs by ids request'' dec_runsByIdsRequest raw) (\<lambda>runIDs.
       collect_runs c runIDs [])"

definition GetStateByPR :: "ctx \<Rightarrow> blob \<Rightarrow> RunState option xop" where
  "GetStateByPR c raw =
     andThen (decoding ''decode explorer state/pr request'' dec_prStateRequest raw) (\<lambda>request.
       if pq_OrganizationID request = 0 then fail org_required
       else andThen (on_db c (GetExplorerRunByPR (pq_OrganizationID request) (pq_Provider request) (pq_PRID request)))
         (\<lambda>found. case found of None \<Rightarrow> ret None | Some rec \<Rightarrow> session_of rec))"

section \<open>Updates\<close>

text \<open>The \<open>switch\<close> on the payload type; beside the state, the query to resume with.\<close>

definition interrupted :: "RunState \<Rightarrow> RunState" where
  "interrupted st = st\<lparr>es_Blocks := dropLoadingBlocks (es_Blocks st), es_Status := RunStatusCompleted,
     es_PendingUserInput := None\<rparr>"

definition answered_input :: "string \<Rightarrow> string \<Rightarrow> string \<Rightarrow> RunState \<Rightarrow> RunState" where
  "answered_input q t1 t2 st = st\<lparr>es_PendingUserInput := None, es_Status := RunStatusProcessing,
     es_Blocks := es_Blocks st @ [makeBlock ''user'' q (length (es_Blocks st) + 1) t1,
       makeLoadingBlock (length (es_Blocks st) + 2) t2]\<rparr>"

definition created_pr :: "string \<Rightarrow> RunState \<Rightarrow> RunState" where
  "created_pr repoName st = st\<lparr>es_RepoPRStates := mput repoName
     (zero_RepoPRState\<lparr>rp_RepoName := repoName, rp_PRCreationStatus := Some ''completed''\<rparr>) (es_RepoPRStates st)\<rparr>"

definition apply_update :: "json gomap \<Rightarrow> RunState \<Rightarrow> (RunState \<times> string) xop" where
  "apply_update payload st =
     (case as_string (map_of payload ''type'') of
        None \<Rightarrow> ret (st, [])
      | Some ty \<Rightarrow>
          if ty = ''interrupt'' then ret (interrupted st, [])
          else if ty = ''user_input_response'' then
            (let q = submittedInput payload in
             if q = [] then ret (st\<lparr>es_PendingUserInput := None, es_Status := RunStatusCompleted\<rparr>, [])
             else andThen nowTimestamp (\<lambda>t1. andThen nowTimestamp (\<lambda>t2. ret (answered_input q t1 t2 st, q))))
          else if ty = ''awaiting_user_input'' then
            ret (st\<lparr>es_Status := RunStatusAwaiting, es_PendingUserInput := Some (pendingUserInput payload)\<rparr>, [])
          else if ty = ''create_pr'' then
            (case as_string (map_of payload ''repo_name'') of
               Some repoName \<Rightarrow> ret (if repoName \<noteq> [] then created_pr repoName st else st, [])
             | None \<Rightarrow> ret (st, []))
          else ret (st, []))"

definition Update :: "ctx \<Rightarrow> blob \<Rightarrow> int xop" where
  "Update c raw =
     andThen (decoding ''decode explorer update request'' dec_updateRequest raw) (\<lambda>request.
     if uq_OrganizationID request = 0 then fail org_required
     else andThen (on_db c (GetExplorerRun (uq_RunID request))) (\<lambda>found. case found of
         None \<Rightarrow> fail explorer_not_found
       | Some rec \<Rightarrow>
         if ex_OrganizationID rec \<noteq> uq_OrganizationID request then fail explorer_not_found
         else andThen (liftE (decodeRunState (ex_StateJSON rec))) (\<lambda>st.
           andThen (apply_update (uq_Payload request) st) (\<lambda>(st1, resumeQuery).
           andThen nowTimestamp (\<lambda>timestamp.
           andThen (save_state c rec (st1\<lparr>es_FailureReason := None, es_UpdatedAt := timestamp,
               es_RunID := ex_ID rec\<rparr>)) (\<lambda>_.
           andThen (if resumeQuery \<noteq> []
                    then explorer_dispatch (ex_ID rec) (uq_OrganizationID request) resumeQuery None None
                    else ret ()) (\<lambda>_.
             ret (uq_RunID request))))))))"

end
