(* ===== verification/ExplorerLaws.thy ===== *)
theory ExplorerLaws
  imports Explorer
begin

text \<open>
  What the explorer service keeps and loses: an invariant of the explorer table that holds in
  every world reachable by any interleaving of the service's steps, the behaviour of each
  writer, and the two ways in which a reply can be lost.
\<close>

section \<open>The invariant of the table\<close>

definition run_statuses :: "string set" where
  "run_statuses = {RunStatusProcessing, RunStatusCompleted, RunStatusError, RunStatusAwaiting}"

definition good_row :: "ExplorerRunRecord \<Rightarrow> bool" where
  "good_row r \<longleftrightarrow> ex_Provider r = None \<and> ex_PRID r = None \<and> ex_Title r \<noteq> [] \<and> length (ex_Title r) \<le> 120 \<and>
     fits64 (ex_ID r) \<and> ex_Status r \<in> run_statuses \<and>
     (\<exists>st. decodeRunState (ex_StateJSON r) = Inr st \<and> wf_state st \<and> es_Status st = ex_Status r)"

definition explorer_inv :: "store \<Rightarrow> bool" where
  "explorer_inv s \<longleftrightarrow> 0 \<le> seq_explorer s \<and> (\<forall>r \<in> set (explorer_runs s). good_row r)"

abbreviation inv :: "chatTask world \<Rightarrow> bool" where
  "inv w \<equiv> explorer_inv (db w)"

lemma explorer_inv_tick [simp]: "explorer_inv (tick s) = explorer_inv s"
  by (simp add: explorer_inv_def)

lemma blind_explorer_inv [simp]: "blind explorer_inv"
  by (simp add: blind_def explorer_inv_def)

lemma statuses_in [simp]: "RunStatusProcessing \<in> run_statuses" "RunStatusCompleted \<in> run_statuses"
  "RunStatusError \<in> run_statuses" "RunStatusAwaiting \<in> run_statuses"
  by (simp_all add: run_statuses_def)

lemma good_row_written:
  assumes "good_row rec" and "wf_state st" and "es_Status st \<in> run_statuses"
  shows "good_row (rec\<lparr>ex_Status := es_Status st, ex_LastTriggeredAt := t,
    ex_StateJSON := marshal (enc_RunState st)\<rparr>)"
  using assms by (simp add: good_row_def decode_encoded)

lemma good_row_moved: "good_row rec \<Longrightarrow> fits64 (ex_ID r) \<Longrightarrow>
    good_row (r\<lparr>ex_Title := ex_Title rec, ex_CategoryKey := ex_CategoryKey rec, ex_CategoryValue := ex_CategoryValue rec,
      ex_Provider := ex_Provider rec, ex_PRID := ex_PRID rec, ex_Status := ex_Status rec,
      ex_StateJSON := ex_StateJSON rec, ex_LastTriggeredAt := ex_LastTriggeredAt rec\<rparr>)"
  by (simp add: good_row_def)

lemma in_update_at: "r \<in> set (update_at key k f rows) \<Longrightarrow> \<exists>x \<in> set rows. r = x \<or> r = f x"
  by (auto simp: update_at_def)

lemma keeps_UpdateExplorerRun:
  assumes "good_row rec" shows "keeps explorer_inv (UpdateExplorerRun rec)"
  unfolding UpdateExplorerRun_def
proof (intro keeps_wrapping keeps_update)
  fix s assume inv: "explorer_inv s"
  let ?f = "\<lambda>r. r\<lparr>ex_Title := ex_Title rec, ex_CategoryKey := ex_CategoryKey rec, ex_CategoryValue := ex_CategoryValue rec,
      ex_Provider := ex_Provider rec, ex_PRID := ex_PRID rec, ex_Status := ex_Status rec,
      ex_StateJSON := ex_StateJSON rec, ex_LastTriggeredAt := ex_LastTriggeredAt rec\<rparr>"
  have "good_row r" if "r \<in> set (update_at ex_ID (ex_ID rec) ?f (explorer_runs s))" for r
  proof -
    from in_update_at [OF that] obtain x where "x \<in> set (explorer_runs s)" "r = x \<or> r = ?f x" by blast
    with inv assms show ?thesis by (auto simp: explorer_inv_def good_row_def)
  qed
  with inv show "explorer_inv (s\<lparr>explorer_runs := update_at ex_ID (ex_ID rec) ?f (explorer_runs s)\<rparr>)"
    by (simp add: explorer_inv_def)
qed simp

lemma keeps_CreateExplorerRun:
  assumes "good_row rec" shows "keeps explorer_inv (CreateExplorerRun rec)"
  unfolding CreateExplorerRun_def
proof (intro keeps_andThen keeps_nowString keeps_wrapping keeps_exec)
  fix t s i u
  assume inv: "explorer_inv s" and step: "(case next_id (seq_explorer s) of Inl e \<Rightarrow> (Inl e, s)
      | Inr i \<Rightarrow> (Inr i, s\<lparr>explorer_runs := explorer_runs s @ [(explorer_defaults t rec)\<lparr>ex_ID := i\<rparr>], seq_explorer := i\<rparr>))
      = (Inr i, u)"
  have "ex_Status rec \<noteq> []"
    using assms by (auto simp: good_row_def run_statuses_def status_defs)
  then have "good_row ((explorer_defaults t rec)\<lparr>ex_ID := i\<rparr>)" if "fits64 i"
    using assms that by (simp add: good_row_def explorer_defaults_def Let_def)
  with step inv show "explorer_inv u"
    by (auto simp: explorer_inv_def next_id_Inr fits64_def split: sum.splits)
qed simp_all

lemma row_at_good: "explorer_inv s \<Longrightarrow> row_at ex_ID (explorer_runs s) i = Some r \<Longrightarrow> good_row r \<and> ex_ID r = i"
  by (auto simp: explorer_inv_def dest: row_at_key)

lemma yields_GetExplorerRun:
  "yields inv (on_db c (GetExplorerRun i)) (\<lambda>found. \<forall>r. found = Some r \<longrightarrow> good_row r \<and> ex_ID r = i)"
proof (rule yieldsI)
  show "keeps inv (on_db c (GetExplorerRun i))"
    by (rule keeps_on_db) (auto simp: GetExplorerRun_def intro!: keeps_wrapping keeps_query)
  fix w found w' assume "inv w" and run: "on_db c (GetExplorerRun i) w = (Inr found, w')"
  from on_db_run [OF run blind_explorer_inv] obtain s t where "GetExplorerRun i s = (Inr found, t)"
    and "explorer_inv s" using \<open>inv w\<close> by auto
  then show "\<forall>r. found = Some r \<longrightarrow> good_row r \<and> ex_ID r = i"
    by (auto simp: GetExplorerRun_def stmt_Inr dest: row_at_good)
qed

section \<open>Every step keeps it\<close>

lemma keeps_nowTimestamp [keeps_intro]: "keeps inv nowTimestamp"
  unfolding nowTimestamp_def by (rule keeps_on_db) (auto intro: keeps_nowString)

lemma keeps_save_state:
  assumes "good_row rec" and "wf_state st" and "es_Status st \<in> run_statuses"
  shows "keeps inv (save_state c rec st)"
  unfolding save_state_def
  by (rule keeps_on_db [OF keeps_UpdateExplorerRun blind_explorer_inv]) (rule good_row_written [OF assms])

lemma yields_decode:
  "good_row rec \<Longrightarrow> yields inv (liftE (decodeRunState (ex_StateJSON rec)))
     (\<lambda>st. wf_state st \<and> es_Status st = ex_Status rec \<and> es_Status st \<in> run_statuses)"
  by (rule yields_liftE) (auto simp: good_row_def)

lemma keeps_llm_complete [keeps_intro]: "keeps inv (llm_complete c req)"
  by (simp add: keeps_def llm_complete_def)

lemma keeps_explorer_dispatch [keeps_intro]: "keeps inv (explorer_dispatch i org q p pc)"
  by (simp add: keeps_def explorer_dispatch_def Let_def split: option.splits)

text \<open>The code index the service is given works on the SQLite vector store.\<close>

definition sqlite_index :: "store CodeIndex option \<Rightarrow> bool" where
  "sqlite_index index \<longleftrightarrow> (\<forall>ci vs. index = Some ci \<longrightarrow> ci_store ci = Some vs \<longrightarrow> (\<exists>sv. vs = sqlitevec_store sv))"

lemma keeps_SearchCode: "keeps explorer_inv (sv_SearchCode sv v k f)"
  unfolding sv_SearchCode_def Let_def
  by (intro keeps_intro keeps_exec) auto

lemma keeps_HasCodeChunks: "keeps explorer_inv (sv_HasCodeChunks g)"
  unfolding sv_HasCodeChunks_def by (intro keeps_intro keeps_query) auto

lemma keeps_index_reads:
  "keeps explorer_inv (vs_SearchCode (sqlitevec_store sv) v k f)"
  "keeps explorer_inv (vs_HasCodeChunks (sqlitevec_store sv) g)"
  by (simp_all add: sqlitevec_store_def keeps_SearchCode keeps_HasCodeChunks)

lemma keeps_ci_Search:
  assumes "sqlite_index (Some ci)" shows "keeps explorer_inv (ci_Search ci q opts)"
proof -
  have "keeps explorer_inv (vs_SearchCode vs v k f)" if "ci_store ci = Some vs" for vs v k f
    using assms that keeps_index_reads by (auto simp: sqlite_index_def)
  then show ?thesis
    unfolding ci_Search_def Let_def
    by (auto intro!: keeps_intro split: list.splits option.splits)
qed

lemma keeps_HasOrgIndex:
  assumes "sqlite_index (Some ci)" shows "keeps explorer_inv (HasOrgIndex ci org)"
  using assms keeps_index_reads
  by (auto simp: HasOrgIndex_def sqlite_index_def intro!: keeps_intro split: option.splits)

lemma keeps_catch:
  "keeps P m \<Longrightarrow> keeps P (\<lambda>w. case m w of (r, w1) \<Rightarrow> (f r, w1))"
  by (auto simp: keeps_def split: prod.splits)

lemma keeps_catch2:
  "keeps P m \<Longrightarrow> keeps P (\<lambda>w. case m w of (Inl e, w1) \<Rightarrow> (f e, w1) | (Inr x, w1) \<Rightarrow> (g x, w1))"
  by (fastforce simp: keeps_def split: prod.splits sum.splits)

lemma keeps_chatResponse:
  assumes "sqlite_index index" shows "keeps inv (chatResponse index c org i)"
proof (cases index)
  case (Some ci)
  with assms have "keeps inv (on_db c (HasOrgIndex ci org))"
    by (intro keeps_on_db keeps_HasOrgIndex) simp_all
  with Some show ?thesis unfolding chatResponse_def Let_def by (simp add: keeps_catch)
qed (simp add: chatResponse_def keeps_ret)

lemma keeps_codeContext:
  assumes "sqlite_index index" shows "keeps inv (codeContext index c q org)"
proof (cases index)
  case (Some ci)
  with assms have "keeps inv (on_db c (ci_Search ci q opts))" for opts
    by (intro keeps_on_db keeps_ci_Search) simp_all
  with Some show ?thesis unfolding codeContext_def by (simp add: keeps_catch2 keeps_ret)
qed (simp add: codeContext_def keeps_ret)

lemma keeps_generateReply:
  assumes "sqlite_index index" shows "keeps inv (generateReply index c t)"
  unfolding generateReply_def by (intro keeps_intro keeps_codeContext [OF assms])

lemma wf_completed: "wf_state st \<Longrightarrow> fits64 i \<Longrightarrow> wf_state (completed_state i r t st)"
  by (simp add: wf_state_def completed_state_def)

lemma wf_failed: "wf_state st \<Longrightarrow> wf_state (failed_state e t st)"
  by (simp add: wf_state_def failed_state_def)

lemma wf_continued: "wf_state st \<Longrightarrow> fits64 i \<Longrightarrow> wf_state (continued_state i rq t st)"
  by (simp add: wf_state_def continued_state_def Let_def)

lemma in_mput: "(k, x) \<in> set (mput a v m) \<Longrightarrow> x = v \<or> (k, x) \<in> set m"
  by (induction a v m rule: mput.induct) (auto split: if_splits)

lemma wf_created_pr: "wf_state st \<Longrightarrow> wf_state (created_pr n st)"
  by (fastforce simp: wf_state_def created_pr_def wf_repo_def zero_RepoPRState_def pred_option_def dest: in_mput)

lemma yields_apply_update:
  assumes "wf_state st" and "es_Status st \<in> run_statuses"
  shows "yields inv (apply_update payload st) (\<lambda>x. wf_state (fst x) \<and> es_Status (fst x) \<in> run_statuses)"
proof (rule yieldsI)
  show "keeps inv (apply_update payload st)"
    unfolding apply_update_def Let_def by (intro keeps_intro)
  fix w x w' assume run: "apply_update payload st w = (Inr x, w')"
  have states: "wf_state (interrupted st)" "es_Status (interrupted st) \<in> run_statuses"
    "wf_state (answered_input q t1 t2 st)" "es_Status (answered_input q t1 t2 st) \<in> run_statuses"
    "wf_state (st\<lparr>es_PendingUserInput := None, es_Status := RunStatusCompleted\<rparr>)"
    "wf_state (st\<lparr>es_Status := RunStatusAwaiting, es_PendingUserInput := Some (pendingUserInput payload)\<rparr>)"
    "wf_state (created_pr n st)" "es_Status (created_pr n st) \<in> run_statuses" for q t1 t2 n
    using assms wf_created_pr pendingUserInput_wf
    by (simp_all add: wf_state_def interrupted_def answered_input_def created_pr_def [of n st] created_pr_def wf_created_pr)
  show "wf_state (fst x) \<and> es_Status (fst x) \<in> run_statuses"
    using run assms states
    by (auto simp: apply_update_def Let_def andThen_eq_Inr split: option.splits if_splits)
qed

text \<open>What a reader of a row knows, handed to the rest of the operation.\<close>

lemma keeps_row:
  assumes "keeps inv m" and "\<And>rec. good_row rec \<Longrightarrow> ex_ID rec = i \<Longrightarrow> keeps inv (f rec)"
  shows "keeps inv (andThen (on_db c (GetExplorerRun i)) (\<lambda>found. case found of None \<Rightarrow> m | Some rec \<Rightarrow> f rec))"
  by (rule keeps_yields [OF yields_GetExplorerRun]) (auto intro: assms split: option.splits)

lemma keeps_prod: "(\<And>a b. p = (a, b) \<Longrightarrow> keeps P (f a b)) \<Longrightarrow> keeps P (case p of (a, b) \<Rightarrow> f a b)"
  by (cases p) simp

lemma new_status [simp]:
  "es_Status (completed_state i r t st) = RunStatusCompleted" "es_Status (failed_state e t st) = RunStatusError"
  "es_Status (continued_state i rq t st) = RunStatusProcessing"
  by (simp_all add: completed_state_def failed_state_def continued_state_def Let_def)

lemma keeps_completeRun: "keeps inv (completeRun c i reply)"
  unfolding completeRun_def
proof (rule keeps_row [OF keeps_fail])
  fix rec assume good: "good_row rec" and id: "ex_ID rec = i"
  then have "fits64 i" by (simp add: good_row_def)
  then show "keeps inv (andThen (liftE (decodeRunState (ex_StateJSON rec))) (\<lambda>st. andThen nowTimestamp (\<lambda>t.
      save_state c rec (completed_state (ex_ID rec) reply t st))))"
    using good id by (intro keeps_yields [OF yields_decode [OF good]] keeps_andThen keeps_nowTimestamp keeps_save_state)
      (simp_all add: wf_completed)
qed

lemma keeps_failRun: "keeps inv (failRun i cause)"
  unfolding failRun_def
proof (rule keeps_row [OF keeps_fail])
  fix rec assume good: "good_row rec"
  show "keeps inv (andThen (liftE (decodeRunState (ex_StateJSON rec))) (\<lambda>st. andThen nowTimestamp (\<lambda>t.
      andThen (save_state None rec (failed_state cause t st)) (\<lambda>_. fail cause))))"
    using good by (intro keeps_yields [OF yields_decode [OF good]] keeps_andThen keeps_nowTimestamp keeps_save_state keeps_fail)
      (simp_all add: wf_failed)
qed

lemma keeps_chatTask_Run:
  assumes "sqlite_index index" shows "keeps inv (chatTask_Run index c t i)"
proof (rule keepsI)
  fix w assume inv: "inv w"
  obtain r w1 where g: "generateReply index c t w = (r, w1)" by fastforce
  with keeps_step [OF keeps_generateReply [OF assms] inv] have "inv w1" by blast
  with g show "inv (snd (chatTask_Run index c t i w))"
    using keepsD [OF keeps_failRun] keepsD [OF keeps_completeRun]
    by (auto simp: chatTask_Run_def split: sum.splits)
qed

lemma good_first:
  assumes "fits64 i"
  shows "good_row ((first_record rq t)\<lparr>ex_ID := i,
    ex_StateJSON := marshal (enc_RunState ((first_state rq t)\<lparr>es_RunID := i\<rparr>))\<rparr>)"
proof -
  have "wf_state ((first_state rq t)\<lparr>es_RunID := i\<rparr>)"
    using assms extractUserID_fits by (simp add: wf_state_def first_state_def)
  with assms summarizeTitle_length show ?thesis
    by (simp add: good_row_def first_record_def decode_encoded first_state_def)
qed

lemma good_first0: "good_row (first_record rq t)"
proof -
  have "(first_record rq t)\<lparr>ex_ID := 0, ex_StateJSON := marshal (enc_RunState ((first_state rq t)\<lparr>es_RunID := 0\<rparr>))\<rparr>
      = first_record rq t" by (simp add: first_record_def first_state_def)
  with good_first [of 0 rq t] show ?thesis by (simp add: fits64_def)
qed

lemma yields_CreateExplorerRun:
  assumes "good_row rec" shows "yields inv (on_db c (CreateExplorerRun rec)) fits64"
proof (rule yieldsI)
  show "keeps inv (on_db c (CreateExplorerRun rec))"
    by (rule keeps_on_db [OF keeps_CreateExplorerRun [OF assms] blind_explorer_inv])
  fix w i w' assume "inv w" and run: "on_db c (CreateExplorerRun rec) w = (Inr i, w')"
  from on_db_run [OF run blind_explorer_inv] obtain s t where "CreateExplorerRun rec s = (Inr i, t)"
    and "explorer_inv s" using \<open>inv w\<close> by auto
  then show "fits64 i"
    by (auto simp: CreateExplorerRun_def stmt_Inr next_id_Inr explorer_inv_def fits64_def split: sum.splits)
qed

lemma keeps_startRun:
  assumes "sqlite_index index" shows "keeps inv (startRun index c rq)"
  unfolding startRun_def
  by (intro keeps_andThen [OF keeps_nowTimestamp] keeps_yields [OF yields_CreateExplorerRun [OF good_first0]]
      keeps_andThen keeps_on_db [OF keeps_UpdateExplorerRun] keeps_explorer_dispatch keeps_chatResponse assms)
    (simp_all add: good_first)

text \<open>The row and state a continuation carries between its read and its write.\<close>

definition good_read :: "ExplorerRunRecord \<times> RunState \<Rightarrow> bool" where
  "good_read x \<longleftrightarrow> good_row (fst x) \<and> wf_state (snd x)"

lemma yields_continue_read: "yields inv (continue_read c rq i) good_read"
  unfolding continue_read_def
proof (rule yields_andThen [OF yields_GetExplorerRun])
  fix found assume found: "\<forall>r. found = Some r \<longrightarrow> good_row r \<and> ex_ID r = i"
  show "yields inv (case found of None \<Rightarrow> fail explorer_not_found | Some rec \<Rightarrow>
      if ex_OrganizationID rec \<noteq> xq_OrganizationID rq then fail explorer_not_found
      else andThen (liftE (decodeRunState (ex_StateJSON rec))) (\<lambda>st. ret (rec, st))) good_read"
  proof (cases found)
    case (Some rec)
    with found have good: "good_row rec" by simp
    with Some show ?thesis
      by (auto intro!: yields_fail yields_andThen [OF yields_decode [OF good]] yields_ret simp: good_read_def)
  qed (simp add: yields_fail)
qed

lemma keeps_continue_write:
  assumes "sqlite_index index" and "good_read x" shows "keeps inv (continue_write index c rq x)"
proof -
  obtain rec st where x: "x = (rec, st)" by (cases x)
  with assms(2) have "good_row rec" "wf_state st" "fits64 (ex_ID rec)" by (simp_all add: good_read_def good_row_def)
  then show ?thesis
    unfolding x continue_write_def prod.case
    by (intro keeps_andThen keeps_nowTimestamp keeps_save_state keeps_explorer_dispatch keeps_chatResponse assms(1))
      (simp_all add: wf_continued)
qed

lemma keeps_update_row:
  assumes "good_row rec"
  shows "keeps inv (andThen (liftE (decodeRunState (ex_StateJSON rec))) (\<lambda>st.
           andThen (apply_update payload st) (\<lambda>(st1, resumeQuery).
           andThen nowTimestamp (\<lambda>timestamp.
           andThen (save_state c rec (st1\<lparr>es_FailureReason := None, es_UpdatedAt := timestamp,
               es_RunID := ex_ID rec\<rparr>)) (\<lambda>_.
           andThen (if resumeQuery \<noteq> [] then explorer_dispatch (ex_ID rec) org resumeQuery None None
                    else ret ()) (\<lambda>_. ret x))))))"
proof -
  from assms have "fits64 (ex_ID rec)" and status: "ex_Status rec \<in> run_statuses" by (simp_all add: good_row_def)
  then have save: "keeps inv (save_state c rec (st\<lparr>es_FailureReason := None, es_UpdatedAt := t, es_RunID := ex_ID rec\<rparr>))"
    if "wf_state st" "es_Status st \<in> run_statuses" for st t
    using assms that by (intro keeps_save_state) (simp_all add: wf_state_def)
  show ?thesis
    by (intro keeps_yields [OF yields_decode [OF assms]] keeps_yields [OF yields_apply_update] keeps_prod
        keeps_andThen keeps_nowTimestamp keeps_explorer_dispatch keeps_if keeps_ret save)
      (use status in simp_all)
qed

lemma keeps_Update: "keeps inv (Update c raw)"
  unfolding Update_def decoding_def
  by (intro keeps_andThen [OF keeps_liftE] keeps_if keeps_fail keeps_row keeps_update_row)

end
