(* ===== verification/ExplorerProps.thy ===== *)
theory ExplorerProps
  imports ExplorerLaws
begin

text \<open>
  The properties of the explorer service: what holds in every reachable world, what each writer
  does to a run, and the interleavings in which a reply or a run is lost.
\<close>

section \<open>Reachable worlds\<close>

text \<open>
  Any interleaving of the service's steps, of the reads and writes of continuations, and of
  steps that leave the explorer table alone; \<open>ps\<close> are the continuations that have read and
  may still write. Neither \<open>startRun\<close> nor \<open>continueRun\<close> holds the service's lock, so the two statements of
  a start, the insert and the update that adds the id to the state, are steps of their own too
  (with any id, which allows for every interleaving); \<open>Update\<close>, \<open>completeRun\<close> and \<open>failRun\<close> hold it.
\<close>

inductive explorer_reachable ::
    "store CodeIndex option \<Rightarrow> chatTask world \<Rightarrow> (chatRequest \<times> ExplorerRunRecord \<times> RunState) set \<Rightarrow> bool"
  for index :: "store CodeIndex option" where
  reach_init: "explorer_runs (db w) = [] \<Longrightarrow> seq_explorer (db w) = 0 \<Longrightarrow> explorer_reachable index w {}"
| reach_start: "explorer_reachable index w ps \<Longrightarrow> explorer_reachable index (snd (startRun index c rq w)) ps"
| reach_create: "explorer_reachable index w ps \<Longrightarrow>
    explorer_reachable index (snd (on_db c (CreateExplorerRun (first_record rq t)) w)) ps"
| reach_created: "explorer_reachable index w ps \<Longrightarrow> fits64 i \<Longrightarrow>
    explorer_reachable index (snd (on_db c (UpdateExplorerRun ((first_record rq t)\<lparr>ex_ID := i,
         ex_StateJSON := marshal (enc_RunState ((first_state rq t)\<lparr>es_RunID := i\<rparr>))\<rparr>)) w)) ps"
| reach_read: "explorer_reachable index w ps \<Longrightarrow> continue_read c rq i w = (Inr x, w') \<Longrightarrow>
    explorer_reachable index w' (insert (rq, x) ps)"
| reach_read_error: "explorer_reachable index w ps \<Longrightarrow> continue_read c rq i w = (Inl e, w') \<Longrightarrow>
    explorer_reachable index w' ps"
| reach_write: "explorer_reachable index w ps \<Longrightarrow> (rq, x) \<in> ps \<Longrightarrow>
    explorer_reachable index (snd (continue_write index c rq x w)) ps"
| reach_update: "explorer_reachable index w ps \<Longrightarrow> explorer_reachable index (snd (Update c raw w)) ps"
| reach_reply: "explorer_reachable index w ps \<Longrightarrow> explorer_reachable index (snd (generateReply index c t w)) ps"
| reach_complete: "explorer_reachable index w ps \<Longrightarrow> explorer_reachable index (snd (completeRun c i reply w)) ps"
| reach_fail: "explorer_reachable index w ps \<Longrightarrow> explorer_reachable index (snd (failRun i cause w)) ps"
| reach_other: "explorer_reachable index w ps \<Longrightarrow> explorer_runs (db w') = explorer_runs (db w) \<Longrightarrow>
    seq_explorer (db w') = seq_explorer (db w) \<Longrightarrow> explorer_reachable index w' ps"

lemma explorer_reachable_inv:
  assumes "explorer_reachable index w ps" and index: "sqlite_index index"
  shows "inv w \<and> (\<forall>p \<in> ps. good_read (snd p))"
  using assms(1)
proof (induction rule: explorer_reachable.induct)
  case (reach_init w)
  then show ?case by (simp add: explorer_inv_def)
next
  case (reach_start w ps c rq)
  with keepsD [OF keeps_startRun [OF index]] show ?case by blast
next
  case (reach_create w ps c rq t)
  with keepsD [OF keeps_on_db [OF keeps_CreateExplorerRun [OF good_first0] blind_explorer_inv]] show ?case by blast
next
  case (reach_created w ps i c rq t)
  with keepsD [OF keeps_on_db [OF keeps_UpdateExplorerRun [OF good_first [OF reach_created.hyps(2)]] blind_explorer_inv]]
  show ?case by blast
next
  case (reach_read w ps c rq i x w')
  with yields_continue_read have "good_read x" "inv w'" unfolding yields_def by (meson keeps_step)+
  with reach_read show ?case by simp
next
  case (reach_read_error w ps c rq i e w')
  with yields_continue_read have "inv w'" unfolding yields_def by (meson keeps_step)
  with reach_read_error show ?case by simp
next
  case (reach_write w ps rq x c)
  then have "good_read x" by force
  with reach_write keepsD [OF keeps_continue_write [OF index]] show ?case by blast
next
  case (reach_update w ps c raw)
  with keepsD [OF keeps_Update] show ?case by blast
next
  case (reach_reply w ps c t)
  with keepsD [OF keeps_generateReply [OF index]] show ?case by blast
next
  case (reach_complete w ps c i reply)
  with keepsD [OF keeps_completeRun] show ?case by blast
next
  case (reach_fail w ps i cause)
  with keepsD [OF keeps_failRun] show ?case by blast
next
  case (reach_other w ps w')
  then show ?case by (simp add: explorer_inv_def)
qed

section \<open>The table under the writers\<close>

abbreviation explorer_of :: "chatTask world \<Rightarrow> int \<Rightarrow> ExplorerRunRecord option" where
  "explorer_of w \<equiv> explorer_view (db w)"

lemma explorer_of_id: "explorer_of w i = Some r \<Longrightarrow> ex_ID r = i"
  by (auto simp: explorer_view_def dest: row_at_key)

lemma GetExplorerRun_w:
  "on_db c (GetExplorerRun i) w = (Inr r, w') \<Longrightarrow> r = explorer_of w i \<and> explorer_of w' = explorer_of w"
  by (rule explorer_w.lookup_ok)

definition written :: "RunState \<Rightarrow> ExplorerRunRecord \<Rightarrow> ExplorerRunRecord" where
  "written st r = r\<lparr>ex_Status := es_Status st, ex_LastTriggeredAt := es_UpdatedAt st,
     ex_StateJSON := marshal (enc_RunState st)\<rparr>"

lemma save_state_w:
  assumes "save_state c rec st w = (Inr x, w')" and "explorer_of w (ex_ID rec) = Some rec"
  shows "explorer_of w' = (explorer_of w)(ex_ID rec \<mapsto> written st rec)"
  using explorer_w.modify_ok [OF assms(1) [unfolded save_state_def]] assms(2)
  by (auto simp: rewrite_explorer_def written_def)

text \<open>A stale record overwrites every column but the fixed ones.\<close>

lemma save_state_stale:
  assumes "save_state c rec st w = (Inr x, w')" and "explorer_of w (ex_ID rec) = Some r"
  shows "\<exists>r'. explorer_of w' = (explorer_of w)(ex_ID rec \<mapsto> r') \<and> ex_StateJSON r' = marshal (enc_RunState st) \<and>
    ex_Status r' = es_Status st \<and> ex_OrganizationID r' = ex_OrganizationID r"
  using explorer_w.modify_ok [OF assms(1) [unfolded save_state_def]] assms(2)
  by (auto simp: rewrite_explorer_def intro!: exI)

lemma nowTimestamp_w: "nowTimestamp w = (r, w') \<Longrightarrow> explorer_of w' = explorer_of w \<and> (\<exists>t. r = Inr t)"
  by (auto simp: nowTimestamp_def on_db_alive nowString_def)

definition state_of :: "chatTask world \<Rightarrow> int \<Rightarrow> RunState option" where
  "state_of w i = (case explorer_of w i of None \<Rightarrow> None
     | Some r \<Rightarrow> (case decodeRunState (ex_StateJSON r) of Inl e \<Rightarrow> None | Inr st \<Rightarrow> Some st))"

lemma state_of_written: "wf_state st \<Longrightarrow> explorer_of w i = Some r \<Longrightarrow> ex_StateJSON r = marshal (enc_RunState st) \<Longrightarrow>
    state_of w i = Some st"
  by (simp add: state_of_def decode_encoded)

lemma written_json [simp]: "ex_StateJSON (written st r) = marshal (enc_RunState st)" "ex_Status (written st r) = es_Status st"
  "ex_ID (written st r) = ex_ID r" "ex_OrganizationID (written st r) = ex_OrganizationID r"
  by (simp_all add: written_def)

lemma completeRun_w:
  assumes "completeRun c i reply w = (Inr x, w')"
  shows "\<exists>r st t. explorer_of w i = Some r \<and> decodeRunState (ex_StateJSON r) = Inr st \<and>
    explorer_of w' = (explorer_of w)(i \<mapsto> written (completed_state i reply t st) r)"
proof -
  from assms obtain r st t w1 w2 where g: "on_db c (GetExplorerRun i) w = (Inr (Some r), w1)"
    and st: "decodeRunState (ex_StateJSON r) = Inr st" and n: "nowTimestamp w1 = (Inr t, w2)"
    and s: "save_state c r (completed_state (ex_ID r) reply t st) w2 = (Inr x, w')"
    by (auto simp: completeRun_def andThen_eq_Inr split: option.split_asm)
  from GetExplorerRun_w [OF g] nowTimestamp_w [OF n] have r: "explorer_of w i = Some r" "explorer_of w2 = explorer_of w" by auto
  note id = explorer_of_id [OF r(1)]
  from save_state_w [OF s] r id have "explorer_of w' = (explorer_of w)(i \<mapsto> written (completed_state i reply t st) r)" by simp
  with r st show ?thesis by blast
qed

lemma on_db_cancelled:
  assumes "on_db (Some e) m w = (r, w')" and "\<And>s. sql_fault s (clock s) = Some e \<Longrightarrow> \<exists>e'. m s = (Inl e', tick s)"
  shows "(\<exists>e'. r = Inl e') \<and> explorer_of w' = explorer_of w"
proof -
  let ?s = "(db w)\<lparr>sql_fault := \<lambda>_. Some e\<rparr>"
  from assms(2) [of ?s] obtain e' where "m ?s = (Inl e', tick ?s)" by auto
  with assms(1) show ?thesis by (auto simp: on_db_def under_ctx_def explorer_view_def)
qed

lemma GetExplorerRun_refused:
  "sql_fault s (clock s) = Some e \<Longrightarrow> GetExplorerRun i s = (Inl (wrap ''get explorer run'' e), tick s)"
  by (simp add: GetExplorerRun_def wrapping_def query_def exec_def)

section \<open>A live driver\<close>

lemma GetExplorerRun_live:
  "healthy (db w) \<Longrightarrow> \<exists>w'. on_db None (GetExplorerRun i) w = (Inr (explorer_of w i), w') \<and>
     explorer_of w' = explorer_of w \<and> healthy (db w')"
  by (simp add: on_db_alive GetExplorerRun_def wrapping_def query_healthy explorer_view_def)

lemma nowTimestamp_live:
  "\<exists>t w'. nowTimestamp w = (Inr t, w') \<and> explorer_of w' = explorer_of w \<and> healthy (db w') = healthy (db w)"
  by (simp add: nowTimestamp_def on_db_alive nowString_def)

lemma save_state_live:
  assumes "healthy (db w)" and "explorer_of w (ex_ID rec) = Some rec"
  shows "\<exists>w'. save_state None rec st w = (Inr (), w') \<and>
    explorer_of w' = (explorer_of w)(ex_ID rec \<mapsto> written st rec)"
proof -
  obtain w' where run: "save_state None rec st w = (Inr (), w')"
    using assms(1) by (simp add: save_state_def on_db_alive UpdateExplorerRun_def wrapping_def update_healthy)
  with save_state_w [OF run assms(2)] show ?thesis by blast
qed

lemma failRun_live:
  assumes "healthy (db w)" and r: "explorer_of w i = Some r" and st: "decodeRunState (ex_StateJSON r) = Inr st"
  shows "\<exists>w' t. failRun i cause w = (Inl cause, w') \<and>
    explorer_of w' = (explorer_of w)(i \<mapsto> written (failed_state cause t st) r)"
proof -
  obtain w1 where g: "on_db None (GetExplorerRun i) w = (Inr (explorer_of w i), w1)"
    and w1: "explorer_of w1 = explorer_of w" "healthy (db w1)" using GetExplorerRun_live [OF assms(1)] by blast
  obtain t w2 where n: "nowTimestamp w1 = (Inr t, w2)" and w2: "explorer_of w2 = explorer_of w" "healthy (db w2)"
    using nowTimestamp_live [of w1] w1 by auto
  note id = explorer_of_id [OF r]
  obtain w3 where s: "save_state None r (failed_state cause t st) w2 = (Inr (), w3)"
    and w3: "explorer_of w3 = (explorer_of w)(i \<mapsto> written (failed_state cause t st) r)"
    using save_state_live [OF w2(2), of r] w2(1) r id by auto
  have "failRun i cause w = (Inl cause, w3)"
    by (simp add: failRun_def andThen_def g r st n s)
  with w3 show ?thesis by blast
qed

lemma completeRun_live:
  assumes "healthy (db w)" and r: "explorer_of w i = Some r" and st: "decodeRunState (ex_StateJSON r) = Inr st"
  shows "\<exists>w'. completeRun None i reply w = (Inr (), w')"
proof -
  obtain w1 where g: "on_db None (GetExplorerRun i) w = (Inr (explorer_of w i), w1)"
    and w1: "explorer_of w1 = explorer_of w" "healthy (db w1)" using GetExplorerRun_live [OF assms(1)] by blast
  obtain t w2 where n: "nowTimestamp w1 = (Inr t, w2)" and w2: "explorer_of w2 = explorer_of w" "healthy (db w2)"
    using nowTimestamp_live [of w1] w1 by auto
  obtain w3 where "save_state None r (completed_state (ex_ID r) reply t st) w2 = (Inr (), w3)"
    using save_state_live [OF w2(2), of r] w2(1) r explorer_of_id [OF r] by auto
  then show ?thesis by (simp add: completeRun_def andThen_def g r st n)
qed

lemma continue_read_live:
  assumes "healthy (db w)" and r: "explorer_of w i = Some r" and st: "decodeRunState (ex_StateJSON r) = Inr st"
    and "ex_OrganizationID r = xq_OrganizationID rq"
  shows "\<exists>w'. continue_read None rq i w = (Inr (r, st), w')"
  using GetExplorerRun_live [OF assms(1), of i] assms(2-4) by (auto simp: continue_read_def andThen_def)

lemma continue_write_live:
  assumes "healthy (db w)"
  shows "\<exists>x w'. continue_write None None rq (rec, st) w = (Inr x, w')"
proof -
  obtain t w2 where n: "nowTimestamp w = (Inr t, w2)" and w2: "healthy (db w2)"
    using nowTimestamp_live [of w] assms by auto
  obtain w3 where s: "save_state None rec (continued_state (ex_ID rec) rq t st) w2 = (Inr (), w3)"
    using w2 by (simp add: save_state_def on_db_alive UpdateExplorerRun_def wrapping_def update_healthy)
  obtain w4 where "explorer_dispatch (ex_ID rec) (xq_OrganizationID rq) (xq_Query rq) (xq_PageName rq)
      (xq_OnPageContext rq) w3 = (Inr (), w4)"
    by (cases "mgr w3") (simp_all add: explorer_dispatch_def Let_def)
  then show ?thesis by (simp add: continue_write_def andThen_def n s chatResponse_def)
qed

section \<open>A conversation to evaluate\<close>

definition sample_request :: chatRequest where
  "sample_request = \<lparr>xq_OrganizationID = 1, xq_Query = ''why?'', xq_RunID = None, xq_InsertIndex = None,
     xq_OnPageContext = None, xq_PageName = None, xq_CategoryKey = None, xq_CategoryValue = None,
     xq_UserOrgContext = []\<rparr>"

definition explorer_world :: "chatTask world" where
  "explorer_world = start_world no_fault (answering ''because'')"

definition chat_started :: "chatTask world" where
  "chat_started = snd (startRun None None sample_request explorer_world)"

lemma sqlite_index_None [simp]: "sqlite_index None"
  by (simp add: sqlite_index_def)

lemma reach_empty: "explorer_reachable None explorer_world {}"
  by (rule reach_init) (simp_all add: explorer_world_def start_world_def New_def)

lemma reach_chat_started: "explorer_reachable None chat_started {}"
  unfolding chat_started_def by (rule reach_start [OF reach_empty])

definition first_blocks :: "MemoryBlock list" where
  "first_blocks = [makeBlock ''user'' ''why?'' 1 ''2024-01-01T00:00:00Z'', makeLoadingBlock 2 ''2024-01-01T00:00:00Z'']"

lemma pred_option_eval [code]: "pred_option P None = True" "pred_option P (Some x) = P x"
  by simp_all

lemma chat_started_state:
  "map_option (\<lambda>r. (ex_OrganizationID r, ex_Status r, map_option (\<lambda>st. (es_Blocks st, wf_state st))
      (case decodeRunState (ex_StateJSON r) of Inl e \<Rightarrow> None | Inr st \<Rightarrow> Some st))) (explorer_of chat_started 1) =
   Some (1, RunStatusProcessing, Some (first_blocks, True))"
  by code_simp

lemma driver_explorer_stmts:
  "readonly driver (on_db c (GetExplorerRun i))" "readonly driver (on_db c (UpdateExplorerRun r))"
  "readonly driver (on_db c (CreateExplorerRun r))" "readonly driver nowTimestamp"
  unfolding nowTimestamp_def store_defs by (intro readonly_driver_on_db readonly_stmt; simp split: sum.split)+

lemma driver_dispatch: "readonly driver (explorer_dispatch i org q p pc)"
  by (simp add: readonly_def explorer_dispatch_def driver_def Let_def split: option.splits)

lemma driver_startRun: "readonly driver (startRun None c rq)"
  unfolding startRun_def chatResponse_def option.case
  by (intro effect_intro driver_explorer_stmts driver_dispatch)

lemma driver_continue_write: "readonly driver (continue_write None c rq x)"
  unfolding continue_write_def chatResponse_def option.case case_prod_unfold save_state_def
  by (intro effect_intro driver_explorer_stmts driver_dispatch)

lemma healthy_run: "readonly driver m \<Longrightarrow> healthy (db w) \<Longrightarrow> healthy (db (snd (m w)))"
  using driver_healthy unfolding readonly_def by blast

lemma chat_started_healthy: "healthy (db chat_started)"
  unfolding chat_started_def by (rule healthy_run [OF driver_startRun]) (simp add: explorer_world_def)

text \<open>The one run of the sample, with its row and state.\<close>

lemma chat_started_run:
  obtains r st where "explorer_of chat_started 1 = Some r" "decodeRunState (ex_StateJSON r) = Inr st"
    "state_of chat_started 1 = Some st" "wf_state st" "es_Blocks st = first_blocks" "ex_Status r = RunStatusProcessing"
    "ex_OrganizationID r = 1"
proof -
  from chat_started_state obtain r where r: "explorer_of chat_started 1 = Some r" "ex_OrganizationID r = 1"
    "ex_Status r = RunStatusProcessing" and st: "map_option (\<lambda>st. (es_Blocks st, wf_state st))
      (case decodeRunState (ex_StateJSON r) of Inl e \<Rightarrow> None | Inr st \<Rightarrow> Some st) = Some (first_blocks, True)"
    by auto
  from st obtain st where "decodeRunState (ex_StateJSON r) = Inr st" "es_Blocks st = first_blocks" "wf_state st"
    by (cases "decodeRunState (ex_StateJSON r)") auto
  with r that show thesis by (simp add: state_of_def)
qed

lemma loading_first [simp]: "loading_blocks first_blocks = 1"
  by (simp add: first_blocks_def)

section \<open>Properties\<close>

text \<open>What a run stores it reads back: decoding the blob written for a state gives that state again, blocks,
  pending input, pull request states and optional fields included, for every state Go's types allow
  (64-bit integers, maps with distinct keys).\<close>

theorem run_state_roundtrip:
  assumes "fits64 (es_RunID s)" and "pred_option fits64 (es_OwnerUserID s)"
    and "pred_option (\<lambda>p. pred_option wf_map (pu_Data p)) (es_PendingUserInput s)"
    and "wf_map (es_RepoPRStates s)"
    and "\<And>k r. (k, r) \<in> set (es_RepoPRStates s) \<Longrightarrow> pred_option fits64 (rp_PRNumber r) \<and> pred_option fits64 (rp_PRID r)"
  shows "decodeRunState (marshal (enc_RunState s)) = Inr s"
  by (rule decode_encoded) (use assms in \<open>auto simp: wf_state_def wf_repo_def\<close>)

theorem run_state_roundtrip_witness:
  "decodeRunState (marshal (enc_RunState (created_pr ''o/r'' (first_state sample_request ''now'')))) =
     Inr (created_pr ''o/r'' (first_state sample_request ''now''))"
  by (rule run_state_roundtrip)
    (auto simp: created_pr_def first_state_def sample_request_def fits64_def extractUserID_def zero_RepoPRState_def wf_map_def)

text \<open>C19: in every world reachable by any interleaving of the explorer's steps each row of the table is sound:
  its blob decodes, the status column equals the status in the blob and is one of the four Sentry knows,
  the title is not empty and at most 120 bytes, and no pull request is recorded.\<close>

theorem explorer_rows_sound:
  assumes "explorer_reachable index w ps" and "sqlite_index index" and "r \<in> set (explorer_runs (db w))"
  shows "\<exists>st. decodeRunState (ex_StateJSON r) = Inr st \<and> es_Status st = ex_Status r \<and>
    ex_Status r \<in> {RunStatusProcessing, RunStatusCompleted, RunStatusError, RunStatusAwaiting} \<and>
    ex_Title r \<noteq> [] \<and> length (ex_Title r) \<le> 120 \<and> ex_Provider r = None \<and> ex_PRID r = None"
proof -
  from explorer_reachable_inv [OF assms(1,2)] assms(3) have "good_row r" by (simp add: explorer_inv_def)
  then show ?thesis by (auto simp: good_row_def run_statuses_def)
qed

theorem explorer_rows_sound_witness:
  "\<exists>r st. explorer_of chat_started 1 = Some r \<and> decodeRunState (ex_StateJSON r) = Inr st \<and> es_Status st = ex_Status r"
proof -
  obtain r where r: "explorer_of chat_started 1 = Some r" by (rule chat_started_run)
  then have "r \<in> set (explorer_runs (db chat_started))" by (auto simp: explorer_view_def dest: row_at_key)
  from explorer_rows_sound [OF reach_chat_started sqlite_index_None this] r show ?thesis by blast
qed

text \<open>No reachable world has a run that GetStateByPR can find: it answers a null session to every request that
  succeeds, because no operation ever records a provider and a pull request id.\<close>

theorem GetStateByPR_finds_nothing:
  assumes "explorer_reachable index w ps" and "sqlite_index index" and "GetStateByPR c raw w = (Inr found, w')"
  shows "found = None"
proof -
  from assms(3) obtain rq :: prStateRequest where
    "andThen (on_db c (GetExplorerRunByPR (pq_OrganizationID rq) (pq_Provider rq) (pq_PRID rq)))
       (case_option (ret None) session_of) w = (Inr found, w')"
    by (auto simp: GetStateByPR_def andThen_eq_Inr [of "decoding _ _ _"] decoding_eq split: if_splits)
  then obtain row w1 where g: "on_db c (GetExplorerRunByPR (pq_OrganizationID rq) (pq_Provider rq) (pq_PRID rq)) w
      = (Inr row, w1)" and rest: "(case row of None \<Rightarrow> ret None | Some rec \<Rightarrow> session_of rec) w1 = (Inr found, w')"
    unfolding andThen_eq_Inr by blast
  from on_db_run [OF g blind_explorer_inv] explorer_reachable_inv [OF assms(1,2)] obtain s t where
    run: "GetExplorerRunByPR (pq_OrganizationID rq) (pq_Provider rq) (pq_PRID rq) s = (Inr row, t)" and "explorer_inv s" by auto
  have "row = None"
  proof (cases row)
    case (Some r)
    with run have "r \<in> set (explorer_runs s)" "ex_PRID r = Some (pq_PRID rq)"
      by (auto simp: GetExplorerRunByPR_def stmt_Inr dest!: first_row_in [OF sym])
    with \<open>explorer_inv s\<close> show ?thesis by (auto simp: explorer_inv_def good_row_def)
  qed
  with rest show ?thesis by simp
qed

definition pr_request :: blob where
  "pr_request = Doc (JObj [(''organization_id'', JNum 1), (''provider'', JStr ''github''), (''pr_id'', JNum 5)])"

theorem GetStateByPR_finds_nothing_witness:
  "\<exists>w'. GetStateByPR None pr_request chat_started = (Inr None, w')"
proof -
  have "isl (fst (GetStateByPR None pr_request chat_started)) = False" by code_simp
  from run_Inr [OF this] obtain found w' where run: "GetStateByPR None pr_request chat_started = (Inr found, w')" by blast
  with GetStateByPR_finds_nothing [OF reach_chat_started sqlite_index_None run] show ?thesis by blast
qed

text \<open>A reply that lands completes the run: exactly one pending block is filled in (the last one), or the reply
  is appended when none is pending, so one pending block fewer remains; the row and the blob say completed,
  the failure reason is cleared, and no other run changes.\<close>

theorem completeRun_answers:
  assumes "completeRun c i reply w = (Inr x, w')" and "state_of w i = Some st" and "wf_state st" and "fits64 i"
  shows "\<exists>st' r'. state_of w' i = Some st' \<and> explorer_of w' = (explorer_of w)(i \<mapsto> r') \<and>
    es_Status st' = RunStatusCompleted \<and> ex_Status r' = RunStatusCompleted \<and> es_FailureReason st' = None \<and>
    loading_blocks (es_Blocks st') = loading_blocks (es_Blocks st) - 1 \<and>
    (if loading_blocks (es_Blocks st) = 0
     then \<exists>t. es_Blocks st' = es_Blocks st @ [makeBlock ''assistant'' reply (length (es_Blocks st) + 1) t]
     else length (es_Blocks st') = length (es_Blocks st))"
proof -
  from completeRun_w [OF assms(1)] assms(2) obtain r t where
    w': "explorer_of w' = (explorer_of w)(i \<mapsto> written (completed_state i reply t st) r)"
    by (auto simp: state_of_def)
  let ?st = "completed_state i reply t st"
  have "state_of w' i = Some ?st"
    by (rule state_of_written [of _ _ _ "written ?st r"]) (use assms w' in \<open>simp_all add: wf_completed\<close>)
  moreover have "es_Blocks ?st = resolveLoadingBlock (es_Blocks st) reply t" by (simp add: completed_state_def)
  moreover have "es_FailureReason ?st = None" by (simp add: completed_state_def)
  ultimately show ?thesis
    using w' resolve_none [of "es_Blocks st" reply t] resolve_pending [of "es_Blocks st" "loading_blocks (es_Blocks st) - 1" reply t]
    by (intro exI [of _ ?st] exI [of _ "written ?st r"]) auto
qed

theorem completeRun_answers_witness:
  "\<exists>x w' st'. completeRun None 1 ''because'' chat_started = (Inr x, w') \<and> state_of w' 1 = Some st' \<and>
     es_Status st' = RunStatusCompleted \<and> loading_blocks (es_Blocks st') = 0 \<and> length (es_Blocks st') = 2"
proof -
  obtain r st where r: "explorer_of chat_started 1 = Some r" "decodeRunState (ex_StateJSON r) = Inr st" and
    st: "state_of chat_started 1 = Some st" "wf_state st" "es_Blocks st = first_blocks"
    by (rule chat_started_run)
  from completeRun_live [OF chat_started_healthy r] obtain w' where
    run: "completeRun None 1 ''because'' chat_started = (Inr (), w')" by blast
  from completeRun_answers [OF run st(1,2)] st(3) run show ?thesis by (auto simp: fits64_def first_blocks_def)
qed

text \<open>C21: a failure ends the run even when the task's context is cancelled: failRun answers the cause, and the run has
  status error in row and blob, the classified reason, and no pending block (every other block kept in order);
  no other run changes.\<close>

theorem failRun_ends_run:
  assumes "healthy (db w)" and "explorer_of w i = Some r" and "state_of w i = Some st" and "wf_state st"
  shows "\<exists>w' st' r'. failRun i cause w = (Inl cause, w') \<and> state_of w' i = Some st' \<and>
    explorer_of w' = (explorer_of w)(i \<mapsto> r') \<and> ex_Status r' = RunStatusError \<and> es_Status st' = RunStatusError \<and>
    es_FailureReason st' = Some (if err_kind cause = KCanceled then ''shutdown''
      else if err_kind cause = KDeadline \<or> err_kind cause = KTimeout then ''timeout'' else err_text cause) \<and>
    es_Blocks st' = filter (\<lambda>b. \<not> mb_Loading b) (es_Blocks st) \<and> loading_blocks (es_Blocks st') = 0"
proof -
  from assms(2,3) have "decodeRunState (ex_StateJSON r) = Inr st"
    by (auto simp: state_of_def split: sum.splits)
  from failRun_live [OF assms(1,2) this] obtain w' t where run: "failRun i cause w = (Inl cause, w')"
    and w': "explorer_of w' = (explorer_of w)(i \<mapsto> written (failed_state cause t st) r)" by blast
  let ?st = "failed_state cause t st"
  have "state_of w' i = Some ?st"
    by (rule state_of_written [of _ _ _ "written ?st r"]) (use assms w' in \<open>simp_all add: wf_failed\<close>)
  moreover have "loading_blocks (es_Blocks ?st) = 0" by (simp add: failed_state_def)
  ultimately show ?thesis
    using run w' by (intro exI [of _ w'] exI [of _ ?st] exI [of _ "written ?st r"])
      (simp add: failed_state_def classifyFailure_def dropLoadingBlocks_def)
qed

theorem failRun_ends_run_witness:
  "\<exists>w' st'. failRun 1 canceled chat_started = (Inl canceled, w') \<and> state_of w' 1 = Some st' \<and>
     es_FailureReason st' = Some ''shutdown'' \<and> length (es_Blocks st') = 1"
proof -
  obtain r st where r: "explorer_of chat_started 1 = Some r" "state_of chat_started 1 = Some st" "wf_state st"
    "es_Blocks st = first_blocks" by (rule chat_started_run)
  from failRun_ends_run [OF chat_started_healthy r(1-3), of canceled] r(4) show ?thesis
    by (auto simp: canceled_def first_blocks_def)
qed

lemma continue_read_w:
  assumes "continue_read c rq i w = (Inr (rec, st), w')"
  shows "explorer_of w i = Some rec \<and> ex_ID rec = i \<and> ex_OrganizationID rec = xq_OrganizationID rq \<and>
    decodeRunState (ex_StateJSON rec) = Inr st \<and> explorer_of w' = explorer_of w \<and>
    w' = snd (on_db c (GetExplorerRun i) w)"
proof -
  from assms obtain found w1 where g: "on_db c (GetExplorerRun i) w = (Inr found, w1)" and
    rest: "(case found of None \<Rightarrow> fail explorer_not_found | Some rec \<Rightarrow>
       if ex_OrganizationID rec \<noteq> xq_OrganizationID rq then fail explorer_not_found
       else andThen (liftE (decodeRunState (ex_StateJSON rec))) (\<lambda>st. ret (rec, st))) w1 = (Inr (rec, st), w')"
    unfolding continue_read_def andThen_eq_Inr by blast
  from rest have "found = Some rec" "ex_OrganizationID rec = xq_OrganizationID rq" "w' = w1"
    "decodeRunState (ex_StateJSON rec) = Inr st"
    by (auto simp: andThen_eq_Inr split: option.split_asm if_split_asm)
  with GetExplorerRun_w [OF g] explorer_of_id g show ?thesis by auto
qed

lemma explorer_of_dispatch [simp]: "explorer_of (snd (explorer_dispatch i org q p pc w)) = explorer_of w"
  by (simp add: explorer_dispatch_def Let_def split: option.splits)

lemma chatResponse_None: "chatResponse None c org i w = (r, w') \<Longrightarrow> w' = w"
  by (simp add: chatResponse_def)

text \<open>Whatever row is there when it writes, a continuation leaves the state it computed from what it read.\<close>

lemma continue_write_w:
  assumes "continue_write None c rq (rec, st) w = (Inr x, w')" and "explorer_of w (ex_ID rec) = Some r" and "wf_state st"
    and "fits64 (ex_ID rec)"
  shows "\<exists>t. state_of w' (ex_ID rec) = Some (continued_state (ex_ID rec) rq t st)"
proof -
  from assms(1) obtain t w1 w2 y where n: "nowTimestamp w = (Inr t, w1)"
    and s: "save_state c rec (continued_state (ex_ID rec) rq t st) w1 = (Inr y, w2)"
    and d: "explorer_of w' = explorer_of w2"
    by (auto simp: continue_write_def andThen_eq_Inr chatResponse_def) (metis explorer_of_dispatch snd_conv)
  from nowTimestamp_w [OF n] assms(2) have "explorer_of w1 (ex_ID rec) = Some r" by simp
  from save_state_stale [OF s this] obtain r' where "explorer_of w2 = (explorer_of w1)(ex_ID rec \<mapsto> r')"
    and "ex_StateJSON r' = marshal (enc_RunState (continued_state (ex_ID rec) rq t st))" by blast
  with d have "state_of w' (ex_ID rec) = Some (continued_state (ex_ID rec) rq t st)"
    by (intro state_of_written [of _ _ _ r']) (simp_all add: wf_continued assms)
  then show ?thesis ..
qed

text \<open>C22: a reply can be lost. Continuing a run reads and writes it without the service's lock, so when a reply lands
  between the read and the write, the write restores the blocks as they were read: the run is left
  processing with the blocks the reader saw followed by the new turn, and the reply is nowhere.\<close>

theorem continue_loses_reply:
  assumes "continue_read c rq i w = (Inr (rec, st), w1)" and "completeRun d i reply w1 = (Inr y, w2)"
    and "continue_write None e rq (rec, st) w2 = (Inr z, w3)" and "wf_state st" and "fits64 i"
  shows "\<exists>st' t. state_of w3 i = Some st' \<and> es_Status st' = RunStatusProcessing \<and>
    es_Blocks st' = kept_blocks (xq_InsertIndex rq) (es_Blocks st) @
      [makeBlock ''user'' (xq_Query rq) (length (kept_blocks (xq_InsertIndex rq) (es_Blocks st)) + 1) t,
       makeLoadingBlock (length (kept_blocks (xq_InsertIndex rq) (es_Blocks st)) + 2) t]"
proof -
  note read = continue_read_w [OF assms(1)]
  then have id: "ex_ID rec = i" by blast
  from completeRun_w [OF assms(2)] obtain r' where "explorer_of w2 i = Some r'" by auto
  with continue_write_w [OF assms(3), of r'] assms(4,5) id obtain t where
    "state_of w3 i = Some (continued_state i rq t st)" by auto
  then show ?thesis by (auto simp: continued_state_def Let_def)
qed

definition next_request :: chatRequest where
  "next_request = sample_request\<lparr>xq_Query := ''and?'', xq_RunID := Some 1\<rparr>"

lemma next_org: "xq_OrganizationID next_request = 1"
  by (simp add: next_request_def sample_request_def)

lemma driver_completeRun: "readonly driver (completeRun c i reply)"
  unfolding completeRun_def save_state_def by (intro effect_intro readonly_liftE driver_explorer_stmts)

theorem continue_loses_reply_witness:
  "\<exists>x w1 w2 z w3 st. continue_read None next_request 1 chat_started = (Inr x, w1) \<and>
     completeRun None 1 ''because'' w1 = (Inr (), w2) \<and> continue_write None None next_request x w2 = (Inr z, w3) \<and>
     state_of w3 1 = Some st \<and> map (em_Content \<circ> mb_Message) (es_Blocks st) = [''why?'', [], ''and?'', []]"
proof -
  obtain r st where r: "explorer_of chat_started 1 = Some r" "decodeRunState (ex_StateJSON r) = Inr st"
    "wf_state st" "es_Blocks st = first_blocks" "ex_OrganizationID r = 1" by (rule chat_started_run)
  obtain w1 where w1: "continue_read None next_request 1 chat_started = (Inr (r, st), w1)"
    using continue_read_live [OF chat_started_healthy r(1,2)] r(5) next_org by fastforce
  note read = continue_read_w [OF w1]
  then have h1: "healthy (db w1)" using healthy_run [OF driver_explorer_stmts(1) chat_started_healthy] by metis
  obtain w2 where w2: "completeRun None 1 ''because'' w1 = (Inr (), w2)"
    using completeRun_live [OF h1, of 1 r st "''because''"] read r by auto
  then have "healthy (db w2)" using healthy_run [OF driver_completeRun h1] by (metis snd_conv)
  then obtain z w3 where w3: "continue_write None None next_request (r, st) w2 = (Inr z, w3)"
    using continue_write_live by blast
  from continue_loses_reply [OF w1 w2 w3 r(3)] r(4) obtain st' t where "state_of w3 1 = Some st'" and
    "es_Blocks st' = first_blocks @ [makeBlock ''user'' ''and?'' 3 t, makeLoadingBlock 4 t]"
    by (auto simp: fits64_def next_request_def sample_request_def kept_blocks_def first_blocks_def eval_nat_numeral)
  with w1 w2 w3 show ?thesis
    by (intro exI conjI) (auto simp: first_blocks_def makeBlock_def makeLoadingBlock_def)
qed

text \<open>Continuing a run whose reply is still being generated marks it as shut down. The new turn cancels the old
  task under the same key; when that task then ends, its failRun drops the pending block of the new turn and
  records status error with the reason shutdown, while the new task is at work.\<close>

theorem continue_in_flight_reports_shutdown:
  assumes "healthy (db w)" and "continue_read None rq i w = (Inr (rec, st), w1)"
    and "continue_write None None rq (rec, st) w1 = (Inr x, w2)" and "wf_state st" and "fits64 i"
  shows "\<exists>w3 st'. failRun i canceled w2 = (Inl canceled, w3) \<and> state_of w3 i = Some st' \<and>
    es_Status st' = RunStatusError \<and> es_FailureReason st' = Some ''shutdown'' \<and> loading_blocks (es_Blocks st') = 0"
proof -
  note read = continue_read_w [OF assms(2)]
  then have id: "ex_ID rec = i" by blast
  with continue_write_w [OF assms(3), of rec] assms(4,5) read obtain t where
    st: "state_of w2 i = Some (continued_state i rq t st)" by auto
  then obtain r where r: "explorer_of w2 i = Some r" by (auto simp: state_of_def split: option.splits)
  from read have "healthy (db w1)" using healthy_run [OF driver_explorer_stmts(1) assms(1)] by metis
  then have "healthy (db w2)" using healthy_run [OF driver_continue_write] assms(3) by (metis snd_conv)
  from failRun_ends_run [OF this r st, of canceled] assms(4,5) show ?thesis
    by (auto simp: wf_continued canceled_def)
qed

theorem continue_in_flight_reports_shutdown_witness:
  "\<exists>x w1 z w2 w3 st. continue_read None next_request 1 chat_started = (Inr x, w1) \<and>
     continue_write None None next_request x w1 = (Inr z, w2) \<and> failRun 1 canceled w2 = (Inl canceled, w3) \<and>
     state_of w3 1 = Some st \<and> es_FailureReason st = Some ''shutdown''"
proof -
  obtain r st where r: "explorer_of chat_started 1 = Some r" "decodeRunState (ex_StateJSON r) = Inr st"
    "wf_state st" "ex_OrganizationID r = 1" by (rule chat_started_run)
  obtain w1 where w1: "continue_read None next_request 1 chat_started = (Inr (r, st), w1)"
    using continue_read_live [OF chat_started_healthy r(1,2)] r(4) next_org by fastforce
  note read = continue_read_w [OF w1]
  then have "healthy (db w1)" using healthy_run [OF driver_explorer_stmts(1) chat_started_healthy] by metis
  then obtain z w2 where w2: "continue_write None None next_request (r, st) w1 = (Inr z, w2)"
    using continue_write_live by blast
  from continue_in_flight_reports_shutdown [OF chat_started_healthy w1 w2 r(3)] w1 w2 show ?thesis
    by (auto simp: fits64_def)
qed

lemma on_db_loose: "on_db c m w = (r, w') \<Longrightarrow> loose w' = loose w"
  by (auto simp: on_db_def split: prod.splits)

lemma apply_update_table: "apply_update payload st w = (r, w') \<Longrightarrow> explorer_of w' = explorer_of w"
proof -
  have "readonly explorer_of (apply_update payload st)"
    unfolding apply_update_def Let_def nowTimestamp_def
    by (intro effect_intro readonly_on_db readonly_nowString) simp_all
  then show "apply_update payload st w = (r, w') \<Longrightarrow> ?thesis" by (rule readonlyD)
qed

lemma Update_w:
  assumes "Update c raw w = (Inr i, w')"
  obtains rq rec st w1 st1 q w2 t where "unmarshal dec_updateRequest raw = Inr rq" "uq_OrganizationID rq \<noteq> 0"
    "explorer_of w i = Some rec" "ex_OrganizationID rec = uq_OrganizationID rq" "i = uq_RunID rq"
    "decodeRunState (ex_StateJSON rec) = Inr st" "apply_update (uq_Payload rq) st w1 = (Inr (st1, q), w2)"
    "explorer_of w' = (explorer_of w)(i \<mapsto>
       written (st1\<lparr>es_FailureReason := None, es_UpdatedAt := t, es_RunID := i\<rparr>) rec)"
proof -
  from assms obtain rq :: updateRequest where rq: "unmarshal dec_updateRequest raw = Inr rq" "uq_OrganizationID rq \<noteq> 0"
    and r1: "andThen (on_db c (GetExplorerRun (uq_RunID rq))) (\<lambda>found. case found of
         None \<Rightarrow> fail explorer_not_found
       | Some rec \<Rightarrow>
         if ex_OrganizationID rec \<noteq> uq_OrganizationID rq then fail explorer_not_found
         else andThen (liftE (decodeRunState (ex_StateJSON rec))) (\<lambda>st.
           andThen (apply_update (uq_Payload rq) st) (\<lambda>(st1, resumeQuery).
           andThen nowTimestamp (\<lambda>timestamp.
           andThen (save_state c rec (st1\<lparr>es_FailureReason := None, es_UpdatedAt := timestamp,
               es_RunID := ex_ID rec\<rparr>)) (\<lambda>_.
           andThen (if resumeQuery \<noteq> []
                    then explorer_dispatch (ex_ID rec) (uq_OrganizationID rq) resumeQuery None None
                    else ret ()) (\<lambda>_. ret (uq_RunID rq))))))) w = (Inr i, w')"
    unfolding Update_def andThen_eq_Inr [of "decoding _ _ _"] decoding_eq
    by (auto split: if_split_asm)
  from r1 obtain found w1 where g: "on_db c (GetExplorerRun (uq_RunID rq)) w = (Inr found, w1)"
    unfolding andThen_eq_Inr by blast
  with r1 obtain rec st st1 q w2 t w3 w4 y where rec: "found = Some rec" "ex_OrganizationID rec = uq_OrganizationID rq"
    and st: "decodeRunState (ex_StateJSON rec) = Inr st" and a: "apply_update (uq_Payload rq) st w1 = (Inr (st1, q), w2)"
    and n: "nowTimestamp w2 = (Inr t, w3)"
    and s: "save_state c rec (st1\<lparr>es_FailureReason := None, es_UpdatedAt := t, es_RunID := ex_ID rec\<rparr>) w3 = (Inr y, w4)"
    and d: "andThen (if q \<noteq> [] then explorer_dispatch (ex_ID rec) (uq_OrganizationID rq) q None None else ret ())
        (\<lambda>_. ret (uq_RunID rq)) w4 = (Inr i, w')"
    by (auto simp: andThen_eq_Inr split: option.split_asm if_split_asm)
  have w': "explorer_of w' = explorer_of w4" "i = uq_RunID rq"
    using d by (auto simp: andThen_eq_Inr split: if_split_asm) (metis explorer_of_dispatch snd_conv)
  from GetExplorerRun_w [OF g] rec have r: "explorer_of w i = Some rec" "explorer_of w1 = explorer_of w" using w' by auto
  note id = explorer_of_id [OF r(1)]
  have "explorer_of w3 = explorer_of w"
    using r apply_update_table [OF a] nowTimestamp_w [OF n] by simp
  with save_state_w [OF s] r id w' have
    "explorer_of w' = (explorer_of w)(i \<mapsto> written (st1\<lparr>es_FailureReason := None, es_UpdatedAt := t, es_RunID := i\<rparr>) rec)"
    by simp
  with that [OF rq r(1) rec(2) w'(2) st a] show thesis by blast
qed

lemma readonly_GetExplorerRun: "readonly explorer_of (on_db c (GetExplorerRun i))"
  by (rule readonly_on_db [OF _ blind_views(2)]) (auto simp: GetExplorerRun_def explorer_view_def intro!: readonly_wrapping readonly_query)

lemma readonly_nowTimestamp: "readonly explorer_of nowTimestamp"
  unfolding nowTimestamp_def by (rule readonly_on_db [OF _ blind_views(2)]) (auto intro!: readonly_nowString simp: explorer_view_def)

lemma only_at_UpdateExplorerRun: "ex_ID rec = i \<Longrightarrow> only_at explorer_of i (on_db c (UpdateExplorerRun rec))"
  unfolding only_at_def
proof (intro allI impI)
  fix w :: "chatTask world" and j assume "ex_ID rec = i" and "j \<noteq> i"
  have "keeps (\<lambda>w. explorer_of w j = explorer_of w0 j) (on_db c (UpdateExplorerRun rec))" for w0 :: "chatTask world"
  proof (rule keeps_on_db [where P = "\<lambda>s. explorer_view s j = explorer_of w0 j"])
    show "keeps (\<lambda>s. explorer_view s j = explorer_of w0 j) (UpdateExplorerRun rec)"
      unfolding UpdateExplorerRun_def
      by (intro keeps_wrapping keeps_update) (use \<open>ex_ID rec = i\<close> \<open>j \<noteq> i\<close> in \<open>simp_all add: explorer_view_def row_at_update_at\<close>)
  qed (simp add: blind_def explorer_view_def)
  from keepsD [OF this, of w] show "explorer_of (snd (on_db c (UpdateExplorerRun rec) w)) j = explorer_of w j" by simp
qed

lemma only_at_save_state: "ex_ID rec = i \<Longrightarrow> only_at explorer_of i (save_state c rec st)"
  unfolding save_state_def by (rule only_at_UpdateExplorerRun) simp

lemma readonly_dispatch: "readonly explorer_of (explorer_dispatch i org q p pc)"
  by (simp add: readonly_def)

lemma readonly_chatResponse:
  assumes "sqlite_index index" shows "readonly explorer_of (chatResponse index c org i)"
proof (cases index)
  case None
  then show ?thesis by (simp add: chatResponse_def readonly_ret)
next
  case (Some ci)
  have "readonly explorer_view (HasOrgIndex ci org)"
  proof (cases "ci_store ci")
    case None
    then show ?thesis by (simp add: HasOrgIndex_def readonly_ret)
  next
    case (Some vs)
    with assms \<open>index = Some ci\<close> obtain sv where "vs = sqlitevec_store sv" by (auto simp: sqlite_index_def)
    moreover have "readonly explorer_view (sv_HasCodeChunks org)"
      unfolding sv_HasCodeChunks_def by (auto intro!: effect_intro readonly_query simp: explorer_view_def)
    ultimately show ?thesis using Some by (simp add: HasOrgIndex_def sqlitevec_store_def readonly_ret)
  qed
  then have "readonly explorer_of (on_db c (HasOrgIndex ci org))" by (rule readonly_on_db) simp
  with Some show ?thesis by (simp add: chatResponse_def readonly_def Let_def case_prod_beta)
qed

text \<open>What an operation on the run of one organization leaves alone: every run of another.\<close>

lemma guarded_frame:
  assumes "\<And>rec. ex_ID rec = i \<Longrightarrow> only_at explorer_of i (f rec)"
    and r: "explorer_of w j = Some r" "ex_OrganizationID r \<noteq> g"
  shows "explorer_of (snd (andThen (on_db c (GetExplorerRun i)) (\<lambda>found. case found of None \<Rightarrow> fail e
     | Some rec \<Rightarrow> if ex_OrganizationID rec \<noteq> g then fail e else f rec) w)) j = Some r"
proof -
  obtain found w1 where l: "on_db c (GetExplorerRun i) w = (found, w1)" by fastforce
  from readonlyD [OF readonly_GetExplorerRun l] r(1) have w1: "explorer_of w1 j = Some r" by simp
  show ?thesis
  proof (cases found)
    case (Inl x)
    with l w1 show ?thesis by (simp add: andThen_def)
  next
    case (Inr row)
    from GetExplorerRun_w [OF l [unfolded Inr]] have row: "row = explorer_of w i" by simp
    show ?thesis
    proof (cases row)
      case None
      with l Inr w1 show ?thesis by (simp add: andThen_def)
    next
      case (Some rec)
      with row explorer_of_id have id: "ex_ID rec = i" by metis
      show ?thesis
      proof (cases "ex_OrganizationID rec = g")
        case True
        with row Some r have "j \<noteq> i" by auto
        with assms(1) [OF id] have "explorer_of (snd (f rec w1)) j = explorer_of w1 j" by (simp add: only_at_def)
        with True l Inr Some w1 show ?thesis by (simp add: andThen_def)
      next
        case False
        with l Inr Some w1 show ?thesis by (simp add: andThen_def)
      qed
    qed
  qed
qed

lemma andThen_assoc: "andThen (andThen m f) h = andThen m (\<lambda>x. andThen (f x) h)"
  by (simp add: andThen_def fun_eq_iff split: prod.split sum.split)

lemma Update_frame:
  assumes "unmarshal dec_updateRequest raw = Inr rq" and "explorer_of w j = Some r" "ex_OrganizationID r \<noteq> uq_OrganizationID rq"
  shows "explorer_of (snd (Update c raw w)) j = Some r"
proof -
  have ro: "readonly explorer_of (apply_update payload st)" for payload st
    unfolding apply_update_def Let_def by (intro effect_intro readonly_nowTimestamp)
  have "only_at explorer_of (uq_RunID rq) (andThen (liftE (decodeRunState (ex_StateJSON rec))) (\<lambda>st.
           andThen (apply_update (uq_Payload rq) st) (\<lambda>(st1, resumeQuery).
           andThen nowTimestamp (\<lambda>timestamp.
           andThen (save_state c rec (st1\<lparr>es_FailureReason := None, es_UpdatedAt := timestamp,
               es_RunID := ex_ID rec\<rparr>)) (\<lambda>_.
           andThen (if resumeQuery \<noteq> []
                    then explorer_dispatch (ex_ID rec) (uq_OrganizationID rq) resumeQuery None None
                    else ret ()) (\<lambda>_. ret (uq_RunID rq)))))))" if "ex_ID rec = uq_RunID rq" for rec
    unfolding case_prod_unfold
    by (intro only_at_andThen only_at_if only_at_save_state only_at_ret only_at_liftE
        readonly_only_at [OF readonly_nowTimestamp] readonly_only_at [OF ro] readonly_only_at [OF readonly_dispatch] that)
  from guarded_frame [OF this assms(2,3)] assms(1,2) show ?thesis
    by (simp add: Update_def decoding_def) (simp add: andThen_liftE)
qed

lemma continueRun_eq: "continueRun index c rq i =
    andThen (on_db c (GetExplorerRun i)) (\<lambda>found. case found of None \<Rightarrow> fail explorer_not_found
     | Some rec \<Rightarrow> if ex_OrganizationID rec \<noteq> xq_OrganizationID rq then fail explorer_not_found
         else andThen (liftE (decodeRunState (ex_StateJSON rec))) (\<lambda>st. continue_write index c rq (rec, st)))"
  unfolding continueRun_def continue_read_def andThen_assoc
  by (rule arg_cong [where f = "andThen _"]) (auto simp: fun_eq_iff andThen_assoc andThen_ret andThen_fail split: option.split)

lemma continueRun_frame:
  assumes "sqlite_index index" and r: "explorer_of w j = Some r" "ex_OrganizationID r \<noteq> xq_OrganizationID rq"
  shows "explorer_of (snd (continueRun index c rq i w)) j = Some r"
  unfolding continueRun_eq
proof (rule guarded_frame [OF _ r])
  fix rec :: ExplorerRunRecord assume id: "ex_ID rec = i"
  show "only_at explorer_of i (andThen (liftE (decodeRunState (ex_StateJSON rec))) (\<lambda>st. continue_write index c rq (rec, st)))"
    unfolding continue_write_def prod.case
    by (intro only_at_andThen only_at_liftE only_at_save_state id readonly_only_at readonly_nowTimestamp readonly_dispatch
        readonly_chatResponse assms(1))
qed

lemma startRun_frame:
  assumes "sqlite_index index" and "store_ok (db w)" and r: "explorer_of w j = Some r"
  shows "explorer_of (snd (startRun index c rq w)) j = Some r"
proof -
  let ?up = "\<lambda>t i. (first_record rq t)\<lparr>ex_ID := i, ex_StateJSON := marshal (enc_RunState ((first_state rq t)\<lparr>es_RunID := i\<rparr>))\<rparr>"
  obtain t w1 where n: "nowTimestamp w = (Inr t, w1)" and w1: "w1 = w\<lparr>db := tick (db w)\<rparr>"
    by (simp add: nowTimestamp_def on_db_alive nowString_def)
  then have ok: "store_ok (db w1)" "explorer_of w1 j = Some r" using assms by simp_all
  obtain made w2 where m: "on_db c (CreateExplorerRun (first_record rq t)) w1 = (made, w2)" by fastforce
  show ?thesis
  proof (cases made)
    case (Inl e)
    with all_or_nothingD [OF explorer_w.create_err m [unfolded Inl]] m ok n show ?thesis
      by (simp add: startRun_def andThen_def)
  next
    case (Inr i)
    from explorer_w.create_ok [OF ok(1) m [unfolded Inr]] ok(2) have "i \<noteq> j" "explorer_of w2 j = Some r" by auto
    moreover have "only_at explorer_of i (andThen (on_db c (UpdateExplorerRun (?up t i))) (\<lambda>_.
       andThen (explorer_dispatch i (xq_OrganizationID rq) (xq_Query rq) (xq_PageName rq) (xq_OnPageContext rq)) (\<lambda>_.
       chatResponse index c (xq_OrganizationID rq) i)))"
      by (intro only_at_andThen only_at_UpdateExplorerRun readonly_only_at readonly_dispatch readonly_chatResponse assms(1)) simp
    ultimately show ?thesis using n m Inr by (simp add: startRun_def andThen_def [of nowTimestamp] andThen_def [of "on_db c (CreateExplorerRun (first_record rq t))"] only_at_def)
  qed
qed

lemma chatResponse_ok:
  assumes "sqlite_index index" and "chatResponse index c org i w = (Inr resp, w')"
  shows "xr_RunID resp = i \<and> explorer_of w' = explorer_of w"
  using assms(2) readonlyD [OF readonly_chatResponse [OF assms(1)] assms(2)]
  by (auto simp: chatResponse_def Let_def split: option.split_asm prod.split_asm)

lemma startRun_ok:
  assumes "sqlite_index index" and "store_ok (db w)" and run: "startRun index c rq w = (Inr resp, w')"
  shows "explorer_of w (xr_RunID resp) = None \<and>
    (\<exists>r. explorer_of w' (xr_RunID resp) = Some r \<and> ex_OrganizationID r = xq_OrganizationID rq)"
proof -
  let ?up = "\<lambda>t i. (first_record rq t)\<lparr>ex_ID := i, ex_StateJSON := marshal (enc_RunState ((first_state rq t)\<lparr>es_RunID := i\<rparr>))\<rparr>"
  from run obtain t w1 i w2 w3 w4 y where n: "nowTimestamp w = (Inr t, w1)"
    and m: "on_db c (CreateExplorerRun (first_record rq t)) w1 = (Inr i, w2)"
    and u: "on_db c (UpdateExplorerRun (?up t i)) w2 = (Inr (), w3)"
    and d: "explorer_dispatch i (xq_OrganizationID rq) (xq_Query rq) (xq_PageName rq) (xq_OnPageContext rq) w3 = (Inr y, w4)"
    and resp: "chatResponse index c (xq_OrganizationID rq) i w4 = (Inr resp, w')"
    unfolding startRun_def andThen_eq_Inr by auto
  have "w1 = w\<lparr>db := tick (db w)\<rparr>" using n by (simp add: nowTimestamp_def on_db_alive nowString_def)
  then have w1: "store_ok (db w1)" "explorer_of w1 = explorer_of w" using assms(2) by simp_all
  from explorer_w.create_ok [OF w1(1) m] w1(2) obtain ts where new: "explorer_of w i = None"
    "explorer_of w2 = (explorer_of w)(i \<mapsto> fresh_explorer ts i (first_record rq t))" by metis
  from explorer_w.modify_ok [OF u] new(2) obtain r where "explorer_of w3 i = Some r" "ex_OrganizationID r = xq_OrganizationID rq"
    by (auto simp: rewrite_explorer_def fresh_explorer_def first_record_def explorer_defaults_def Let_def)
  with chatResponse_ok [OF assms(1) resp] readonlyD [OF readonly_dispatch d] new(1) show ?thesis by auto
qed

lemma continueRun_ok:
  assumes "sqlite_index index" and run: "continueRun index c rq i w = (Inr resp, w')"
  shows "xr_RunID resp = i \<and> (\<exists>r r'. explorer_of w i = Some r \<and> ex_OrganizationID r = xq_OrganizationID rq \<and>
    explorer_of w' = (explorer_of w)(i \<mapsto> r') \<and> ex_OrganizationID r' = xq_OrganizationID rq)"
proof -
  from run obtain rec st w1 where read: "continue_read c rq i w = (Inr (rec, st), w1)"
    and rest: "continue_write index c rq (rec, st) w1 = (Inr resp, w')"
    unfolding continueRun_def andThen_eq_Inr by auto
  from continue_read_w [OF read] have r: "explorer_of w i = Some rec" "ex_ID rec = i" "explorer_of w1 = explorer_of w"
    "ex_OrganizationID rec = xq_OrganizationID rq" by auto
  from rest obtain t w2 w3 w4 x y where n: "nowTimestamp w1 = (Inr t, w2)"
    and s: "save_state c rec (continued_state (ex_ID rec) rq t st) w2 = (Inr x, w3)"
    and d: "explorer_dispatch (ex_ID rec) (xq_OrganizationID rq) (xq_Query rq) (xq_PageName rq) (xq_OnPageContext rq) w3 = (Inr y, w4)"
    and resp: "chatResponse index c (xq_OrganizationID rq) (ex_ID rec) w4 = (Inr resp, w')"
    unfolding continue_write_def prod.case andThen_eq_Inr by auto
  from readonlyD [OF readonly_nowTimestamp n] r have "explorer_of w2 = explorer_of w" by simp
  with save_state_w [OF s] r have "explorer_of w3 = (explorer_of w)(i \<mapsto> written (continued_state (ex_ID rec) rq t st) rec)" by simp
  with chatResponse_ok [OF assms(1) resp] readonlyD [OF readonly_dispatch d] r show ?thesis
    by (intro conjI exI [of _ rec] exI [of _ "written (continued_state (ex_ID rec) rq t st) rec"]) simp_all
qed

text \<open>C20: an organization reaches only its own runs. GetState shows the state of the run asked for only when its row
  belongs to the organization of the request (never for organization zero). Update changes at most the run it names,
  which belongs to that organization and keeps belonging to it. A Chat that is accepted answers a run of
  that organization: a new one, or the one named, which belonged to it before. And however an Update or a
  Chat ends, with an error too, every run of another organization is what it was. (GetRunsByIDs, whose request
  names no organization, is outside this.)\<close>

theorem explorer_stays_in_organization:
  "(GetState c raw w = (Inr (Some st), w') \<longrightarrow> (\<exists>rq r. unmarshal dec_stateRequest raw = Inr rq \<and>
      sq_OrganizationID rq \<noteq> 0 \<and> explorer_of w (sq_RunID rq) = Some r \<and> ex_OrganizationID r = sq_OrganizationID rq \<and>
      decodeRunState (ex_StateJSON r) = Inr st)) \<and>
   (Update c raw w = (Inr i, w') \<longrightarrow> (\<exists>rq r r'. unmarshal dec_updateRequest raw = Inr rq \<and> uq_OrganizationID rq \<noteq> 0 \<and>
      i = uq_RunID rq \<and> explorer_of w i = Some r \<and> ex_OrganizationID r = uq_OrganizationID rq \<and>
      explorer_of w' = (explorer_of w)(i \<mapsto> r') \<and> ex_OrganizationID r' = uq_OrganizationID rq)) \<and>
   (\<forall>rq j r. unmarshal dec_updateRequest raw = Inr rq \<and> explorer_of w j = Some r \<and> ex_OrganizationID r \<noteq> uq_OrganizationID rq \<longrightarrow>
      explorer_of (snd (Update c raw w)) j = Some r) \<and>
   (sqlite_index index \<and> store_ok (db w) \<longrightarrow>
     (Chat index c raw w = (Inr resp, w') \<longrightarrow> (\<exists>rq r'. unmarshal dec_chatRequest raw = Inr rq \<and> xq_OrganizationID rq \<noteq> 0 \<and>
        explorer_of w' (xr_RunID resp) = Some r' \<and> ex_OrganizationID r' = xq_OrganizationID rq \<and>
        (case xq_RunID rq of None \<Rightarrow> explorer_of w (xr_RunID resp) = None
         | Some k \<Rightarrow> xr_RunID resp = k \<and> (\<exists>r. explorer_of w k = Some r \<and> ex_OrganizationID r = xq_OrganizationID rq)))) \<and>
     (\<forall>rq j r. unmarshal dec_chatRequest raw = Inr rq \<and> explorer_of w j = Some r \<and> ex_OrganizationID r \<noteq> xq_OrganizationID rq \<longrightarrow>
        explorer_of (snd (Chat index c raw w)) j = Some r))"
  (is "?get \<and> ?update \<and> ?kept \<and> (?pre \<longrightarrow> ?chat \<and> ?frame)")
proof -
  have ?get
  proof
    assume run: "GetState c raw w = (Inr (Some st), w')"
    then obtain rq :: stateRequest where rq: "unmarshal dec_stateRequest raw = Inr rq" "sq_OrganizationID rq \<noteq> 0"
      and r1: "andThen (on_db c (GetExplorerRun (sq_RunID rq))) (\<lambda>found. case found of
             None \<Rightarrow> ret None
           | Some rec \<Rightarrow> if ex_OrganizationID rec \<noteq> sq_OrganizationID rq then ret None else session_of rec) w = (Inr (Some st), w')"
      unfolding GetState_def andThen_eq_Inr [of "decoding _ _ _"] decoding_eq by (auto split: if_split_asm)
    then obtain found w1 where g: "on_db c (GetExplorerRun (sq_RunID rq)) w = (Inr found, w1)"
      unfolding andThen_eq_Inr by blast
    with r1 obtain r where "found = Some r" "ex_OrganizationID r = sq_OrganizationID rq" "decodeRunState (ex_StateJSON r) = Inr st"
      by (auto simp: andThen_eq_Inr session_of_def split: option.split_asm if_split_asm)
    moreover from this GetExplorerRun_w [OF g] have "explorer_of w (sq_RunID rq) = Some r" by simp
    ultimately show "\<exists>rq r. unmarshal dec_stateRequest raw = Inr rq \<and>
        sq_OrganizationID rq \<noteq> 0 \<and> explorer_of w (sq_RunID rq) = Some r \<and> ex_OrganizationID r = sq_OrganizationID rq \<and>
        decodeRunState (ex_StateJSON r) = Inr st" using rq by blast
  qed
  moreover have ?update by (rule impI) (erule Update_w, auto intro!: exI)
  moreover have ?kept using Update_frame by blast
  moreover have ?chat if pre: ?pre
  proof
    assume "Chat index c raw w = (Inr resp, w')"
    then obtain rq where rq: "unmarshal dec_chatRequest raw = Inr rq" "xq_OrganizationID rq \<noteq> 0" and
      run: "(case xq_RunID rq of None \<Rightarrow> startRun index c (rq\<lparr>xq_Query := TrimSpace (xq_Query rq)\<rparr>)
         | Some runID \<Rightarrow> continueRun index c (rq\<lparr>xq_Query := TrimSpace (xq_Query rq)\<rparr>) runID) w = (Inr resp, w')"
      unfolding Chat_def andThen_eq_Inr [of "decoding _ _ _"] decoding_eq by (auto simp: Let_def split: if_split_asm)
    show "\<exists>rq r'. unmarshal dec_chatRequest raw = Inr rq \<and> xq_OrganizationID rq \<noteq> 0 \<and>
        explorer_of w' (xr_RunID resp) = Some r' \<and> ex_OrganizationID r' = xq_OrganizationID rq \<and>
        (case xq_RunID rq of None \<Rightarrow> explorer_of w (xr_RunID resp) = None
         | Some k \<Rightarrow> xr_RunID resp = k \<and> (\<exists>r. explorer_of w k = Some r \<and> ex_OrganizationID r = xq_OrganizationID rq))"
    proof (cases "xq_RunID rq")
      case None
      with run startRun_ok [of index w c _ resp w'] pre rq show ?thesis by fastforce
    next
      case (Some k)
      with run continueRun_ok [of index c _ k w resp w'] pre rq show ?thesis by fastforce
    qed
  qed
  moreover have ?frame if pre: ?pre
  proof (intro allI impI)
    fix rq j r assume a: "unmarshal dec_chatRequest raw = Inr rq \<and> explorer_of w j = Some r \<and> ex_OrganizationID r \<noteq> xq_OrganizationID rq"
    let ?rq = "rq\<lparr>xq_Query := TrimSpace (xq_Query rq)\<rparr>"
    have "explorer_of (snd (startRun index c ?rq w)) j = Some r" using startRun_frame pre a by blast
    moreover have "explorer_of (snd (continueRun index c ?rq k w)) j = Some r" for k
      by (rule continueRun_frame) (use pre a in simp_all)
    ultimately show "explorer_of (snd (Chat index c raw w)) j = Some r"
      using a by (simp add: Chat_def decoding_def andThen_liftE Let_def split: option.split)
  qed
  ultimately show ?thesis by blast
qed

definition state_request :: blob where
  "state_request = Doc (JObj [(''organization_id'', JNum 1), (''run_id'', JNum 1)])"

definition blank_answer :: blob where
  "blank_answer = Doc (JObj [(''organization_id'', JNum 1), (''run_id'', JNum 1),
     (''payload'', JObj [(''type'', JStr ''user_input_response''), (''text'', JStr '' '')])])"

lemma blank_answer_run: "isl (fst (Update None blank_answer chat_started)) = False"
  by code_simp

lemma requests_decoded:
  "unmarshal dec_stateRequest state_request = Inr \<lparr>sq_OrganizationID = 1, sq_RunID = 1\<rparr>"
  "unmarshal dec_updateRequest blank_answer = Inr \<lparr>uq_OrganizationID = 1, uq_RunID = 1,
     uq_Payload = [(''type'', JStr ''user_input_response''), (''text'', JStr '' '')]\<rparr>"
  "submittedInput [(''type'', JStr ''user_input_response''), (''text'', JStr '' '')] = []"
  by code_simp+

definition chat_again :: blob where
  "chat_again = Doc (JObj [(''organization_id'', JNum 1), (''run_id'', JNum 1), (''query'', JStr ''more'')])"

lemma chat_again_run: "isl (fst (Chat None None chat_again chat_started)) = False"
  "map_option xq_RunID (case unmarshal dec_chatRequest chat_again of Inl e \<Rightarrow> None | Inr rq \<Rightarrow> Some rq) = Some (Some 1)"
  by code_simp+

lemma chat_started_store: "store_ok (db chat_started)"
  by code_simp

theorem explorer_stays_in_organization_witness:
  "(\<exists>st w1 rq r. GetState None state_request chat_started = (Inr (Some st), w1) \<and>
     unmarshal dec_stateRequest state_request = Inr rq \<and> explorer_of chat_started (sq_RunID rq) = Some r \<and>
     ex_OrganizationID r = sq_OrganizationID rq) \<and>
   (\<exists>resp w2. Chat None None chat_again chat_started = (Inr resp, w2) \<and> xr_RunID resp = 1)"
proof
  obtain r st where r: "explorer_of chat_started 1 = Some r" "decodeRunState (ex_StateJSON r) = Inr st"
    "ex_OrganizationID r = 1" by (rule chat_started_run)
  obtain w1 where "on_db None (GetExplorerRun 1) chat_started = (Inr (Some r), w1)"
    using GetExplorerRun_live [OF chat_started_healthy, of 1] r(1) by auto
  then have get: "GetState None state_request chat_started = (Inr (Some st), w1)"
    using r by (simp add: GetState_def decoding_def requests_decoded andThen_def session_of_def)
  from explorer_stays_in_organization [THEN conjunct1, THEN mp, OF get] get
  show "\<exists>st w1 rq r. GetState None state_request chat_started = (Inr (Some st), w1) \<and>
     unmarshal dec_stateRequest state_request = Inr rq \<and> explorer_of chat_started (sq_RunID rq) = Some r \<and>
     ex_OrganizationID r = sq_OrganizationID rq" by blast
  from run_Inr [OF chat_again_run(1)] obtain resp w2 where chat: "Chat None None chat_again chat_started = (Inr resp, w2)" by blast
  have pre: "sqlite_index None \<and> store_ok (db chat_started)" using sqlite_index_None chat_started_store by blast
  from explorer_stays_in_organization [THEN conjunct2, THEN conjunct2, THEN conjunct2, THEN mp, THEN conjunct1, THEN mp, OF pre chat]
  obtain rq where "unmarshal dec_chatRequest chat_again = Inr rq" "case xq_RunID rq of None \<Rightarrow> True | Some k \<Rightarrow> xr_RunID resp = k"
    by (auto split: option.splits)
  with chat_again_run(2) chat show "\<exists>resp w2. Chat None None chat_again chat_started = (Inr resp, w2) \<and> xr_RunID resp = 1" by auto
qed

text \<open>An answer without text completes a run that still claims to be loading: a user_input_response whose payload
  holds no non-blank text sets status completed and keeps every block, a pending assistant block included.\<close>

theorem empty_answer_keeps_loading:
  assumes "Update c raw w = (Inr i, w')" and "unmarshal dec_updateRequest raw = Inr rq"
    and "map_of (uq_Payload rq) ''type'' = Some (JStr ''user_input_response'')" and "submittedInput (uq_Payload rq) = []"
    and "state_of w i = Some st" and "wf_state st" and "fits64 i"
  shows "\<exists>st'. state_of w' i = Some st' \<and> es_Status st' = RunStatusCompleted \<and> es_Blocks st' = es_Blocks st"
  using assms(1)
proof (rule Update_w)
  fix rq' rec st0 w1 st1 q w2 t
  assume "unmarshal dec_updateRequest raw = Inr rq'" and r: "explorer_of w i = Some rec" and
    st0: "decodeRunState (ex_StateJSON rec) = Inr st0" and a: "apply_update (uq_Payload rq') st0 w1 = (Inr (st1, q), w2)"
    and w': "explorer_of w' = (explorer_of w)(i \<mapsto> written (st1\<lparr>es_FailureReason := None, es_UpdatedAt := t, es_RunID := i\<rparr>) rec)"
  then have st: "st0 = st" "rq' = rq" using assms(2,5) by (auto simp: state_of_def)
  then have st1: "st1 = st\<lparr>es_PendingUserInput := None, es_Status := RunStatusCompleted\<rparr>"
    using a assms(3,4) by (simp add: apply_update_def as_string_def Let_def)
  let ?st = "st1\<lparr>es_FailureReason := None, es_UpdatedAt := t, es_RunID := i\<rparr>"
  have "state_of w' i = Some ?st"
    by (rule state_of_written [of _ _ _ "written ?st rec"]) (use w' st1 assms(6,7) in \<open>simp_all add: wf_state_def\<close>)
  then show ?thesis using st1 by auto
qed

theorem empty_answer_keeps_loading_witness:
  "\<exists>i w' st st'. Update None blank_answer chat_started = (Inr i, w') \<and> i = 1 \<and>
     state_of chat_started 1 = Some st \<and> loading_blocks (es_Blocks st) = 1 \<and>
     state_of w' 1 = Some st' \<and> es_Status st' = RunStatusCompleted \<and> loading_blocks (es_Blocks st') = 1"
proof -
  obtain r st where r: "explorer_of chat_started 1 = Some r" "decodeRunState (ex_StateJSON r) = Inr st"
    "wf_state st" "es_Blocks st = first_blocks" by (rule chat_started_run)
  then have st: "state_of chat_started 1 = Some st" by (simp add: state_of_def)
  from run_Inr [OF blank_answer_run] obtain i w' where up: "Update None blank_answer chat_started = (Inr i, w')" by blast
  then have i: "i = 1" by (rule Update_w) (auto simp: requests_decoded)
  have "\<exists>st'. state_of w' 1 = Some st' \<and> es_Status st' = RunStatusCompleted \<and> es_Blocks st' = es_Blocks st"
    by (rule empty_answer_keeps_loading [OF up [unfolded i] requests_decoded(2) _ _ st r(3)])
      (simp_all add: requests_decoded fits64_def)
  with up i st r(4) show ?thesis by (auto simp: first_blocks_def makeBlock_def makeLoadingBlock_def)
qed

text \<open>A reply generated just before its task is cancelled leaves the run processing for good: completeRun runs its
  statements under the task's context, so under a done context it always fails, changes no run, and no step
  records the failure.\<close>

theorem cancelled_after_reply_keeps_processing:
  "\<exists>e' w'. completeRun (Some e) i reply w = (Inl e', w') \<and> err_kind e' = err_kind e \<and>
     explorer_of w' = explorer_of w \<and> mgr w' = mgr w \<and> loose w' = loose w"
proof -
  have "\<exists>w1. on_db (Some e) (GetExplorerRun i) w = (Inl (wrap ''get explorer run'' e), w1) \<and>
      explorer_of w1 = explorer_of w \<and> mgr w1 = mgr w \<and> loose w1 = loose w"
    by (simp add: on_db_def under_ctx_def GetExplorerRun_def wrapping_def query_def exec_def explorer_view_def)
  then show ?thesis by (auto simp: completeRun_def andThen_def)
qed

lemma andThen_eq_Inl: "andThen m f s = (Inl e, t) \<longleftrightarrow>
    m s = (Inl e, t) \<or> (\<exists>x s'. m s = (Inr x, s') \<and> f x s' = (Inl e, t))"
  by (auto simp: andThen_def split: prod.splits sum.splits)

lemma dispatch_total: "explorer_dispatch i org q p pc w \<noteq> (Inl e, t)"
  by (simp add: explorer_dispatch_def Let_def split: option.splits)

lemma chatResponse_total: "chatResponse None c org i w \<noteq> (Inl e, t)"
  by (simp add: chatResponse_def)

lemma startRun_error:
  assumes "startRun None c rq w = (Inl e, w')"
  obtains (create) t w1 where "nowTimestamp w = (Inr t, w1)" "on_db c (CreateExplorerRun (first_record rq t)) w1 = (Inl e, w')"
  | (update) t w1 i w2 u where "nowTimestamp w = (Inr t, w1)"
      "on_db c (CreateExplorerRun (first_record rq t)) w1 = (Inr i, w2)" "on_db c (UpdateExplorerRun u) w2 = (Inl e, w')"
  using assms nowTimestamp_w unfolding startRun_def andThen_eq_Inl
  by (metis dispatch_total chatResponse_total sum.distinct(1) prod.inject)

lemma fresh_first: "ex_Status (fresh_explorer ts i (first_record rq t)) = RunStatusProcessing"
  by (simp add: fresh_explorer_def first_record_def Let_def status_defs)

text \<open>A chat whose second write fails leaves a run nobody answers: when startRun fails although a row was inserted,
  that row says processing and no task was started for it.\<close>

theorem startRun_failure_orphans_row:
  assumes "startRun None c rq w = (Inl e, w')" and "explorer_of w' \<noteq> explorer_of w" and "store_ok (db w)"
  shows "\<exists>i r. explorer_of w i = None \<and> explorer_of w' = (explorer_of w)(i \<mapsto> r) \<and> ex_Status r = RunStatusProcessing \<and>
    mgr w' = mgr w \<and> loose w' = loose w"
  using assms(1)
proof (cases rule: startRun_error)
  case (create t w1)
  from create(1) have "explorer_of w1 = explorer_of w" using nowTimestamp_w by blast
  with create(2) explorer_w.create_err [of c "first_record rq t"] assms(2) show ?thesis by (metis all_or_nothingD)
next
  case (update t w1 i w2 u)
  have "w1 = w\<lparr>db := tick (db w)\<rparr>"
    using update(1) by (simp add: nowTimestamp_def on_db_alive nowString_def)
  then have w1: "explorer_of w1 = explorer_of w" "store_ok (db w1)" "mgr w1 = mgr w" "loose w1 = loose w"
    using assms(3) by simp_all
  from explorer_w.create_ok [OF w1(2) update(2)] w1(1) obtain ts where new: "explorer_of w i = None"
    "explorer_of w2 = (explorer_of w)(i \<mapsto> fresh_explorer ts i (first_record rq t))" by metis
  have "explorer_of w' = explorer_of w2"
    using update(3) explorer_w.modify_err [of c u] by (metis all_or_nothingD)
  moreover have "mgr w' = mgr w" "loose w' = loose w"
    using w1(3,4) on_db_frameD [OF update(2)] on_db_loose [OF update(2)] on_db_frameD [OF update(3)] on_db_loose [OF update(3)]
    by metis+
  ultimately show ?thesis using new fresh_first by metis
qed

end
