(* ===== verification/JsonText.thy ===== *)
theory JsonText
  imports LlmJson "HOL-Library.List_Lexorder" "HOL-Library.Char_ord"
begin

text \<open>
  What the services share of \<open>json.Marshal\<close> into a prompt: the text of a decoded value. An
  assignment to an entry of a nil map, which a stored \<open>null\<close> decodes to, panics; a panic is an
  error of the model.
\<close>

text \<open>
  The document \<open>json.Marshal\<close> writes for a decoded value: the keys of a map are sorted, a
  nil map is \<open>null\<close>.
\<close>

fun canon :: "json \<Rightarrow> json" where
  "canon (JArr js) = JArr (map canon js)"
| "canon (JObj ms) = JObj (sort_key fst (of_members (map (\<lambda>(k, v). (k, canon v)) ms)))"
| "canon j = j"

definition map_text :: "json gomap option \<Rightarrow> string" where
  "map_text m = (case m of None \<Rightarrow> ''null'' | Some kvs \<Rightarrow> json_text (canon (JObj kvs)))"

definition nil_map_panic :: goerr where
  "nil_map_panic = errorf ''panic: assignment to entry in nil map''"

end
