(* ===== verification/Autofix.thy ===== *)
theory Autofix
  imports Runs JsonText
begin

text \<open>
  Autofix runs (\<open>internal/autofix/service.go\<close>): the coding-agent states Sentry reports, stored
  as the \<open>coding_agents\<close> member of a run's state blob, and the background task that asks the
  model once for the next action of each agent. The task carries the blob it was started with.

  How the model's answer parses (\<open>parse\<close>) is an argument of the task. A context may end while
  the task runs, so the task takes the context three times: at its start, for the model call,
  and for its last statement. A write to a nil map panics: \<open>nil_map_panic\<close>.
\<close>

section \<open>Requests and responses\<close>

record UpdateResponse =
  ur_RunID :: int
  ur_Status :: string
  ur_Message :: "string option"

record stateSetRequest =
  ss_RunID :: int
  ss_CodingAgentStates :: "json gomap list"

record stateUpdateRequest =
  su_AgentID :: string
  su_Updates :: "json gomap"

definition dec_stateSetRequest :: "json \<Rightarrow> stateSetRequest res" where
  "dec_stateSetRequest = dec_struct (\<lambda>ms.
     bindE (field ''run_id'' dec_int64 0 ms) (\<lambda>i.
     bindE (field ''coding_agent_states'' (dec_array dec_anymap []) [] ms) (\<lambda>items.
       Inr \<lparr>ss_RunID = i, ss_CodingAgentStates = items\<rparr>)))"

definition dec_stateUpdateRequest :: "json \<Rightarrow> stateUpdateRequest res" where
  "dec_stateUpdateRequest = dec_struct (\<lambda>ms.
     bindE (field ''agent_id'' dec_string [] ms) (\<lambda>a.
     bindE (field ''updates'' dec_anymap [] ms) (\<lambda>u.
       Inr \<lparr>su_AgentID = a, su_Updates = u\<rparr>)))"

section \<open>State blobs\<close>

type_synonym 'a aop = "('a, blob world) op"

text \<open>\<open>time.Now().UTC().Format(time.RFC3339Nano)\<close>\<close>

definition agent_timestamp :: "string aop" where
  "agent_timestamp = on_db None nowString"

text \<open>The agents of a request by id; an entry without an id is left out, a later entry wins.\<close>

definition put_agent :: "json gomap \<Rightarrow> json gomap \<Rightarrow> json gomap" where
  "put_agent item agents = (case as_string (map_of item ''id'') of
       None \<Rightarrow> agents
     | Some i \<Rightarrow> if i \<noteq> [] then mput i (JObj item) agents else agents)"

definition reported_agents :: "json gomap list \<Rightarrow> json gomap" where
  "reported_agents items = fold put_agent items []"

definition with_agents :: "json gomap \<Rightarrow> string \<Rightarrow> json gomap \<Rightarrow> json gomap" where
  "with_agents agents timestamp state =
     mput ''updated_at'' (JStr timestamp) (mput ''coding_agents'' (JObj agents) state)"

text \<open>\<open>codingAgents, _ := state["coding_agents"].(map[string]any)\<close>; the failed assertion gives nil.\<close>

definition agents_of :: "json gomap \<Rightarrow> json gomap" where
  "agents_of state = (case as_map (map_of state ''coding_agents'') of None \<Rightarrow> [] | Some m \<Rightarrow> m)"

definition setFailureReason :: "blob \<Rightarrow> string \<Rightarrow> blob res" where
  "setFailureReason state reason = (case decode_map state of
       None \<Rightarrow> Inl nil_map_panic
     | Some m \<Rightarrow> Inr (marshal (JObj (mput ''failure_reason'' (JStr reason) m))))"

section \<open>The endpoints\<close>

definition startAgentAdvancement :: "int \<Rightarrow> blob \<Rightarrow> unit aop" where
  "startAgentAdvancement runID payload = (\<lambda>w. case mgr w of
       None \<Rightarrow> (Inr (), w)
     | Some m \<Rightarrow> (Inr (), w\<lparr>mgr := Some (mgr_Start (run_key ''autofix'' runID) (payload, runID) m)\<rparr>))"

definition StoreCodingAgentStates :: "ctx \<Rightarrow> blob \<Rightarrow> UpdateResponse aop" where
  "StoreCodingAgentStates c raw =
     andThen (decoding ''decode coding-agent state set request'' dec_stateSetRequest raw) (\<lambda>request.
     let runID = ss_RunID request;
         agents = reported_agents (ss_CodingAgentStates request);
         response = \<lparr>ur_RunID = runID, ur_Status = ''success'', ur_Message = None\<rparr>
     in andThen (on_db c (GetAutofixRun runID)) (\<lambda>found. case found of
         None \<Rightarrow>
           andThen agent_timestamp (\<lambda>timestamp.
             let payload = marshal (JObj (with_agents agents timestamp [])) in
             andThen (on_db c (CreateAutofixRunWithID runID None payload)) (\<lambda>_.
             andThen (startAgentAdvancement runID payload) (\<lambda>_. ret response)))
       | Some rec \<Rightarrow>
           (case decode_map (af_StateJSON rec) of
              None \<Rightarrow> fail nil_map_panic
            | Some state \<Rightarrow>
                andThen agent_timestamp (\<lambda>timestamp.
                  let payload = marshal (JObj (with_agents agents timestamp state)) in
                  andThen (on_db c (UpdateAutofixRun runID None None RunStatusProcessing payload)) (\<lambda>_.
                  andThen (startAgentAdvancement runID payload) (\<lambda>_. ret response))))))"

definition holds_agent :: "string \<Rightarrow> AutofixRunRecord \<Rightarrow> bool" where
  "holds_agent agentID rec \<longleftrightarrow> map_of (agents_of (raw_map (af_StateJSON rec))) agentID \<noteq> None"

definition findRunByAgentID :: "ctx \<Rightarrow> string \<Rightarrow> AutofixRunRecord option aop" where
  "findRunByAgentID c agentID = (\<lambda>w. case on_db c ListAutofixRuns w of
       (Inl e, w1) \<Rightarrow> (Inr None, w1)
     | (Inr runs, w1) \<Rightarrow> (Inr (find (holds_agent agentID) runs), w1))"

text \<open>The agent's entry after the updates; an entry that is no object starts afresh.\<close>

definition updated_agent :: "string \<Rightarrow> json gomap \<Rightarrow> json gomap \<Rightarrow> json gomap" where
  "updated_agent agentID updates agents =
     (let current = (case as_map (map_of agents agentID) of None \<Rightarrow> [(''id'', JStr agentID)] | Some m \<Rightarrow> m)
      in mput agentID (JObj (mput_all updates current)) agents)"

text \<open>A run that holds the agent has an object as its state, so no map here is nil.\<close>

definition UpdateCodingAgentState :: "ctx \<Rightarrow> blob \<Rightarrow> UpdateResponse aop" where
  "UpdateCodingAgentState c raw =
     andThen (decoding ''decode coding-agent state update request'' dec_stateUpdateRequest raw) (\<lambda>request.
     andThen (findRunByAgentID c (su_AgentID request)) (\<lambda>found. case found of
         None \<Rightarrow> ret \<lparr>ur_RunID = 0, ur_Status = ''error'', ur_Message = Some ''agent not found''\<rparr>
       | Some row \<Rightarrow>
           let state = raw_map (af_StateJSON row);
               agents = updated_agent (su_AgentID request) (su_Updates request) (agents_of state)
           in andThen agent_timestamp (\<lambda>timestamp.
              andThen (on_db c (UpdateAutofixRun (af_ID row) None None RunStatusProcessing
                  (marshal (JObj (with_agents agents timestamp state))))) (\<lambda>_.
                ret \<lparr>ur_RunID = af_ID row, ur_Status = ''success'', ur_Message = None\<rparr>))))"

section \<open>The background task\<close>

definition isCancellation :: "goerr \<Rightarrow> bool" where
  "isCancellation e \<longleftrightarrow> err_kind e = KCanceled \<or> err_kind e = KDeadline"

text \<open>\<open>fail\<close>: its statement runs under a context of its own.\<close>

definition fail_advancement :: "int \<Rightarrow> blob \<Rightarrow> string \<Rightarrow> goerr \<Rightarrow> unit aop" where
  "fail_advancement runID payload reason cause =
     andThen (liftE (setFailureReason payload reason)) (\<lambda>failed.
     andThen (wrapping ''persist failed coding agent state''
         (on_db None (UpdateAutofixRun runID None None RunStatusError failed))) (\<lambda>_.
       fail cause))"

definition agentSystemPrompt :: string where
  "agentSystemPrompt = ''You are a coding agent assistant. Return valid JSON only.''"

definition agentPrompt :: "string \<Rightarrow> string" where
  "agentPrompt agentSummary =
     ''You are advancing a coding agent. Current agent state:'' @ [CHR 0x0A] @ agentSummary @
     [CHR 0x0A, CHR 0x0A] @
     ''Return one JSON object keyed by agent id. For each existing agent id, give a short '' @
     ''description of its next action. Do not invent new agent ids.''"

text \<open>One entry of the model's answer: it counts only for an agent that is there.\<close>

definition merge_entry :: "string \<times> json gomap \<Rightarrow> json gomap \<Rightarrow> json gomap" where
  "merge_entry = (\<lambda>(i, entry) agents. case as_map (map_of agents i) of
       None \<Rightarrow> agents
     | Some existing \<Rightarrow>
         (case as_string (map_of entry ''description'') of
            None \<Rightarrow> agents
          | Some description \<Rightarrow>
              if TrimSpace description \<noteq> []
              then mput i (JObj (mput ''advancement'' (JStr (TrimSpace description)) existing)) agents
              else agents))"

definition merge_advanced :: "blob \<Rightarrow> json gomap \<Rightarrow> json gomap" where
  "merge_advanced completion agents = (case unmarshal (dec_map dec_anymap []) completion of
       Inl e \<Rightarrow> agents
     | Inr advanced \<Rightarrow> fold merge_entry advanced agents)"

definition agentAdvancementTask_Run ::
    "(string \<Rightarrow> blob) \<Rightarrow> ctx \<times> ctx \<times> ctx \<Rightarrow> blob \<Rightarrow> int \<Rightarrow> unit aop" where
  "agentAdvancementTask_Run parse = (\<lambda>(c0, c1, c2) payload runID. case c0 of
       Some e \<Rightarrow> fail_advancement runID payload ''shutdown'' e
     | None \<Rightarrow>
         let state = raw_map payload; agents = agents_of state in
         if agents = [] then on_db c2 (UpdateAutofixRun runID None None RunStatusCompleted payload)
         else (\<lambda>w. case llm_complete c1 \<lparr>cr_SystemPrompt = agentSystemPrompt,
                     cr_UserPrompt = agentPrompt (map_text (Some agents)), cr_Temperature = ''0'',
                     cr_MaxTokens = 1024\<rparr> w of
             (Inl e, w1) \<Rightarrow> fail_advancement runID payload
                (if isCancellation e then ''shutdown'' else ''llm error: '' @ err_text e) e w1
           | (Inr completion, w1) \<Rightarrow>
               andThen agent_timestamp (\<lambda>timestamp.
                 on_db c2 (UpdateAutofixRun runID None None RunStatusCompleted
                   (marshal (JObj (with_agents (merge_advanced (parse completion) agents) timestamp state))))) w1))"

end
