(* ===== verification/AutofixProps.thy ===== *)
theory AutofixProps
  imports Autofix
begin

text \<open>
  What the autofix service does to its table: the endpoints store exactly what Sentry reports,
  the background task keeps the reported agents, and it writes back the snapshot it was started
  with, whatever the row holds by then.
\<close>

section \<open>The table under the statements\<close>

abbreviation autofix_of :: "blob world \<Rightarrow> int \<Rightarrow> AutofixRunRecord option" where
  "autofix_of w \<equiv> autofix_view (db w)"

definition stored :: "string \<Rightarrow> blob \<Rightarrow> AutofixRunRecord \<Rightarrow> AutofixRunRecord" where
  "stored status b r = r\<lparr>af_Status := status, af_StateJSON := b\<rparr>"

lemma stored_simps [simp]:
  "af_ID (stored st b r) = af_ID r" "af_Status (stored st b r) = st" "af_StateJSON (stored st b r) = b"
  by (simp_all add: stored_def)

lemma UpdateAutofixRun_w:
  assumes "on_db c (UpdateAutofixRun i None None st b) w = (Inr x, w')"
  shows "autofix_of w' = (autofix_of w)(i := map_option (stored st b) (autofix_of w i)) \<and> mgr w' = mgr w"
proof -
  from autofix_w.modify_ok [of c "(i, None, None, st, b)" w x w'] assms obtain ts where
    "autofix_of w' = (autofix_of w)(i := map_option (rewrite_autofix ts (i, None, None, st, b)) (autofix_of w i))"
    by auto
  moreover have "rewrite_autofix ts (i, None, None, st, b) r = stored st b r" for r
    by (cases r) (simp add: stored_def)
  ultimately show ?thesis using on_db_frameD [OF assms] by (simp cong: map_option_cong)
qed

lemma UpdateAutofixRun_err:
  "on_db c (UpdateAutofixRun i p q st b) w = (Inl e, w') \<Longrightarrow> autofix_of w' = autofix_of w \<and> mgr w' = mgr w"
  using all_or_nothingD [OF autofix_w.modify_err [of c "(i, p, q, st, b)"], of w e w'] on_db_frameD [of c _ w "Inl e" w']
  by auto

lemma GetAutofixRun_w:
  "on_db c (GetAutofixRun i) w = (Inr r, w') \<Longrightarrow> r = autofix_of w i \<and> autofix_of w' = autofix_of w \<and> mgr w' = mgr w"
  using autofix_w.lookup_ok on_db_frameD by blast

definition reported_row :: "int \<Rightarrow> blob \<Rightarrow> AutofixRunRecord" where
  "reported_row i b = \<lparr>af_ID = i, af_GroupID = None, af_Provider = None, af_PRID = None,
     af_Status = RunStatusProcessing, af_StateJSON = b\<rparr>"

lemma CreateAutofixRunWithID_w:
  assumes "on_db c (CreateAutofixRunWithID i None b) w = (Inr x, w')" and "autofix_of w i = None"
  shows "autofix_of w' = (autofix_of w)(i \<mapsto> reported_row i b) \<and> mgr w' = mgr w"
proof -
  from on_db_run [OF assms(1), of autofix_view] obtain s t where
    run: "CreateAutofixRunWithID i None b s = (Inr x, t)" and s: "autofix_view s = autofix_of w" "autofix_of w' = autofix_view t"
    by auto
  from run s(1) assms(2) have "autofix_view t = (autofix_view s)(i \<mapsto> reported_row i b)"
    by (auto simp: CreateAutofixRunWithID_def stmt_Inr autofix_view_def row_at_snoc reported_row_def fun_eq_iff
        split: option.splits if_splits)
  with s on_db_frameD [OF assms(1)] show ?thesis by simp
qed

lemma agent_timestamp_w: "agent_timestamp w = (r, w') \<Longrightarrow>
    (\<exists>t. r = Inr t) \<and> autofix_of w' = autofix_of w \<and> mgr w' = mgr w"
  by (auto simp: agent_timestamp_def on_db_alive nowString_def)

lemma startAgentAdvancement_w: "startAgentAdvancement i b w = (r, w') \<Longrightarrow> r = Inr () \<and> db w' = db w \<and>
    mgr w' = map_option (mgr_Start (run_key ''autofix'' i) (b, i)) (mgr w)"
  by (auto simp: startAgentAdvancement_def split: option.splits)

section \<open>State maps\<close>

lemma agents_with_agents [simp]:
  "wf_map agents \<Longrightarrow> agents_of (with_agents agents t state) = agents"
  by (simp add: agents_of_def with_agents_def of_members_wf)

lemma map_of_with_agents: "map_of (with_agents agents t state) =
    (map_of state)(''coding_agents'' \<mapsto> JObj agents, ''updated_at'' \<mapsto> JStr t)"
  by (simp add: with_agents_def)

lemma wf_with_agents [simp]: "wf_map state \<Longrightarrow> wf_map (with_agents agents t state)"
  by (simp add: with_agents_def)

lemma wf_agents_of [simp]: "wf_map (agents_of state)"
  by (auto simp: agents_of_def as_map_def split: option.splits json.splits)

lemma raw_marshal [simp]: "wf_map m \<Longrightarrow> raw_map (marshal (JObj m)) = m"
  by (simp add: marshal_def of_members_wf)

lemma decode_marshal [simp]: "wf_map m \<Longrightarrow> decode_map (marshal (JObj m)) = Some m"
  by (simp add: marshal_def of_members_wf)

lemma decode_raw: "decode_map b = Some m \<Longrightarrow> raw_map b = m"
  by (cases b rule: decode_map.cases) auto

text \<open>What a request reports of an agent: the last entry with its id.\<close>

definition last_report :: "json gomap list \<Rightarrow> string \<Rightarrow> json gomap option" where
  "last_report items k = (if k = [] then None
     else find (\<lambda>item. as_string (map_of item ''id'') = Some k) (rev items))"

lemma map_of_reported: "map_of (fold put_agent items agents) k =
    (case last_report items k of Some item \<Rightarrow> Some (JObj item) | None \<Rightarrow> map_of agents k)"
proof (induction items arbitrary: agents)
  case (Cons item items)
  then show ?case
    by (auto simp: last_report_def find_append put_agent_def split: option.splits)
qed (simp add: last_report_def)

lemma wf_reported [simp]: "wf_map (reported_agents items)"
proof -
  have "wf_map agents \<Longrightarrow> wf_map (fold put_agent items agents)" for agents
    by (induction items arbitrary: agents) (auto simp: put_agent_def split: option.splits)
  then show ?thesis by (simp add: reported_agents_def)
qed

lemma wf_updated [simp]: "wf_map agents \<Longrightarrow> wf_map (updated_agent a u agents)"
  by (simp add: updated_agent_def Let_def)

lemma map_of_reported_agents: "map_of (reported_agents items) k = map_option JObj (last_report items k)"
  by (simp add: reported_agents_def map_of_reported split: option.split)

text \<open>What an entry of the model's answer does to the agent it names.\<close>

definition advanced_entry :: "json gomap option \<Rightarrow> json \<Rightarrow> json" where
  "advanced_entry entry old = (case (as_map (Some old), Option.bind entry (\<lambda>e. as_string (map_of e ''description''))) of
       (Some m, Some d) \<Rightarrow> if TrimSpace d \<noteq> [] then JObj (mput ''advancement'' (JStr (TrimSpace d)) m) else old
     | _ \<Rightarrow> old)"

lemma merge_entry_map: "map_of (merge_entry (i, e) agents) k =
    (if k = i then map_option (advanced_entry (Some e)) (map_of agents k) else map_of agents k)"
  by (cases "map_of agents i")
    (auto simp: merge_entry_def advanced_entry_def as_map_def split: option.splits json.splits)

lemma wf_merge_entry [simp]: "wf_map agents \<Longrightarrow> wf_map (merge_entry p agents)"
  by (cases p) (auto simp: merge_entry_def split: option.splits)

lemma wf_fold_merge [simp]: "wf_map agents \<Longrightarrow> wf_map (fold merge_entry ps agents)"
  by (induction ps arbitrary: agents) auto

lemma advanced_None [simp]: "advanced_entry None old = old"
  by (simp add: advanced_entry_def split: option.splits)

lemma map_advanced_None [simp]: "map_option (advanced_entry None) x = x"
  by (cases x) simp_all

lemma fold_merge_map:
  "wf_map ps \<Longrightarrow> map_of (fold merge_entry ps agents) k = map_option (advanced_entry (map_of ps k)) (map_of agents k)"
proof (induction ps arbitrary: agents)
  case Nil
  then show ?case by (simp add: option.map_ident)
next
  case (Cons p ps)
  obtain i e where p: "p = (i, e)" by (cases p)
  have wf: "wf_map ps" "i \<notin> fst ` set ps" using Cons.prems p by (simp_all add: wf_map_def)
  then have none: "map_of ps i = None" by (simp add: map_of_eq_None_iff)
  show ?case
    using Cons.IH [OF wf(1)] none by (auto simp: p merge_entry_map option.map_comp comp_def option.map_ident)
qed

lemma dec_map_wf: "dec_map d z j = Inr m \<Longrightarrow> wf_map m"
  by (cases j) (auto simp: bindE_eq_Inr)

text \<open>The answer for an agent: none when the text is no object of objects.\<close>

definition answer_for :: "blob \<Rightarrow> string \<Rightarrow> json gomap option" where
  "answer_for completion k = (case unmarshal (dec_map dec_anymap []) completion of
     Inl e \<Rightarrow> None | Inr advanced \<Rightarrow> map_of advanced k)"

lemma merge_advanced_map: "map_of (merge_advanced completion agents) k =
    map_option (advanced_entry (answer_for completion k)) (map_of agents k)"
proof (cases "unmarshal (dec_map dec_anymap []) completion")
  case (Inl e)
  then show ?thesis by (simp add: merge_advanced_def answer_for_def option.map_ident)
next
  case (Inr advanced)
  then have "wf_map advanced" by (cases completion) (auto dest: dec_map_wf)
  with Inr show ?thesis by (simp add: merge_advanced_def answer_for_def fold_merge_map)
qed

lemma wf_merge_advanced [simp]: "wf_map agents \<Longrightarrow> wf_map (merge_advanced completion agents)"
  by (simp add: merge_advanced_def split: sum.splits)

text \<open>Whatever the answer says, an entry keeps every member but \<open>advancement\<close>.\<close>

lemma advanced_entry_keeps:
  assumes "as_map (Some old) = Some m"
  shows "\<exists>m'. as_map (Some (advanced_entry e old)) = Some m' \<and> (\<forall>f. f \<noteq> ''advancement'' \<longrightarrow> map_of m' f = map_of m f)"
proof -
  from assms have "wf_map m" by (auto simp: as_map_def split: json.splits)
  with assms show ?thesis by (auto simp: advanced_entry_def of_members_wf split: option.splits)
qed

section \<open>The endpoints and the task\<close>

lemma Store_run:
  assumes "StoreCodingAgentStates c raw w = (Inr resp, w')" and "unmarshal dec_stateSetRequest raw = Inr rq"
  obtains t state r' where "resp = \<lparr>ur_RunID = ss_RunID rq, ur_Status = ''success'', ur_Message = None\<rparr>"
    "(case autofix_of w (ss_RunID rq) of None \<Rightarrow> Some [] | Some r \<Rightarrow> decode_map (af_StateJSON r)) = Some state"
    "autofix_of w' = (autofix_of w)(ss_RunID rq \<mapsto> r')" "af_Status r' = RunStatusProcessing"
    "af_StateJSON r' = marshal (JObj (with_agents (reported_agents (ss_CodingAgentStates rq)) t state))"
    "mgr w' = map_option (mgr_Start (run_key ''autofix'' (ss_RunID rq)) (af_StateJSON r', ss_RunID rq)) (mgr w)"
proof -
  let ?i = "ss_RunID rq" and ?agents = "reported_agents (ss_CodingAgentStates rq)"
  let ?resp = "\<lparr>ur_RunID = ?i, ur_Status = ''success'', ur_Message = None\<rparr>"
  from assms obtain found w1 where g: "on_db c (GetAutofixRun ?i) w = (Inr found, w1)"
    and rest: "(case found of None \<Rightarrow>
           andThen agent_timestamp (\<lambda>timestamp.
             let payload = marshal (JObj (with_agents ?agents timestamp [])) in
             andThen (on_db c (CreateAutofixRunWithID ?i None payload)) (\<lambda>_.
             andThen (startAgentAdvancement ?i payload) (\<lambda>_. ret ?resp)))
       | Some rec \<Rightarrow>
           (case decode_map (af_StateJSON rec) of
              None \<Rightarrow> fail nil_map_panic
            | Some state \<Rightarrow>
                andThen agent_timestamp (\<lambda>timestamp.
                  let payload = marshal (JObj (with_agents ?agents timestamp state)) in
                  andThen (on_db c (UpdateAutofixRun ?i None None RunStatusProcessing payload)) (\<lambda>_.
                  andThen (startAgentAdvancement ?i payload) (\<lambda>_. ret ?resp))))) w1 = (Inr resp, w')"
    unfolding StoreCodingAgentStates_def andThen_eq_Inr [of "decoding _ _ _"] decoding_eq Let_def
    by (auto simp: andThen_eq_Inr [of "on_db c (GetAutofixRun _)"])
  note read = GetAutofixRun_w [OF g]
  show thesis
  proof (cases found)
    case None
    with rest obtain t w2 w3 where t: "agent_timestamp w1 = (Inr t, w2)"
      and cr: "on_db c (CreateAutofixRunWithID ?i None (marshal (JObj (with_agents ?agents t [])))) w2 = (Inr (), w3)"
      and st: "startAgentAdvancement ?i (marshal (JObj (with_agents ?agents t []))) w3 = (Inr (), w')"
      and resp: "resp = ?resp"
      by (auto simp: andThen_eq_Inr Let_def)
    have same: "autofix_of w2 = autofix_of w" "mgr w2 = mgr w" "autofix_of w ?i = None"
      using read None agent_timestamp_w [OF t] by simp_all
    show thesis
      by (rule that [of "[]" "reported_row ?i (marshal (JObj (with_agents ?agents t [])))" t])
        (use CreateAutofixRunWithID_w [OF cr] startAgentAdvancement_w [OF st] same resp in \<open>simp_all add: reported_row_def\<close>)
  next
    case (Some rec)
    with rest obtain state where state: "decode_map (af_StateJSON rec) = Some state"
      by (cases "decode_map (af_StateJSON rec)") auto
    with Some rest obtain t w2 w3 where t: "agent_timestamp w1 = (Inr t, w2)"
      and up: "on_db c (UpdateAutofixRun ?i None None RunStatusProcessing (marshal (JObj (with_agents ?agents t state)))) w2 = (Inr (), w3)"
      and st: "startAgentAdvancement ?i (marshal (JObj (with_agents ?agents t state))) w3 = (Inr (), w')"
      and resp: "resp = ?resp"
      by (auto simp: andThen_eq_Inr Let_def)
    have same: "autofix_of w2 = autofix_of w" "mgr w2 = mgr w" "autofix_of w ?i = Some rec"
      using read Some agent_timestamp_w [OF t] by simp_all
    show thesis
      by (rule that [of state "stored RunStatusProcessing (marshal (JObj (with_agents ?agents t state))) rec" t])
        (use UpdateAutofixRun_w [OF up] startAgentAdvancement_w [OF st] same state resp in simp_all)
  qed
qed

lemma find_first_asc:
  assumes "find P (select_asc k (\<lambda>_. True) rows) = Some r" and "x \<in> set rows" and "P x"
  shows "k r \<le> k x"
proof -
  have P: "select_asc k P rows = filter P (select_asc k (\<lambda>_. True) rows)"
    by (simp add: select_asc_def filter_sort)
  have "first_row (filter P xs) = find P xs" for xs by (induction xs) auto
  with P assms(1) have "first_row (select_asc k P rows) = Some r" by simp
  from first_asc_least [OF this] assms(2,3) show ?thesis by blast
qed

lemma findRun_w:
  assumes "findRunByAgentID c a w = (Inr (Some r), w')"
  shows "autofix_of w (af_ID r) = Some r \<or> \<not> store_ok (db w)" "holds_agent a r"
    "autofix_of w' = autofix_of w" "mgr w' = mgr w"
    "\<And>j x. autofix_of w j = Some x \<Longrightarrow> holds_agent a x \<Longrightarrow> af_ID r \<le> j"
proof -
  from assms obtain rows where l: "on_db c ListAutofixRuns w = (Inr rows, w')" and f: "find (holds_agent a) rows = Some r"
    by (auto simp: findRunByAgentID_def split: prod.splits sum.splits)
  have "blind (\<lambda>s. (autofix_runs s, store_ok s))" using blind_views(7) by (simp add: blind_def)
  from on_db_run [OF l this] obtain s t where "ListAutofixRuns s = (Inr rows, t)"
    and s: "autofix_runs s = autofix_runs (db w)" "autofix_runs (db w') = autofix_runs t" by auto
  then have rows: "rows = select_asc af_ID (\<lambda>_. True) (autofix_runs (db w))"
    and t: "autofix_runs t = autofix_runs (db w)"
    by (auto simp: ListAutofixRuns_def stmt_Inr)
  from f have "r \<in> set rows" "holds_agent a r" by (auto dest: find_Some_in)
  then have r: "r \<in> set (autofix_runs (db w))" using rows by simp
  then show "autofix_of w (af_ID r) = Some r \<or> \<not> store_ok (db w)"
    by (auto simp: autofix_view_def store_ok_def ids_ok_def dest: row_at_uniq)
  show "holds_agent a r" by fact
  show "autofix_of w' = autofix_of w" using s t by (simp add: autofix_view_def)
  show "mgr w' = mgr w" using on_db_frameD [OF l] by simp
  show "af_ID r \<le> j" if "autofix_of w j = Some x" "holds_agent a x" for j x
    using that f rows by (auto simp: autofix_view_def dest!: row_at_key intro: find_first_asc)
qed

lemma readonly_List: "readonly autofix_view ListAutofixRuns"
  unfolding ListAutofixRuns_def by (intro readonly_wrapping readonly_query) simp

lemma Update_run:
  assumes "UpdateCodingAgentState c raw w = (Inr resp, w')" and "unmarshal dec_stateUpdateRequest raw = Inr rq"
  obtains (missing) "resp = \<lparr>ur_RunID = 0, ur_Status = ''error'', ur_Message = Some ''agent not found''\<rparr>"
      "autofix_of w' = autofix_of w" "mgr w' = mgr w"
  | (found) r t w1 where "findRunByAgentID c (su_AgentID rq) w = (Inr (Some r), w1)"
      "resp = \<lparr>ur_RunID = af_ID r, ur_Status = ''success'', ur_Message = None\<rparr>" "mgr w' = mgr w"
      "autofix_of w' = (autofix_of w)(af_ID r := map_option (stored RunStatusProcessing (marshal (JObj
         (with_agents (updated_agent (su_AgentID rq) (su_Updates rq) (agents_of (raw_map (af_StateJSON r)))) t
           (raw_map (af_StateJSON r)))))) (autofix_of w (af_ID r)))"
proof -
  from assms obtain found w1 where f: "findRunByAgentID c (su_AgentID rq) w = (Inr found, w1)"
    and rest: "(case found of
         None \<Rightarrow> ret \<lparr>ur_RunID = 0, ur_Status = ''error'', ur_Message = Some ''agent not found''\<rparr>
       | Some row \<Rightarrow>
           andThen agent_timestamp (\<lambda>timestamp.
              andThen (on_db c (UpdateAutofixRun (af_ID row) None None RunStatusProcessing
                  (marshal (JObj (with_agents (updated_agent (su_AgentID rq) (su_Updates rq)
                     (agents_of (raw_map (af_StateJSON row)))) timestamp (raw_map (af_StateJSON row))))))) (\<lambda>_.
                ret \<lparr>ur_RunID = af_ID row, ur_Status = ''success'', ur_Message = None\<rparr>))) w1 = (Inr resp, w')"
    unfolding UpdateCodingAgentState_def andThen_eq_Inr [of "decoding _ _ _"] decoding_eq Let_def
    by (auto simp: andThen_eq_Inr [of "findRunByAgentID _ _"])
  show thesis
  proof (cases found)
    case None
    have "db w1 = db (snd (on_db c ListAutofixRuns w)) \<and> mgr w1 = mgr w"
      using f by (auto simp: findRunByAgentID_def split: prod.splits sum.splits dest: on_db_frameD)
    moreover have "autofix_of (snd (on_db c ListAutofixRuns w)) = autofix_of w"
      using readonlyD [OF readonly_on_db [OF readonly_List], of c w] by (cases "on_db c ListAutofixRuns w") simp
    ultimately show thesis using None rest by (intro missing) auto
  next
    case (Some r)
    with rest obtain t w2 where t: "agent_timestamp w1 = (Inr t, w2)"
      and up: "on_db c (UpdateAutofixRun (af_ID r) None None RunStatusProcessing (marshal (JObj
         (with_agents (updated_agent (su_AgentID rq) (su_Updates rq) (agents_of (raw_map (af_StateJSON r)))) t
           (raw_map (af_StateJSON r)))))) w2 = (Inr (), w')"
      and resp: "resp = \<lparr>ur_RunID = af_ID r, ur_Status = ''success'', ur_Message = None\<rparr>"
      by (auto simp: andThen_eq_Inr Let_def)
    have "autofix_of w2 = autofix_of w" "mgr w2 = mgr w"
      using findRun_w(3,4) [OF f [unfolded Some]] agent_timestamp_w [OF t] by simp_all
    with UpdateAutofixRun_w [OF up] resp f Some show thesis by (intro found) auto
  qed
qed

lemma task_run:
  assumes "agentAdvancementTask_Run parse cs payload i w = (Inr x, w')"
  obtains b where "autofix_of w' = (autofix_of w)(i := map_option (stored RunStatusCompleted b) (autofix_of w i))"
    "b = payload \<and> agents_of (raw_map payload) = [] \<or>
     (\<exists>t completion. b = marshal (JObj (with_agents (merge_advanced (parse completion) (agents_of (raw_map payload))) t (raw_map payload))) \<and>
        llm w (llm_calls w) (fst (snd cs)) \<lparr>cr_SystemPrompt = agentSystemPrompt,
          cr_UserPrompt = agentPrompt (map_text (Some (agents_of (raw_map payload)))), cr_Temperature = ''0'',
          cr_MaxTokens = 1024\<rparr> = Inr completion)"
proof -
  obtain c0 c1 c2 where cs: "cs = (c0, c1, c2)" by (cases cs)
  have no_fail: "fail_advancement i payload reason cause u \<noteq> (Inr x, v)" for reason cause u v
    by (auto simp: fail_advancement_def andThen_eq_Inr)
  from assms no_fail have c0: "c0 = None" by (cases c0) (auto simp: agentAdvancementTask_Run_def cs)
  let ?agents = "agents_of (raw_map payload)"
  let ?req = "\<lparr>cr_SystemPrompt = agentSystemPrompt, cr_UserPrompt = agentPrompt (map_text (Some ?agents)),
     cr_Temperature = ''0'', cr_MaxTokens = 1024\<rparr>"
  show thesis
  proof (cases "?agents = []")
    case True
    with assms c0 have "on_db c2 (UpdateAutofixRun i None None RunStatusCompleted payload) w = (Inr (), w')"
      by (simp add: agentAdvancementTask_Run_def cs)
    from UpdateAutofixRun_w [OF this] True that [of payload] show thesis by blast
  next
    case False
    obtain r w1 where l: "llm_complete c1 ?req w = (r, w1)" by (cases "llm_complete c1 ?req w")
    with False assms c0 no_fail obtain completion where r: "r = Inr completion"
      by (cases r) (auto simp: agentAdvancementTask_Run_def cs Let_def)
    with False assms c0 l have "andThen agent_timestamp (\<lambda>timestamp. on_db c2 (UpdateAutofixRun i None None RunStatusCompleted
        (marshal (JObj (with_agents (merge_advanced (parse completion) ?agents) timestamp (raw_map payload)))))) w1 = (Inr x, w')"
      by (simp add: agentAdvancementTask_Run_def cs Let_def)
    then obtain t w2 where t: "agent_timestamp w1 = (Inr t, w2)" and up: "on_db c2 (UpdateAutofixRun i None None RunStatusCompleted
        (marshal (JObj (with_agents (merge_advanced (parse completion) ?agents) t (raw_map payload))))) w2 = (Inr x, w')"
      by (auto simp: andThen_eq_Inr)
    let ?b = "marshal (JObj (with_agents (merge_advanced (parse completion) ?agents) t (raw_map payload)))"
    have "autofix_of w2 = autofix_of w" using l agent_timestamp_w [OF t] by (auto simp: llm_complete_eq)
    with UpdateAutofixRun_w [OF up]
    have "autofix_of w' = (autofix_of w)(i := map_option (stored RunStatusCompleted ?b) (autofix_of w i))" by simp
    moreover have "llm w (llm_calls w) (fst (snd cs)) ?req = Inr completion"
      using l r cs by (simp add: llm_complete_eq)
    ultimately show thesis using that [of ?b] by blast
  qed
qed

lemma task_row:
  assumes "agentAdvancementTask_Run parse cs payload i w = (Inr x, w')" and "autofix_of w i = Some r"
  shows "\<exists>b completion. autofix_of w' = (autofix_of w)(i \<mapsto> stored RunStatusCompleted b r) \<and>
    (\<forall>f. f \<noteq> ''coding_agents'' \<and> f \<noteq> ''updated_at'' \<longrightarrow> map_of (raw_map b) f = map_of (raw_map payload) f) \<and>
    (\<forall>k. map_of (agents_of (raw_map b)) k =
       map_option (advanced_entry (answer_for (parse completion) k)) (map_of (agents_of (raw_map payload)) k))"
  using assms(1)
proof (rule task_run)
  fix b
  assume tab: "autofix_of w' = (autofix_of w)(i := map_option (stored RunStatusCompleted b) (autofix_of w i))"
    and b: "b = payload \<and> agents_of (raw_map payload) = [] \<or>
     (\<exists>t completion. b = marshal (JObj (with_agents (merge_advanced (parse completion) (agents_of (raw_map payload))) t (raw_map payload))) \<and>
        llm w (llm_calls w) (fst (snd cs)) \<lparr>cr_SystemPrompt = agentSystemPrompt,
          cr_UserPrompt = agentPrompt (map_text (Some (agents_of (raw_map payload)))), cr_Temperature = ''0'',
          cr_MaxTokens = 1024\<rparr> = Inr completion)"
  have "\<exists>completion. (\<forall>f. f \<noteq> ''coding_agents'' \<and> f \<noteq> ''updated_at'' \<longrightarrow> map_of (raw_map b) f = map_of (raw_map payload) f) \<and>
    (\<forall>k. map_of (agents_of (raw_map b)) k =
       map_option (advanced_entry (answer_for (parse completion) k)) (map_of (agents_of (raw_map payload)) k))"
    using b by (auto simp: map_of_with_agents merge_advanced_map)
  then show ?thesis using tab assms(2) by (intro exI [of _ b]) simp
qed

lemma fail_run:
  assumes "healthy (db w)" and "autofix_of w i = Some r" and "decode_map payload = Some m"
  shows "\<exists>w'. fail_advancement i payload reason cause w = (Inl cause, w') \<and> autofix_of w' =
    (autofix_of w)(i \<mapsto> stored RunStatusError (marshal (JObj (mput ''failure_reason'' (JStr reason) m))) r)"
proof -
  let ?b = "marshal (JObj (mput ''failure_reason'' (JStr reason) m))"
  have "\<exists>w'. on_db None (UpdateAutofixRun i None None RunStatusError ?b) w = (Inr (), w')"
    using assms(1) by (simp add: on_db_alive UpdateAutofixRun_def wrapping_def update_healthy split: prod.splits)
  then obtain w' where up: "on_db None (UpdateAutofixRun i None None RunStatusError ?b) w = (Inr (), w')" ..
  from UpdateAutofixRun_w [OF up] assms(2) up show ?thesis
    by (simp add: fail_advancement_def setFailureReason_def assms(3) andThen_def wrapping_def)
qed

section \<open>A world to evaluate the service in\<close>

definition agent_report :: blob where
  "agent_report = Doc (JObj [(''run_id'', JNum 7), (''coding_agent_states'', JArr
     [JObj [(''id'', JStr ''a''), (''status'', JStr ''running'')], JObj [(''status'', JStr ''lost'')]])])"

definition agent_update :: blob where
  "agent_update = Doc (JObj [(''agent_id'', JStr ''a''), (''updates'', JObj [(''status'', JStr ''done'')])])"

definition agent_answer :: "string \<Rightarrow> blob" where
  "agent_answer s = Doc (JObj [(''a'', JObj [(''description'', JStr ('' '' @ s))]), (''ghost'', JObj [(''description'', JStr s)])])"

definition agent_world :: "blob world" where
  "agent_world = start_world no_fault (answering ''push'')"

definition reported_world :: "blob world" where
  "reported_world = snd (StoreCodingAgentStates None agent_report agent_world)"

definition reported_payload :: blob where
  "reported_payload = marshal (JObj [(''coding_agents'', JObj [(''a'', JObj [(''id'', JStr ''a''), (''status'', JStr ''running'')])]),
     (''updated_at'', JStr ''2024-01-01T00:00:00Z'')])"

lemma agent_requests_decoded:
  "unmarshal dec_stateSetRequest agent_report = Inr \<lparr>ss_RunID = 7, ss_CodingAgentStates =
     [[(''id'', JStr ''a''), (''status'', JStr ''running'')], [(''status'', JStr ''lost'')]]\<rparr>"
  "unmarshal dec_stateUpdateRequest agent_update = Inr \<lparr>su_AgentID = ''a'', su_Updates = [(''status'', JStr ''done'')]\<rparr>"
  by code_simp+

lemma report_runs: "fst (StoreCodingAgentStates None agent_report agent_world) =
    Inr \<lparr>ur_RunID = 7, ur_Status = ''success'', ur_Message = None\<rparr>"
  by code_simp

lemma reported_row_is: "autofix_of reported_world 7 = Some (reported_row 7 reported_payload)"
  by code_simp

lemma reported_task_is: "map_option (map g_task \<circ> goroutines) (mgr reported_world) = Some [(reported_payload, 7)]"
  by code_simp

lemma update_runs: "fst (UpdateCodingAgentState None agent_update reported_world) =
    Inr \<lparr>ur_RunID = 7, ur_Status = ''success'', ur_Message = None\<rparr>"
  by code_simp

lemma run_eq: "fst p = Inr x \<Longrightarrow> p = (Inr x, snd p)"
  by (cases p) simp

lemmas reported_eq = run_eq [OF report_runs, folded reported_world_def]

lemma payload_maps:
  "decode_map reported_payload = Some (raw_map reported_payload)"
  "agents_of (raw_map reported_payload) = [(''a'', JObj [(''id'', JStr ''a''), (''status'', JStr ''running'')])]"
  "as_map (Some (JObj [(''id'', JStr ''a''), (''status'', JStr ''running'')])) =
     Some [(''id'', JStr ''a''), (''status'', JStr ''running'')]"
  by code_simp+

section \<open>Properties\<close>

text \<open>The agents Sentry reports are stored whole. After a successful report the run with the reported id (created when
  it was missing) is processing, its coding_agents member holds for every non-empty id exactly the last entry reported
  under it, every other member of the old state but updated_at is kept, no other run changes, and a task is
  started for the run with the stored state.\<close>

theorem report_stores_agents:
  assumes "StoreCodingAgentStates c raw w = (Inr resp, w')" and "unmarshal dec_stateSetRequest raw = Inr rq"
  shows "\<exists>r' old new. autofix_of w' = (autofix_of w)(ss_RunID rq \<mapsto> r') \<and> af_Status r' = RunStatusProcessing \<and>
    (case autofix_of w (ss_RunID rq) of None \<Rightarrow> Some [] | Some r \<Rightarrow> decode_map (af_StateJSON r)) = Some old \<and>
    decode_map (af_StateJSON r') = Some new \<and>
    (\<forall>f. f \<noteq> ''coding_agents'' \<and> f \<noteq> ''updated_at'' \<longrightarrow> map_of new f = map_of old f) \<and>
    (\<forall>k. map_of (agents_of new) k = map_option JObj (last_report (ss_CodingAgentStates rq) k)) \<and>
    mgr w' = map_option (mgr_Start (run_key ''autofix'' (ss_RunID rq)) (af_StateJSON r', ss_RunID rq)) (mgr w)"
  using assms
proof (rule Store_run)
  fix t state r'
  let ?agents = "reported_agents (ss_CodingAgentStates rq)"
  let ?new = "with_agents ?agents t state"
  assume old: "(case autofix_of w (ss_RunID rq) of None \<Rightarrow> Some [] | Some r \<Rightarrow> decode_map (af_StateJSON r)) = Some state"
    and tab: "autofix_of w' = (autofix_of w)(ss_RunID rq \<mapsto> r')" "af_Status r' = RunStatusProcessing"
    and json: "af_StateJSON r' = marshal (JObj ?new)"
    and mgr: "mgr w' = map_option (mgr_Start (run_key ''autofix'' (ss_RunID rq)) (af_StateJSON r', ss_RunID rq)) (mgr w)"
  from old have "wf_map state"
    by (auto split: option.splits dest: decode_raw)
  then have "decode_map (af_StateJSON r') = Some ?new" by (simp add: json)
  moreover have "map_of (agents_of ?new) k = map_option JObj (last_report (ss_CodingAgentStates rq) k)" for k
    by (simp add: map_of_reported_agents)
  ultimately show ?thesis using old tab mgr by (intro exI conjI) (auto simp: map_of_with_agents)
qed

theorem report_stores_agents_witness:
  "\<exists>r new. autofix_of reported_world 7 = Some r \<and> decode_map (af_StateJSON r) = Some new \<and>
     map_of (agents_of new) ''a'' = Some (JObj [(''id'', JStr ''a''), (''status'', JStr ''running'')]) \<and>
     map_of (agents_of new) [] = None"
proof -
  let ?items = "[[(''id'', JStr ''a''), (''status'', JStr ''running'')], [(''status'', JStr ''lost'')]]"
  obtain r new where "autofix_of reported_world = (autofix_of agent_world)(7 \<mapsto> r)"
    and new: "decode_map (af_StateJSON r) = Some new" "\<forall>k. map_of (agents_of new) k = map_option JObj (last_report ?items k)"
    using report_stores_agents [OF reported_eq agent_requests_decoded(1)] unfolding stateSetRequest.simps by blast
  then have "autofix_of reported_world 7 = Some r" by simp
  with new show ?thesis by (simp add: last_report_def)
qed

text \<open>C26: an update of one agent's state reaches that agent and nothing else. When the service answers success, the run
  it names holds the agent and is the one with the smallest id that does; only that run changes; among its agents
  only the named one does, and of that agent's members exactly those the update lists; other members of
  the state but updated_at stay, and the run is processing again.\<close>

theorem update_reaches_one_agent:
  assumes "UpdateCodingAgentState c raw w = (Inr resp, w')" and "unmarshal dec_stateUpdateRequest raw = Inr rq"
    and "ur_Status resp = ''success''" and "store_ok (db w)"
  shows "\<exists>r r'. autofix_of w (ur_RunID resp) = Some r \<and> holds_agent (su_AgentID rq) r \<and>
    (\<forall>j x. autofix_of w j = Some x \<and> holds_agent (su_AgentID rq) x \<longrightarrow> ur_RunID resp \<le> j) \<and>
    autofix_of w' = (autofix_of w)(ur_RunID resp \<mapsto> r') \<and> af_Status r' = RunStatusProcessing \<and>
    (\<forall>f. f \<noteq> ''coding_agents'' \<and> f \<noteq> ''updated_at'' \<longrightarrow>
       map_of (raw_map (af_StateJSON r')) f = map_of (raw_map (af_StateJSON r)) f) \<and>
    (\<forall>k. k \<noteq> su_AgentID rq \<longrightarrow>
       map_of (agents_of (raw_map (af_StateJSON r'))) k = map_of (agents_of (raw_map (af_StateJSON r))) k) \<and>
    (\<forall>m. as_map (map_of (agents_of (raw_map (af_StateJSON r))) (su_AgentID rq)) = Some m \<longrightarrow>
       (\<exists>m'. as_map (map_of (agents_of (raw_map (af_StateJSON r'))) (su_AgentID rq)) = Some m' \<and>
          map_of m' = map_of m ++ map_of (rev (su_Updates rq))))"
  using assms(1,2)
proof (cases rule: Update_run)
  case missing
  with assms(3) show ?thesis by simp
next
  case (found r t w1)
  let ?i = "af_ID r" and ?old = "raw_map (af_StateJSON r)"
  let ?agents = "updated_agent (su_AgentID rq) (su_Updates rq) (agents_of ?old)"
  let ?b = "marshal (JObj (with_agents ?agents t ?old))"
  note at = findRun_w [OF found(1)]
  have r: "autofix_of w ?i = Some r" using at(1) assms(4) by blast
  have "wf_map m" if "as_map v = Some m" for v m
    using that by (auto simp: as_map_def split: option.splits json.splits)
  then have entry: "\<exists>m'. as_map (map_of ?agents (su_AgentID rq)) = Some m' \<and> map_of m' = map_of m ++ map_of (rev (su_Updates rq))"
    if "as_map (map_of (agents_of ?old) (su_AgentID rq)) = Some m" for m
    using that by (simp add: updated_agent_def of_members_wf map_of_mput_all)
  have "raw_map (af_StateJSON (stored RunStatusProcessing ?b r)) = with_agents ?agents t ?old" by simp
  with r at(2,5) found entry show ?thesis
    by (intro exI [of _ r] exI [of _ "stored RunStatusProcessing ?b r"])
      (auto simp: map_of_with_agents updated_agent_def Let_def)
qed

theorem update_reaches_one_agent_witness:
  "\<exists>r' m'. autofix_of (snd (UpdateCodingAgentState None agent_update reported_world)) 7 = Some r' \<and>
     as_map (map_of (agents_of (raw_map (af_StateJSON r'))) ''a'') = Some m' \<and> map_of m' ''status'' = Some (JStr ''done'')"
proof -
  have "store_ok (db reported_world)" by code_simp
  from update_reaches_one_agent [OF run_eq [OF update_runs] agent_requests_decoded(2) _ this]
  show ?thesis using reported_row_is by (auto simp: reported_row_def payload_maps)
qed

text \<open>Advancing keeps describing exactly the agents that were reported. A task that succeeds completes its run with
  the state it was started with, where an agent's entry changes only by the description the model's answer
  gives for its id, put under advancement; agents the answer invents are ignored, none is dropped, no other
  run changes.\<close>

theorem advancement_keeps_agents:
  assumes "agentAdvancementTask_Run parse cs payload i w = (Inr x, w')" and "autofix_of w i = Some r"
  shows "\<exists>r' completion. autofix_of w' = (autofix_of w)(i \<mapsto> r') \<and> af_Status r' = RunStatusCompleted \<and>
    (\<forall>f. f \<noteq> ''coding_agents'' \<and> f \<noteq> ''updated_at'' \<longrightarrow>
       map_of (raw_map (af_StateJSON r')) f = map_of (raw_map payload) f) \<and>
    (\<forall>k. map_of (agents_of (raw_map (af_StateJSON r'))) k =
       map_option (advanced_entry (answer_for (parse completion) k)) (map_of (agents_of (raw_map payload)) k))"
proof -
  from task_row [OF assms] obtain b completion where
    "autofix_of w' = (autofix_of w)(i \<mapsto> stored RunStatusCompleted b r)"
    "\<forall>f. f \<noteq> ''coding_agents'' \<and> f \<noteq> ''updated_at'' \<longrightarrow> map_of (raw_map b) f = map_of (raw_map payload) f"
    "\<forall>k. map_of (agents_of (raw_map b)) k =
       map_option (advanced_entry (answer_for (parse completion) k)) (map_of (agents_of (raw_map payload)) k)" by (elim exE conjE) (rule that; assumption)
  then show ?thesis by (intro exI [of _ "stored RunStatusCompleted b r"] exI [of _ completion]) (simp only: stored_simps simp_thms)
qed

lemma advance_runs: "fst (agentAdvancementTask_Run agent_answer (None, None, None) reported_payload 7 reported_world) = Inr ()"
  by code_simp

theorem advancement_keeps_agents_witness:
  "\<exists>r'. autofix_of (snd (agentAdvancementTask_Run agent_answer (None, None, None) reported_payload 7 reported_world)) 7 =
     Some r' \<and> af_Status r' = RunStatusCompleted \<and> map_of (agents_of (raw_map (af_StateJSON r'))) ''ghost'' = None"
proof -
  let ?w = "snd (agentAdvancementTask_Run agent_answer (None, None, None) reported_payload 7 reported_world)"
  obtain r' completion where "autofix_of ?w = (autofix_of reported_world)(7 \<mapsto> r')" and r': "af_Status r' = RunStatusCompleted"
    "\<forall>k. map_of (agents_of (raw_map (af_StateJSON r'))) k =
       map_option (advanced_entry (answer_for (agent_answer completion) k)) (map_of (agents_of (raw_map reported_payload)) k)"
    using advancement_keeps_agents [OF run_eq [OF advance_runs] reported_row_is] by (elim exE conjE) (rule that; assumption)
  then have "autofix_of ?w 7 = Some r'" by simp
  with r' show ?thesis by (simp add: payload_maps)
qed

text \<open>An agent update that arrives while the task is at work is lost. The task writes back the agents of the snapshot it
  was started with: after it succeeds, every member of the updated agent other than advancement has the value
  of the snapshot again, whatever the update wrote, although the update was answered with success.\<close>

theorem advancement_overwrites_update:
  assumes "UpdateCodingAgentState c raw w = (Inr resp, w1)" and "unmarshal dec_stateUpdateRequest raw = Inr rq"
    and "ur_Status resp = ''success''" and "store_ok (db w)"
    and "agentAdvancementTask_Run parse cs payload (ur_RunID resp) w1 = (Inr x, w2)"
    and "map_of (agents_of (raw_map payload)) (su_AgentID rq) = Some old" and "as_map (Some old) = Some m"
  shows "\<exists>r' m'. autofix_of w2 (ur_RunID resp) = Some r' \<and>
    as_map (map_of (agents_of (raw_map (af_StateJSON r'))) (su_AgentID rq)) = Some m' \<and>
    (\<forall>f. f \<noteq> ''advancement'' \<longrightarrow> map_of m' f = map_of m f)"
proof -
  from assms(1,2) obtain r where "autofix_of w1 (ur_RunID resp) = Some r"
  proof (cases rule: Update_run)
    case (found r t u)
    with findRun_w(1) [OF found(1)] assms(4) that show thesis by auto
  qed (use assms(3) in simp)
  from task_row [OF assms(5) this] obtain b completion where
    row: "autofix_of w2 = (autofix_of w1)(ur_RunID resp \<mapsto> stored RunStatusCompleted b r)"
    and "\<forall>k. map_of (agents_of (raw_map b)) k =
       map_option (advanced_entry (answer_for (parse completion) k)) (map_of (agents_of (raw_map payload)) k)" by (elim exE conjE) (rule that; assumption)
  with assms(6) obtain e where "map_of (agents_of (raw_map b)) (su_AgentID rq) = Some (advanced_entry e old)" by auto
  with advanced_entry_keeps [OF assms(7), of e] row show ?thesis by auto
qed

definition updated_world :: "blob world" where
  "updated_world = snd (UpdateCodingAgentState None agent_update reported_world)"

lemma advance_after_update_runs:
  "fst (agentAdvancementTask_Run agent_answer (None, None, None) reported_payload 7 updated_world) = Inr ()"
  by code_simp

theorem advancement_overwrites_update_witness:
  "\<exists>r r' m'. fst (UpdateCodingAgentState None agent_update reported_world) =
       Inr \<lparr>ur_RunID = 7, ur_Status = ''success'', ur_Message = None\<rparr> \<and>
     autofix_of updated_world 7 = Some r \<and>
     map_of (agents_of (raw_map (af_StateJSON r))) ''a'' = Some (JObj [(''id'', JStr ''a''), (''status'', JStr ''done'')]) \<and>
     autofix_of (snd (agentAdvancementTask_Run agent_answer (None, None, None) reported_payload 7 updated_world)) 7 = Some r' \<and>
     as_map (map_of (agents_of (raw_map (af_StateJSON r'))) ''a'') = Some m' \<and> map_of m' ''status'' = Some (JStr ''running'')"
proof -
  have "store_ok (db reported_world)" by code_simp
  let ?m = "[(''id'', JStr ''a''), (''status'', JStr ''running'')]"
  let ?resp = "\<lparr>ur_RunID = 7, ur_Status = ''success'', ur_Message = None\<rparr>"
  let ?w = "snd (agentAdvancementTask_Run agent_answer (None, None, None) reported_payload 7 updated_world)"
  have up: "UpdateCodingAgentState None agent_update reported_world = (Inr ?resp, updated_world)"
    using run_eq [OF update_runs] by (simp only: updated_world_def)
  have run: "agentAdvancementTask_Run agent_answer (None, None, None) reported_payload (ur_RunID ?resp)
      updated_world = (Inr (), ?w)"
    using run_eq [OF advance_after_update_runs] by (simp only: UpdateResponse.simps)
  have "map_of (agents_of (raw_map reported_payload)) (su_AgentID \<lparr>su_AgentID = ''a'', su_Updates = [(''status'', JStr ''done'')]\<rparr>)
      = Some (JObj ?m)" by (simp add: payload_maps)
  from advancement_overwrites_update [OF up agent_requests_decoded(2) _ \<open>store_ok _\<close> run this payload_maps(3)]
  obtain r' m' where lost: "autofix_of ?w 7 = Some r'"
    "as_map (map_of (agents_of (raw_map (af_StateJSON r'))) ''a'') = Some m'" "\<forall>f. f \<noteq> ''advancement'' \<longrightarrow> map_of m' f = map_of ?m f"
    unfolding UpdateResponse.simps stateUpdateRequest.simps by blast
  from lost(3) have "map_of m' ''status'' = Some (JStr ''running'')" by simp
  moreover have "map_option (\<lambda>r. map_of (agents_of (raw_map (af_StateJSON r))) ''a'') (autofix_of updated_world 7) =
      Some (Some (JObj [(''id'', JStr ''a''), (''status'', JStr ''done'')]))"
    by code_simp
  then obtain r where "autofix_of updated_world 7 = Some r"
    "map_of (agents_of (raw_map (af_StateJSON r))) ''a'' = Some (JObj [(''id'', JStr ''a''), (''status'', JStr ''done'')])"
    by (cases "autofix_of updated_world 7") auto
  ultimately show ?thesis using lost(1,2) update_runs by blast
qed

lemma driver_autofix_stmts:
  "readonly driver (on_db c (GetAutofixRun i))" "readonly driver (on_db c (UpdateAutofixRun i p q st b))"
  "readonly driver (on_db c (CreateAutofixRunWithID i g b))" "readonly driver agent_timestamp"
  "readonly driver (startAgentAdvancement i b)"
  unfolding agent_timestamp_def store_defs
  by ((intro readonly_driver_on_db readonly_stmt; simp split: sum.split)+)
    (simp add: readonly_def startAgentAdvancement_def driver_def split: option.splits)

lemma driver_Store: "readonly driver (StoreCodingAgentStates c raw)"
  unfolding StoreCodingAgentStates_def decoding_def Let_def by (intro effect_intro driver_autofix_stmts)

text \<open>A task that fails records it, even when its context is done. On a driver that works, a task whose context is done
  at the start or whose model call fails ends with that error, and its run gets status error and a
  failure_reason: shutdown when the cause is a cancellation or a passed deadline, the model's error otherwise;
  every other member is the snapshot's, and no other run changes.\<close>

theorem failed_advancement_is_recorded:
  assumes "healthy (db w)" and "autofix_of w i = Some r" and "decode_map payload = Some m" and "agents_of m \<noteq> []"
    and "c0 = Some cause \<and> isCancellation cause \<or> c0 = None \<and>
      llm w (llm_calls w) c1 \<lparr>cr_SystemPrompt = agentSystemPrompt, cr_UserPrompt = agentPrompt (map_text (Some (agents_of m))),
        cr_Temperature = ''0'', cr_MaxTokens = 1024\<rparr> = Inl cause"
  shows "\<exists>w'. agentAdvancementTask_Run parse (c0, c1, c2) payload i w = (Inl cause, w') \<and>
    autofix_of w' = (autofix_of w)(i \<mapsto> stored RunStatusError (marshal (JObj (mput ''failure_reason''
      (JStr (if isCancellation cause then ''shutdown'' else ''llm error: '' @ err_text cause)) m))) r)"
proof (cases c0)
  case (Some e)
  with assms(5) have "c0 = Some cause" "isCancellation cause" by auto
  with fail_run [OF assms(1-3), of "''shutdown''" cause] show ?thesis
    by (simp add: agentAdvancementTask_Run_def)
next
  case None
  let ?req = "\<lparr>cr_SystemPrompt = agentSystemPrompt, cr_UserPrompt = agentPrompt (map_text (Some (agents_of m))),
        cr_Temperature = ''0'', cr_MaxTokens = 1024\<rparr>"
  let ?w = "w\<lparr>llm_calls := Suc (llm_calls w)\<rparr>"
  from None assms(5) have l: "llm_complete c1 ?req w = (Inl cause, ?w)" by (simp add: llm_complete_def)
  have "raw_map payload = m" using assms(3) by (rule decode_raw)
  with None l assms(4) have "agentAdvancementTask_Run parse (c0, c1, c2) payload i w =
      fail_advancement i payload (if isCancellation cause then ''shutdown'' else ''llm error: '' @ err_text cause) cause ?w"
    by (simp add: agentAdvancementTask_Run_def Let_def)
  with fail_run [of ?w i r payload m _ cause] assms(1-3) show ?thesis by simp
qed

theorem failed_advancement_is_recorded_witness:
  "\<exists>w' r'. agentAdvancementTask_Run agent_answer (Some canceled, None, None) reported_payload 7 reported_world =
      (Inl canceled, w') \<and> autofix_of w' 7 = Some r' \<and> af_Status r' = RunStatusError \<and>
      map_of (raw_map (af_StateJSON r')) ''failure_reason'' = Some (JStr ''shutdown'')"
proof -
  have "driver reported_world = driver agent_world"
    using driver_Store by (simp add: readonly_def reported_world_def)
  then have "healthy (db reported_world)"
    using driver_healthy [of reported_world agent_world] by (simp add: agent_world_def)
  moreover have "isCancellation canceled" by (simp add: isCancellation_def canceled_def)
  ultimately show ?thesis
    using failed_advancement_is_recorded [of reported_world 7 "reported_row 7 reported_payload" reported_payload
        "raw_map reported_payload" "Some canceled" canceled None agent_answer None]
      reported_row_is payload_maps by fastforce
qed

section \<open>No write to a nil map\<close>

text \<open>
  The steps of the service in any order, with steps of the run manager that start nothing and
  steps that touch neither the table nor the manager in between.
\<close>

inductive autofix_reachable :: "blob world \<Rightarrow> bool" where
  ar_init: "autofix_runs (db w) = [] \<Longrightarrow> (\<And>m. mgr w = Some m \<Longrightarrow> goroutines m = []) \<Longrightarrow> autofix_reachable w"
| ar_store: "autofix_reachable w \<Longrightarrow> autofix_reachable (snd (StoreCodingAgentStates c raw w))"
| ar_update: "autofix_reachable w \<Longrightarrow> autofix_reachable (snd (UpdateCodingAgentState c raw w))"
| ar_task: "autofix_reachable w \<Longrightarrow> mgr w = Some m \<Longrightarrow> g \<in> set (goroutines m) \<Longrightarrow> g_task g = (payload, i) \<Longrightarrow>
    autofix_reachable (snd (agentAdvancementTask_Run parse cs payload i w))"
| ar_manager: "autofix_reachable w \<Longrightarrow> mgr w = Some m \<Longrightarrow> set (goroutines m') \<subseteq> set (goroutines m) \<Longrightarrow>
    autofix_reachable (w\<lparr>mgr := Some m'\<rparr>)"
| ar_other: "autofix_reachable w \<Longrightarrow> autofix_runs (db w') = autofix_runs (db w) \<Longrightarrow> mgr w' = mgr w \<Longrightarrow> autofix_reachable w'"

definition object_blob :: "blob \<Rightarrow> bool" where
  "object_blob b \<longleftrightarrow> (\<exists>ms. b = Doc (JObj ms))"

definition autofix_ok :: "store \<Rightarrow> bool" where
  "autofix_ok s \<longleftrightarrow> (\<forall>r \<in> set (autofix_runs s). object_blob (af_StateJSON r) \<and> af_Provider r = None)"

definition tasks_ok :: "blob world \<Rightarrow> bool" where
  "tasks_ok w \<longleftrightarrow> (\<forall>m g. mgr w = Some m \<longrightarrow> g \<in> set (goroutines m) \<longrightarrow> object_blob (fst (g_task g)))"

abbreviation autofix_inv :: "blob world \<Rightarrow> bool" where
  "autofix_inv w \<equiv> autofix_ok (db w) \<and> tasks_ok w"

lemma object_marshal [simp]: "object_blob (marshal (JObj ms))"
  by (simp add: object_blob_def marshal_def)

lemma object_decode: "object_blob b \<Longrightarrow> decode_map b \<noteq> None"
  by (auto simp: object_blob_def)

lemma blind_autofix_ok [simp]: "blind autofix_ok"
  by (simp add: blind_def autofix_ok_def)

lemma keeps_inv_on_db: "keeps autofix_ok m \<Longrightarrow> keeps autofix_inv (on_db c m)"
  by (simp add: keeps_def tasks_ok_def) (metis blind_autofix_ok keeps_def keeps_on_db)

lemma keeps_autofix_stmts [keeps_intro]:
  "keeps autofix_inv (on_db c (GetAutofixRun i))" "keeps autofix_inv (on_db c ListAutofixRuns)" "keeps autofix_inv agent_timestamp"
  unfolding agent_timestamp_def GetAutofixRun_def ListAutofixRuns_def
  by (intro keeps_inv_on_db keeps_wrapping keeps_query keeps_nowString; simp add: autofix_ok_def)+

lemma keeps_autofix_writes:
  "object_blob b \<Longrightarrow> keeps autofix_inv (on_db c (UpdateAutofixRun i None q st b))"
  "object_blob b \<Longrightarrow> keeps autofix_inv (on_db c (CreateAutofixRunWithID i g b))"
  unfolding UpdateAutofixRun_def CreateAutofixRunWithID_def
  by (intro keeps_inv_on_db keeps_wrapping keeps_update; auto simp: autofix_ok_def update_at_def)+

lemma keeps_startAgentAdvancement: "object_blob b \<Longrightarrow> keeps autofix_inv (startAgentAdvancement i b)"
  by (auto simp: keeps_def startAgentAdvancement_def tasks_ok_def mgr_Start_def Let_def split: option.splits)

lemma keeps_Store: "keeps autofix_inv (StoreCodingAgentStates c raw)"
  unfolding StoreCodingAgentStates_def decoding_def Let_def
  by (intro keeps_intro keeps_autofix_writes keeps_startAgentAdvancement object_marshal)

lemma keeps_findRun [keeps_intro]: "keeps autofix_inv (findRunByAgentID c a)"
  using keeps_autofix_stmts(2) [of c]
  by (auto simp: keeps_def findRunByAgentID_def split: prod.splits sum.splits)

lemma keeps_UpdateCodingAgentState: "keeps autofix_inv (UpdateCodingAgentState c raw)"
  unfolding UpdateCodingAgentState_def decoding_def Let_def
  by (intro keeps_intro keeps_autofix_writes object_marshal)

lemma keeps_fail_advancement: "keeps autofix_inv (fail_advancement i payload reason cause)"
  unfolding fail_advancement_def andThen_liftE setFailureReason_def
  by (cases "decode_map payload") (auto intro!: keeps_fail keeps_andThen keeps_wrapping keeps_autofix_writes)

lemma keeps_task:
  assumes "object_blob payload" shows "keeps autofix_inv (agentAdvancementTask_Run parse cs payload i)"
proof -
  obtain c0 c1 c2 where cs: "cs = (c0, c1, c2)" by (cases cs)
  have last: "keeps autofix_inv (andThen agent_timestamp (\<lambda>t. on_db c2 (UpdateAutofixRun i None None RunStatusCompleted
      (marshal (JObj (with_agents (merge_advanced (parse x) a) t st))))))" for x a st
    by (intro keeps_intro keeps_autofix_writes object_marshal)
  show ?thesis
  proof (cases c0)
    case (Some e)
    then show ?thesis by (simp add: agentAdvancementTask_Run_def cs keeps_fail_advancement)
  next
    case None
    show ?thesis
    proof (rule keepsI)
      fix w assume w: "autofix_inv w"
      then have call: "autofix_inv (w\<lparr>llm_calls := n\<rparr>)" for n by (simp add: tasks_ok_def)
      show "autofix_inv (snd (agentAdvancementTask_Run parse cs payload i w))"
        using keepsD [OF keeps_autofix_writes(1) [OF assms] w] keepsD [OF keeps_fail_advancement call] keepsD [OF last call] None
        by (auto simp: agentAdvancementTask_Run_def cs Let_def llm_complete_def split: sum.split)
    qed
  qed
qed

text \<open>Every stored state is an object, and no run is ever given a provider.\<close>

lemma autofix_reachable_inv:
  assumes "autofix_reachable w" shows "autofix_inv w"
  using assms
proof (induction rule: autofix_reachable.induct)
  case (ar_init w)
  then show ?case by (auto simp: autofix_ok_def tasks_ok_def)
next
  case (ar_task w m g payload i parse cs)
  then have "object_blob payload" by (force simp: tasks_ok_def)
  with ar_task show ?case using keepsD [OF keeps_task] by blast
next
  case (ar_manager w m m')
  then show ?case by (auto simp: tasks_ok_def)
next
  case (ar_other w w')
  then show ?case by (simp add: autofix_ok_def tasks_ok_def)
qed (use keepsD [OF keeps_Store] keepsD [OF keeps_UpdateCodingAgentState] in blast)+

text \<open>C29: the service never writes to a nil map. In every reachable world each stored state and the snapshot of each
  running task is a parsed JSON object, so the states StoreCodingAgentStates and the failure path decode are maps, and
  recording a failure on a snapshot succeeds: a state that decodes to nil, on which either would panic, does
  not occur.\<close>

theorem no_nil_state:
  assumes "autofix_reachable w"
  shows "(\<forall>r \<in> set (autofix_runs (db w)). (\<exists>ms. af_StateJSON r = Doc (JObj ms)) \<and> decode_map (af_StateJSON r) \<noteq> None) \<and>
    (\<forall>m g. mgr w = Some m \<and> g \<in> set (goroutines m) \<longrightarrow> (\<exists>ms. fst (g_task g) = Doc (JObj ms)) \<and>
       (\<forall>reason. \<exists>b. setFailureReason (fst (g_task g)) reason = Inr b))"
proof -
  have inv: "autofix_inv w" using assms by (rule autofix_reachable_inv)
  have rows: "\<forall>r \<in> set (autofix_runs (db w)). object_blob (af_StateJSON r)"
    using inv by (simp add: autofix_ok_def)
  have tasks: "object_blob (fst (g_task g))" if "mgr w = Some m \<and> g \<in> set (goroutines m)" for m g
    using inv that by (simp add: tasks_ok_def)
  have fails: "\<exists>b. setFailureReason payload reason = Inr b" if "object_blob payload" for payload reason
    using object_decode [OF that] by (auto simp: setFailureReason_def)
  from rows object_decode have "\<forall>r \<in> set (autofix_runs (db w)). object_blob (af_StateJSON r) \<and> decode_map (af_StateJSON r) \<noteq> None"
    by blast
  moreover have "\<forall>m g. mgr w = Some m \<and> g \<in> set (goroutines m) \<longrightarrow> object_blob (fst (g_task g)) \<and>
       (\<forall>reason. \<exists>b. setFailureReason (fst (g_task g)) reason = Inr b)"
    using tasks fails by blast
  ultimately show ?thesis unfolding object_blob_def by (rule conjI)
qed

theorem no_nil_state_witness:
  "(\<exists>r \<in> set (autofix_runs (db reported_world)). af_ID r = 7 \<and> (\<exists>ms. af_StateJSON r = Doc (JObj ms))) \<and>
   (\<exists>m g. mgr reported_world = Some m \<and> g \<in> set (goroutines m) \<and> (\<exists>ms. fst (g_task g) = Doc (JObj ms)))"
proof -
  have "autofix_reachable agent_world"
    by (rule ar_init) (auto simp: agent_world_def start_world_def New_def mgr_New_def)
  then have "autofix_reachable reported_world" unfolding reported_world_def by (rule ar_store)
  note all = no_nil_state [OF this]
  have "reported_row 7 reported_payload \<in> set (autofix_runs (db reported_world))"
    using reported_row_is by (auto simp: autofix_view_def dest: row_at_key)
  moreover have "af_ID (reported_row 7 reported_payload) = 7" by (simp add: reported_row_def)
  moreover obtain m where m: "mgr reported_world = Some m" "map g_task (goroutines m) = [(reported_payload, 7)]"
    using reported_task_is by auto
  moreover obtain g where "g \<in> set (goroutines m)" using m(2) by (cases "goroutines m") auto
  ultimately show ?thesis using all by blast
qed

end
