(* ===== verification/Prompts.thy ===== *)
theory Prompts
  imports World LlmJson
begin

text \<open>
  What the text services share: formatting a value into a prompt (\<open>fmt\<close> verbs), asking the
  model, and reading its answer. How a text parses as JSON is an argument (\<open>parse\<close>); the
  decoders are those of \<open>Json\<close>. \<open>%q\<close> is exact on ASCII and leaves other runes as they are.
\<close>

section \<open>Formatting\<close>

abbreviation newline :: string where "newline \<equiv> [CHR 0x0A]"

definition hex_lower :: "nat \<Rightarrow> char" where
  "hex_lower d = (if d < 10 then char_of (48 + d) else char_of (87 + d))"

definition quote_char :: "char \<Rightarrow> string" where
  "quote_char c = (let n = of_char c :: nat in
     if c = quote \<or> c = backslash then [backslash, c]
     else if n = 7 then [backslash, CHR ''a''] else if n = 8 then [backslash, CHR ''b'']
     else if n = 9 then [backslash, CHR ''t''] else if n = 10 then [backslash, CHR ''n'']
     else if n = 11 then [backslash, CHR ''v''] else if n = 12 then [backslash, CHR ''f'']
     else if n = 13 then [backslash, CHR ''r'']
     else if n < 32 \<or> n = 127 then [backslash, CHR ''x'', hex_lower (n div 16), hex_lower (n mod 16)]
     else [c])"

text \<open>\<open>%q\<close> of a string, \<open>%v\<close> of a slice of strings or of integers, and of a boolean.\<close>

definition Quote :: "string \<Rightarrow> string" where
  "Quote s = [quote] @ concat (map quote_char s) @ [quote]"

definition show_strings :: "string list \<Rightarrow> string" where
  "show_strings xs = ''['' @ Join xs '' '' @ '']''"

definition show_ints :: "int list \<Rightarrow> string" where
  "show_ints ns = show_strings (map FormatInt ns)"

definition show_bool :: "bool \<Rightarrow> string" where
  "show_bool b = (if b then ''true'' else ''false'')"

section \<open>Asking the model\<close>

definition ask :: "ctx \<Rightarrow> string \<Rightarrow> string \<Rightarrow> string \<Rightarrow> int \<Rightarrow> (string, 't world) op" where
  "ask c systemPrompt prompt temperature maxTokens = llm_complete c
     \<lparr>cr_SystemPrompt = systemPrompt, cr_UserPrompt = prompt, cr_Temperature = temperature, cr_MaxTokens = maxTokens\<rparr>"

text \<open>\<open>llm.ExtractJSON(text, &target)\<close> for a target that starts at its zero value.\<close>

definition extracted :: "(string \<Rightarrow> blob) \<Rightarrow> (json \<Rightarrow> 'a res) \<Rightarrow> string \<Rightarrow> 'a option" where
  "extracted parse d text =
     ExtractJSON (\<lambda>s. case unmarshal d (parse s) of Inl e \<Rightarrow> None | Inr x \<Rightarrow> Some x) text"

lemma extracted_Some:
  assumes "extracted parse d text = Some x"
  shows "\<exists>j. d j = Inr x"
proof -
  have unm: "(case unmarshal d b of Inl e \<Rightarrow> None | Inr x \<Rightarrow> Some x) = Some x \<Longrightarrow> \<exists>j. d j = Inr x" for b
    by (cases b) (auto split: sum.splits)
  from assms show ?thesis
    by (auto simp: extracted_def ExtractJSON_def Let_def dest: unm split: option.splits if_splits)
qed

text \<open>The answer to a question is all an operation of these services takes from the world.\<close>

definition same_state :: "'t world \<Rightarrow> 't world \<Rightarrow> bool" where
  "same_state v w \<longleftrightarrow> db v = db w \<and> mgr v = mgr w \<and> llm v = llm w \<and> loose v = loose w"

lemma same_state_refl [simp]: "same_state w w"
  by (simp add: same_state_def)

lemma same_state_trans: "same_state u v \<Longrightarrow> same_state v w \<Longrightarrow> same_state u w"
  by (simp add: same_state_def)

lemma same_state_ask: "same_state (snd (ask c s p t m w)) w"
  by (simp add: ask_def llm_complete_def same_state_def)

text \<open>An operation that only asks the model.\<close>

definition only_asks :: "('a, 't world) op \<Rightarrow> bool" where
  "only_asks m \<longleftrightarrow> (\<forall>w. same_state (snd (m w)) w)"

named_theorems asks_intro

lemma only_asks_ask [asks_intro]: "only_asks (ask c s p t m)"
  by (simp add: only_asks_def same_state_ask)

lemma only_asks_ret [asks_intro]: "only_asks (ret x)"
  by (simp add: only_asks_def)

lemma only_asks_fail [asks_intro]: "only_asks (fail e)"
  by (simp add: only_asks_def)

lemma only_asks_liftE [asks_intro]: "only_asks (liftE r)"
  by (simp add: only_asks_def)

lemma only_asks_decoding [asks_intro]: "only_asks (decoding what d raw)"
  by (simp add: decoding_def only_asks_liftE)

lemma only_asks_wrapping [asks_intro]: "only_asks m \<Longrightarrow> only_asks (wrapping p m)"
  by (simp add: only_asks_def)

lemma only_asks_andThen [asks_intro]:
  "only_asks m \<Longrightarrow> (\<And>x. only_asks (f x)) \<Longrightarrow> only_asks (andThen m f)"
  unfolding only_asks_def snd_andThen
  by (auto intro: same_state_trans split: sum.split)

lemma only_asks_if [asks_intro]: "only_asks m \<Longrightarrow> only_asks n \<Longrightarrow> only_asks (if b then m else n)"
  by simp

lemma only_asks_option [asks_intro]:
  "only_asks m \<Longrightarrow> (\<And>x. only_asks (f x)) \<Longrightarrow> only_asks (case y of None \<Rightarrow> m | Some x \<Rightarrow> f x)"
  by (cases y) auto

text \<open>
  Trying the model: a failed call and an answer that does not decode are the same to the
  caller, which then falls back to a value of its own.
\<close>

definition try_ask ::
    "(string \<Rightarrow> blob) \<Rightarrow> (json \<Rightarrow> 'a res) \<Rightarrow> ctx \<Rightarrow> string \<Rightarrow> string \<Rightarrow> string \<Rightarrow> int \<Rightarrow> ('a option, 't world) op" where
  "try_ask parse d c systemPrompt prompt temperature maxTokens = (\<lambda>w.
     case ask c systemPrompt prompt temperature maxTokens w of
       (Inl e, w1) \<Rightarrow> (Inr None, w1)
     | (Inr text, w1) \<Rightarrow> (Inr (extracted parse d text), w1))"

lemma only_asks_try [asks_intro]: "only_asks (try_ask parse d c s p t m :: (_, 't world) op)"
proof -
  have "snd (try_ask parse d c s p t m w) = snd (ask c s p t m w)" for w :: "'t world"
    by (simp add: try_ask_def split: prod.split sum.split)
  then show ?thesis by (simp add: only_asks_def same_state_ask)
qed

text \<open>It always returns; what it returns was decoded.\<close>

lemma try_ask_run: "\<exists>x w'. try_ask parse d c s p t m w = (Inr x, w') \<and> (\<forall>y. x = Some y \<longrightarrow> (\<exists>j. d j = Inr y))"
  by (auto simp: try_ask_def split: prod.splits sum.splits dest: extracted_Some)

end
