(* ===== verification/Feedback.thy ===== *)
theory Feedback
  imports Prompts Utf8
begin

text \<open>
  User feedback (\<open>internal/feedback/service.go\<close>): every operation decodes its request, asks the
  model once and reads a JSON value from the answer, with a fallback of its own. A slice that
  can be nil is an option where the difference is visible in the answer.
\<close>

section \<open>Requests and responses\<close>

record LabelGroupFeedbacksContext =
  fc_Feedback :: string
  fc_Labels :: "string list"

record LabelGroupsRequest =
  lq_Labels :: "string list"
  lq_FeedbacksContext :: "LabelGroupFeedbacksContext list"

record LabelGroupEntry =
  lg_PrimaryLabel :: string
  lg_AssociatedLabels :: "string list option"

text \<open>The three requests about one message have the same fields; only the message is used.\<close>

definition dec_message :: "json \<Rightarrow> string res" where
  "dec_message = dec_struct (\<lambda>ms.
     bindE (field ''organization_id'' dec_int64 0 ms) (\<lambda>org. field ''feedback_message'' dec_string [] ms))"

definition dec_context :: "json \<Rightarrow> LabelGroupFeedbacksContext res" where
  "dec_context = dec_struct (\<lambda>ms.
     bindE (field ''feedback'' dec_string [] ms) (\<lambda>f.
     bindE (field ''labels'' (dec_array dec_string []) [] ms) (\<lambda>ls.
       Inr \<lparr>fc_Feedback = f, fc_Labels = ls\<rparr>)))"

definition dec_LabelGroupsRequest :: "json \<Rightarrow> LabelGroupsRequest res" where
  "dec_LabelGroupsRequest = dec_struct (\<lambda>ms.
     bindE (field ''labels'' (dec_array dec_string []) [] ms) (\<lambda>ls.
     bindE (field ''feedbacks_context'' (dec_array dec_context \<lparr>fc_Feedback = [], fc_Labels = []\<rparr>) [] ms) (\<lambda>cs.
       Inr \<lparr>lq_Labels = ls, lq_FeedbacksContext = cs\<rparr>)))"

definition dec_SummarizeRequest :: "json \<Rightarrow> string list res" where
  "dec_SummarizeRequest = dec_struct (field ''feedbacks'' (dec_array dec_string []) [])"

definition dec_spam :: "json \<Rightarrow> bool option res" where
  "dec_spam = dec_struct (field ''is_spam'' (dec_ptr dec_bool) None)"

definition dec_labels :: "json \<Rightarrow> string list res" where
  "dec_labels = dec_struct (field ''labels'' (dec_array dec_string []) [])"

definition dec_title :: "json \<Rightarrow> string res" where
  "dec_title = dec_struct (field ''title'' dec_string [])"

definition dec_data :: "json \<Rightarrow> string res" where
  "dec_data = dec_struct (field ''data'' dec_string [])"

definition dec_group :: "json \<Rightarrow> LabelGroupEntry res" where
  "dec_group = dec_struct (\<lambda>ms.
     bindE (field ''primaryLabel'' dec_string [] ms) (\<lambda>p.
     bindE (field ''associatedLabels'' (dec_ptr (dec_array dec_string [])) None ms) (\<lambda>ls.
       Inr \<lparr>lg_PrimaryLabel = p, lg_AssociatedLabels = ls\<rparr>)))"

text \<open>\<open>null\<close> decodes to the nil slice.\<close>

definition dec_groups :: "json \<Rightarrow> LabelGroupEntry list res" where
  "dec_groups j = (if j = JNull then Inr []
     else dec_array dec_group \<lparr>lg_PrimaryLabel = [], lg_AssociatedLabels = None\<rparr> j)"

section \<open>Titles\<close>

definition first_runes :: "nat \<Rightarrow> string \<Rightarrow> string" where
  "first_runes n s = (if n < length (runes s) then concat (take n (runes s)) else s)"

definition truncateTitle :: "string \<Rightarrow> string" where
  "truncateTitle title = first_runes 60 (TrimSpace title)"

fun first_line_title :: "string list \<Rightarrow> string" where
  "first_line_title [] = ''User feedback''"
| "first_line_title (line # rest) =
     (if TrimSpace line = [] then first_line_title rest else first_runes 60 (TrimSpace line))"

definition DeriveFeedbackTitle :: "string \<Rightarrow> string" where
  "DeriveFeedbackTitle msg = first_line_title (split_on CHR 0x0A msg)"

section \<open>Operations\<close>

definition json_object_reply :: "string \<Rightarrow> string \<Rightarrow> string \<Rightarrow> string" where
  "json_object_reply role shape post =
     role @ '' Reply with exactly one JSON '' @ shape @ ''. '' @ post @ ''No other text.''"

abbreviation quoted :: "string \<Rightarrow> string" where "quoted s \<equiv> [quote] @ s @ [quote]"

definition spam_prompt :: string where
  "spam_prompt = json_object_reply ''You are a spam classifier.''
     (''object: {'' @ quoted ''is_spam'' @ '': <true or false>}'') []"

definition labels_prompt :: string where
  "labels_prompt = json_object_reply ''You are a feedback classifier.''
     (''object: {'' @ quoted ''labels'' @ '': ['' @ quoted ''<short lowercase category>'' @ '', ...]}'')
     ''Use short lowercase category names. ''"

definition title_prompt :: string where
  "title_prompt = ''You are a title generator. Reply with exactly one JSON object: {'' @ quoted ''title'' @
     '': '' @ quoted ''<short descriptive title>'' @ ''}. No other text. The title must be under 60 characters.''"

definition groups_prompt :: string where
  "groups_prompt = json_object_reply ''You are a label grouper.''
     (''array of objects, each with '' @ quoted ''primaryLabel'' @ '' (string) and '' @
      quoted ''associatedLabels'' @ '' (array of strings)'') []"

definition summary_prompt :: string where
  "summary_prompt = json_object_reply ''You summarize user feedback.''
     (''object: {'' @ quoted ''data'' @ '': '' @ quoted ''<summary of the feedback>'' @ ''}'') []"

definition SpamDetection :: "(string \<Rightarrow> blob) \<Rightarrow> ctx \<Rightarrow> blob \<Rightarrow> (bool, 't world) op" where
  "SpamDetection parse c raw =
     andThen (decoding ''decode spam detection request'' dec_message raw) (\<lambda>message.
     andThen (wrapping ''spam detection LLM call'' (ask c spam_prompt
         (''Is the following user feedback spam?'' @ newline @ newline @ message) ''0'' 64)) (\<lambda>text.
       ret (case extracted parse dec_spam text of Some (Some b) \<Rightarrow> b | _ \<Rightarrow> False)))"

definition Labels :: "(string \<Rightarrow> blob) \<Rightarrow> ctx \<Rightarrow> blob \<Rightarrow> (string list, 't world) op" where
  "Labels parse c raw =
     andThen (decoding ''decode label generation request'' dec_message raw) (\<lambda>message.
     andThen (wrapping ''label generation LLM call'' (ask c labels_prompt
         (''Classify this user feedback into categories:'' @ newline @ newline @ message) ''0.1'' 256)) (\<lambda>text.
       ret (case extracted parse dec_labels text of Some labels \<Rightarrow> labels | None \<Rightarrow> [])))"

definition Title :: "(string \<Rightarrow> blob) \<Rightarrow> ctx \<Rightarrow> blob \<Rightarrow> (string, 't world) op" where
  "Title parse c raw =
     andThen (decoding ''decode title generation request'' dec_message raw) (\<lambda>message.
     andThen (try_ask parse dec_title c title_prompt
         (''Generate a short title for this user feedback:'' @ newline @ newline @ message) ''0.1'' 64) (\<lambda>answer.
       ret (case answer of
           Some title \<Rightarrow> if TrimSpace title \<noteq> [] then truncateTitle title else DeriveFeedbackTitle message
         | None \<Rightarrow> DeriveFeedbackTitle message)))"

definition context_line :: "LabelGroupFeedbacksContext \<Rightarrow> string" where
  "context_line fc = ''- Feedback: '' @ Quote (fc_Feedback fc) @ '' (labels: '' @ show_strings (fc_Labels fc) @ '')''"

definition groups_question :: "LabelGroupsRequest \<Rightarrow> string" where
  "groups_question req = ''Group these labels with related associated labels:'' @
     (if lq_FeedbacksContext req = [] then []
      else newline @ newline @ ''Feedback context:'' @ newline @
        Join (map context_line (lq_FeedbacksContext req)) newline) @
     newline @ newline @ ''Labels: '' @ show_strings (lq_Labels req)"

definition filled :: "LabelGroupEntry \<Rightarrow> LabelGroupEntry" where
  "filled g = (if lg_AssociatedLabels g = None then g\<lparr>lg_AssociatedLabels := Some []\<rparr> else g)"

definition LabelGroups :: "(string \<Rightarrow> blob) \<Rightarrow> ctx \<Rightarrow> blob \<Rightarrow> (LabelGroupEntry list, 't world) op" where
  "LabelGroups parse c raw =
     andThen (decoding ''decode label groups request'' dec_LabelGroupsRequest raw) (\<lambda>req.
     andThen (wrapping ''label groups LLM call'' (ask c groups_prompt (groups_question req) ''0.1'' 512)) (\<lambda>text.
       ret (let groups = (case extracted parse dec_groups text of Some gs \<Rightarrow> gs | None \<Rightarrow> []) in
         if groups \<noteq> [] then map filled groups
         else map (\<lambda>label. \<lparr>lg_PrimaryLabel = label, lg_AssociatedLabels = Some []\<rparr>) (lq_Labels req))))"

definition numbered :: "string list \<Rightarrow> string list" where
  "numbered fs = map (\<lambda>(i, f). FormatInt (int i) @ ''. '' @ f) (zip [1..<Suc (length fs)] fs)"

definition Summarize :: "(string \<Rightarrow> blob) \<Rightarrow> ctx \<Rightarrow> blob \<Rightarrow> (string, 't world) op" where
  "Summarize parse c raw =
     andThen (decoding ''decode summarize feedback request'' dec_SummarizeRequest raw) (\<lambda>feedbacks.
     andThen (wrapping ''summarize feedback LLM call'' (ask c summary_prompt
         (''Summarize these user feedbacks:'' @ newline @ newline @
          (if feedbacks = [] then ''(no feedbacks provided)'' else Join (numbered feedbacks) newline)) ''0.1'' 512)) (\<lambda>text.
       ret (case extracted parse dec_data text of
           Some summary \<Rightarrow> if TrimSpace summary \<noteq> [] then summary
             else ''Compatibility summary of '' @ FormatInt (int (length feedbacks)) @ '' user feedback items.''
         | None \<Rightarrow> ''Compatibility summary of '' @ FormatInt (int (length feedbacks)) @ '' user feedback items.'')))"

section \<open>What the operations answer\<close>

text \<open>None of them changes anything.\<close>

lemma feedback_only_asks:
  "only_asks (SpamDetection parse c raw)" "only_asks (Labels parse c raw)" "only_asks (Title parse c raw)"
  "only_asks (LabelGroups parse c raw)" "only_asks (Summarize parse c raw)"
  unfolding SpamDetection_def Labels_def Title_def LabelGroups_def Summarize_def
  by (intro asks_intro)+

definition short_title :: "string \<Rightarrow> bool" where
  "short_title t \<longleftrightarrow> TrimSpace t \<noteq> [] \<and> length (runes t) \<le> 60"

lemma short_first_runes: "TrimSpace s \<noteq> [] \<Longrightarrow> short_title (first_runes 60 (TrimSpace s))"
  using first_runes_nonblank [of s 60] by (simp add: short_title_def first_runes_def runes_take)

lemma short_derived: "short_title (DeriveFeedbackTitle msg)"
proof -
  have "short_title ''User feedback''" by code_simp
  then have "short_title (first_line_title ls)" for ls
    by (induction ls) (simp_all add: short_first_runes)
  then show ?thesis by (simp add: DeriveFeedbackTitle_def)
qed

text \<open>The heuristic title is the first line that is not blank.\<close>

lemma DeriveFeedbackTitle_line:
  assumes "split_on CHR 0x0A msg = blanks @ line # rest" and "\<forall>b \<in> set blanks. TrimSpace b = []"
    and "TrimSpace line \<noteq> []"
  shows "DeriveFeedbackTitle msg = first_runes 60 (TrimSpace line)"
proof -
  have "\<forall>b \<in> set bs. TrimSpace b = [] \<Longrightarrow> first_line_title (bs @ line # rest) = first_runes 60 (TrimSpace line)" for bs
    using assms(3) by (induction bs) auto
  with assms show ?thesis by (simp add: DeriveFeedbackTitle_def)
qed

text \<open>Whatever the model does (it fails, answers prose, a blank or an endless title), \<open>Title\<close>
  answers a readable request with a title that is not blank and has at most 60 runes.\<close>

theorem title_is_short:
  assumes "unmarshal dec_message raw = Inr message"
  shows "\<exists>t w'. Title parse c raw w = (Inr t, w') \<and> short_title t \<and>
    (fst (ask c title_prompt (''Generate a short title for this user feedback:'' @ newline @ newline @ message) ''0.1'' 64 w)
       = Inl e \<longrightarrow> t = DeriveFeedbackTitle message)"
proof -
  let ?asking = "try_ask parse dec_title c title_prompt
    (''Generate a short title for this user feedback:'' @ newline @ newline @ message) ''0.1'' 64"
  obtain x w' where run: "?asking w = (Inr x, w')" using try_ask_run [of parse dec_title] by blast
  then have "Title parse c raw w = (Inr (case x of
      Some title \<Rightarrow> if TrimSpace title \<noteq> [] then truncateTitle title else DeriveFeedbackTitle message
    | None \<Rightarrow> DeriveFeedbackTitle message), w')"
    using assms by (simp add: Title_def decoding_def andThen_def)
  moreover have "fst (ask c title_prompt (''Generate a short title for this user feedback:'' @ newline @ newline @ message)
      ''0.1'' 64 w) = Inl e \<Longrightarrow> x = None"
    using run by (auto simp: try_ask_def split: prod.splits sum.splits)
  ultimately show ?thesis
    by (auto simp: truncateTitle_def short_first_runes short_derived split: option.split)
qed

definition feedback_body :: blob where
  "feedback_body = Doc (JObj [(''organization_id'', JNum 1), (''feedback_message'', JStr (newline @ ''  it crashes  '' @ newline))])"

theorem title_is_short_witness:
  "\<exists>t w'. Title (\<lambda>s. Garbage s) (Some canceled) feedback_body (start_world no_fault (answering ''x'') :: unit world) = (Inr t, w') \<and>
     t = ''it crashes'' \<and> short_title t"
proof -
  let ?m = "newline @ ''  it crashes  '' @ newline" and ?w = "start_world no_fault (answering ''x'') :: unit world"
  have d: "unmarshal dec_message feedback_body = Inr ?m" by code_simp
  have e: "fst (ask (Some canceled) title_prompt (''Generate a short title for this user feedback:'' @ newline @ newline @ ?m)
      ''0.1'' 64 ?w) = Inl (wrap ''request failed'' canceled)"
    by (simp add: ask_def llm_complete_def start_world_def answering_def)
  have "DeriveFeedbackTitle ?m = ''it crashes''" by code_simp
  with title_is_short [OF d, of "\<lambda>s. Garbage s" "Some canceled" ?w] e show ?thesis by fastforce
qed

text \<open>A label grouping answers with entries whose lists are all there, whatever the model said.\<close>

lemma LabelGroups_filled:
  "LabelGroups parse c raw w = (Inr gs, w') \<Longrightarrow> g \<in> set gs \<Longrightarrow> lg_AssociatedLabels g \<noteq> None"
  by (auto simp: LabelGroups_def andThen_eq_Inr Let_def filled_def split: if_splits)

text \<open>Without a usable answer every label of the request is a group of its own.\<close>

lemma LabelGroups_fallback:
  assumes "unmarshal dec_LabelGroupsRequest raw = Inr req"
    and "ask c groups_prompt (groups_question req) ''0.1'' 512 w = (Inr text, w')"
    and "extracted parse dec_groups text = None"
  shows "LabelGroups parse c raw w =
    (Inr (map (\<lambda>label. \<lparr>lg_PrimaryLabel = label, lg_AssociatedLabels = Some []\<rparr>) (lq_Labels req)), w')"
  using assms by (simp add: LabelGroups_def decoding_def andThen_def wrapping_def)

end
