(* ===== verification/Float64.thy ===== *)
theory Float64
  imports Json "HOL-Library.Log_Nat"
begin

text \<open>
  IEEE 754 binary64 as the scoring code uses it: a finite \<open>float64\<close> is the rational it denotes,
  an arithmetic operation rounds the exact result to the nearest representable number, ties to
  even (\<open>rounded\<close>), and a JSON number decodes to its value rounded (\<open>dec_float64\<close>), or to an
  error beyond the largest number. The sign of zero is not kept.
\<close>

section \<open>Rounding\<close>

definition half_even :: "rat \<Rightarrow> int" where
  "half_even x = (let n = \<lfloor>x\<rfloor>; d = x - of_int n in
     if d < 1 / 2 then n else if d > 1 / 2 then n + 1 else if even n then n else n + 1)"

text \<open>\<open>2^k\<close> for an integer \<open>k\<close>.\<close>

definition two_to :: "int \<Rightarrow> rat" where
  "two_to k = (if 0 \<le> k then 2 ^ nat k else 1 / 2 ^ nat (- k))"

text \<open>The exponent of the binade of a positive number: \<open>2^e \<le> x < 2^(e+1)\<close>.\<close>

definition binade :: "rat \<Rightarrow> int" where
  "binade x = (case quotient_of x of (a, b) \<Rightarrow>
     let e = bitlen a - bitlen b in if two_to e \<le> x then e else e - 1)"

text \<open>The exponent of the last place: 53 significant bits, and no less than \<open>2^-1074\<close>.\<close>

definition last_place :: "rat \<Rightarrow> int" where
  "last_place x = max (binade \<bar>x\<bar> - 52) (- 1074)"

definition rounded :: "rat \<Rightarrow> rat" where
  "rounded x = (if x = 0 then 0 else of_int (half_even (x / two_to (last_place x))) * two_to (last_place x))"

definition max_float :: rat where
  "max_float = (2 ^ 53 - 1) * two_to 971"

definition fadd :: "rat \<Rightarrow> rat \<Rightarrow> rat" where "fadd x y = rounded (x + y)"
definition fsub :: "rat \<Rightarrow> rat \<Rightarrow> rat" where "fsub x y = rounded (x - y)"
definition fmul :: "rat \<Rightarrow> rat \<Rightarrow> rat" where "fmul x y = rounded (x * y)"
definition fdiv :: "rat \<Rightarrow> rat \<Rightarrow> rat" where "fdiv x y = rounded (x / y)"

text \<open>\<open>math.Round\<close>: half away from zero.\<close>

definition math_Round :: "rat \<Rightarrow> int" where
  "math_Round x = (if 0 \<le> x then \<lfloor>x + 1 / 2\<rfloor> else - \<lfloor>- x + 1 / 2\<rfloor>)"

section \<open>Reading numbers\<close>

text \<open>A JSON number with a fraction or an exponent: sign, digits, fraction, exponent.\<close>

definition split_sign :: "string \<Rightarrow> bool \<times> string" where
  "split_sign s = (case s of c # cs \<Rightarrow> if c = CHR ''-'' then (True, cs) else if c = CHR ''+'' then (False, cs) else (False, s)
     | [] \<Rightarrow> (False, []))"

definition is_digit :: "char \<Rightarrow> bool" where
  "is_digit c \<longleftrightarrow> digit_val c \<noteq> None"

definition exponent_part :: "string \<Rightarrow> int option" where
  "exponent_part s = (case s of [] \<Rightarrow> Some 0
     | c # cs \<Rightarrow> if c = CHR ''e'' \<or> c = CHR ''E''
         then (case split_sign cs of (neg, ds) \<Rightarrow> map_option (\<lambda>n. if neg then - int n else int n) (parse_nat ds))
         else None)"

definition ten_to :: "int \<Rightarrow> rat" where
  "ten_to k = (if 0 \<le> k then 10 ^ nat k else 1 / 10 ^ nat (- k))"

definition decimal :: "string \<Rightarrow> rat option" where
  "decimal s = (case split_sign s of (neg, body) \<Rightarrow>
     let whole = takeWhile is_digit body; rest = dropWhile is_digit body;
         frac = (case rest of c # cs \<Rightarrow> if c = CHR ''.'' then takeWhile is_digit cs else [] | [] \<Rightarrow> []);
         tail = (case rest of c # cs \<Rightarrow> if c = CHR ''.'' then dropWhile is_digit cs else rest | [] \<Rightarrow> [])
     in case (parse_nat (whole @ frac), exponent_part tail) of
          (Some n, Some e) \<Rightarrow> Some ((if neg then - 1 else 1) * of_nat n * ten_to (e - int (length frac)))
        | _ \<Rightarrow> None)"

definition finite_float :: "rat \<Rightarrow> rat res" where
  "finite_float x = (if \<bar>rounded x\<bar> \<le> max_float then Inr (rounded x) else Inl dec_err)"

fun dec_float64 :: "json \<Rightarrow> rat res" where
  "dec_float64 (JNum n) = finite_float (of_int n)"
| "dec_float64 (JDec s) = (case decimal s of None \<Rightarrow> Inl dec_err | Some x \<Rightarrow> finite_float x)"
| "dec_float64 _ = Inl dec_err"

section \<open>Bounds\<close>

lemma half_even_le: "x \<le> of_int n \<Longrightarrow> half_even x \<le> n"
proof -
  assume le: "x \<le> of_int n"
  then have f: "\<lfloor>x\<rfloor> \<le> n" by (simp add: floor_le_iff)
  show ?thesis
  proof (cases "\<lfloor>x\<rfloor> = n")
    case True
    with le have "x - of_int \<lfloor>x\<rfloor> \<le> 0" by simp
    with True show ?thesis by (simp add: half_even_def Let_def)
  next
    case False
    with f show ?thesis by (simp add: half_even_def Let_def)
  qed
qed

lemma half_even_nonneg: "0 \<le> x \<Longrightarrow> 0 \<le> half_even x"
  by (simp add: half_even_def Let_def)

lemma two_to_pos [simp]: "0 < two_to k"
  by (simp add: two_to_def)

lemma rounded_nonneg: "0 \<le> x \<Longrightarrow> 0 \<le> rounded x"
  using two_to_pos [of "last_place x"] half_even_nonneg [of "x / two_to (last_place x)"]
  by (simp add: rounded_def less_imp_le)

lemma two_to_add: "two_to k * 2 = two_to (k + 1)"
proof (cases "0 \<le> k")
  case True
  then show ?thesis by (simp add: two_to_def nat_add_distrib)
next
  case False
  then have "nat (- k) = Suc (nat (- (k + 1)))" by linarith
  with False show ?thesis by (auto simp: two_to_def)
qed

lemma two_to_mono: "j \<le> k \<Longrightarrow> two_to j \<le> two_to k"
proof (induction k rule: int_ge_induct)
  case (step k)
  have "two_to k \<le> two_to k * 2" using two_to_pos [of k] by simp
  with step show ?case by (simp add: two_to_add)
qed simp

text \<open>A number below \<open>2^53\<close> has its last place at or below one, so rounding does not pass an integer.\<close>

lemma two_to_diff: "0 \<le> j \<Longrightarrow> 0 \<le> k \<Longrightarrow> two_to (j - k) = 2 ^ nat j / 2 ^ nat k"
proof -
  assume "0 \<le> j" "0 \<le> k"
  then obtain m n where mn: "j = int m" "k = int n" by (metis nat_0_le)
  show ?thesis
  proof (cases "n \<le> m")
    case True
    then have "nat (int m - int n) = m - n" by simp
    with True mn show ?thesis by (simp add: two_to_def power_diff)
  next
    case False
    then have "nat (- (int m - int n)) = n - m" by simp
    with False mn show ?thesis by (simp add: two_to_def power_diff)
  qed
qed

lemma two_to_binade: "0 < x \<Longrightarrow> two_to (binade x) \<le> x"
proof -
  assume x: "0 < x"
  obtain a b where q: "quotient_of x = (a, b)" by (cases "quotient_of x")
  then have ab: "x = of_int a / of_int b" "0 < b" using quotient_of_div quotient_of_denom_pos by auto
  with x have a: "0 < a" by (simp add: zero_less_divide_iff)
  let ?e = "bitlen a - bitlen b"
  have "2 ^ nat (bitlen a - 1) \<le> a" "b < 2 ^ nat (bitlen b)"
    using bitlen_bounds [OF a] bitlen_bounds [OF ab(2)] by auto
  then have "(2 :: rat) ^ nat (bitlen a - 1) \<le> of_int a" "of_int b \<le> (2 :: rat) ^ nat (bitlen b)"
    by (metis of_int_le_iff of_int_numeral of_int_power, metis less_imp_le of_int_le_iff of_int_numeral of_int_power)
  then have "2 ^ nat (bitlen a - 1) / 2 ^ nat (bitlen b) \<le> x"
    unfolding ab(1) using ab(2) a by (intro frac_le) auto
  moreover have "0 \<le> bitlen a - 1" "0 \<le> bitlen b" using a bitlen_nonneg bitlen_le_iff_power [of a 0] by (auto simp: int_one_le_iff_zero_less)
  ultimately have "two_to (?e - 1) \<le> x" using two_to_diff [of "bitlen a - 1" "bitlen b"] by (simp add: algebra_simps)
  then show ?thesis by (simp add: binade_def q Let_def)
qed

lemma last_place_small:
  assumes "0 \<le> x" and "x < 2 ^ 53" and "x \<noteq> 0"
  shows "last_place x \<le> 0"
proof -
  have "binade x \<le> 52"
  proof (rule ccontr)
    assume "\<not> binade x \<le> 52"
    then have "two_to 53 \<le> two_to (binade x)" by (intro two_to_mono) simp
    also have "\<dots> \<le> x" using assms by (intro two_to_binade) simp
    finally show False using assms(2) by (simp add: two_to_def)
  qed
  with assms show ?thesis by (simp add: last_place_def)
qed

lemma unit_scale:
  assumes "k \<le> 0" shows "\<exists>m. of_int n / two_to k = (of_int m :: rat)"
proof (cases "0 \<le> k")
  case True
  with assms show ?thesis by (intro exI [of _ n]) (simp add: two_to_def)
next
  case False
  then show ?thesis by (intro exI [of _ "n * 2 ^ nat (- k)"]) (simp add: two_to_def)
qed

lemma rounded_le_int:
  assumes "0 \<le> x" and "x \<le> of_int n" and "n < 2 ^ 53" and "0 \<le> n"
  shows "rounded x \<le> of_int n"
proof (cases "x = 0")
  case False
  have "(of_int n :: rat) < 2 ^ 53" using assms(3) by (metis of_int_less_iff of_int_numeral of_int_power)
  with assms(1,2) False have last: "last_place x \<le> 0" by (intro last_place_small) auto
  let ?t = "two_to (last_place x)"
  obtain m where m: "of_int n / ?t = of_int m" using unit_scale [OF last, of n] by blast
  have "x / ?t \<le> of_int m" using assms(2) two_to_pos [of "last_place x"] by (simp flip: m add: divide_right_mono less_imp_le)
  then have "of_int (half_even (x / ?t)) \<le> (of_int m :: rat)" using half_even_le by simp
  then have "of_int (half_even (x / ?t)) * ?t \<le> of_int m * ?t"
    using two_to_pos [of "last_place x"] by (simp add: mult_right_mono less_imp_le)
  also have "of_int m * ?t = of_int n" using m two_to_pos [of "last_place x"] by (simp add: field_simps)
  finally show ?thesis using False by (simp add: rounded_def)
qed (use assms(4) in \<open>simp add: rounded_def\<close>)

end
