(* ===== verification/Replay.thy ===== *)
theory Replay
  imports Prompts Float64
begin

text \<open>
  Replay summaries (\<open>internal/replay/service.go\<close>): \<open>Start\<close> records a row, asks the model and
  records the finished row; \<open>State\<close> reads it back; \<open>Delete\<close> removes rows. Rows are keyed by the
  replay alone. \<open>json.Unmarshal\<close> into the stored answer ignores its error: what decodes is kept.
\<close>

section \<open>Data\<close>

record StartRequest =
  sr_ReplayID :: string
  sr_NumSegments :: int
  sr_OrganizationID :: int
  sr_ProjectID :: int

record DeleteRequest =
  dq_ReplayIDs :: "string list"
  dq_OrganizationID :: int
  dq_ProjectID :: int

record ResponseData =
  rd_Summary :: string
  rd_TimeRanges :: "json list"

record replayResponse =
  rp_CreatedAt :: string
  rp_Status :: string
  rp_NumSegments :: "int option"
  rp_Data :: "ResponseData option"

text \<open>\<open>replay_start\<close>, \<open>replay_end\<close> and \<open>temperature\<close> are decoded and not used.\<close>

definition dec_StartRequest :: "json \<Rightarrow> StartRequest res" where
  "dec_StartRequest = dec_struct (\<lambda>ms.
     bindE (field ''replay_id'' dec_string [] ms) (\<lambda>i.
     bindE (field ''replay_start'' (dec_ptr dec_string) None ms) (\<lambda>replay_start.
     bindE (field ''replay_end'' (dec_ptr dec_string) None ms) (\<lambda>replay_end.
     bindE (field ''num_segments'' dec_int64 0 ms) (\<lambda>n.
     bindE (field ''organization_id'' dec_int64 0 ms) (\<lambda>org.
     bindE (field ''project_id'' dec_int64 0 ms) (\<lambda>p.
     bindE (field ''temperature'' (dec_ptr dec_float64) None ms) (\<lambda>t.
       Inr \<lparr>sr_ReplayID = i, sr_NumSegments = n, sr_OrganizationID = org, sr_ProjectID = p\<rparr>))))))))"

text \<open>Of a state request only the replay is used.\<close>

definition dec_StateRequest :: "json \<Rightarrow> string res" where
  "dec_StateRequest = dec_struct (\<lambda>ms.
     bindE (field ''replay_id'' dec_string [] ms) (\<lambda>i.
     bindE (field ''organization_id'' dec_int64 0 ms) (\<lambda>org.
     bindE (field ''project_id'' dec_int64 0 ms) (\<lambda>p. Inr i))))"

definition dec_DeleteRequest :: "json \<Rightarrow> DeleteRequest res" where
  "dec_DeleteRequest = dec_struct (\<lambda>ms.
     bindE (field ''replay_ids'' (dec_array dec_string []) [] ms) (\<lambda>ids.
     bindE (field ''organization_id'' dec_int64 0 ms) (\<lambda>org.
     bindE (field ''project_id'' dec_int64 0 ms) (\<lambda>p.
       Inr \<lparr>dq_ReplayIDs = ids, dq_OrganizationID = org, dq_ProjectID = p\<rparr>))))"

definition dec_summary :: "json \<Rightarrow> string res" where
  "dec_summary = dec_struct (field ''summary'' dec_string [])"

definition enc_ResponseData :: "ResponseData \<Rightarrow> json" where
  "enc_ResponseData d = JObj [(''summary'', JStr (rd_Summary d)), (''time_ranges'', JArr (rd_TimeRanges d))]"

definition enc_replayResponse :: "replayResponse \<Rightarrow> json" where
  "enc_replayResponse r = object [(''created_at'', Some (JStr (rp_CreatedAt r))), (''status'', Some (JStr (rp_Status r))),
     (''num_segments'', map_option JNum (rp_NumSegments r)), (''data'', map_option enc_ResponseData (rp_Data r))]"

fun any_array :: "json \<Rightarrow> json list res" where
  "any_array (JArr js) = Inr js"
| "any_array _ = Inl dec_err"

definition or_zero :: "'a \<Rightarrow> 'a res \<Rightarrow> 'a" where
  "or_zero z r = (case r of Inl e \<Rightarrow> z | Inr x \<Rightarrow> x)"

fun read_data :: "blob \<Rightarrow> ResponseData" where
  "read_data (Doc (JObj ms)) = \<lparr>rd_Summary = or_zero [] (field ''summary'' dec_string [] ms),
     rd_TimeRanges = or_zero [] (field ''time_ranges'' any_array [] ms)\<rparr>"
| "read_data _ = \<lparr>rd_Summary = [], rd_TimeRanges = []\<rparr>"

section \<open>Operations\<close>

definition utc_now :: "(string, 't world) op" where
  "utc_now = on_db None nowString"

definition replay_required :: goerr where
  "replay_required = errorf ''replay_id is required''"

definition breadcrumbSystemPrompt :: string where
  "breadcrumbSystemPrompt = ''You summarize session replay breadcrumbs. Reply with exactly one JSON object: {'' @
     [quote] @ ''summary'' @ [quote] @ '': '' @ [quote] @ ''<one or two sentences about what the breadcrumbs show>'' @
     [quote] @ ''}. No other text.''"

definition breadcrumb_prompt :: "StartRequest \<Rightarrow> string" where
  "breadcrumb_prompt req = ''Replay ID: '' @ sr_ReplayID req @ newline @ ''Number of segments: '' @
     FormatInt (sr_NumSegments req) @ newline @ newline @
     ''The raw breadcrumb segments were not provided, so no user actions can be described.'' @ newline @
     ''State what the available metadata covers and that the breadcrumb details were unavailable.''"

definition summary_row :: "StartRequest \<Rightarrow> string \<Rightarrow> string \<Rightarrow> string option \<Rightarrow> blob \<Rightarrow> ReplayBreadcrumbSummaryRecord" where
  "summary_row req status created completed summary =
     \<lparr>rb_ReplayID = sr_ReplayID req, rb_OrganizationID = Some (sr_OrganizationID req),
      rb_ProjectID = Some (sr_ProjectID req), rb_Status = status, rb_CreatedAt = created,
      rb_CompletedAt = completed, rb_SummaryJSON = summary\<rparr>"

definition replay_Start :: "(string \<Rightarrow> blob) \<Rightarrow> ctx \<Rightarrow> blob \<Rightarrow> (replayResponse, 't world) op" where
  "replay_Start parse c raw =
     andThen (decoding ''decode replay start request'' dec_StartRequest raw) (\<lambda>req.
     if sr_ReplayID req = [] then fail replay_required
     else andThen utc_now (\<lambda>created.
       andThen (wrapping ''upsert replay summary'' (on_db c (UpsertReplayBreadcrumbSummary
         (summary_row req ''processing'' created None Blank)))) (\<lambda>_.
       andThen (try_ask parse dec_summary c breadcrumbSystemPrompt (breadcrumb_prompt req) ''0.3'' 512) (\<lambda>answer.
       let summaryText = (case answer of None \<Rightarrow> ''Breadcrumbs summarized.''
             | Some s \<Rightarrow> if s \<noteq> [] then s else ''Breadcrumbs summarized.'');
           data = \<lparr>rd_Summary = summaryText, rd_TimeRanges = []\<rparr>
       in andThen utc_now (\<lambda>completedAt.
         andThen (wrapping ''upsert replay summary completed'' (on_db c (UpsertReplayBreadcrumbSummary
           (summary_row req ''completed'' created (Some completedAt) (marshal (enc_ResponseData data)))))) (\<lambda>_.
         ret \<lparr>rp_CreatedAt = created, rp_Status = ''completed'', rp_NumSegments = Some (sr_NumSegments req),
              rp_Data = Some data\<rparr>))))))"

definition replay_State :: "ctx \<Rightarrow> blob \<Rightarrow> (replayResponse, 't world) op" where
  "replay_State c raw =
     andThen (decoding ''decode replay state request'' dec_StateRequest raw) (\<lambda>replayID.
     if replayID = [] then fail replay_required
     else andThen (wrapping ''get replay summary'' (on_db c (GetReplayBreadcrumbSummary replayID))) (\<lambda>found. case found of
         None \<Rightarrow> andThen utc_now (\<lambda>now.
           ret \<lparr>rp_CreatedAt = now, rp_Status = ''not_started'', rp_NumSegments = None,
                rp_Data = Some \<lparr>rd_Summary = [], rd_TimeRanges = []\<rparr>\<rparr>)
       | Some rec \<Rightarrow> ret \<lparr>rp_CreatedAt = rb_CreatedAt rec, rp_Status = rb_Status rec, rp_NumSegments = None,
                rp_Data = Some (read_data (rb_SummaryJSON rec))\<rparr>))"

definition replay_Delete :: "ctx \<Rightarrow> blob \<Rightarrow> (bool, 't world) op" where
  "replay_Delete c raw =
     andThen (decoding ''decode replay delete request'' dec_DeleteRequest raw) (\<lambda>req.
     andThen (if dq_ReplayIDs req \<noteq> []
              then wrapping ''delete replay summaries'' (on_db c (DeleteReplayBreadcrumbSummaries (dq_ReplayIDs req)))
              else ret ()) (\<lambda>_. ret True))"

section \<open>The table\<close>

abbreviation replay_of :: "'t world \<Rightarrow> string \<Rightarrow> ReplayBreadcrumbSummaryRecord option" where
  "replay_of w \<equiv> replay_view (db w)"

lemma utc_now_w: "utc_now w = (r, w') \<Longrightarrow> replay_of w' = replay_of w \<and> mgr w' = mgr w"
  by (auto simp: utc_now_def on_db_alive nowString_def split: prod.splits)

lemma utc_now_returns: "\<exists>now w'. utc_now w = (Inr now, w')"
  by (simp add: utc_now_def on_db_alive nowString_def)

lemma try_ask_replay:
  "try_ask parse d c s p t m w = (r, w') \<Longrightarrow> replay_of w' = replay_of w \<and> mgr w' = mgr w"
  using only_asks_try [of parse d c s p t m] by (metis only_asks_def same_state_def snd_conv)

lemma read_back [simp]:
  "read_data (marshal (enc_ResponseData \<lparr>rd_Summary = s, rd_TimeRanges = js\<rparr>)) = \<lparr>rd_Summary = s, rd_TimeRanges = js\<rparr>"
  by (simp add: marshal_def enc_ResponseData_def or_zero_def field_eval)

lemma save_w:
  "wrapping p (on_db c (UpsertReplayBreadcrumbSummary r)) w = (Inr x, w') \<Longrightarrow>
   \<exists>ts. replay_of w' = (replay_of w)(rb_ReplayID r \<mapsto> merge_replay ts (replay_of w (rb_ReplayID r)) r)"
  by (simp add: wrapping_eq_Inr replay_w.save_ok)

lemma save_fails_w:
  assumes "wrapping p (on_db c (UpsertReplayBreadcrumbSummary r)) w = (Inl e, w')"
  shows "replay_of w' = replay_of w"
proof -
  from assms obtain e' where "on_db c (UpsertReplayBreadcrumbSummary r) w = (Inl e', w')"
    by (auto simp: wrapping_def split: prod.splits sum.splits)
  then show ?thesis by (rule all_or_nothingD [OF replay_w.save_err])
qed

lemma read_w:
  "wrapping p (on_db c (GetReplayBreadcrumbSummary k)) w = (Inr r, w') \<Longrightarrow> r = replay_of w k \<and> replay_of w' = replay_of w"
  by (simp add: wrapping_eq_Inr replay_w.lookup_ok)

text \<open>What a successful start leaves: the finished row under the replay, and nothing else.\<close>

lemma replay_Start_w:
  assumes "replay_Start parse c raw w = (Inr a, w')" and "unmarshal dec_StartRequest raw = Inr req"
  shows "\<exists>r. replay_of w' = (replay_of w)(sr_ReplayID req \<mapsto> r) \<and> rb_Status r = ''completed'' \<and>
    rp_Status a = ''completed'' \<and> rp_NumSegments a = Some (sr_NumSegments req) \<and>
    rp_Data a = Some (read_data (rb_SummaryJSON r)) \<and> sr_ReplayID req \<noteq> [] \<and>
    rb_CreatedAt r = (case replay_of w (sr_ReplayID req) of None \<Rightarrow> rp_CreatedAt a | Some r0 \<Rightarrow> rb_CreatedAt r0)"
proof -
  let ?q = "sr_ReplayID req"
  from assms have ne: "?q \<noteq> []" by (auto simp: replay_Start_def decoding_def andThen_def split: if_splits)
  with assms obtain created w1 w2 x1 w3 answer done_at w4 w5 x2 said where
    s1: "utc_now w = (Inr created, w1)" and
    s2: "wrapping ''upsert replay summary'' (on_db c (UpsertReplayBreadcrumbSummary
        (summary_row req ''processing'' created None Blank))) w1 = (Inr x1, w2)" and
    s3: "try_ask parse dec_summary c breadcrumbSystemPrompt (breadcrumb_prompt req) ''0.3'' 512 w2 = (Inr answer, w3)" and
    s4: "utc_now w3 = (Inr done_at, w4)" and
    s5: "wrapping ''upsert replay summary completed'' (on_db c (UpsertReplayBreadcrumbSummary
        (summary_row req ''completed'' created (Some done_at)
          (marshal (enc_ResponseData \<lparr>rd_Summary = said, rd_TimeRanges = []\<rparr>))))) w4 = (Inr x2, w')" and
    a: "a = \<lparr>rp_CreatedAt = created, rp_Status = ''completed'', rp_NumSegments = Some (sr_NumSegments req),
        rp_Data = Some \<lparr>rd_Summary = said, rd_TimeRanges = []\<rparr>\<rparr>"
    by (auto simp: replay_Start_def decoding_def andThen_eq_Inr Let_def)
  from save_w [OF s2] save_w [OF s5] obtain t1 t2 where
    "replay_of w2 = (replay_of w1)(?q \<mapsto> merge_replay t1 (replay_of w1 ?q) (summary_row req ''processing'' created None Blank))"
    "replay_of w' = (replay_of w4)(?q \<mapsto> merge_replay t2 (replay_of w4 ?q) (summary_row req ''completed'' created (Some done_at)
          (marshal (enc_ResponseData \<lparr>rd_Summary = said, rd_TimeRanges = []\<rparr>))))"
    by (auto simp: summary_row_def)
  with utc_now_w [OF s1] try_ask_replay [OF s3] utc_now_w [OF s4] ne a show ?thesis
    by (auto simp: merge_replay_def summary_row_def split: option.splits)
qed

text \<open>C17: what \<open>Start\<close> stored \<open>State\<close> answers, to every organization that names the replay: the
  organization and the project of the request are decoded and not compared. The summary is the one
  \<open>Start\<close> answered; the number of segments is lost, and after a restart the creation time is the
  first start's and not the one the restart answered.\<close>

theorem replay_state_after_start:
  assumes start: "replay_Start parse c raw w = (Inr a, w1)" and req: "unmarshal dec_StartRequest raw = Inr req"
    and state: "replay_State d raw' w1 = (Inr b, w2)" and same: "unmarshal dec_StateRequest raw' = Inr (sr_ReplayID req)"
  shows "rp_Status b = ''completed'' \<and> rp_Data b = rp_Data a \<and> rp_NumSegments b = None \<and>
    rp_NumSegments a = Some (sr_NumSegments req) \<and>
    rp_CreatedAt b = (case replay_of w (sr_ReplayID req) of None \<Rightarrow> rp_CreatedAt a | Some r0 \<Rightarrow> rb_CreatedAt r0) \<and>
    replay_of w2 = replay_of w1"
proof -
  from replay_Start_w [OF start req] obtain r where r: "replay_of w1 (sr_ReplayID req) = Some r"
    "rb_Status r = ''completed''" "rp_NumSegments a = Some (sr_NumSegments req)"
    "rp_Data a = Some (read_data (rb_SummaryJSON r))" "sr_ReplayID req \<noteq> []"
    "rb_CreatedAt r = (case replay_of w (sr_ReplayID req) of None \<Rightarrow> rp_CreatedAt a | Some r0 \<Rightarrow> rb_CreatedAt r0)"
    by (metis fun_upd_same)
  from state same r(5) obtain found w3 where g: "wrapping ''get replay summary'' (on_db d
      (GetReplayBreadcrumbSummary (sr_ReplayID req))) w1 = (Inr found, w3)"
    and rest: "(case found of
         None \<Rightarrow> andThen utc_now (\<lambda>now. ret \<lparr>rp_CreatedAt = now, rp_Status = ''not_started'', rp_NumSegments = None,
                rp_Data = Some \<lparr>rd_Summary = [], rd_TimeRanges = []\<rparr>\<rparr>)
       | Some rec \<Rightarrow> ret \<lparr>rp_CreatedAt = rb_CreatedAt rec, rp_Status = rb_Status rec, rp_NumSegments = None,
                rp_Data = Some (read_data (rb_SummaryJSON rec))\<rparr>) w3 = (Inr b, w2)"
    by (auto simp: replay_State_def decoding_def andThen_eq_Inr)
  from read_w [OF g] r rest show ?thesis by auto
qed

definition replay_body :: "int \<Rightarrow> blob" where
  "replay_body org = Doc (JObj [(''replay_id'', JStr ''r1''), (''num_segments'', JNum 3), (''organization_id'', JNum org)])"

definition replay_parse :: "string \<Rightarrow> blob" where
  "replay_parse s = (if s = ''{s}'' then Doc (JObj [(''summary'', JStr ''a click'')]) else Garbage s)"

definition replay_world :: "unit world" where
  "replay_world = start_world no_fault (answering ''{s}'')"

theorem replay_state_after_start_witness:
  "\<exists>a w1 b w2. replay_Start replay_parse None (replay_body 1) replay_world = (Inr a, w1) \<and>
     replay_State None (replay_body 2) w1 = (Inr b, w2) \<and> rp_Data b = rp_Data a \<and> rp_NumSegments b = None \<and>
     rp_NumSegments a = Some 3"
proof -
  have req: "unmarshal dec_StartRequest (replay_body 1) = Inr \<lparr>sr_ReplayID = ''r1'', sr_NumSegments = 3,
      sr_OrganizationID = 1, sr_ProjectID = 0\<rparr>" by code_simp
  have q: "unmarshal dec_StateRequest (replay_body 2) = Inr (sr_ReplayID \<lparr>sr_ReplayID = ''r1'', sr_NumSegments = 3,
      sr_OrganizationID = 1, sr_ProjectID = 0\<rparr>)" by code_simp
  have "isl (fst (replay_Start replay_parse None (replay_body 1) replay_world)) = False" by code_simp
  then obtain a where a: "replay_Start replay_parse None (replay_body 1) replay_world =
      (Inr a, snd (replay_Start replay_parse None (replay_body 1) replay_world))"
    using run_Inr by blast
  have "isl (fst (replay_State None (replay_body 2) (snd (replay_Start replay_parse None (replay_body 1) replay_world)))) = False"
    by code_simp
  then obtain b where b: "replay_State None (replay_body 2) (snd (replay_Start replay_parse None (replay_body 1) replay_world)) =
      (Inr b, snd (replay_State None (replay_body 2) (snd (replay_Start replay_parse None (replay_body 1) replay_world))))"
    using run_Inr by blast
  from replay_state_after_start [OF a req b q] a b show ?thesis by auto
qed

text \<open>A start that fails half way leaves the row \<open>processing\<close> without a summary, also when the
  replay had a finished one, and no task that would finish it: the state endpoint, which is polled
  until it says completed or error, then answers \<open>processing\<close> until somebody starts again.\<close>

theorem failed_start_keeps_processing:
  assumes run: "replay_Start parse c raw w = (Inl e, w')" and req: "unmarshal dec_StartRequest raw = Inr req"
  shows "mgr w' = mgr w \<and> (replay_of w' = replay_of w \<or>
    (\<exists>r. replay_of w' = (replay_of w)(sr_ReplayID req \<mapsto> r) \<and> rb_Status r = ''processing'' \<and> rb_SummaryJSON r = Blank))"
proof (cases "sr_ReplayID req = []")
  case True
  with run req show ?thesis by (auto simp: replay_Start_def decoding_def andThen_def)
next
  case False
  obtain created w1 where s1: "utc_now w = (Inr created, w1)" using utc_now_returns by blast
  let ?up = "wrapping ''upsert replay summary'' (on_db c (UpsertReplayBreadcrumbSummary
        (summary_row req ''processing'' created None Blank)))"
  obtain x w2 where s2: "?up w1 = (x, w2)" by (cases "?up w1")
  then have m2: "mgr w2 = mgr w1" by (metis snd_conv snd_wrapping on_db_frame(1))
  show ?thesis
  proof (cases x)
    case (Inl e')
    with run req False s1 s2 have "w' = w2" by (simp add: replay_Start_def decoding_def andThen_def)
    with save_fails_w [of _ c _ w1] s2 Inl utc_now_w [OF s1] m2 show ?thesis by simp
  next
    case (Inr u)
    let ?asking = "try_ask parse dec_summary c breadcrumbSystemPrompt (breadcrumb_prompt req) ''0.3'' 512"
    obtain answer w3 where s3: "?asking w2 = (Inr answer, w3)" using try_ask_run [of parse dec_summary] by blast
    obtain done_at w4 where s4: "utc_now w3 = (Inr done_at, w4)" using utc_now_returns by blast
    from run req False s1 s2 s3 s4 Inr obtain said where
      s5: "wrapping ''upsert replay summary completed'' (on_db c (UpsertReplayBreadcrumbSummary
        (summary_row req ''completed'' created (Some done_at)
          (marshal (enc_ResponseData \<lparr>rd_Summary = said, rd_TimeRanges = []\<rparr>))))) w4 = (Inl e, w')"
      by (auto simp: replay_Start_def decoding_def andThen_def Let_def split: prod.splits sum.splits)
    then have "mgr w' = mgr w4" by (metis snd_conv snd_wrapping on_db_frame(1))
    moreover have "?up w1 = (Inr u, w2)" using s2 Inr by simp
    from save_w [OF this] obtain ts where "replay_of w2 = (replay_of w1)(sr_ReplayID req \<mapsto>
        merge_replay ts (replay_of w1 (sr_ReplayID req)) (summary_row req ''processing'' created None Blank))"
      by (auto simp: summary_row_def)
    ultimately show ?thesis
      using save_fails_w [OF s5] utc_now_w [OF s1] m2 try_ask_replay [OF s3] utc_now_w [OF s4]
      by (auto simp: merge_replay_def summary_row_def split: option.splits)
  qed
qed

text \<open>A driver that refuses the fifth statement and no other.\<close>

definition replay_faulty :: "unit world" where
  "replay_faulty = start_world (\<lambda>n. if n = 3 then Some deadline_exceeded else None) (answering ''{s}'')"

theorem failed_start_keeps_processing_witness:
  "\<exists>e w'. replay_Start replay_parse None (replay_body 1) replay_faulty = (Inl e, w') \<and>
     (\<exists>r. replay_of w' ''r1'' = Some r \<and> rb_Status r = ''processing'' \<and> rb_SummaryJSON r = Blank)"
proof -
  let ?go = "replay_Start replay_parse None (replay_body 1) replay_faulty"
  have req: "unmarshal dec_StartRequest (replay_body 1) = Inr \<lparr>sr_ReplayID = ''r1'', sr_NumSegments = 3,
      sr_OrganizationID = 1, sr_ProjectID = 0\<rparr>" by code_simp
  have "isl (fst ?go)" by code_simp
  then obtain e where e: "?go = (Inl e, snd ?go)" using run_Inl by blast
  have "replay_of (snd ?go) ''r1'' \<noteq> None" by code_simp
  moreover have "replay_of replay_faulty ''r1'' = None" by code_simp
  ultimately have "\<exists>r. replay_of (snd ?go) ''r1'' = Some r \<and> rb_Status r = ''processing'' \<and> rb_SummaryJSON r = Blank"
    using failed_start_keeps_processing [OF e req] by auto
  with e show ?thesis by blast
qed

text \<open>A deletion removes the rows of the named replays, of every organization, and no other.\<close>

lemma DeleteReplay_view:
  "DeleteReplayBreadcrumbSummaries ids s = (Inr x, t) \<Longrightarrow>
   replay_view t = (\<lambda>k. if k \<in> set ids then None else replay_view s k)"
proof (induction ids arbitrary: s)
  case (Cons i ids)
  define u where "u = tick (s\<lparr>replay_tbl := filter (\<lambda>r. rb_ReplayID r \<noteq> i) (replay_tbl s)\<rparr>)"
  from Cons.prems have u: "replay_tbl u = filter (\<lambda>r. rb_ReplayID r \<noteq> i) (replay_tbl s)"
    "DeleteReplayBreadcrumbSummaries ids u = (Inr x, t)" by (simp_all add: stmt_Inr u_def)
  have "row_at rb_ReplayID (filter (\<lambda>r. rb_ReplayID r \<noteq> i) rows) k = (if k = i then None else row_at rb_ReplayID rows k)" for rows :: "ReplayBreadcrumbSummaryRecord list" and k
    by (induction rows) (auto simp: row_at_def)
  with Cons.IH [OF u(2)] u(1) show ?case by (auto simp: replay_view_def fun_eq_iff)
qed simp

lemma replay_Delete_w:
  assumes "replay_Delete c raw w = (Inr b, w')" and "unmarshal dec_DeleteRequest raw = Inr req"
  shows "b \<and> replay_of w' = (\<lambda>k. if k \<in> set (dq_ReplayIDs req) then None else replay_of w k)"
proof (cases "dq_ReplayIDs req = []")
  case False
  with assms obtain x where x: "on_db c (DeleteReplayBreadcrumbSummaries (dq_ReplayIDs req)) w = (Inr x, w')" and b
    by (auto simp: replay_Delete_def decoding_def andThen_eq_Inr wrapping_eq_Inr)
  from on_db_run [OF x blind_views(4)] obtain s t where
    "DeleteReplayBreadcrumbSummaries (dq_ReplayIDs req) s = (Inr x, t)" "replay_view s = replay_of w" "replay_of w' = replay_view t"
    by auto
  with DeleteReplay_view \<open>b\<close> show ?thesis by metis
qed (use assms in \<open>auto simp: replay_Delete_def decoding_def andThen_def\<close>)

end
