(* ===== verification/Severity.thy ===== *)
theory Severity
  imports Prompts Float64
begin

text \<open>
  Severity scores (\<open>internal/severity/service.go\<close>): the model's score, clamped and rounded to
  hundredths, or a score computed from the words of the message, in \<open>float64\<close> arithmetic.
\<close>

record severityRequest =
  sv_Message :: string
  sv_HasStacktrace :: int
  sv_Handled :: "bool option"

definition dec_severityRequest :: "json \<Rightarrow> severityRequest res" where
  "dec_severityRequest = dec_struct (\<lambda>ms.
     bindE (field ''message'' dec_string [] ms) (\<lambda>m.
     bindE (field ''has_stacktrace'' dec_int64 0 ms) (\<lambda>st.
     bindE (field ''handled'' (dec_ptr dec_bool) None ms) (\<lambda>h.
     bindE (field ''org_id'' (dec_ptr dec_int64) None ms) (\<lambda>org.
     bindE (field ''project_id'' (dec_ptr dec_int64) None ms) (\<lambda>p.
       Inr \<lparr>sv_Message = m, sv_HasStacktrace = st, sv_Handled = h\<rparr>))))))"

definition dec_severity :: "json \<Rightarrow> rat option res" where
  "dec_severity = dec_struct (field ''severity'' (dec_ptr dec_float64) None)"

definition handledStr :: "bool option \<Rightarrow> string" where
  "handledStr handled = (case handled of None \<Rightarrow> ''unknown'' | Some b \<Rightarrow> if b then ''true'' else ''false'')"

text \<open>\<open>math.Max(0, math.Min(1, score))\<close>, then \<open>math.Round(score*100) / 100\<close>.\<close>

definition clamped :: "rat \<Rightarrow> rat" where
  "clamped score = max 0 (min 1 score)"

definition hundredths :: "rat \<Rightarrow> rat" where
  "hundredths score = fdiv (of_int (math_Round (fmul score 100))) 100"

definition severity_tokens :: "string list" where
  "severity_tokens = [''panic'', ''fatal'', ''segfault'', ''out of memory'', ''deadlock'', ''crash'']"

fun token_score :: "string \<Rightarrow> string list \<Rightarrow> rat \<Rightarrow> rat" where
  "token_score message [] score = score"
| "token_score message (token # tokens) score =
     token_score message tokens (if Contains message token then fadd score (rounded (18 / 100)) else score)"

definition heuristicScore :: "severityRequest \<Rightarrow> rat" where
  "heuristicScore request =
     (let s1 = token_score (ToLower (sv_Message request)) severity_tokens (rounded (25 / 100));
          s2 = (if sv_HasStacktrace request > 0 then fadd s1 (rounded (15 / 100)) else s1);
          s3 = (if sv_Handled request = Some False then fadd s2 (rounded (15 / 100)) else s2);
          s4 = (if sv_Handled request = Some True then fsub s3 (rounded (5 / 100)) else s3)
      in hundredths (clamped s4))"

definition severitySystemPrompt :: string where
  "severitySystemPrompt = ''You are a severity scoring model. Reply with exactly one JSON object: {'' @ [quote] @
     ''severity'' @ [quote] @ '': <float between 0.0 and 1.0>}. No other text. Higher severity means more critical.''"

definition severity_prompt :: "severityRequest \<Rightarrow> string" where
  "severity_prompt request = ''Score the severity of this issue:'' @ newline @ ''Message: '' @ sv_Message request @
     newline @ ''Has stacktrace: '' @ show_bool (sv_HasStacktrace request > 0) @ newline @
     ''Handled: '' @ handledStr (sv_Handled request)"

definition severity_Score :: "(string \<Rightarrow> blob) \<Rightarrow> ctx \<Rightarrow> blob \<Rightarrow> (rat, 't world) op" where
  "severity_Score parse c raw =
     andThen (decoding ''decode severity request'' dec_severityRequest raw) (\<lambda>request.
     andThen (try_ask parse dec_severity c severitySystemPrompt (severity_prompt request) ''0'' 64) (\<lambda>answer.
       ret (case answer of Some (Some score) \<Rightarrow> hundredths (clamped score) | _ \<Rightarrow> heuristicScore request)))"

section \<open>Scores are hundredths between zero and one\<close>

lemma clamped_bounds: "0 \<le> clamped s" "clamped s \<le> 1"
  by (simp_all add: clamped_def)

lemma hundredths_bounds:
  assumes "0 \<le> s" and "s \<le> 1"
  shows "\<exists>n. 0 \<le> n \<and> n \<le> 100 \<and> hundredths s = rounded (of_int n / 100) \<and> 0 \<le> hundredths s \<and> hundredths s \<le> 1"
proof -
  let ?p = "fmul s 100"
  have p: "0 \<le> ?p" "?p \<le> of_int 100"
    using assms by (simp add: fmul_def rounded_nonneg, unfold fmul_def, intro rounded_le_int) auto
  let ?n = "math_Round ?p"
  have n: "0 \<le> ?n" "?n \<le> 100" using p by (simp_all add: math_Round_def floor_le_iff)
  then have q: "(0 :: rat) \<le> of_int ?n / 100" "of_int ?n / (100 :: rat) \<le> of_int 1" by simp_all
  have "0 \<le> rounded (of_int ?n / 100)" "rounded (of_int ?n / 100) \<le> of_int 1"
    using rounded_nonneg [OF q(1)] rounded_le_int [OF q] by simp_all
  with n show ?thesis by (intro exI [of _ ?n]) (simp add: hundredths_def fdiv_def)
qed

text \<open>C18: a readable request always gets a score, a number of hundredths between 0 and 1 rounded once to
  \<open>float64\<close>, whatever the model answers: a failed call, prose, or a number outside the range. Without a
  score of the model it is the heuristic one.\<close>

theorem severity_in_range:
  assumes "unmarshal dec_severityRequest raw = Inr request"
  shows "\<exists>s w' n. severity_Score parse c raw w = (Inr s, w') \<and> 0 \<le> s \<and> s \<le> 1 \<and>
    0 \<le> n \<and> n \<le> 100 \<and> s = rounded (of_int n / 100) \<and>
    (fst (ask c severitySystemPrompt (severity_prompt request) ''0'' 64 w) = Inl e \<longrightarrow> s = heuristicScore request)"
proof -
  let ?asking = "try_ask parse dec_severity c severitySystemPrompt (severity_prompt request) ''0'' 64"
  obtain x w' where run: "?asking w = (Inr x, w')" using try_ask_run [of parse dec_severity] by blast
  have none: "fst (ask c severitySystemPrompt (severity_prompt request) ''0'' 64 w) = Inl e \<Longrightarrow> x = None"
    using run by (auto simp: try_ask_def split: prod.splits sum.splits)
  let ?s = "case x of Some (Some score) \<Rightarrow> hundredths (clamped score) | _ \<Rightarrow> heuristicScore request"
  have "severity_Score parse c raw w = (Inr ?s, w')"
    using assms run by (simp add: severity_Score_def decoding_def andThen_def)
  moreover have "\<exists>t. ?s = hundredths (clamped t)"
    by (cases x) (auto simp: heuristicScore_def Let_def split: option.split)
  then obtain t where t: "?s = hundredths (clamped t)" ..
  from hundredths_bounds [OF clamped_bounds, of t] obtain n where
    "0 \<le> n \<and> n \<le> 100 \<and> ?s = rounded (of_int n / 100) \<and> 0 \<le> ?s \<and> ?s \<le> 1" unfolding t by blast
  ultimately show ?thesis using none by (intro exI [of _ ?s] exI [of _ w'] exI [of _ n]) auto
qed

definition severity_body :: blob where
  "severity_body = Doc (JObj [(''message'', JStr ''PANIC: out of memory''), (''has_stacktrace'', JNum 1), (''handled'', JBool False)])"

theorem severity_in_range_witness:
  "\<exists>s w'. severity_Score (\<lambda>s. Garbage s) (Some canceled) severity_body (start_world no_fault (answering ''x'') :: unit world) = (Inr s, w') \<and>
     s = rounded (91 / 100) \<and> s \<le> 1"
proof -
  let ?w = "start_world no_fault (answering ''x'') :: unit world"
  let ?r = "\<lparr>sv_Message = ''PANIC: out of memory'', sv_HasStacktrace = 1, sv_Handled = Some False\<rparr>"
  have d: "unmarshal dec_severityRequest severity_body = Inr ?r" by code_simp
  have e: "fst (ask (Some canceled) severitySystemPrompt (severity_prompt ?r) ''0'' 64 ?w) = Inl (wrap ''request failed'' canceled)"
    by (simp add: ask_def llm_complete_def start_world_def answering_def)
  have h: "heuristicScore ?r = rounded (91 / 100)" by code_simp
  from severity_in_range [OF d, of "\<lambda>s. Garbage s" "Some canceled" ?w] e h show ?thesis by fastforce
qed

end
