(* ===== verification/AssistedQuery.thy ===== *)
theory AssistedQuery
  imports Runs CodeIndex Prompts
begin

text \<open>
  Assisted queries (\<open>internal/assistedquery/service.go\<close>): a run that answers a question in the
  background, and the translation of a question into trace queries. The code index is an
  argument; a search that fails adds no context.
\<close>

section \<open>Data\<close>

record aqSession =
  as_RunID :: int
  as_Status :: string
  as_UpdatedAt :: string
  as_FinalResponse :: "json gomap option"
  as_UnsupportedReason :: "string option"

record Query =
  qu_Query :: string
  qu_StatsPeriod :: string
  qu_GroupBy :: "string list"
  qu_Visualization :: "string list"
  qu_Sort :: string
  qu_Mode :: string

record TranslateResponse =
  tr_Responses :: "Query list"
  tr_UnsupportedReason :: "string option"

record startRequest =
  aq_OrgID :: int
  aq_ProjectIDs :: "int list"
  aq_NaturalLanguageQuery :: string
  aq_Strategy :: string
  aq_ExternalIdempotencyKey :: string

record translateRequest =
  tq_OrgID :: int
  tq_ProjectIDs :: "int list"
  tq_NaturalLanguageQuery :: string

definition dec_startRequest :: "json \<Rightarrow> startRequest res" where
  "dec_startRequest = dec_struct (\<lambda>ms.
     bindE (field ''org_id'' dec_int64 0 ms) (\<lambda>org.
     bindE (field ''org_slug'' dec_string [] ms) (\<lambda>slug.
     bindE (field ''project_ids'' (dec_array dec_int64 0) [] ms) (\<lambda>ps.
     bindE (field ''natural_language_query'' dec_string [] ms) (\<lambda>q.
     bindE (field ''strategy'' dec_string [] ms) (\<lambda>st.
     bindE (field ''external_idempotency_key'' dec_string [] ms) (\<lambda>k.
     bindE (field ''options'' (dec_ptr dec_anymap) None ms) (\<lambda>opts.
       Inr \<lparr>aq_OrgID = org, aq_ProjectIDs = ps, aq_NaturalLanguageQuery = q, aq_Strategy = st,
            aq_ExternalIdempotencyKey = k\<rparr>))))))))"

text \<open>Of a state request only the run is used.\<close>

definition dec_aqState :: "json \<Rightarrow> int res" where
  "dec_aqState = dec_struct (\<lambda>ms.
     bindE (field ''run_id'' dec_int64 0 ms) (\<lambda>i.
     bindE (field ''organization_id'' dec_int64 0 ms) (\<lambda>org. Inr i)))"

definition dec_translateRequest :: "json \<Rightarrow> translateRequest res" where
  "dec_translateRequest = dec_struct (\<lambda>ms.
     bindE (field ''org_id'' dec_int64 0 ms) (\<lambda>org.
     bindE (field ''org_slug'' dec_string [] ms) (\<lambda>slug.
     bindE (field ''project_ids'' (dec_array dec_int64 0) [] ms) (\<lambda>ps.
     bindE (field ''natural_language_query'' dec_string [] ms) (\<lambda>q.
     bindE (field ''strategy'' dec_string [] ms) (\<lambda>st.
       Inr \<lparr>tq_OrgID = org, tq_ProjectIDs = ps, tq_NaturalLanguageQuery = q\<rparr>))))))"

record translatedEnvelope =
  te_Responses :: "Query list"
  te_UnsupportedReason :: "string option"

definition dec_entry :: "json \<Rightarrow> Query res" where
  "dec_entry = dec_struct (\<lambda>ms.
     bindE (field ''query'' dec_string [] ms) (\<lambda>q.
     bindE (field ''stats_period'' dec_string [] ms) (\<lambda>p.
     bindE (field ''group_by'' (dec_array dec_string []) [] ms) (\<lambda>g.
     bindE (field ''visualization'' (dec_array dec_string []) [] ms) (\<lambda>v.
     bindE (field ''sort'' dec_string [] ms) (\<lambda>s.
     bindE (field ''mode'' dec_string [] ms) (\<lambda>m.
       Inr \<lparr>qu_Query = q, qu_StatsPeriod = p, qu_GroupBy = g, qu_Visualization = v, qu_Sort = s, qu_Mode = m\<rparr>)))))))"

definition zero_entry :: Query where
  "zero_entry = \<lparr>qu_Query = [], qu_StatsPeriod = [], qu_GroupBy = [], qu_Visualization = [], qu_Sort = [], qu_Mode = []\<rparr>"

definition dec_envelope :: "json \<Rightarrow> translatedEnvelope res" where
  "dec_envelope = dec_struct (\<lambda>ms.
     bindE (field ''responses'' (dec_array dec_entry zero_entry) [] ms) (\<lambda>rs.
     bindE (field ''unsupported_reason'' (dec_ptr dec_string) None ms) (\<lambda>u.
       Inr \<lparr>te_Responses = rs, te_UnsupportedReason = u\<rparr>)))"

section \<open>Translation\<close>

definition or_default :: "string \<Rightarrow> string \<Rightarrow> string" where
  "or_default d s = (if s = [] then d else s)"

text \<open>One turn of the loop over the model's entries: nothing for an entry without a query.\<close>

definition translated_entry :: "Query \<Rightarrow> Query list" where
  "translated_entry entry =
     (if TrimSpace (qu_Query entry) = [] then []
      else [\<lparr>qu_Query = TrimSpace (qu_Query entry),
             qu_StatsPeriod = or_default ''14d'' (TrimSpace (qu_StatsPeriod entry)),
             qu_GroupBy = qu_GroupBy entry, qu_Visualization = qu_Visualization entry,
             qu_Sort = or_default ''-timestamp'' (TrimSpace (qu_Sort entry)),
             qu_Mode = or_default ''spans'' (TrimSpace (qu_Mode entry))\<rparr>])"

definition parseTranslatedQueries :: "(string \<Rightarrow> blob) \<Rightarrow> string \<Rightarrow> TranslateResponse" where
  "parseTranslatedQueries parse answer = (case extracted parse dec_envelope answer of
       None \<Rightarrow> \<lparr>tr_Responses = [], tr_UnsupportedReason = Some ''the model did not return a usable query''\<rparr>
     | Some envelope \<Rightarrow>
         let responses = concat (map translated_entry (te_Responses envelope)) in
         if responses = [] \<and> te_UnsupportedReason envelope = None
         then \<lparr>tr_Responses = responses, tr_UnsupportedReason = Some ''no trace query matched the question''\<rparr>
         else \<lparr>tr_Responses = responses, tr_UnsupportedReason = te_UnsupportedReason envelope\<rparr>)"

definition translatePrompt :: "string \<Rightarrow> int list \<Rightarrow> string" where
  "translatePrompt q projectIDs = ''Question: '' @ q @ newline @ ''Projects: '' @ show_ints projectIDs"

definition aq_chunk :: "CodeResult \<Rightarrow> string" where
  "aq_chunk r = newline @ cs_Path r @ '':'' @ FormatInt (int (cs_StartLine r)) @ ''-'' @
     FormatInt (int (cs_EndLine r)) @ newline @ TrimSpace (cs_Text r) @ newline"

definition aq_codeContext :: "store CodeIndex option \<Rightarrow> ctx \<Rightarrow> int \<Rightarrow> string \<Rightarrow> (string, 't world) op" where
  "aq_codeContext index c organizationID q = (case index of None \<Rightarrow> ret []
     | Some ci \<Rightarrow>
         if organizationID = 0 \<or> TrimSpace q = [] then ret []
         else (\<lambda>w. case on_db c (HasOrgIndex ci organizationID) w of
             (Inl e, w1) \<Rightarrow> (Inr [], w1)
           | (Inr hasIndex, w1) \<Rightarrow>
               if \<not> hasIndex then (Inr [], w1)
               else (case on_db c (ci_Search ci q \<lparr>so_OrganizationID = organizationID, so_Provider = [],
                        so_Owner = [], so_Name = [], so_Ref = [], so_K = 3\<rparr>) w1 of
                   (Inl e, w2) \<Rightarrow> (Inr [], w2)
                 | (Inr results, w2) \<Rightarrow> (Inr (if results = [] then []
                     else newline @ newline @ ''Indexed repository code that may be relevant:'' @ newline @
                       concat (map aq_chunk results)), w2))))"

definition query_required :: goerr where
  "query_required = errorf ''natural_language_query is required''"

definition translateSystemPrompt :: string where
  "translateSystemPrompt = ''You translate natural-language questions about a Sentry trace dataset into trace-explorer queries.'' @
     newline @ ''Reply with JSON only, shaped exactly like:'' @ newline @
     (let q = [quote] in ''{'' @ q @ ''responses'' @ q @ '':[{'' @ q @ ''query'' @ q @ '':'' @ q @ ''<query>'' @ q @ '','' @
      q @ ''stats_period'' @ q @ '':'' @ q @ ''<period>'' @ q @ '','' @ q @ ''group_by'' @ q @ '':[],'' @
      q @ ''visualization'' @ q @ '':[],'' @ q @ ''sort'' @ q @ '':'' @ q @ ''<sort>'' @ q @ '','' @
      q @ ''mode'' @ q @ '':'' @ q @ ''spans'' @ q @ ''}],'' @ q @ ''unsupported_reason'' @ q @ '':null}'' @ newline @
      q @ ''query'' @ q @ '' uses Sentry search syntax over trace attributes (for example '' @ q @
      ''span.op:db transaction:/api/*/checkout'' @ q @ '').'' @ newline @
      q @ ''stats_period'' @ q @ '' is a relative window such as '' @ q @ ''14d'' @ q @ ''. '' @ q @ ''group_by'' @ q @
      '' and '' @ q @ ''visualization'' @ q @ '' are arrays of attribute or visual names.'' @ newline @
      q @ ''sort'' @ q @ '' is a field name with an optional leading '' @ q @ ''-'' @ q @ '' for descending. '' @
      q @ ''mode'' @ q @ '' is '' @ q @ ''spans'' @ q @ '', '' @ q @ ''aggregate'' @ q @ '', or '' @ q @ ''samples'' @ q @ ''.'' @
      newline @ ''Return an empty responses list and a short '' @ q @ ''unsupported_reason'' @ q @
      '' string when the question cannot be expressed as a trace query.'')"

definition translate_question ::
    "(string \<Rightarrow> blob) \<Rightarrow> store CodeIndex option \<Rightarrow> ctx \<Rightarrow> translateRequest \<Rightarrow> (TranslateResponse, 't world) op" where
  "translate_question parse index c request =
     (let q = TrimSpace (tq_NaturalLanguageQuery request) in
      if q = [] then fail query_required
      else andThen (aq_codeContext index c (tq_OrgID request) q) (\<lambda>code.
        andThen (CompleteText c translateSystemPrompt (translatePrompt q (tq_ProjectIDs request) @ code) 800) (\<lambda>answer.
          ret (parseTranslatedQueries parse answer))))"

definition Translate where
  "Translate parse index c raw =
     andThen (decoding ''decode assisted-query translate request'' dec_translateRequest raw)
       (translate_question parse index c)"

definition TranslateAgentic where
  "TranslateAgentic parse index c raw =
     andThen (decoding ''decode assisted-query translate-agentic request'' dec_translateRequest raw)
       (translate_question parse index c)"

section \<open>Runs\<close>

definition answerSystemPrompt :: string where
  "answerSystemPrompt = ''You are a Sentry trace-explorer search agent. Answer the user'' @ [CHR 0x27] @
     ''s question about their trace data as precisely as the available context allows, and state clearly when the context is insufficient.''"

definition answer_prompt :: "startRequest \<Rightarrow> string" where
  "answer_prompt request = ''Question: '' @ TrimSpace (aq_NaturalLanguageQuery request) @ newline @ ''Projects: '' @
     show_ints (aq_ProjectIDs request) @ newline @ ''Search strategy: '' @ aq_Strategy request"

text \<open>The task a run is started with.\<close>

definition answerTask :: "store CodeIndex option \<Rightarrow> ctx \<Rightarrow> startRequest \<Rightarrow> int \<Rightarrow> (unit, startRequest world) op" where
  "answerTask index c request runID =
     andThen (aq_codeContext index c (aq_OrgID request) (aq_NaturalLanguageQuery request)) (\<lambda>code. (\<lambda>w.
       case CompleteText c answerSystemPrompt (answer_prompt request @ code) 900 w of
         (Inl e, w1) \<Rightarrow> Fail runID e w1
       | (Inr answer, w1) \<Rightarrow> Complete c runID (Some (JObj [(''answer'', JStr answer)])) w1))"

definition aq_record :: "startRequest \<Rightarrow> blob \<Rightarrow> RunRecord" where
  "aq_record request raw =
     \<lparr>run_ID = 0, run_Kind = KindAssistedQuery, run_OrganizationID = Some (aq_OrgID request),
      run_Status = RunStatusProcessing, run_RequestJSON = raw, run_ResultJSON = Blank, run_Error = None,
      run_WorkflowVersion = 0,
      run_IdempotencyKey = (if aq_ExternalIdempotencyKey request \<noteq> [] then Some (aq_ExternalIdempotencyKey request) else None),
      run_CreatedAt = [], run_UpdatedAt = []\<rparr>"

definition aq_begin :: "store CodeIndex option \<Rightarrow> ctx \<Rightarrow> startRequest \<Rightarrow> blob \<Rightarrow> (int, startRequest world) op" where
  "aq_begin index c request raw =
     andThen (runs_Start (answerTask index) c (aq_record request raw) (Some request)) (\<lambda>run. ret (run_ID run))"

definition aq_Start :: "store CodeIndex option \<Rightarrow> ctx \<Rightarrow> blob \<Rightarrow> (int, startRequest world) op" where
  "aq_Start index c raw =
     andThen (decoding ''decode assisted-query start request'' dec_startRequest raw) (\<lambda>request.
     if TrimSpace (aq_NaturalLanguageQuery request) = [] then fail query_required
     else if aq_ExternalIdempotencyKey request \<noteq> [] then
       andThen (FindByIdempotencyKey c KindAssistedQuery (aq_ExternalIdempotencyKey request)) (\<lambda>existing.
         case existing of Some rec \<Rightarrow> ret (run_ID rec) | None \<Rightarrow> aq_begin index c request raw)
     else aq_begin index c request raw)"

definition aq_session :: "int \<Rightarrow> string \<Rightarrow> RunRecord option \<Rightarrow> aqSession" where
  "aq_session runID now found = (case found of
       None \<Rightarrow> \<lparr>as_RunID = runID, as_Status = RunStatusError, as_UpdatedAt = now, as_FinalResponse = None,
          as_UnsupportedReason = Some ''run not found''\<rparr>
     | Some rec \<Rightarrow>
         let status = Status (Some rec) in
         \<lparr>as_RunID = runID, as_Status = status, as_UpdatedAt = run_UpdatedAt rec,
          as_FinalResponse = (if status = RunStatusCompleted then Projection (Some rec) else None),
          as_UnsupportedReason = (if status = RunStatusError
            then Some (case run_Error rec of None \<Rightarrow> ''run failed'' | Some reason \<Rightarrow> reason) else None)\<rparr>)"

definition aq_State :: "ctx \<Rightarrow> blob \<Rightarrow> (aqSession, 't world) op" where
  "aq_State c raw =
     andThen (decoding ''decode assisted-query state request'' dec_aqState raw) (\<lambda>runID.
     andThen (runs_Get c runID) (\<lambda>found.
     andThen (on_db None nowString) (\<lambda>now. ret (aq_session runID now found))))"

section \<open>Translations are well formed\<close>

text \<open>What Sentry indexes into: no field of a query is blank.\<close>

definition complete_query :: "Query \<Rightarrow> bool" where
  "complete_query r \<longleftrightarrow> TrimSpace (qu_Query r) = qu_Query r \<and> qu_Query r \<noteq> [] \<and> qu_StatsPeriod r \<noteq> [] \<and>
     qu_Sort r \<noteq> [] \<and> qu_Mode r \<noteq> []"

lemma translated_entry_complete: "r \<in> set (translated_entry e) \<Longrightarrow> complete_query r"
  by (auto simp: translated_entry_def complete_query_def or_default_def split: if_splits)

lemma parseTranslatedQueries_complete:
  "r \<in> set (tr_Responses (parseTranslatedQueries parse answer)) \<Longrightarrow> complete_query r"
  "tr_Responses (parseTranslatedQueries parse answer) = [] \<Longrightarrow> tr_UnsupportedReason (parseTranslatedQueries parse answer) \<noteq> None"
  by (auto simp: parseTranslatedQueries_def Let_def translated_entry_complete split: option.splits if_splits)

text \<open>An entry survives with its query, its lists and what it says of the rest.\<close>

lemma translated_entry_keeps:
  "TrimSpace (qu_Query e) \<noteq> [] \<Longrightarrow> \<exists>r. translated_entry e = [r] \<and> qu_Query r = TrimSpace (qu_Query e) \<and>
     qu_GroupBy r = qu_GroupBy e \<and> qu_Visualization r = qu_Visualization e \<and>
     (TrimSpace (qu_Sort e) \<noteq> [] \<longrightarrow> qu_Sort r = TrimSpace (qu_Sort e))"
  by (simp add: translated_entry_def or_default_def)

text \<open>Whatever the model answers, a translation that succeeds answers queries that are trimmed and
  have a period, a sort and a mode, and when there is no query it says why. The queries are the model's
  entries with a query, in order.\<close>

theorem translation_is_complete:
  assumes "Translate parse index c raw w = (Inr resp, w')"
  shows "(\<forall>r \<in> set (tr_Responses resp). complete_query r) \<and>
    (tr_Responses resp = [] \<longrightarrow> tr_UnsupportedReason resp \<noteq> None) \<and>
    (\<exists>answer. (case extracted parse dec_envelope answer of
        None \<Rightarrow> tr_Responses resp = []
      | Some e \<Rightarrow> map qu_Query (tr_Responses resp) = filter (\<lambda>q. q \<noteq> []) (map (\<lambda>r. TrimSpace (qu_Query r)) (te_Responses e))))"
proof -
  from assms obtain answer where r: "resp = parseTranslatedQueries parse answer"
    by (auto simp: Translate_def translate_question_def Let_def andThen_eq_Inr split: if_splits)
  have "map qu_Query (concat (map translated_entry es)) = filter (\<lambda>q. q \<noteq> []) (map (\<lambda>r. TrimSpace (qu_Query r)) es)" for es
    by (induction es) (auto simp: translated_entry_def)
  then have "case extracted parse dec_envelope answer of
        None \<Rightarrow> tr_Responses resp = []
      | Some e \<Rightarrow> map qu_Query (tr_Responses resp) = filter (\<lambda>q. q \<noteq> []) (map (\<lambda>r. TrimSpace (qu_Query r)) (te_Responses e))"
    by (auto simp: r parseTranslatedQueries_def Let_def split: option.split)
  with r show ?thesis using parseTranslatedQueries_complete by blast
qed

definition aq_parse :: "string \<Rightarrow> blob" where
  "aq_parse s = (if s = ''{q}'' then Doc (JObj [(''responses'', JArr [JObj [(''query'', JStr '' span.op:db '')], JNull])])
     else Garbage s)"

definition aq_world :: "startRequest world" where
  "aq_world = start_world no_fault (answering ''{q}'')"

definition aq_body :: blob where
  "aq_body = Doc (JObj [(''org_id'', JNum 1), (''natural_language_query'', JStr ''slow queries'')])"

theorem translation_is_complete_witness:
  "\<exists>resp w'. Translate aq_parse None None aq_body aq_world = (Inr resp, w') \<and> length (tr_Responses resp) = 1 \<and>
     (\<forall>r \<in> set (tr_Responses resp). complete_query r)"
proof -
  let ?t = "Translate aq_parse None None aq_body aq_world"
  have "isl (fst ?t) = False" by code_simp
  then obtain resp where r: "?t = (Inr resp, snd ?t)" using run_Inr by blast
  have "(case fst ?t of Inl e \<Rightarrow> False | Inr x \<Rightarrow> length (tr_Responses x) = 1)" by code_simp
  with r have "length (tr_Responses resp) = 1" by (metis (lifting) fst_conv sum.simps(6))
  with translation_is_complete [OF r] r show ?thesis by blast
qed

section \<open>The outcome of a run\<close>

text \<open>An index over the SQLite vector store only reads.\<close>

definition sqlite_backed :: "store CodeIndex option \<Rightarrow> bool" where
  "sqlite_backed index \<longleftrightarrow> (\<forall>ci vs. index = Some ci \<longrightarrow> ci_store ci = Some vs \<longrightarrow> (\<exists>sv. vs = sqlitevec_store sv))"

abbreviation runs_driver :: "store \<Rightarrow> RunRecord list \<times> (nat \<Rightarrow> goerr option)" where
  "runs_driver s \<equiv> (runs_tbl s, sql_fault s)"

lemma readonly_index:
  "readonly runs_driver (sv_SearchCode sv v k f)" "readonly runs_driver (sv_HasCodeChunks org)"
  unfolding sv_SearchCode_def sv_HasCodeChunks_def Let_def
  by (intro readonly_stmt effect_intro; simp)+

lemma readonly_ci:
  assumes "sqlite_backed (Some ci)"
  shows "readonly runs_driver (ci_Search ci q opts)" and "readonly runs_driver (HasOrgIndex ci org)"
proof -
  have "readonly runs_driver (vs_SearchCode vs v k f) \<and> readonly runs_driver (vs_HasCodeChunks vs g)"
    if "ci_store ci = Some vs" for vs v k f g
    using assms that readonly_index by (auto simp: sqlite_backed_def sqlitevec_store_def)
  then show "readonly runs_driver (ci_Search ci q opts)" "readonly runs_driver (HasOrgIndex ci org)"
    unfolding ci_Search_def HasOrgIndex_def Let_def
    by (auto intro!: effect_intro split: list.splits option.splits)
qed

lemma on_db_None_readonly: "readonly V m \<Longrightarrow> V (db (snd (on_db None m w))) = V (db w)"
  using readonlyD [of V m "db w"] by (cases "m (db w)") (auto simp: on_db_alive)

lemma aq_codeContext_quiet:
  assumes "sqlite_backed index"
  shows "\<exists>code w1. aq_codeContext index None org q w = (Inr code, w1) \<and> runs_driver (db w1) = runs_driver (db w) \<and>
    llm w1 = llm w \<and> llm_calls w1 = llm_calls w"
proof (cases index)
  case (Some ci)
  let ?s = "\<lparr>so_OrganizationID = org, so_Provider = [], so_Owner = [], so_Name = [], so_Ref = [], so_K = 3\<rparr>"
  obtain r1 w1 where h: "on_db None (HasOrgIndex ci org) w = (r1, w1)" by (cases "on_db None (HasOrgIndex ci org) w")
  obtain r2 w2 where s: "on_db None (ci_Search ci q ?s) w1 = (r2, w2)" by (cases "on_db None (ci_Search ci q ?s) w1")
  note ro = readonly_ci [OF assms [unfolded Some]]
  have "runs_driver (db w1) = runs_driver (db w) \<and> llm w1 = llm w \<and> llm_calls w1 = llm_calls w"
    using on_db_None_readonly [OF ro(2) [of org], where w = w] on_db_frameD [OF h] h by simp
  moreover have "runs_driver (db w2) = runs_driver (db w1) \<and> llm w2 = llm w1 \<and> llm_calls w2 = llm_calls w1"
    using on_db_None_readonly [OF ro(1) [of q ?s], where w = w1] on_db_frameD [OF s] s by simp
  ultimately show ?thesis
    using h s by (auto simp: aq_codeContext_def Some split: sum.split)
qed (simp add: aq_codeContext_def)

lemma runs_of_tbl: "runs_tbl (db v) = runs_tbl (db w) \<Longrightarrow> runs_of v = runs_of w"
  by (simp add: runs_of_view runs_view_def fun_eq_iff)

lemma Complete_healthy:
  assumes "healthy (db w)" and "runs_of w i = Some r"
  shows "\<exists>w'. Complete None i result w = (Inr (), w')"
proof -
  let ?rec = "(case result of None \<Rightarrow> r | Some j \<Rightarrow> r\<lparr>run_ResultJSON := marshal j\<rparr>)\<lparr>run_Status := RunStatusCompleted, run_Error := None\<rparr>"
  from UpdateRun_healthy [of "w\<lparr>db := tick (db w)\<rparr>" ?rec] assms(1) obtain w' where
    "on_db None (UpdateRun ?rec) (w\<lparr>db := tick (db w)\<rparr>) = (Inr (), w')" by auto
  with assms show ?thesis by (simp add: Complete_def andThen_def GetRun_healthy Let_def)
qed

lemma aq_State_session:
  assumes "aq_State c raw w = (Inr s, w')" and "unmarshal dec_aqState raw = Inr i"
  shows "\<exists>now. s = aq_session i now (runs_of w i)"
proof -
  from assms obtain found w1 now where g: "on_db c (GetRun i) w = (Inr found, w1)" and "s = aq_session i now found"
    by (auto simp: aq_State_def decoding_def andThen_eq_Inr runs_Get_def)
  with GetRun_w [OF g] show ?thesis by auto
qed

text \<open>C16: the state endpoint reports what became of the question. When the task of a stored run has
  returned (on a driver that refuses nothing, under a live context), the session is completed with the
  trimmed answer of the model and no reason, or in error with the model's error as its reason and no answer.\<close>

theorem session_reports_outcome:
  assumes index: "sqlite_backed index" and healthy: "healthy (db w)" and stored: "runs_of w i = Some r"
    and task: "answerTask index None request i w = (res, w1)"
    and state: "aq_State c raw w1 = (Inr s, w2)" and raw: "unmarshal dec_aqState raw = Inr i"
  shows "\<exists>q. (case llm w (llm_calls w) None q of
      Inr said \<Rightarrow> res = Inr () \<and> as_Status s = RunStatusCompleted \<and>
        as_FinalResponse s = Some [(''answer'', JStr (TrimSpace said))] \<and> as_UnsupportedReason s = None
    | Inl cause \<Rightarrow> res = Inl cause \<and> as_Status s = RunStatusError \<and> as_FinalResponse s = None \<and>
        as_UnsupportedReason s = Some (fail_message cause))"
proof -
  from aq_codeContext_quiet [OF index] obtain code v where
    code: "aq_codeContext index None (aq_OrgID request) (aq_NaturalLanguageQuery request) w = (Inr code, v)"
    and v: "runs_driver (db v) = runs_driver (db w)" "llm v = llm w" "llm_calls v = llm_calls w" by blast
  let ?q = "\<lparr>cr_SystemPrompt = answerSystemPrompt, cr_UserPrompt = answer_prompt request @ code, cr_Temperature = ''0.1'', cr_MaxTokens = 900\<rparr>"
  let ?v = "v\<lparr>llm_calls := Suc (llm_calls v)\<rparr>"
  have sv: "healthy (db ?v)" "runs_of ?v i = Some r"
    using v(1) healthy stored runs_of_tbl [of v w] by (simp_all add: healthy_def)
  have ask: "CompleteText None answerSystemPrompt (answer_prompt request @ code) 900 v =
      (case llm w (llm_calls w) None ?q of Inl e \<Rightarrow> (Inl e, ?v) | Inr said \<Rightarrow> (Inr (TrimSpace said), ?v))"
    using v by (simp add: CompleteText_def andThen_def llm_complete_def split: sum.split)
  from aq_State_session [OF state raw] obtain now where s: "s = aq_session i now (runs_of w1 i)" ..
  show ?thesis
  proof (cases "llm w (llm_calls w) None ?q")
    case (Inl cause)
    with task code ask have fail: "Fail i cause ?v = (res, w1)" by (simp add: answerTask_def andThen_def)
    from Fail_row [OF sv, of cause] fail have "res = Inl cause" "\<exists>ts. runs_of w1 = (runs_of ?v)(i \<mapsto>
        r\<lparr>run_Status := RunStatusError, run_Error := Some (fail_message cause), run_UpdatedAt := ts\<rparr>)" by auto
    with Inl s show ?thesis
      by (intro exI [of _ ?q]) (auto simp: aq_session_def Status_def Let_def RunStatusError_def RunStatusCompleted_def)
  next
    case (Inr said)
    with task code ask have don: "Complete None i (Some (JObj [(''answer'', JStr (TrimSpace said))])) ?v = (res, w1)"
      by (simp add: answerTask_def andThen_def)
    with Complete_healthy [OF sv, of "Some (JObj [(''answer'', JStr (TrimSpace said))])"] have res: "res = Inr ()" by auto
    have "run_ID x = i" if "runs_of ?v i = Some x" for x using that by (rule runs_of_id)
    from Complete_row [OF don [unfolded res] this] sv(2) obtain ts where
      "runs_of w1 = (runs_of ?v)(i \<mapsto> r\<lparr>run_Status := RunStatusCompleted, run_Error := None,
         run_ResultJSON := Doc (JObj [(''answer'', JStr (TrimSpace said))]), run_UpdatedAt := ts\<rparr>)" by auto
    with Inr s res show ?thesis
      by (intro exI [of _ ?q]) (auto simp: aq_session_def Status_def Let_def RunStatusError_def RunStatusCompleted_def
        Projection_def of_members_def mput_all_def)
  qed
qed

definition aq_request :: startRequest where
  "aq_request = \<lparr>aq_OrgID = 1, aq_ProjectIDs = [], aq_NaturalLanguageQuery = ''slow queries'', aq_Strategy = [],
     aq_ExternalIdempotencyKey = []\<rparr>"

text \<open>A database that holds the run of the question.\<close>

definition asked_world :: "startRequest world" where
  "asked_world = aq_world\<lparr>db := (New no_fault (\<lambda>_. ''now''))\<lparr>runs_tbl := [(aq_record aq_request aq_body)\<lparr>run_ID := 1\<rparr>]\<rparr>\<rparr>"

theorem session_reports_outcome_witness:
  "\<exists>w1 s w2. answerTask None None aq_request 1 asked_world = (Inr (), w1) \<and>
     aq_State None (Doc (JObj [(''run_id'', JNum 1)])) w1 = (Inr s, w2) \<and> as_Status s = RunStatusCompleted \<and>
     as_FinalResponse s = Some [(''answer'', JStr ''{q}'')]"
proof -
  let ?t = "answerTask None None aq_request 1 asked_world"
  let ?s = "aq_State None (Doc (JObj [(''run_id'', JNum 1)])) (snd ?t)"
  have idx: "sqlite_backed None" by (simp add: sqlite_backed_def)
  have h: "healthy (db asked_world)" by (simp add: asked_world_def healthy_def New_def no_fault_def)
  have "runs_of asked_world 1 \<noteq> None" by code_simp
  then obtain r where r: "runs_of asked_world 1 = Some r" by blast
  have t: "?t = (fst ?t, snd ?t)" by simp
  have "isl (fst ?s) = False" by code_simp
  then obtain s where s: "?s = (Inr s, snd ?s)" using run_Inr by blast
  have q: "unmarshal dec_aqState (Doc (JObj [(''run_id'', JNum 1)])) = Inr 1" by code_simp
  have said: "llm asked_world (llm_calls asked_world) None p = Inr ''{q}''" for p
    by (simp add: asked_world_def aq_world_def start_world_def answering_def)
  have "TrimSpace ''{q}'' = ''{q}''" by code_simp
  with session_reports_outcome [OF idx h r t s q] said have "fst ?t = Inr () \<and> as_Status s = RunStatusCompleted \<and>
      as_FinalResponse s = Some [(''answer'', JStr ''{q}'')]" by simp
  with t s show ?thesis by metis
qed

text \<open>\<open>Start\<close> is idempotent under the client's key: a request whose key is stored answers the stored
  run, starts no run and no task.\<close>

lemma aq_Start_retry:
  assumes "aq_Start index c raw w = (Inr i, w')" and "unmarshal dec_startRequest raw = Inr q"
    and "aq_ExternalIdempotencyKey q \<noteq> []"
    and "first_row (select_asc run_ID (\<lambda>r. run_Kind r = KindAssistedQuery \<and>
      run_IdempotencyKey r = Some (aq_ExternalIdempotencyKey q)) (runs_tbl (db w))) = Some r"
  shows "i = run_ID r \<and> runs_tbl (db w') = runs_tbl (db w) \<and> mgr w' = mgr w"
proof -
  let ?k = "aq_ExternalIdempotencyKey q"
  from assms obtain found w1 where f: "on_db c (FindRunByIdempotencyKey KindAssistedQuery ?k) w = (Inr found, w1)"
    and rest: "(case found of Some rec \<Rightarrow> ret (run_ID rec) | None \<Rightarrow> aq_begin index c q raw) w1 = (Inr i, w')"
    by (auto simp: aq_Start_def decoding_def andThen_eq_Inr FindByIdempotencyKey_def split: if_splits)
  have blind: "blind runs_tbl" by (simp add: blind_def)
  from on_db_run [OF f blind] on_db_frameD [OF f] assms(3,4) have
    "found = Some r" "runs_tbl (db w1) = runs_tbl (db w)" "mgr w1 = mgr w"
    by (auto simp: FindRunByIdempotencyKey_def stmt_Inr)
  with rest show ?thesis by simp
qed

end
