(* ===== verification/RunStoreSpec.thy ===== *)
theory RunStoreSpec
  imports DbLaws
begin

text \<open>
  What the services may assume of the tables of runs and commands, as an abstract machine: its
  state is a map of runs and a map of recorded command versions, a call is refused without
  effect or does what \<open>run_spec\<close> says. The SQL statements refine it, call by call and hence for
  every sequence of calls.
\<close>

datatype run_call =
    CallGet int
  | CallVersion int string
  | CallUpdate RunRecord
  | CallEnsure int RunRecord
  | CallCreate RunRecord
  | CallAppend int string int64 blob

datatype run_answer =
    AnsRow "RunRecord option"
  | AnsVersion "int64 option"
  | AnsUnit
  | AnsId int
  | AnsNew bool

type_synonym run_maps = "(int \<Rightarrow> RunRecord option) \<times> (int \<times> string \<Rightarrow> int64 option)"

definition answer :: "('a \<Rightarrow> run_answer) \<Rightarrow> ('a, store) op \<Rightarrow> (run_answer, store) op" where
  "answer f m = andThen m (\<lambda>x. ret (f x))"

fun perform :: "run_call \<Rightarrow> (run_answer, store) op" where
  "perform (CallGet i) = answer AnsRow (GetRun i)"
| "perform (CallVersion i q) = answer AnsVersion (GetRunCommandVersion i q)"
| "perform (CallUpdate rec) = answer (\<lambda>_. AnsUnit) (UpdateRun rec)"
| "perform (CallEnsure i rec) = answer (\<lambda>_. AnsUnit) (EnsureRun i rec)"
| "perform (CallCreate rec) = answer AnsId (CreateRun rec)"
| "perform (CallAppend i q v b) = answer AnsNew (AppendRunCommand i q v b)"

fun perform_all :: "run_call list \<Rightarrow> store \<Rightarrow> run_answer res list \<times> store" where
  "perform_all [] s = ([], s)"
| "perform_all (c # cs) s = (case perform c s of (r, t) \<Rightarrow> case perform_all cs t of (rs, u) \<Rightarrow> (r # rs, u))"

inductive run_spec :: "run_call \<Rightarrow> run_maps \<Rightarrow> run_answer res \<Rightarrow> run_maps \<Rightarrow> bool" where
  spec_refused: "run_spec c m (Inl e) m"
| spec_get: "run_spec (CallGet i) (R, C) (Inr (AnsRow (R i))) (R, C)"
| spec_version: "run_spec (CallVersion i q) (R, C) (Inr (AnsVersion (C (i, q)))) (R, C)"
| spec_update: "run_spec (CallUpdate rec) (R, C) (Inr AnsUnit)
    (R(run_ID rec := map_option (rewrite_run ts rec) (R (run_ID rec))), C)"
| spec_ensure: "run_spec (CallEnsure i rec) (R, C) (Inr AnsUnit)
    (if R i = None then R(i \<mapsto> ensured_run ts i rec) else R, C)"
| spec_create: "R i = None \<Longrightarrow> run_spec (CallCreate rec) (R, C) (Inr (AnsId i)) (R(i \<mapsto> fresh_run ts i rec), C)"
| spec_append: "run_spec (CallAppend i q v b) (R, C) (Inr (AnsNew (C (i, q) = None)))
    (R, if C (i, q) = None then C((i, q) \<mapsto> v) else C)"

inductive run_specs :: "run_call list \<Rightarrow> run_maps \<Rightarrow> run_answer res list \<Rightarrow> run_maps \<Rightarrow> bool" where
  specs_Nil: "run_specs [] m [] m"
| specs_Cons: "run_spec c m r m' \<Longrightarrow> run_specs cs m' rs m'' \<Longrightarrow> run_specs (c # cs) m (r # rs) m''"

inductive_cases run_spec_createE: "run_spec (CallCreate rec) m (Inr a) m'"

lemma answer_Inr: "answer f m s = (Inr a, t) \<longleftrightarrow> (\<exists>x. m s = (Inr x, t) \<and> a = f x)"
  by (auto simp: answer_def andThen_eq_Inr)

lemma answer_Inl: "answer f m s = (Inl e, t) \<longleftrightarrow> m s = (Inl e, t)"
  by (auto simp: answer_def andThen_def split: prod.splits sum.splits)

lemma run_tables_pair: "run_tables s = (runs_view s, command_versions s)"
  by (simp add: run_tables_def)

lemma command_versions_tick: "run_tables (tick s) = run_tables s"
  by (simp add: run_tables_def command_versions_def fun_eq_iff)

lemma all_or_nothing_calls:
  "all_or_nothing run_tables (GetRun i)" "all_or_nothing run_tables (GetRunCommandVersion i q)"
  "all_or_nothing run_tables (UpdateRun rec)" "all_or_nothing run_tables (EnsureRun i rec)"
  "all_or_nothing run_tables (CreateRun rec)" "all_or_nothing run_tables (AppendRunCommand i q v b)"
  unfolding GetRun_def GetRunCommandVersion_def UpdateRun_def EnsureRun_def CreateRun_def AppendRunCommand_def
    Let_def query_def update_def
  by (intro all_or_nothing_andThen readonly_nowString all_or_nothing_wrapping all_or_nothing_exec all_or_nothing_andThen_ret;
      simp add: command_versions_tick)+

lemma CreateRun_tables:
  "store_ok s \<Longrightarrow> CreateRun rec s = (Inr i, t) \<Longrightarrow> runs_view s i = None \<and>
     (\<exists>ts. run_tables t = ((runs_view s)(i \<mapsto> fresh_run ts i rec), command_versions s))"
  by (frule (1) runs_db.create_ok)
    (auto simp: CreateRun_def Let_def stmt_Inr run_tables_def command_versions_def commands_view_def fun_eq_iff split: sum.splits)

lemma perform_refines:
  assumes "perform c s = (r, t)" and "store_ok s"
  shows "run_spec c (run_tables s) r (run_tables t) \<and> store_ok t"
proof
  have "keeps store_ok (perform c)"
    by (cases c) (auto simp: answer_def intro!: keeps_andThen keeps_ret store_keeps)
  with assms show "store_ok t" by (metis keeps_step)
  show "run_spec c (run_tables s) r (run_tables t)"
  proof (cases r)
    case (Inl e)
    with assms(1) have "run_tables t = run_tables s"
      by (cases c) (auto simp: answer_Inl dest: all_or_nothingD [OF all_or_nothing_calls(1)]
          all_or_nothingD [OF all_or_nothing_calls(2)] all_or_nothingD [OF all_or_nothing_calls(3)]
          all_or_nothingD [OF all_or_nothing_calls(4)] all_or_nothingD [OF all_or_nothing_calls(5)]
          all_or_nothingD [OF all_or_nothing_calls(6)])
    with Inl show ?thesis by (simp add: spec_refused)
  next
    case (Inr a)
    show ?thesis
    proof (cases c)
      case (CallGet i)
      with assms(1) Inr GetRun_tables [of i s] show ?thesis
        by (auto simp: answer_Inr run_tables_pair intro: spec_get)
    next
      case (CallVersion i q)
      with assms(1) Inr GetRunCommandVersion_tables [of i q s] show ?thesis
        by (auto simp: answer_Inr run_tables_pair intro: spec_version)
    next
      case (CallUpdate rec)
      with assms(1) Inr UpdateRun_tables [of rec s] show ?thesis
        by (fastforce simp: answer_Inr run_tables_pair intro: spec_update)
    next
      case (CallEnsure i rec)
      with assms(1) Inr obtain x where run: "EnsureRun i rec s = (Inr x, t)" and "a = AnsUnit"
        by (auto simp: answer_Inr)
      with EnsureRun_tables [OF run] CallEnsure Inr show ?thesis
        by (metis run_tables_pair spec_ensure)
    next
      case (CallCreate rec)
      with assms(1) Inr obtain i where run: "CreateRun rec s = (Inr i, t)" and "a = AnsId i"
        by (auto simp: answer_Inr)
      with CreateRun_tables [OF assms(2) run] CallCreate Inr show ?thesis
        by (metis run_tables_pair spec_create)
    next
      case (CallAppend i q v b)
      with assms(1) Inr obtain new where run: "AppendRunCommand i q v b s = (Inr new, t)" and "a = AnsNew new"
        by (auto simp: answer_Inr)
      moreover have "new \<longleftrightarrow> command_versions s (i, q) = None"
        using AppendRunCommand_log [OF run] by simp
      ultimately show ?thesis
        using AppendRunCommand_tables [OF run] CallAppend Inr by (simp add: run_tables_pair [of s] spec_append)
    qed
  qed
qed

section \<open>Properties\<close>

text \<open>C24: the run store refines the abstract machine. Whatever the driver refuses and whatever the clock shows, every
  sequence of calls to the methods for runs and commands gives answers and leaves tables that the machine
  of maps allows: a refused call has no effect, ids are fresh, the first version recorded under a run and a
  request id stays, and an update rewrites only the row it names. The database invariant holds at the end.\<close>

theorem run_store_refines:
  assumes "perform_all cs s = (rs, t)" and "store_ok s"
  shows "run_specs cs (run_tables s) rs (run_tables t) \<and> store_ok t"
  using assms
proof (induction cs arbitrary: s rs)
  case Nil
  then show ?case by (simp add: specs_Nil)
next
  case (Cons c cs)
  obtain r s1 where step: "perform c s = (r, s1)" by (cases "perform c s")
  obtain rs1 t1 where rest: "perform_all cs s1 = (rs1, t1)" by (cases "perform_all cs s1")
  from Cons.prems(1) step rest have "rs = r # rs1" "t1 = t" by simp_all
  with perform_refines [OF step Cons.prems(2)] Cons.IH [OF rest [unfolded \<open>t1 = t\<close>]] show ?case
    by (auto intro: specs_Cons)
qed

definition spec_row :: RunRecord where
  "spec_row = \<lparr>run_ID = 0, run_Kind = ''k'', run_OrganizationID = None, run_Status = [], run_RequestJSON = Blank,
     run_ResultJSON = Blank, run_Error = None, run_WorkflowVersion = 0, run_IdempotencyKey = None,
     run_CreatedAt = [], run_UpdatedAt = []\<rparr>"

definition spec_calls :: "run_call list" where
  "spec_calls = [CallCreate spec_row, CallAppend 1 ''q'' 2 Blank, CallAppend 1 ''q'' 3 Blank, CallVersion 1 ''q'']"

definition spec_fault :: "nat \<Rightarrow> goerr option" where
  "spec_fault n = None"

theorem run_store_refines_witness:
  "\<exists>t. perform_all spec_calls (New spec_fault (\<lambda>_. ''now'')) =
      ([Inr (AnsId 1), Inr (AnsNew True), Inr (AnsNew False), Inr (AnsVersion (Some 2))], t) \<and>
     run_specs spec_calls (run_tables (New spec_fault (\<lambda>_. ''now'')))
       [Inr (AnsId 1), Inr (AnsNew True), Inr (AnsNew False), Inr (AnsVersion (Some 2))] (run_tables t)"
proof -
  let ?p = "perform_all spec_calls (New spec_fault (\<lambda>_. ''now''))"
  have "fst ?p = [Inr (AnsId 1), Inr (AnsNew True), Inr (AnsNew False), Inr (AnsVersion (Some 2))]" by code_simp
  then have run: "?p = ([Inr (AnsId 1), Inr (AnsNew True), Inr (AnsNew False), Inr (AnsVersion (Some 2))], snd ?p)"
    by (metis prod.collapse)
  from run_store_refines [OF run store_ok_New] run show ?thesis by blast
qed

end
