(* ===== verification/Preferences.thy ===== *)
theory Preferences
  imports World
begin

text \<open>
  Repository preferences (\<open>internal/preferences/service.go\<close>): one row per organization with a
  list of repositories and an integration. A set of keys (\<open>map[string]struct{}\<close>) is a set of
  strings. A stored \<open>null\<close> decodes to no repositories.
\<close>

section \<open>Data\<close>

record Repository =
  rq_ProjectIDs :: "int list"
  rq_Provider :: string
  rq_ExternalID :: string
  rq_Owner :: string
  rq_Name :: string
  rq_IntegrationID :: "int option"

record removeRepositoryRequest =
  rm_OrganizationID :: int
  rm_RepoProvider :: string
  rm_RepoExternalID :: string

record bulkRemoveRequest =
  bm_OrganizationID :: int
  bm_Repositories :: "Repository list"

record removeHandoffsRequest =
  hm_OrganizationID :: int
  hm_IntegrationID :: int

definition enc_Repository :: "Repository \<Rightarrow> json" where
  "enc_Repository r = object [
     (''project_ids'', if rq_ProjectIDs r = [] then None else Some (JArr (map JNum (rq_ProjectIDs r)))),
     (''repo_provider'', Some (JStr (rq_Provider r))), (''repo_external_id'', Some (JStr (rq_ExternalID r))),
     (''owner'', nonempty_string (rq_Owner r)), (''name'', nonempty_string (rq_Name r)),
     (''integration_id'', map_option JNum (rq_IntegrationID r))]"

definition dec_Repository :: "json \<Rightarrow> Repository res" where
  "dec_Repository = dec_struct (\<lambda>ms.
     bindE (field ''project_ids'' (dec_array dec_int64 0) [] ms) (\<lambda>ids.
     bindE (field ''repo_provider'' dec_string [] ms) (\<lambda>p.
     bindE (field ''repo_external_id'' dec_string [] ms) (\<lambda>x.
     bindE (field ''owner'' dec_string [] ms) (\<lambda>ow.
     bindE (field ''name'' dec_string [] ms) (\<lambda>n.
     bindE (field ''integration_id'' (dec_ptr dec_int64) None ms) (\<lambda>i.
       Inr \<lparr>rq_ProjectIDs = ids, rq_Provider = p, rq_ExternalID = x, rq_Owner = ow, rq_Name = n,
            rq_IntegrationID = i\<rparr>)))))))"

definition zero_Repository :: Repository where
  "zero_Repository = \<lparr>rq_ProjectIDs = [], rq_Provider = [], rq_ExternalID = [], rq_Owner = [],
     rq_Name = [], rq_IntegrationID = None\<rparr>"

definition dec_Repositories :: "json \<Rightarrow> Repository list res" where
  "dec_Repositories j = (if j = JNull then Inr [] else dec_array dec_Repository zero_Repository j)"

definition dec_removeRepositoryRequest :: "json \<Rightarrow> removeRepositoryRequest res" where
  "dec_removeRepositoryRequest = dec_struct (\<lambda>ms.
     bindE (field ''organization_id'' dec_int64 0 ms) (\<lambda>org.
     bindE (field ''repo_provider'' dec_string [] ms) (\<lambda>p.
     bindE (field ''repo_external_id'' dec_string [] ms) (\<lambda>x.
       Inr \<lparr>rm_OrganizationID = org, rm_RepoProvider = p, rm_RepoExternalID = x\<rparr>))))"

definition dec_bulkRemoveRequest :: "json \<Rightarrow> bulkRemoveRequest res" where
  "dec_bulkRemoveRequest = dec_struct (\<lambda>ms.
     bindE (field ''organization_id'' dec_int64 0 ms) (\<lambda>org.
     bindE (field ''repositories'' (dec_array dec_Repository zero_Repository) [] ms) (\<lambda>rs.
       Inr \<lparr>bm_OrganizationID = org, bm_Repositories = rs\<rparr>)))"

definition dec_removeHandoffsRequest :: "json \<Rightarrow> removeHandoffsRequest res" where
  "dec_removeHandoffsRequest = dec_struct (\<lambda>ms.
     bindE (field ''organization_id'' dec_int64 0 ms) (\<lambda>org.
     bindE (field ''integration_id'' dec_int64 0 ms) (\<lambda>i.
       Inr \<lparr>hm_OrganizationID = org, hm_IntegrationID = i\<rparr>)))"

section \<open>Operations\<close>

definition repositoryKey :: "string \<Rightarrow> string \<Rightarrow> string" where
  "repositoryKey provider externalID = provider @ [CHR 0x00] @ externalID"

definition key_of :: "Repository \<Rightarrow> string" where
  "key_of r = repositoryKey (rq_Provider r) (rq_ExternalID r)"

text \<open>\<open>json.Unmarshal(record.ReposJSON, &repositories)\<close>\<close>

definition stored_repositories :: "ProjectPreferenceRecord \<Rightarrow> Repository list res" where
  "stored_repositories rec = (case unmarshal dec_Repositories (pp_ReposJSON rec) of
     Inl e \<Rightarrow> Inl (wrap ''decode stored repositories'' e) | Inr rs \<Rightarrow> Inr rs)"

definition RemovedSet :: "ctx \<Rightarrow> int \<Rightarrow> (string set, 't world) op" where
  "RemovedSet c organizationID =
     (if organizationID = 0 then ret {}
      else andThen (on_db c (GetProjectPreference organizationID)) (\<lambda>found. case found of
          None \<Rightarrow> ret {}
        | Some rec \<Rightarrow> andThen (liftE (stored_repositories rec)) (\<lambda>repositories.
            ret (key_of ` set repositories))))"

definition filter_repos :: "ctx \<Rightarrow> int \<Rightarrow> (Repository \<Rightarrow> bool) \<Rightarrow> (unit, 't world) op" where
  "filter_repos c organizationID drop_repo =
     andThen (on_db c (GetProjectPreference organizationID)) (\<lambda>found.
     andThen (liftE (case found of None \<Rightarrow> Inr [] | Some rec \<Rightarrow> stored_repositories rec)) (\<lambda>repositories.
       on_db c (SaveProjectPreference
         \<lparr>pp_OrganizationID = organizationID,
          pp_ReposJSON = marshal (JArr (map enc_Repository (filter (\<lambda>r. \<not> drop_repo r) repositories))),
          pp_IntegrationID = (case found of None \<Rightarrow> None | Some rec \<Rightarrow> pp_IntegrationID rec),
          pp_UpdatedAt = []\<rparr>)))"

definition RemoveRepository :: "ctx \<Rightarrow> blob \<Rightarrow> (unit, 't world) op" where
  "RemoveRepository c raw =
     andThen (decoding ''decode remove repository request'' dec_removeRepositoryRequest raw) (\<lambda>request.
       if rm_OrganizationID request = 0 then fail org_required
       else filter_repos c (rm_OrganizationID request) (\<lambda>repository.
         rq_Provider repository = rm_RepoProvider request \<and> rq_ExternalID repository = rm_RepoExternalID request))"

definition BulkRemoveRepositories :: "ctx \<Rightarrow> blob \<Rightarrow> (unit, 't world) op" where
  "BulkRemoveRepositories c raw =
     andThen (decoding ''decode bulk remove repositories request'' dec_bulkRemoveRequest raw) (\<lambda>request.
       if bm_OrganizationID request = 0 then fail org_required
       else let removed = key_of ` set (bm_Repositories request)
            in filter_repos c (bm_OrganizationID request) (\<lambda>repository. key_of repository \<in> removed))"

definition RemoveHandoffsForIntegration :: "ctx \<Rightarrow> blob \<Rightarrow> (unit, 't world) op" where
  "RemoveHandoffsForIntegration c raw =
     andThen (decoding ''decode remove handoffs request'' dec_removeHandoffsRequest raw) (\<lambda>request.
       if hm_OrganizationID request = 0 then fail org_required
       else andThen (on_db c (GetProjectPreference (hm_OrganizationID request))) (\<lambda>found. case found of
           None \<Rightarrow> ret ()
         | Some rec \<Rightarrow>
             (case pp_IntegrationID rec of
                None \<Rightarrow> ret ()
              | Some i \<Rightarrow>
                  if hm_IntegrationID request \<noteq> 0 \<and> i \<noteq> hm_IntegrationID request then ret ()
                  else on_db c (SaveProjectPreference (rec\<lparr>pp_IntegrationID := None\<rparr>)))))"

section \<open>The table\<close>

abbreviation prefs :: "'t world \<Rightarrow> int \<Rightarrow> ProjectPreferenceRecord option" where
  "prefs w \<equiv> preferences_view (db w)"

lemma prefs_id: "prefs w i = Some r \<Longrightarrow> pp_OrganizationID r = i"
  by (auto simp: preferences_view_def dest: row_at_key)

text \<open>What the service stores it reads back.\<close>

definition wf_repository :: "Repository \<Rightarrow> bool" where
  "wf_repository r \<longleftrightarrow> (\<forall>i \<in> set (rq_ProjectIDs r). fits64 i) \<and> pred_option fits64 (rq_IntegrationID r)"

lemma repository_keys:
  "fold_distinct [''project_ids'', ''repo_provider'', ''repo_external_id'', ''owner'', ''name'', ''integration_id'']"
  by code_simp

lemma dec_enc_Repository: "wf_repository r \<Longrightarrow> dec_Repository (enc_Repository r) = Inr r"
proof -
  assume wf: "wf_repository r"
  then have "dec_elems dec_int64 0 (map JNum (rq_ProjectIDs r)) = Inr (rq_ProjectIDs r)"
    by (intro dec_elems_map) (simp add: wf_repository_def dec_int64_num del: dec_int64.simps)
  with wf show ?thesis
    by (cases r) (auto simp: dec_Repository_def enc_Repository_def object_def field_object repository_keys field_ptr
        nonempty_string_def wf_repository_def pred_option_def dec_int64_num simp del: case_map_option dec_int64.simps split: if_splits)
qed

lemma enc_Repository_not_null [simp]: "enc_Repository r \<noteq> JNull"
  by (simp add: enc_Repository_def)

lemma dec_Repository_wf: "dec_Repository j = Inr r \<Longrightarrow> wf_repository r"
proof -
  have nums: "dec_elems dec_int64 0 xs = Inr ns \<Longrightarrow> n \<in> set ns \<Longrightarrow> fits64 n" for xs ns n
  proof (induction xs arbitrary: ns)
    case (Cons x xs)
    have "fits64 0" by (simp add: fits64_def)
    with Cons show ?case by (auto simp: bindE_eq_Inr split: if_split_asm dest: dec_int64_fits)
  qed simp
  have arr: "dec_array dec_int64 0 x = Inr ns \<Longrightarrow> n \<in> set ns \<Longrightarrow> fits64 n" for x ns n
    by (cases x) (auto dest: nums)
  have ids: "field k (dec_array dec_int64 0) [] ms = Inr ns \<Longrightarrow> n \<in> set ns \<Longrightarrow> fits64 n" for k ms ns n
    by (auto simp: field_def split: option.splits if_split_asm dest: arr)
  have ptr: "field k (dec_ptr dec_int64) None ms = Inr (Some n) \<Longrightarrow> fits64 n" for k ms n
    by (auto simp: field_def dec_ptr_def bindE_eq_Inr split: option.splits if_split_asm dest: dec_int64_fits)
  assume "dec_Repository j = Inr r"
  then show ?thesis
    by (cases j) (auto simp: dec_Repository_def bindE_eq_Inr wf_repository_def pred_option_def dest: ids ptr)
qed

lemma dec_Repositories_wf: "dec_Repositories j = Inr rs \<Longrightarrow> r \<in> set rs \<Longrightarrow> wf_repository r"
proof -
  have zero: "wf_repository zero_Repository"
    by (simp add: zero_Repository_def wf_repository_def)
  have "dec_elems dec_Repository zero_Repository xs = Inr rs \<Longrightarrow> r \<in> set rs \<Longrightarrow> wf_repository r" for xs
    by (induction xs arbitrary: rs) (auto simp: bindE_eq_Inr zero split: if_split_asm dest: dec_Repository_wf)
  then show "dec_Repositories j = Inr rs \<Longrightarrow> r \<in> set rs \<Longrightarrow> wf_repository r"
    by (cases j) (auto simp: dec_Repositories_def)
qed

lemma dec_enc_Repositories:
  "(\<And>r. r \<in> set rs \<Longrightarrow> wf_repository r) \<Longrightarrow> dec_Repositories (JArr (map enc_Repository rs)) = Inr rs"
  by (simp add: dec_Repositories_def dec_elems_map dec_enc_Repository)

section \<open>What the operations do\<close>

lemma stored_wf: "stored_repositories rec = Inr rs \<Longrightarrow> r \<in> set rs \<Longrightarrow> wf_repository r"
  by (cases "pp_ReposJSON rec") (auto simp: stored_repositories_def split: sum.splits dest: dec_Repositories_wf)

definition repositories_of :: "ProjectPreferenceRecord option \<Rightarrow> Repository list res" where
  "repositories_of found = (case found of None \<Rightarrow> Inr [] | Some rec \<Rightarrow> stored_repositories rec)"

lemma GetProjectPreference_w:
  "on_db c (GetProjectPreference i) w = (Inr r, w') \<Longrightarrow> r = prefs w i \<and> prefs w' = prefs w"
  by (rule preferences_w.lookup_ok)

lemma filter_repos_w:
  assumes "filter_repos c org P w = (Inr x, w')"
  obtains rs r' where "repositories_of (prefs w org) = Inr rs" "prefs w' = (prefs w)(org \<mapsto> r')"
    "stored_repositories r' = Inr (filter (\<lambda>r. \<not> P r) rs)"
    "pp_IntegrationID r' = Option.bind (prefs w org) pp_IntegrationID"
proof -
  from assms obtain found rs w1 where g: "on_db c (GetProjectPreference org) w = (Inr found, w1)"
    and rs: "repositories_of found = Inr rs"
    and s: "on_db c (SaveProjectPreference
         \<lparr>pp_OrganizationID = org, pp_ReposJSON = marshal (JArr (map enc_Repository (filter (\<lambda>r. \<not> P r) rs))),
          pp_IntegrationID = (case found of None \<Rightarrow> None | Some rec \<Rightarrow> pp_IntegrationID rec),
          pp_UpdatedAt = []\<rparr>) w1 = (Inr x, w')"
    by (auto simp: filter_repos_def andThen_eq_Inr repositories_of_def)
  have "wf_repository r" if "r \<in> set rs" for r
    using rs that by (auto simp: repositories_of_def split: option.splits dest: stored_wf)
  then have dec: "dec_Repositories (JArr (map enc_Repository (filter (\<lambda>r. \<not> P r) rs))) = Inr (filter (\<lambda>r. \<not> P r) rs)"
    by (intro dec_enc_Repositories) simp
  note read = GetProjectPreference_w [OF g]
  from preferences_w.save_ok [OF s] obtain ts where
    "prefs w' = (prefs w1)(org \<mapsto> \<lparr>pp_OrganizationID = org,
        pp_ReposJSON = marshal (JArr (map enc_Repository (filter (\<lambda>r. \<not> P r) rs))),
        pp_IntegrationID = (case found of None \<Rightarrow> None | Some rec \<Rightarrow> pp_IntegrationID rec), pp_UpdatedAt = ts\<rparr>)"
    by (auto simp: merge_preference_def)
  with read rs dec show thesis
    by (intro that [of rs]) (auto simp: stored_repositories_def marshal_def split: option.split)
qed

lemma key_inject:
  assumes "repositoryKey p x = repositoryKey q y" and "CHR 0x00 \<notin> set p" and "CHR 0x00 \<notin> set q"
  shows "p = q \<and> x = y"
proof -
  have "takeWhile (\<lambda>c. c \<noteq> CHR 0x00) (repositoryKey p x) = p" "takeWhile (\<lambda>c. c \<noteq> CHR 0x00) (repositoryKey q y) = q"
    using assms(2,3) by (auto simp: repositoryKey_def takeWhile_append)
  with assms(1) show ?thesis by (auto simp: repositoryKey_def)
qed

section \<open>Nothing is ever removed\<close>

text \<open>The service's operations in any order, and steps that leave the table alone.\<close>

inductive prefs_reachable :: "'t world \<Rightarrow> bool" where
  pr_init: "preferences_tbl (db w) = [] \<Longrightarrow> prefs_reachable w"
| pr_remove: "prefs_reachable w \<Longrightarrow> prefs_reachable (snd (RemoveRepository c raw w))"
| pr_bulk: "prefs_reachable w \<Longrightarrow> prefs_reachable (snd (BulkRemoveRepositories c raw w))"
| pr_handoffs: "prefs_reachable w \<Longrightarrow> prefs_reachable (snd (RemoveHandoffsForIntegration c raw w))"
| pr_other: "prefs_reachable w \<Longrightarrow> preferences_tbl (db w') = preferences_tbl (db w) \<Longrightarrow> prefs_reachable w'"

definition blank_prefs :: "'t world \<Rightarrow> bool" where
  "blank_prefs w \<longleftrightarrow> (\<forall>i r. prefs w i = Some r \<longrightarrow> stored_repositories r = Inr [] \<and> pp_IntegrationID r = None)"

lemma blank_filter_repos: "keeps blank_prefs (filter_repos c org P)"
proof (rule keepsI)
  fix w :: "'t world" assume blank: "blank_prefs w"
  obtain res w' where run: "filter_repos c org P w = (res, w')" by (cases "filter_repos c org P w")
  have "all_or_nothing (\<lambda>w. prefs w) (filter_repos c org P :: (unit, 't world) op)"
    unfolding filter_repos_def
    by (intro all_or_nothing_andThen preferences_w.lookup_readonly preferences_w.save_err readonly_liftE)
  then have err: "prefs w' = prefs w" if "res = Inl e" for e
    using run that by (auto dest: all_or_nothingD)
  show "blank_prefs (snd (filter_repos c org P w))"
  proof (cases res)
    case (Inl e)
    with err blank run show ?thesis by (simp add: blank_prefs_def)
  next
    case (Inr u)
    with run have "filter_repos c org P w = (Inr u, w')" by simp
    then obtain rs r' where "repositories_of (prefs w org) = Inr rs" "prefs w' = (prefs w)(org \<mapsto> r')"
      "stored_repositories r' = Inr (filter (\<lambda>r. \<not> P r) rs)" "pp_IntegrationID r' = Option.bind (prefs w org) pp_IntegrationID"
      by (rule filter_repos_w)
    with blank run show ?thesis
      by (auto simp: blank_prefs_def repositories_of_def split: option.splits if_splits)
  qed
qed

lemma yields_preference:
  "yields blank_prefs (on_db c (GetProjectPreference i)) (\<lambda>found. \<forall>r. found = Some r \<longrightarrow> pp_IntegrationID r = None)"
proof (rule yieldsI)
  show "keeps blank_prefs (on_db c (GetProjectPreference i))"
    unfolding keeps_def blank_prefs_def
    by (metis preferences_w.lookup_readonly readonly_def)
  show "\<forall>r. x = Some r \<longrightarrow> pp_IntegrationID r = None"
    if "blank_prefs w" "on_db c (GetProjectPreference i) w = (Inr x, w')" for w x w'
    using GetProjectPreference_w [OF that(2)] that(1) by (auto simp: blank_prefs_def)
qed

lemma blank_handoffs: "keeps blank_prefs (RemoveHandoffsForIntegration c raw)"
  unfolding RemoveHandoffsForIntegration_def decoding_def
  by (intro keeps_andThen keeps_liftE keeps_if keeps_fail keeps_yields [OF yields_preference] keeps_option keeps_ret) auto

lemma reachable_blank: "prefs_reachable w \<Longrightarrow> blank_prefs w"
proof (induction rule: prefs_reachable.induct)
  case (pr_init w)
  then show ?case by (simp add: blank_prefs_def preferences_view_def)
next
  case (pr_remove w c raw)
  have "keeps blank_prefs (RemoveRepository c raw)"
    unfolding RemoveRepository_def decoding_def by (intro keeps_intro blank_filter_repos)
  with pr_remove show ?case by (blast dest: keepsD)
next
  case (pr_bulk w c raw)
  have "keeps blank_prefs (BulkRemoveRepositories c raw)"
    unfolding BulkRemoveRepositories_def decoding_def Let_def by (intro keeps_intro blank_filter_repos)
  with pr_bulk show ?case by (blast dest: keepsD)
next
  case (pr_handoffs w c raw)
  with blank_handoffs show ?case by (blast dest: keepsD)
next
  case (pr_other w w')
  then show ?case by (simp add: blank_prefs_def preferences_view_def)
qed

section \<open>Properties\<close>

lemma Remove_run:
  assumes "RemoveRepository c raw w = (Inr x, w')" and "unmarshal dec_removeRepositoryRequest raw = Inr rq"
  shows "rm_OrganizationID rq \<noteq> 0 \<and> filter_repos c (rm_OrganizationID rq) (\<lambda>repository.
    rq_Provider repository = rm_RepoProvider rq \<and> rq_ExternalID repository = rm_RepoExternalID rq) w = (Inr x, w')"
  using assms unfolding RemoveRepository_def andThen_eq_Inr [of "decoding _ _ _"] decoding_eq
  by (auto split: if_split_asm)

lemma Bulk_run:
  assumes "BulkRemoveRepositories c raw w = (Inr x, w')" and "unmarshal dec_bulkRemoveRequest raw = Inr rq"
  shows "bm_OrganizationID rq \<noteq> 0 \<and> filter_repos c (bm_OrganizationID rq)
    (\<lambda>repository. key_of repository \<in> key_of ` set (bm_Repositories rq)) w = (Inr x, w')"
  using assms unfolding BulkRemoveRepositories_def andThen_eq_Inr [of "decoding _ _ _"] decoding_eq Let_def
  by (auto split: if_split_asm)

text \<open>A bulk removal drops exactly the repositories it names. After it succeeds the organization's row holds, in their
  order, the stored repositories whose provider and external id are those of no named repository, with the
  integration it had; no other organization's row changes. The pair is joined by a NUL byte, so the
  statement asks for providers without one.\<close>

theorem bulk_removal_drops_named:
  assumes "BulkRemoveRepositories c raw w = (Inr x, w')" and "unmarshal dec_bulkRemoveRequest raw = Inr rq"
    and "repositories_of (prefs w (bm_OrganizationID rq)) = Inr rs"
    and "\<And>r. r \<in> set rs \<union> set (bm_Repositories rq) \<Longrightarrow> CHR 0x00 \<notin> set (rq_Provider r)"
  shows "\<exists>r'. prefs w' = (prefs w)(bm_OrganizationID rq \<mapsto> r') \<and> bm_OrganizationID rq \<noteq> 0 \<and>
    stored_repositories r' = Inr (filter (\<lambda>r. \<forall>q \<in> set (bm_Repositories rq).
      (rq_Provider r, rq_ExternalID r) \<noteq> (rq_Provider q, rq_ExternalID q)) rs) \<and>
    pp_IntegrationID r' = Option.bind (prefs w (bm_OrganizationID rq)) pp_IntegrationID"
proof -
  from Bulk_run [OF assms(1,2)] have org: "bm_OrganizationID rq \<noteq> 0" and
    "filter_repos c (bm_OrganizationID rq) (\<lambda>repository. key_of repository \<in> key_of ` set (bm_Repositories rq)) w = (Inr x, w')"
    by auto
  from this(2) obtain r' where r': "prefs w' = (prefs w)(bm_OrganizationID rq \<mapsto> r')"
    "stored_repositories r' = Inr (filter (\<lambda>r. key_of r \<notin> key_of ` set (bm_Repositories rq)) rs)"
    "pp_IntegrationID r' = Option.bind (prefs w (bm_OrganizationID rq)) pp_IntegrationID"
    by (rule filter_repos_w) (use assms(3) in simp)
  have same: "key_of r = key_of q \<longleftrightarrow> (rq_Provider r, rq_ExternalID r) = (rq_Provider q, rq_ExternalID q)"
    if "r \<in> set rs" "q \<in> set (bm_Repositories rq)" for r q
    using that assms(4) by (auto simp: key_of_def dest: key_inject)
  have "filter (\<lambda>r. key_of r \<notin> key_of ` set (bm_Repositories rq)) rs = filter (\<lambda>r. \<forall>q \<in> set (bm_Repositories rq).
      (rq_Provider r, rq_ExternalID r) \<noteq> (rq_Provider q, rq_ExternalID q)) rs"
    using same by (intro filter_cong) auto
  with r' org show ?thesis by auto
qed

definition sample_repository :: "string \<Rightarrow> Repository" where
  "sample_repository x = zero_Repository\<lparr>rq_Provider := ''github'', rq_ExternalID := x\<rparr>"

definition prefs_world :: "nat world" where
  "prefs_world = (start_world no_fault (answering []))\<lparr>db := (New no_fault (\<lambda>_. ''now''))\<lparr>preferences_tbl :=
     [\<lparr>pp_OrganizationID = 1, pp_ReposJSON = marshal (JArr (map enc_Repository [sample_repository ''1'', sample_repository ''2''])),
       pp_IntegrationID = Some 5, pp_UpdatedAt = []\<rparr>]\<rparr>\<rparr>"

definition bulk_request :: blob where
  "bulk_request = Doc (JObj [(''organization_id'', JNum 1), (''repositories'', JArr [enc_Repository (sample_repository ''1'')])])"

lemma bulk_decoded: "unmarshal dec_bulkRemoveRequest bulk_request =
    Inr \<lparr>bm_OrganizationID = 1, bm_Repositories = [sample_repository ''1'']\<rparr>"
  by code_simp

lemma bulk_runs: "fst (BulkRemoveRepositories None bulk_request prefs_world) = Inr ()"
  by code_simp

lemma prefs_world_rows: "repositories_of (prefs prefs_world 1) = Inr [sample_repository ''1'', sample_repository ''2'']"
  by code_simp

theorem bulk_removal_drops_named_witness:
  "\<exists>w' r'. BulkRemoveRepositories None bulk_request prefs_world = (Inr (), w') \<and> prefs w' 1 = Some r' \<and>
     stored_repositories r' = Inr [sample_repository ''2'']"
proof -
  obtain w' where run: "BulkRemoveRepositories None bulk_request prefs_world = (Inr (), w')"
    using bulk_runs by (cases "BulkRemoveRepositories None bulk_request prefs_world") simp
  let ?rs = "[sample_repository ''1'', sample_repository ''2'']"
  have nul: "CHR 0x00 \<notin> set (rq_Provider r)" if "r \<in> set ?rs \<union> set [sample_repository ''1'']" for r
    using that by (auto simp: sample_repository_def)
  from bulk_removal_drops_named [OF run bulk_decoded, unfolded bulkRemoveRequest.simps, OF prefs_world_rows nul]
  obtain r' where "prefs w' = (prefs prefs_world)(1 \<mapsto> r')" "stored_repositories r' = Inr (filter (\<lambda>r. \<forall>q \<in> set [sample_repository ''1''].
      (rq_Provider r, rq_ExternalID r) \<noteq> (rq_Provider q, rq_ExternalID q)) ?rs)" by blast
  with run show ?thesis by (auto simp: sample_repository_def)
qed

end
