(* ===== verification/Investigations.thy ===== *)
theory Investigations
  imports Runs JsonText
begin

text \<open>
  Investigation runs (\<open>internal/investigations/service.go\<close>): \<open>Create\<close>, \<open>Command\<close>, \<open>Get\<close>, and
  the task that advances a run by one step of the model. The task is the sequence of its
  read (\<open>advance_read\<close>) and the rest (\<open>advance_finish\<close>: the model call and the write), so that
  commands can be interleaved between them.
\<close>

section \<open>Requests, responses and prompts\<close>

record createRequest =
  cq_RequestID :: string
  cq_InvestigationID :: int
  cq_Source :: string
  cq_ActiveTimeBudgetSeconds :: int
  cq_MonitoringProviders :: "json gomap list"

record commandRequest =
  mq_RequestID :: string
  mq_ExpectedWorkflowVersion :: int
  mq_Command :: "json gomap option"
  mq_MonitoringProviders :: "json gomap list"

record RunResponse =
  ir_RunID :: int
  ir_Created :: bool
  ir_Projection :: "json gomap option"

record CommandResponse =
  ic_RunID :: int
  ic_RequestID :: string
  ic_Accepted :: bool
  ic_Duplicate :: bool
  ic_WorkflowVersion :: int64
  ic_Projection :: "json gomap option"

definition dec_createRequest :: "json \<Rightarrow> createRequest res" where
  "dec_createRequest = dec_struct (\<lambda>ms.
     bindE (field ''requestId'' dec_string [] ms) (\<lambda>q.
     bindE (field ''investigationId'' dec_int64 0 ms) (\<lambda>i.
     bindE (field ''source'' dec_string [] ms) (\<lambda>src.
     bindE (field ''activeTimeBudgetSeconds'' dec_int64 0 ms) (\<lambda>b.
     bindE (field ''monitoringProviders'' (dec_array dec_anymap []) [] ms) (\<lambda>p.
       Inr \<lparr>cq_RequestID = q, cq_InvestigationID = i, cq_Source = src,
            cq_ActiveTimeBudgetSeconds = b, cq_MonitoringProviders = p\<rparr>))))))"

definition dec_commandRequest :: "json \<Rightarrow> commandRequest res" where
  "dec_commandRequest = dec_struct (\<lambda>ms.
     bindE (field ''requestId'' dec_string [] ms) (\<lambda>q.
     bindE (field ''expectedWorkflowVersion'' dec_int64 0 ms) (\<lambda>v.
     bindE (field ''command'' (dec_ptr dec_anymap) None ms) (\<lambda>c.
     bindE (field ''monitoringProviders'' (dec_array dec_anymap []) [] ms) (\<lambda>p.
       Inr \<lparr>mq_RequestID = q, mq_ExpectedWorkflowVersion = v, mq_Command = c,
            mq_MonitoringProviders = p\<rparr>)))))"

definition investigationSystemPrompt :: string where
  "investigationSystemPrompt = ''You are an incident investigation orchestrator. Given the investigation context, state the most useful next diagnostic step and what you expect to learn. Answer in at most four sentences.''"

definition startupPrompt :: "createRequest \<Rightarrow> string" where
  "startupPrompt request =
     ''Investigation '' @ FormatInt (cq_InvestigationID request) @ '' was opened (source: '' @
     cq_Source request @ '', active time budget: '' @ FormatInt (cq_ActiveTimeBudgetSeconds request) @ ''s).'' @
     (if cq_MonitoringProviders request \<noteq> []
      then '' Monitoring providers: '' @ json_text (canon (JArr (map JObj (cq_MonitoringProviders request)))) @ ''.''
      else []) @
     '' Propose the investigation plan.''"

definition commandPrompt :: "json gomap option \<Rightarrow> string" where
  "commandPrompt command =
     ''A command was submitted: '' @ map_text command @ ''. Describe the next diagnostic step and its expected outcome.''"

definition withCommand :: "json gomap option \<Rightarrow> json gomap option \<Rightarrow> int64 \<Rightarrow> json gomap" where
  "withCommand projection command version =
     mput ''status'' (JStr ''processing'')
       (mput ''workflow_version'' (JNum (sint version))
         (mput ''last_command'' (case command of None \<Rightarrow> JNull | Some m \<Rightarrow> JObj m)
           (case projection of None \<Rightarrow> [] | Some p \<Rightarrow> p)))"

section \<open>Tasks\<close>

text \<open>The closure \<open>advanceTask(prompt)\<close>.\<close>

datatype inv_task = advanceTask string

definition advance_read :: "ctx \<Rightarrow> int \<Rightarrow> (RunRecord, 't world) op" where
  "advance_read c runID =
     andThen (runs_Get c runID) (\<lambda>found. case found of
         None \<Rightarrow> fail (errorf (''investigation run '' @ FormatInt runID @ '' not found''))
       | Some rec \<Rightarrow> ret rec)"

definition answered :: "json gomap \<Rightarrow> string \<Rightarrow> int64 \<Rightarrow> json gomap" where
  "answered projection answer version =
     mput ''workflow_version'' (JNum (sint version))
       (mput ''status'' (JStr ''awaiting_command'') (mput ''summary'' (JStr answer) projection))"

definition advance_finish :: "ctx \<Rightarrow> string \<Rightarrow> int \<Rightarrow> RunRecord \<Rightarrow> (unit, 't world) op" where
  "advance_finish c prompt runID rec = (\<lambda>w.
     case CompleteText c investigationSystemPrompt prompt 700 w of
       (Inl e, w1) \<Rightarrow> Fail runID e w1
     | (Inr answer, w1) \<Rightarrow>
         (case Projection (Some rec) of
            None \<Rightarrow> (Inl nil_map_panic, w1)
          | Some p \<Rightarrow> UpdateProjection None runID (answered p answer (run_WorkflowVersion rec)) w1))"

definition advance :: "ctx \<Rightarrow> inv_task \<Rightarrow> int \<Rightarrow> (unit, inv_task world) op" where
  "advance c t runID = (case t of advanceTask prompt \<Rightarrow>
     andThen (advance_read c runID) (advance_finish c prompt runID))"

section \<open>Service operations\<close>

definition new_investigation :: "blob \<Rightarrow> string \<Rightarrow> RunRecord" where
  "new_investigation raw requestID =
     \<lparr>run_ID = 0, run_Kind = KindInvestigation, run_OrganizationID = None,
      run_Status = RunStatusProcessing, run_RequestJSON = raw, run_ResultJSON = Blank,
      run_Error = None, run_WorkflowVersion = 0, run_IdempotencyKey = Some requestID,
      run_CreatedAt = [], run_UpdatedAt = []\<rparr>"

definition Create :: "ctx \<Rightarrow> blob \<Rightarrow> (RunResponse, inv_task world) op" where
  "Create c raw =
     andThen (liftE (case unmarshal dec_createRequest raw of
         Inl e \<Rightarrow> Inl (wrap ''decode investigation create request'' e) | Inr q \<Rightarrow> Inr q)) (\<lambda>request.
     if TrimSpace (cq_RequestID request) = [] then fail (errorf ''requestId is required'')
     else andThen (FindByIdempotencyKey c KindInvestigation (cq_RequestID request)) (\<lambda>existing.
       case existing of
         Some rec \<Rightarrow> ret \<lparr>ir_RunID = run_ID rec, ir_Created = False, ir_Projection = Projection (Some rec)\<rparr>
       | None \<Rightarrow>
           andThen (runs_Start advance c
               (new_investigation raw (cq_RequestID request))
               (Some (advanceTask (startupPrompt request)))) (\<lambda>run.
             ret \<lparr>ir_RunID = run_ID run, ir_Created = True, ir_Projection = Some []\<rparr>)))"

definition command_template :: "int \<Rightarrow> RunRecord" where
  "command_template runID =
     \<lparr>run_ID = runID, run_Kind = KindInvestigation, run_OrganizationID = None,
      run_Status = RunStatusProcessing, run_RequestJSON = Blank, run_ResultJSON = Blank,
      run_Error = None, run_WorkflowVersion = 1, run_IdempotencyKey = None,
      run_CreatedAt = [], run_UpdatedAt = []\<rparr>"

definition Command :: "ctx \<Rightarrow> int \<Rightarrow> string \<Rightarrow> blob \<Rightarrow> (CommandResponse, inv_task world) op" where
  "Command c runID requestID raw =
     andThen (liftE (case unmarshal dec_commandRequest raw of
         Inl e \<Rightarrow> Inl (wrap ''decode investigation command request'' e) | Inr q \<Rightarrow> Inr q)) (\<lambda>request.
     if TrimSpace requestID = [] then fail (errorf ''requestId is required'')
     else andThen (AcceptCommand c (command_template runID) requestID
         (word_of_int (mq_ExpectedWorkflowVersion request))) (\<lambda>result.
       if ar_Duplicate result then
         ret \<lparr>ic_RunID = runID, ic_RequestID = requestID, ic_Accepted = True, ic_Duplicate = True,
              ic_WorkflowVersion = ar_Version result, ic_Projection = Projection (Some (ar_Record result))\<rparr>
       else
         let projection = withCommand (Projection (Some (ar_Record result))) (mq_Command request) (ar_Version result) in
         andThen (UpdateProjection c runID projection) (\<lambda>_.
         andThen (Dispatch advance (run_Kind (ar_Record result)) runID
             (Some (advanceTask (commandPrompt (mq_Command request))))) (\<lambda>_.
           ret \<lparr>ic_RunID = runID, ic_RequestID = requestID, ic_Accepted = True, ic_Duplicate = False,
                ic_WorkflowVersion = ar_Version result, ic_Projection = Some projection\<rparr>))))"

definition inv_Get :: "ctx \<Rightarrow> int \<Rightarrow> (RunResponse, inv_task world) op" where
  "inv_Get c runID =
     andThen (runs_Get c runID) (\<lambda>rec.
       ret \<lparr>ir_RunID = runID, ir_Created = (rec \<noteq> None), ir_Projection = Projection rec\<rparr>)"

section \<open>Retried creates\<close>

definition keyed :: "string \<Rightarrow> string \<Rightarrow> RunRecord \<Rightarrow> bool" where
  "keyed kind key r \<longleftrightarrow> run_Kind r = kind \<and> run_IdempotencyKey r = Some key"

lemma blind_runs_tbl [simp]: "blind runs_tbl"
  by (simp add: blind_def)

lemma FindByIdempotencyKey_w:
  assumes "FindByIdempotencyKey c kind key w = (Inr found, w')" and "key \<noteq> []"
  shows "found = first_row (select_asc run_ID (keyed kind key) (runs_tbl (db w))) \<and>
    runs_tbl (db w') = runs_tbl (db w) \<and> mgr w' = mgr w"
proof -
  have run: "on_db c (FindRunByIdempotencyKey kind key) w = (Inr found, w')"
    using assms(1) by (simp add: FindByIdempotencyKey_def)
  have "keyed kind key = (\<lambda>r. run_Kind r = kind \<and> run_IdempotencyKey r = Some key)"
    by (simp add: keyed_def fun_eq_iff)
  with on_db_run [OF run blind_runs_tbl] on_db_frameD [OF run] assms(2) show ?thesis
    by (auto simp: FindRunByIdempotencyKey_def stmt_Inr)
qed

lemma CreateRun_w:
  assumes "on_db c (CreateRun rec) w = (Inr i, w')"
  shows "\<exists>ts. runs_tbl (db w') = runs_tbl (db w) @ [fresh_run ts i rec] \<and> mgr w' = mgr w"
proof -
  obtain s t where "CreateRun rec s = (Inr i, t)" and "runs_tbl s = runs_tbl (db w)"
    and "runs_tbl (db w') = runs_tbl t"
    using on_db_run [OF assms blind_runs_tbl] by auto
  with on_db_frameD [OF assms] show ?thesis
    by (cases "next_id (seq_runs s)") (auto simp: CreateRun_def Let_def stmt_Inr fresh_run_row)
qed

lemma Create_cases:
  assumes "Create c raw w = (Inr a, w')" and "mgr w = Some m"
  obtains (existing) q r where "unmarshal dec_createRequest raw = Inr q"
      "first_row (select_asc run_ID (keyed KindInvestigation (cq_RequestID q)) (runs_tbl (db w))) = Some r"
      "a = \<lparr>ir_RunID = run_ID r, ir_Created = False, ir_Projection = Projection (Some r)\<rparr>"
      "runs_tbl (db w') = runs_tbl (db w)" "mgr w' = mgr w" "TrimSpace (cq_RequestID q) \<noteq> []"
  | (created) q r i where "unmarshal dec_createRequest raw = Inr q" "TrimSpace (cq_RequestID q) \<noteq> []"
      "first_row (select_asc run_ID (keyed KindInvestigation (cq_RequestID q)) (runs_tbl (db w))) = None"
      "a = \<lparr>ir_RunID = i, ir_Created = True, ir_Projection = Some []\<rparr>"
      "runs_tbl (db w') = runs_tbl (db w) @ [r]" "run_ID r = i" "keyed KindInvestigation (cq_RequestID q) r"
      "run_Status r = RunStatusProcessing" "run_RequestJSON r = raw" "run_WorkflowVersion r = 1"
      "mgr w' = Some (mgr_Start (run_key KindInvestigation i) (advanceTask (startupPrompt q), i) m)"
proof -
  from assms(1) obtain q where q: "unmarshal dec_createRequest raw = Inr q"
    and trim: "TrimSpace (cq_RequestID q) \<noteq> []"
    by (auto simp: Create_def andThen_def split: sum.splits if_splits prod.splits)
  then have key: "cq_RequestID q \<noteq> []" by auto
  from assms(1) q trim obtain found w1 where
    f: "FindByIdempotencyKey c KindInvestigation (cq_RequestID q) w = (Inr found, w1)"
    and rest: "(case found of Some rec \<Rightarrow> ret \<lparr>ir_RunID = run_ID rec, ir_Created = False, ir_Projection = Projection (Some rec)\<rparr>
       | None \<Rightarrow> andThen (runs_Start advance c
               (new_investigation raw (cq_RequestID q))
               (Some (advanceTask (startupPrompt q)))) (\<lambda>run.
             ret \<lparr>ir_RunID = run_ID run, ir_Created = True, ir_Projection = Some []\<rparr>)) w1 = (Inr a, w')"
    by (auto simp: Create_def andThen_eq_Inr)
  note find = FindByIdempotencyKey_w [OF f key]
  show thesis
  proof (cases found)
    case (Some r)
    with rest have "a = \<lparr>ir_RunID = run_ID r, ir_Created = False, ir_Projection = Projection (Some r)\<rparr>"
      and "w' = w1" by simp_all
    with Some find show thesis by (intro existing [OF q _ _ _ _ trim]) simp_all
  next
    case None
    with rest obtain i w2 where i: "on_db c (CreateRun (new_investigation raw (cq_RequestID q))) w1 = (Inr i, w2)"
      and a: "a = \<lparr>ir_RunID = i, ir_Created = True, ir_Projection = Some []\<rparr>"
      and d: "dispatch advance KindInvestigation i (Some (advanceTask (startupPrompt q))) w2 = (Inr (), w')"
      by (auto simp: runs_Start_def andThen_eq_Inr new_investigation_def)
    from CreateRun_w [OF i] find obtain ts where tbl: "runs_tbl (db w2) = runs_tbl (db w) @
        [fresh_run ts i (new_investigation raw (cq_RequestID q))]" and m: "mgr w2 = Some m"
      using assms(2) by auto
    from d dispatch_managed [OF m, of advance KindInvestigation i "advanceTask (startupPrompt q)"]
    have w': "w' = w2\<lparr>mgr := Some (mgr_Start (run_key KindInvestigation i) (advanceTask (startupPrompt q), i) m)\<rparr>"
      by simp
    show thesis
      by (rule created [OF q trim _ a])
        (use None find tbl w' in \<open>auto simp: keyed_def fresh_run_def new_investigation_def status_defs\<close>)
  qed
qed

section \<open>Commands\<close>

lemma readonly_mgr_on_db [effect_intro]: "readonly mgr (on_db c m)"
  by (simp add: readonly_def)

lemma readonly_mgr_Accept: "readonly mgr (AcceptCommand c tmpl q e)"
  unfolding AcceptCommand_def accept_lookup_def accept_record_def Let_def case_prod_unfold
  by (intro effect_intro)

lemma readonly_mgr_UpdateProjection: "readonly mgr (UpdateProjection c i p)"
  unfolding UpdateProjection_def by (intro effect_intro)

lemma mgr_AcceptCommand: "AcceptCommand c tmpl q e w = (r, w') \<Longrightarrow> mgr w' = mgr w"
  using readonly_mgr_Accept by (rule readonlyD)

lemma mgr_UpdateProjection: "UpdateProjection c i p w = (r, w') \<Longrightarrow> mgr w' = mgr w"
  using readonly_mgr_UpdateProjection by (rule readonlyD)

lemma Command_cases:
  assumes "Command c i q raw w = (Inr a, w')" and m: "mgr w = Some m"
  obtains (duplicate) req res where "unmarshal dec_commandRequest raw = Inr req"
      "AcceptCommand c (command_template i) q (word_of_int (mq_ExpectedWorkflowVersion req)) w = (Inr res, w')"
      "ar_Duplicate res"
      "a = \<lparr>ic_RunID = i, ic_RequestID = q, ic_Accepted = True, ic_Duplicate = True,
        ic_WorkflowVersion = ar_Version res, ic_Projection = Projection (Some (ar_Record res))\<rparr>"
  | (accepted) req res w1 w2 x where "unmarshal dec_commandRequest raw = Inr req"
      "AcceptCommand c (command_template i) q (word_of_int (mq_ExpectedWorkflowVersion req)) w = (Inr res, w1)"
      "\<not> ar_Duplicate res"
      "UpdateProjection c i (withCommand (Projection (Some (ar_Record res))) (mq_Command req) (ar_Version res)) w1 = (Inr x, w2)"
      "w' = w2\<lparr>mgr := Some (mgr_Start (run_key (run_Kind (ar_Record res)) i)
         (advanceTask (commandPrompt (mq_Command req)), i) m)\<rparr>"
      "a = \<lparr>ic_RunID = i, ic_RequestID = q, ic_Accepted = True, ic_Duplicate = False,
        ic_WorkflowVersion = ar_Version res,
        ic_Projection = Some (withCommand (Projection (Some (ar_Record res))) (mq_Command req) (ar_Version res))\<rparr>"
proof -
  from assms(1) obtain req where req: "unmarshal dec_commandRequest raw = Inr req"
    and trim: "TrimSpace q \<noteq> []"
    by (auto simp: Command_def andThen_def split: sum.splits if_splits prod.splits)
  with assms(1) obtain res w1 where
    acc: "AcceptCommand c (command_template i) q (word_of_int (mq_ExpectedWorkflowVersion req)) w = (Inr res, w1)"
    by (auto simp: Command_def andThen_eq_Inr)
  show thesis
  proof (cases "ar_Duplicate res")
    case True
    with assms(1) req trim acc have "w' = w1" and
      "a = \<lparr>ic_RunID = i, ic_RequestID = q, ic_Accepted = True, ic_Duplicate = True,
        ic_WorkflowVersion = ar_Version res, ic_Projection = Projection (Some (ar_Record res))\<rparr>"
      by (auto simp: Command_def andThen_def)
    with True req acc show thesis by (intro duplicate) auto
  next
    case False
    let ?p = "withCommand (Projection (Some (ar_Record res))) (mq_Command req) (ar_Version res)"
    from assms(1) req trim acc False obtain x w2 y where up: "UpdateProjection c i ?p w1 = (Inr x, w2)"
      and d: "dispatch advance (run_Kind (ar_Record res)) i (Some (advanceTask (commandPrompt (mq_Command req)))) w2
        = (Inr y, w')"
      and a: "a = \<lparr>ic_RunID = i, ic_RequestID = q, ic_Accepted = True, ic_Duplicate = False,
        ic_WorkflowVersion = ar_Version res, ic_Projection = Some ?p\<rparr>"
      by (auto simp: Command_def andThen_def Dispatch_def Let_def split: prod.splits sum.splits)
    have "mgr w2 = Some m"
      using acc up m mgr_AcceptCommand mgr_UpdateProjection by metis
    with d have "w' = w2\<lparr>mgr := Some (mgr_Start (run_key (run_Kind (ar_Record res)) i)
         (advanceTask (commandPrompt (mq_Command req)), i) m)\<rparr>"
      by (simp add: dispatch_managed)
    with accepted [OF req acc False up _ a] show thesis by blast
  qed
qed

lemma wf_decode_map: "decode_map b = Some p \<Longrightarrow> wf_map p"
  by (cases b rule: decode_map.cases) auto

lemma wf_withCommand:
  assumes "\<And>p. m = Some p \<Longrightarrow> wf_map p" shows "wf_map (withCommand m command v)"
  unfolding withCommand_def by (intro wf_map_mput) (use assms in \<open>auto split: option.splits\<close>)

lemma wf_Projection: "Projection rec = Some p \<Longrightarrow> wf_map p"
  by (auto simp: Projection_def wf_decode_map split: option.splits)

lemma Projection_stored:
  "wf_map p \<Longrightarrow> run_ResultJSON r = Doc (JObj p) \<Longrightarrow> Projection (Some r) = Some p"
  by (simp add: Projection_def of_members_wf)

lemma UpdateProjection_tables:
  assumes "UpdateProjection c i p w = (Inr x, w')"
  shows "\<exists>r ts. runs_of w i = Some r \<and> commands_of w' = commands_of w \<and> runs_of w' = (runs_of w)(i \<mapsto>
    r\<lparr>run_ResultJSON := Doc (JObj p), run_UpdatedAt := ts\<rparr>)"
proof -
  have "commands_of w' = commands_of w"
  proof -
    from assms obtain r w1 where g: "on_db c (GetRun i) w = (Inr (Some r), w1)"
      and u: "on_db c (UpdateRun (r\<lparr>run_ResultJSON := marshal (JObj p)\<rparr>)) w1 = (Inr x, w')"
      by (auto simp: UpdateProjection_def andThen_eq_Inr split: option.splits)
    from GetRun_w [OF g] UpdateRun_w [OF u] show ?thesis by auto
  qed
  with UpdateProjection_row [OF assms] runs_of_id show ?thesis by blast
qed

lemma Command_dispatch:
  assumes "Command c i q raw w = (Inr a, w1)" and "mgr w = Some m" and new: "\<not> ic_Duplicate a"
    and row: "\<And>r. runs_of w i = Some r \<Longrightarrow> run_Kind r = KindInvestigation"
  shows "\<exists>t r1. mgr w1 = Some (mgr_Start (run_key KindInvestigation i) t m) \<and> runs_of w1 i = Some r1 \<and>
    run_Kind r1 = KindInvestigation \<and> driver w1 = driver w"
  using assms(1,2)
proof (cases rule: Command_cases)
  case (accepted req res u1 u2 x)
  have id: "run_ID (command_template i) = i" by (simp add: command_template_def)
  have "commands_of w (i, q) = None"
    using AcceptCommand_duplicate [OF accepted(2)] accepted(3) id by (cases "commands_of w (i, q)") auto
  then obtain ts where f: "runs_of u1 = (runs_of w)(i \<mapsto> (ar_Record res)\<lparr>run_UpdatedAt := ts\<rparr>)"
    using AcceptCommand_fresh [OF accepted(2)] id by auto
  have k: "run_Kind (ar_Record res) = KindInvestigation"
    using AcceptCommand_kind [OF accepted(2)] row by (auto simp: command_template_def split: option.splits)
  have "driver u2 = driver w"
    using readonlyD [OF driver_UpdateProjection accepted(4)] readonlyD [OF driver_AcceptCommand accepted(2)] by simp
  with accepted(5) UpdateProjection_tables [OF accepted(4)] f k show ?thesis by (auto simp: driver_def)
qed (use new in simp)

lemma Command_error_mgr:
  assumes "Command c i q raw w = (Inl e, w1)" and "mgr w = Some m" shows "mgr w1 = Some m"
  using assms
  by (auto simp: Command_def andThen_def Dispatch_def dispatch_managed Let_def
      dest!: mgr_AcceptCommand mgr_UpdateProjection split: prod.splits sum.splits if_splits)

section \<open>Properties\<close>

text \<open>A retried create is not a new run. When two creates carry the same request id, the
  second answers the run of the first, not created, and starts nothing: no row is added and
  the run manager is left as it was.\<close>

theorem Create_retry:
  assumes first: "Create c raw w = (Inr a, w1)" and m: "mgr w = Some m"
    and again: "Create d raw' w1 = (Inr b, w2)"
    and q: "unmarshal dec_createRequest raw = Inr q" and q': "unmarshal dec_createRequest raw' = Inr q'"
    and same: "cq_RequestID q' = cq_RequestID q"
  shows "ir_RunID b = ir_RunID a \<and> \<not> ir_Created b \<and> runs_tbl (db w2) = runs_tbl (db w1) \<and> mgr w2 = mgr w1"
proof -
  let ?P = "keyed KindInvestigation (cq_RequestID q)"
  obtain m1 r where m1: "mgr w1 = Some m1"
    and r: "first_row (select_asc run_ID ?P (runs_tbl (db w1))) = Some r" "run_ID r = ir_RunID a"
    using first m
  proof (cases rule: Create_cases)
    case (existing p r)
    with q m show thesis by (intro that [of m r]) auto
  next
    case (created p r i)
    then have "filter ?P (runs_tbl (db w)) = []" "?P r"
      using q by (auto simp: first_row_None select_asc_def dest: arg_cong [of _ _ length])
    with created q show thesis by (intro that) (auto simp: select_asc_def)
  qed
  from again m1 show ?thesis
  proof (cases rule: Create_cases)
    case (existing p x)
    with q' same r m1 show ?thesis by auto
  next
    case (created p x i)
    with q' same r show ?thesis by auto
  qed
qed

abbreviation inv_world :: "inv_task world" where
  "inv_world \<equiv> start_world no_fault (answering ''ok'')"

definition sample_create :: blob where
  "sample_create = Doc (JObj [(''requestId'', JStr ''r1''), (''investigationId'', JNum 3)])"

theorem Create_retry_witness:
  "(case fst (Create None sample_create (snd (Create None sample_create inv_world))) of
      Inr b \<Rightarrow> ir_RunID b = 1 \<and> \<not> ir_Created b | Inl e \<Rightarrow> False)"
proof -
  let ?a = "Create None sample_create inv_world" and ?b = "Create None sample_create (snd (Create None sample_create inv_world))"
  have a: "fst ?a = Inr \<lparr>ir_RunID = 1, ir_Created = True, ir_Projection = Some []\<rparr>" by code_simp
  have "isl (fst ?b) = False" by code_simp
  then obtain b where b: "fst ?b = Inr b" by (metis isl_def sum.exhaust)
  have q: "unmarshal dec_createRequest sample_create = Inr \<lparr>cq_RequestID = ''r1'', cq_InvestigationID = 3,
      cq_Source = [], cq_ActiveTimeBudgetSeconds = 0, cq_MonitoringProviders = []\<rparr>" by code_simp
  have runs: "?a = (Inr \<lparr>ir_RunID = 1, ir_Created = True, ir_Projection = Some []\<rparr>, snd ?a)" "?b = (Inr b, snd ?b)"
    using a b by (metis prod.collapse)+
  have m: "mgr inv_world = Some mgr_New" by (simp add: start_world_def)
  from Create_retry [OF runs(1) m runs(2) q q refl] show ?thesis by (simp add: b)
qed

text \<open>A retried command is answered from the record of the first. When two commands carry
  the same run and request id, the second is a duplicate with the version and the projection
  of the first answer; no run, no entry of the command log and no task changes.\<close>

theorem Command_retry:
  assumes first: "Command c i q raw w = (Inr a, w1)" and m: "mgr w = Some m"
    and again: "Command d i q raw' w1 = (Inr b, w2)"
  shows "ic_Duplicate b \<and> ic_WorkflowVersion b = ic_WorkflowVersion a \<and> ic_Projection b = ic_Projection a \<and>
    runs_of w2 = runs_of w1 \<and> commands_of w2 = commands_of w1 \<and> mgr w2 = mgr w1"
proof -
  have id: "run_ID (command_template i) = i" by (simp add: command_template_def)
  obtain m1 r where m1: "mgr w1 = Some m1" and r: "runs_of w1 i = Some r"
    and v: "commands_of w1 (i, q) = Some (ic_WorkflowVersion a)" and p: "ic_Projection a = Projection (Some r)"
    using first m
  proof (cases rule: Command_cases)
    case (duplicate req res)
    have "commands_of w1 (i, q) = Some (ar_Version res)" "runs_of w1 i = Some (ar_Record res)"
      using AcceptCommand_logged [OF duplicate(2)] AcceptCommand_record [OF duplicate(2,3)] id by simp_all
    moreover have "mgr w1 = Some m" using mgr_AcceptCommand [OF duplicate(2)] m by simp
    ultimately show thesis using duplicate(4) by (intro that [of m "ar_Record res"]) simp_all
  next
    case (accepted req res u1 u2 x)
    let ?p = "withCommand (Projection (Some (ar_Record res))) (mq_Command req) (ar_Version res)"
    from UpdateProjection_tables [OF accepted(4)] obtain r ts where
      t: "runs_of u2 = (runs_of u1)(i \<mapsto> r\<lparr>run_ResultJSON := Doc (JObj ?p), run_UpdatedAt := ts\<rparr>)"
      "commands_of u2 = commands_of u1" by blast
    have "wf_map ?p" using wf_Projection by (rule wf_withCommand)
    with t AcceptCommand_logged [OF accepted(2)] accepted(5,6) id show thesis
      by (intro that [of _ "r\<lparr>run_ResultJSON := Doc (JObj ?p), run_UpdatedAt := ts\<rparr>"])
        (auto simp: Projection_stored)
  qed
  from again m1 show ?thesis
  proof (cases rule: Command_cases)
    case (duplicate req res)
    from AcceptCommand_duplicate [OF duplicate(2), of "ic_WorkflowVersion a"] id v r
    have "ar_Version res = ic_WorkflowVersion a" "ar_Record res = r" "runs_of w2 = runs_of w1"
      "commands_of w2 = commands_of w1" by auto
    moreover have "mgr w2 = mgr w1" using duplicate(2) by (rule mgr_AcceptCommand)
    ultimately show ?thesis using duplicate(4) p by simp
  next
    case (accepted req res u1 u2 x)
    from AcceptCommand_duplicate [OF accepted(2), of "ic_WorkflowVersion a"] id v accepted(3)
    show ?thesis by simp
  qed
qed

definition sample_command :: blob where
  "sample_command = Doc (JObj [(''command'', JObj [(''type'', JStr ''check'')])])"

theorem Command_retry_witness:
  "(case fst (Command None 7 ''q1'' sample_command (snd (Command None 7 ''q1'' sample_command inv_world))) of
      Inr b \<Rightarrow> ic_Duplicate b \<and> ic_WorkflowVersion b = 2 | Inl e \<Rightarrow> False)"
proof -
  let ?a = "Command None 7 ''q1'' sample_command inv_world"
  let ?b = "Command None 7 ''q1'' sample_command (snd ?a)"
  have v: "map_sum (\<lambda>_. ()) ic_WorkflowVersion (fst ?a) = Inr 2" by code_simp
  then obtain a where a: "fst ?a = Inr a" "ic_WorkflowVersion a = 2" by (cases "fst ?a") auto
  have "isl (fst ?b) = False" by code_simp
  then obtain b where b: "fst ?b = Inr b" by (metis isl_def sum.exhaust)
  have runs: "?a = (Inr a, snd ?a)" "?b = (Inr b, snd ?b)"
    using a b by (metis prod.collapse)+
  have m: "mgr inv_world = Some mgr_New" by (simp add: start_world_def)
  from Command_retry [OF runs(1) m runs(2)] a(2) show ?thesis by (simp add: b)
qed

text \<open>C8: an accepted command takes effect as a whole. The row of the run holds the projection
  the answer shows, with the command under \<open>last_command\<close> and the new version, the command is
  in the log under its request id, no other run changes, exactly one task is started, the one
  for this command under the key of the run, and the task that was registered under that key
  has its context cancelled.\<close>

theorem Command_accepted:
  assumes run: "Command c i q raw w = (Inr a, w')" and m: "mgr w = Some m" and new: "\<not> ic_Duplicate a"
    and req: "unmarshal dec_commandRequest raw = Inr req" and kind: "\<And>r. runs_of w i = Some r \<Longrightarrow> run_Kind r = KindInvestigation"
  shows "(\<exists>r p. runs_of w' = (runs_of w)(i \<mapsto> r) \<and> run_WorkflowVersion r = ic_WorkflowVersion a \<and>
      ic_Projection a = Some p \<and> Projection (Some r) = Some p \<and>
      map_of p ''last_command'' = Some (case mq_Command req of None \<Rightarrow> JNull | Some cmd \<Rightarrow> JObj cmd) \<and>
      map_of p ''workflow_version'' = Some (JNum (sint (ic_WorkflowVersion a)))) \<and>
    commands_of w' = (commands_of w)((i, q) \<mapsto> ic_WorkflowVersion a) \<and>
    mgr w' = Some (mgr_Start (run_key KindInvestigation i) (advanceTask (commandPrompt (mq_Command req)), i) m) \<and>
    (\<forall>g. map_of (inflight m) (run_key KindInvestigation i) = Some (g_handle g) \<longrightarrow> ctx_done g (the (mgr w')))"
  using run m
proof (cases rule: Command_cases)
  case (duplicate req' res)
  with new show ?thesis by simp
next
  case (accepted req' res u1 u2 x)
  let ?p = "withCommand (Projection (Some (ar_Record res))) (mq_Command req) (ar_Version res)"
  have id: "run_ID (command_template i) = i" and [simp]: "req' = req"
    using accepted(1) req by (simp_all add: command_template_def)
  have none: "commands_of w (i, q) = None"
    using AcceptCommand_duplicate [OF accepted(2)] accepted(3) id by (cases "commands_of w (i, q)") auto
  note fresh = AcceptCommand_fresh [OF accepted(2), unfolded id, OF none]
  from fresh obtain ts where f1: "runs_of u1 = (runs_of w)(i \<mapsto> (ar_Record res)\<lparr>run_UpdatedAt := ts\<rparr>)" by blast
  from UpdateProjection_tables [OF accepted(4)] f1 obtain ts' where
    u2: "runs_of u2 = (runs_of w)(i \<mapsto> (ar_Record res)\<lparr>run_ResultJSON := Doc (JObj ?p), run_UpdatedAt := ts'\<rparr>)"
      (is "_ = (runs_of w)(i \<mapsto> ?r)")
    and c2: "commands_of u2 = commands_of u1" by auto
  have wf: "wf_map ?p" using wf_Projection by (rule wf_withCommand)
  have k: "run_Kind (ar_Record res) = KindInvestigation"
    using AcceptCommand_kind [OF accepted(2)] kind id by (auto simp: command_template_def split: option.splits)
  have "runs_of w' = (runs_of w)(i \<mapsto> ?r)" using u2 accepted(5) by simp
  moreover have "run_WorkflowVersion ?r = ic_WorkflowVersion a" using fresh accepted(6) by simp
  moreover have "ic_Projection a = Some ?p" using accepted(6) by simp
  moreover have "Projection (Some ?r) = Some ?p" using wf by (simp add: Projection_stored)
  moreover have "map_of ?p ''last_command'' = Some (case mq_Command req of None \<Rightarrow> JNull | Some cmd \<Rightarrow> JObj cmd)"
    "map_of ?p ''workflow_version'' = Some (JNum (sint (ic_WorkflowVersion a)))"
    using accepted(6) by (simp_all add: withCommand_def)
  moreover have "commands_of w' = (commands_of w)((i, q) \<mapsto> ic_WorkflowVersion a)"
    using fresh c2 accepted(5,6) by simp
  moreover have "mgr w' = Some (mgr_Start (run_key KindInvestigation i) (advanceTask (commandPrompt (mq_Command req)), i) m)"
    using accepted(5) k by simp
  ultimately show ?thesis by (auto simp: Start_cancels)
qed

theorem Command_accepted_witness:
  "\<exists>w'. snd (Command None 7 ''q1'' sample_command inv_world) = w' \<and>
     (\<exists>m. mgr w' = Some m \<and> map g_key (goroutines m) = [run_key KindInvestigation 7])"
proof -
  let ?a = "Command None 7 ''q1'' sample_command inv_world"
  have "isl (fst ?a) = False" by code_simp
  then obtain a where a: "?a = (Inr a, snd ?a)" using run_Inr by blast
  have "map_sum (\<lambda>_. ()) ic_Duplicate (fst ?a) = Inr False" by code_simp
  with a have new: "\<not> ic_Duplicate a" by (metis map_sum.simps(2) fst_conv sum.inject(2))
  have req: "unmarshal dec_commandRequest sample_command = Inr \<lparr>mq_RequestID = [], mq_ExpectedWorkflowVersion = 0,
      mq_Command = Some [(''type'', JStr ''check'')], mq_MonitoringProviders = []\<rparr>" by code_simp
  have m: "mgr inv_world = Some mgr_New" by (simp add: start_world_def)
  have "runs_of inv_world 7 = None" by code_simp
  then have kind: "run_Kind r = KindInvestigation" if "runs_of inv_world 7 = Some r" for r
    using that by simp
  from Command_accepted [OF a m new req kind] show ?thesis
    by (auto simp: mgr_Start_def mgr_New_def Let_def)
qed

text \<open>The task of a run writes back the projection it read before it asked the model. When it
  returns without an error, the stored projection is the one of the row it read at the start,
  with the answer and the old version put in; what a command stored in between is gone,
  its \<open>last_command\<close> and its \<open>workflow_version\<close> included.\<close>

theorem advance_overwrites_command:
  assumes read: "advance_read c i w = (Inr r, w1)"
    and finish: "advance_finish c prompt i r w2 = (Inr (), w3)"
    and before: "Projection (Some r) = Some p"
  shows "\<exists>r3 answer. runs_of w3 i = Some r3 \<and>
    Projection (Some r3) = Some (answered p answer (run_WorkflowVersion r)) \<and>
    map_of (answered p answer (run_WorkflowVersion r)) ''last_command'' = map_of p ''last_command'' \<and>
    map_option run_WorkflowVersion (runs_of w2 i) = Some (run_WorkflowVersion r3)"
proof -
  from finish before obtain answer u where a: "CompleteText c investigationSystemPrompt prompt 700 w2 = (Inr answer, u)"
    and up: "UpdateProjection None i (answered p answer (run_WorkflowVersion r)) u = (Inr (), w3)"
    by (auto simp: advance_finish_def Fail_error split: prod.splits sum.splits)
  from a have same: "runs_of u = runs_of w2"
    by (auto simp: CompleteText_def andThen_eq_Inr llm_complete_eq)
  have "wf_map (answered p answer (run_WorkflowVersion r))"
    using wf_Projection [OF before] by (simp add: answered_def)
  with UpdateProjection_tables [OF up] same show ?thesis
    by (auto simp: Projection_stored answered_def intro!: exI [of _ answer])
qed

theorem advance_overwrites_command_witness:
  "\<exists>r3 p. runs_of (snd (advance_finish None ''p'' 1
       (the (runs_of (snd (Create None sample_create inv_world)) 1))
       (snd (Command None 1 ''q1'' sample_command (snd (Create None sample_create inv_world)))))) 1 = Some r3 \<and>
     Projection (Some r3) = Some p \<and> map_of p ''last_command'' = None"
proof -
  let ?w = "snd (Create None sample_create inv_world)"
  let ?w2 = "snd (Command None 1 ''q1'' sample_command ?w)"
  let ?r = "the (runs_of ?w 1)"
  have read: "advance_read None 1 ?w = (Inr ?r, snd (advance_read None 1 ?w))"
  proof -
    have "map_sum (\<lambda>_. ()) (\<lambda>x. x) (fst (advance_read None 1 ?w)) = Inr ?r" by code_simp
    then show ?thesis by (cases "fst (advance_read None 1 ?w)") (simp_all, metis prod.collapse)
  qed
  have "isl (fst (advance_finish None ''p'' 1 ?r ?w2)) = False" by code_simp
  then have finish: "advance_finish None ''p'' 1 ?r ?w2 = (Inr (), snd (advance_finish None ''p'' 1 ?r ?w2))"
    using run_Inr by (metis (full_types) unit.exhaust)
  have "Projection (Some ?r) = Some []" by code_simp
  from advance_overwrites_command [OF read finish this] show ?thesis by auto
qed

text \<open>A command submitted while the previous task of the run still works makes that run
  report a shutdown that never happened. The dispatch cancels the previous task, whose model
  call fails with the cancelled context; \<open>Fail\<close> then stores status \<open>error\<close> with \<open>shutdown\<close> in
  the row, although the process-lifetime context is alive and the task of the new command
  runs.\<close>

theorem replaced_task_reports_shutdown:
  assumes run: "Command c i q raw w = (Inr a, w1)" and m: "mgr w = Some m" and new: "\<not> ic_Duplicate a"
    and inv: "reachable m" and alive: "\<not> root_cancelled m"
    and g: "g \<in> set (goroutines m)" "map_of (inflight m) (run_key KindInvestigation i) = Some (g_handle g)"
    and row: "runs_of w i = Some r0" "run_Kind r0 = KindInvestigation"
    and healthy: "healthy (db w1)" and llm: "honours_ctx w1"
  shows "\<exists>m1 cause w2 row. mgr w1 = Some m1 \<and> \<not> root_cancelled m1 \<and>
    advance_finish (task_ctx g m1) prompt i r w1 = (Inl cause, w2) \<and>
    runs_of w2 i = Some row \<and> run_Status row = RunStatusError \<and> run_Error row = Some ''shutdown'' \<and>
    (\<exists>g2 \<in> set (goroutines m1). g_key g2 = run_key KindInvestigation i \<and> \<not> ctx_done g2 m1)"
proof -
  obtain t r1 where m1: "mgr w1 = Some (mgr_Start (run_key KindInvestigation i) t m)" (is "_ = Some ?m1")
    and r1: "runs_of w1 i = Some r1"
    using Command_dispatch [OF run m new] row by auto
  have ctx: "task_ctx g ?m1 = Some canceled"
    using Start_cancels [OF g(2)] by (simp add: task_ctx_def canceled_def)
  obtain e u where ct: "CompleteText (Some canceled) investigationSystemPrompt prompt 700 w1 = (Inl e, u)"
    and kind: "err_kind e = KCanceled" and u: "u = w1\<lparr>llm_calls := Suc (llm_calls w1)\<rparr>"
    using CompleteText_done [OF llm, of canceled] by (fastforce simp: canceled_def)
  from u r1 healthy have "healthy (db u)" "runs_of u i = Some r1" by simp_all
  from Fail_row [OF this, of e] obtain w2 ts where f: "Fail i e u = (Inl e, w2)"
    and w2: "runs_of w2 = (runs_of u)(i \<mapsto> r1\<lparr>run_Status := RunStatusError,
      run_Error := Some (fail_message e), run_UpdatedAt := ts\<rparr>)" by blast
  have "advance_finish (task_ctx g ?m1) prompt i r w1 = (Inl e, w2)"
    using ct f ctx by (simp add: advance_finish_def)
  moreover have "\<not> root_cancelled ?m1" using alive by (simp add: mgr_Start_def Let_def)
  moreover have "\<exists>g2 \<in> set (goroutines ?m1). g_key g2 = run_key KindInvestigation i \<and> \<not> ctx_done g2 ?m1"
    using Start_live [OF reachable_inv [OF inv] alive] by blast
  moreover have "fail_message e = ''shutdown''" using kind by (simp add: fail_message_def)
  ultimately show ?thesis using m1 w2 by auto
qed

abbreviation after_q1 :: "inv_task world" where
  "after_q1 \<equiv> snd (Command None 7 ''q1'' sample_command inv_world)"

abbreviation after_q2 :: "inv_task world" where
  "after_q2 \<equiv> snd (Command None 7 ''q2'' sample_command after_q1)"

lemma run_not_duplicate:
  assumes "map_sum (\<lambda>_. ()) ic_Duplicate (fst x) = Inr False"
  shows "\<exists>a. x = (Inr a, snd x) \<and> \<not> ic_Duplicate a"
  using assms by (cases x; cases "fst x") auto

theorem replaced_task_reports_shutdown_witness:
  "\<exists>(g :: (inv_task \<times> int) goroutine) m1 cause w2 row. advance_finish (task_ctx g m1) ''p'' 7 sample_template after_q2 = (Inl cause, w2) \<and>
     runs_of w2 7 = Some row \<and> run_Error row = Some ''shutdown''"
proof -
  have "map_sum (\<lambda>_. ()) ic_Duplicate (fst (Command None 7 ''q1'' sample_command inv_world)) = Inr False" by code_simp
  then obtain a where a: "Command None 7 ''q1'' sample_command inv_world = (Inr a, after_q1)" "\<not> ic_Duplicate a"
    using run_not_duplicate by blast
  have "map_sum (\<lambda>_. ()) ic_Duplicate (fst (Command None 7 ''q2'' sample_command after_q1)) = Inr False" by code_simp
  then obtain b where b: "Command None 7 ''q2'' sample_command after_q1 = (Inr b, after_q2)" "\<not> ic_Duplicate b"
    using run_not_duplicate by blast
  have m: "mgr inv_world = Some mgr_New" by (simp add: start_world_def)
  have "runs_of inv_world 7 = None" by code_simp
  then have k: "run_Kind r = KindInvestigation" if "runs_of inv_world 7 = Some r" for r using that by simp
  obtain t r where w: "mgr after_q1 = Some (mgr_Start (run_key KindInvestigation 7) t mgr_New)"
    "runs_of after_q1 7 = Some r" "run_Kind r = KindInvestigation" "driver after_q1 = driver inv_world"
    using Command_dispatch [OF a(1) m a(2) k] by blast
  have kr: "run_Kind x = KindInvestigation" if "runs_of after_q1 7 = Some x" for x using that w by simp
  have "driver after_q2 = driver after_q1"
    using Command_dispatch [OF b(1) w(1) b(2) kr] by blast
  with w(4) have ok: "healthy (db after_q2)" "honours_ctx after_q2"
    using driver_healthy [of after_q2 inv_world] by simp_all
  let ?g = "\<lparr>g_handle = 0, g_key = run_key KindInvestigation 7, g_task = t\<rparr>"
  have g: "?g \<in> set (goroutines (mgr_Start (run_key KindInvestigation 7) t mgr_New))"
    "map_of (inflight (mgr_Start (run_key KindInvestigation 7) t mgr_New)) (run_key KindInvestigation 7) = Some (g_handle ?g)"
    "\<not> root_cancelled (mgr_Start (run_key KindInvestigation 7) t mgr_New)"
    by (simp_all add: mgr_Start_def mgr_New_def)
  from replaced_task_reports_shutdown [OF b(1) w(1) b(2) started_reachable [OF reachable.init] g(3,1,2) w(2,3) ok,
      of "''p''" sample_template]
  show ?thesis by blast
qed

text \<open>A command whose recording fails half way is lost. When \<open>Command\<close> returned an error
  after the command log took the entry, submitting it again (as the caller of a failed request
  does) is answered as accepted, as a duplicate, and starts no task: the command never runs.\<close>

theorem failed_command_never_runs:
  assumes failed: "Command c i q raw w = (Inl e, w1)" and m: "mgr w = Some m"
    and logged: "commands_of w1 (i, q) = Some v"
    and again: "Command d i q raw' w1 = (Inr b, w2)"
  shows "ic_Accepted b \<and> ic_Duplicate b \<and> ic_WorkflowVersion b = v \<and> mgr w2 = mgr w \<and>
    commands_of w2 = commands_of w1"
proof -
  have m1: "mgr w1 = Some m" using Command_error_mgr [OF failed m] .
  have id: "run_ID (command_template i) = i" by (simp add: command_template_def)
  from again m1 show ?thesis
  proof (cases rule: Command_cases)
    case (duplicate req res)
    with AcceptCommand_duplicate [OF duplicate(2), of v] mgr_AcceptCommand [OF duplicate(2)] m1 m logged id
    show ?thesis by simp
  next
    case (accepted req res u1 u2 x)
    with AcceptCommand_duplicate [OF accepted(2), of v] logged id show ?thesis by simp
  qed
qed

text \<open>The driver refuses statement 7, the \<open>UPDATE\<close> that follows the append.\<close>

abbreviation flaky_world :: "inv_task world" where
  "flaky_world \<equiv> start_world (\<lambda>n. if n = 7 then Some (errorf ''disk I/O error'') else None) (answering ''ok'')"

theorem failed_command_never_runs_witness:
  "isl (fst (Command None 7 ''q1'' sample_command flaky_world)) \<and>
   (case fst (Command None 7 ''q1'' sample_command (snd (Command None 7 ''q1'' sample_command flaky_world))) of
      Inr b \<Rightarrow> ic_Accepted b \<and> ic_Duplicate b | Inl e \<Rightarrow> False)"
proof -
  let ?a = "Command None 7 ''q1'' sample_command flaky_world"
  let ?b = "Command None 7 ''q1'' sample_command (snd ?a)"
  have a: "isl (fst ?a)" by code_simp
  then obtain e where e: "?a = (Inl e, snd ?a)" using run_Inl by blast
  have v: "commands_of (snd ?a) (7, ''q1'') = Some 2" by code_simp
  have "isl (fst ?b) = False" by code_simp
  then obtain b where b: "?b = (Inr b, snd ?b)" using run_Inr by blast
  have m: "mgr flaky_world = Some mgr_New" by (simp add: start_world_def)
  have "fst ?b = Inr b" using b by (metis fst_conv)
  with failed_command_never_runs [OF e m v b] a show ?thesis by simp
qed

end
