(* ===== verification/Handlers.thy ===== *)
theory Handlers
  imports Explorer Autofix Preferences Investigations Auth
begin

text \<open>
  The HTTP layer over the services (\<open>internal/handler/server.go\<close>, \<open>explorer.go\<close>,
  \<open>autofix.go\<close>, \<open>investigations.go\<close>). A handler turns a body and the state into a response (a
  status and a document) and the state it leaves. How bytes parse into a document is an
  argument (\<open>parse\<close>) of the authentication wrapper, which signs over the bytes.

  An index task has no run; its entry in the manager carries the id 0.
\<close>

section \<open>Responses\<close>

type_synonym response = "int \<times> json"

definition writeJSON :: "int \<Rightarrow> json \<Rightarrow> response" where
  "writeJSON status payload = (status, payload)"

definition writeError :: "int \<Rightarrow> string \<Rightarrow> response" where
  "writeError status message = writeJSON status (JObj [(''error'', JStr message)])"

definition success_response :: response where
  "success_response = writeJSON 200 (JObj [(''success'', JBool True)])"

text \<open>A body of blanks leaves the zero value, as a \<open>null\<close> does.\<close>

definition decodeOptionalJSONBody :: "(json \<Rightarrow> 'a res) \<Rightarrow> blob \<Rightarrow> 'a res" where
  "decodeOptionalJSONBody d body = (case body of
       Blank \<Rightarrow> d JNull
     | Garbage s \<Rightarrow> if TrimSpace s = [] then d JNull else unmarshal d body
     | Doc j \<Rightarrow> unmarshal d body)"

definition dec_any :: "json \<Rightarrow> json res" where
  "dec_any j = Inr j"

definition withAuth :: "(string \<Rightarrow> string \<Rightarrow> string) \<Rightarrow> string list \<Rightarrow> (string \<Rightarrow> blob) \<Rightarrow>
    (blob \<Rightarrow> 's \<Rightarrow> response \<times> 's) \<Rightarrow> string res \<Rightarrow> string \<Rightarrow> 's \<Rightarrow> response \<times> 's" where
  "withAuth mac sharedSecrets parse next_handler readBody authorization s = (case readBody of
       Inl e \<Rightarrow> (writeError 400 (''read request body: '' @ err_text e), s)
     | Inr body \<Rightarrow> (case VerifyRequest mac body authorization sharedSecrets of
           Inl e \<Rightarrow> (writeError 401 (err_text e), s)
         | Inr u \<Rightarrow> next_handler (parse body) s))"

text \<open>The shape of most handlers: call the service, answer 400 with its error or 200.\<close>

definition handled :: "('a \<Rightarrow> json) \<Rightarrow> ('a, 's) op \<Rightarrow> 's \<Rightarrow> response \<times> 's" where
  "handled enc m s = (case m s of
       (Inl e, t) \<Rightarrow> (writeError 400 (err_text e), t)
     | (Inr x, t) \<Rightarrow> (writeJSON 200 (enc x), t))"

text \<open>\<open>parseRunID\<close>: anything that is no positive integer is run 1.\<close>

definition parseRunID :: "string \<Rightarrow> int" where
  "parseRunID raw = (case ParseInt raw of None \<Rightarrow> 1 | Some n \<Rightarrow> if n < 1 then 1 else n)"

section \<open>Explorer chats and coding agents\<close>

definition enc_ChatResponse :: "ChatResponse \<Rightarrow> json" where
  "enc_ChatResponse r = JObj [(''run_id'', JNum (xr_RunID r)), (''has_explorer_index'', JBool (xr_HasExplorerIndex r)),
     (''has_org_project_context'', JBool (xr_HasOrgProjectContext r))]"

definition enc_StateResponse :: "RunState option \<Rightarrow> json" where
  "enc_StateResponse st = JObj [(''session'', case st of None \<Rightarrow> JNull | Some s \<Rightarrow> enc_RunState s)]"

definition enc_AgentRun :: "AgentRun \<Rightarrow> json" where
  "enc_AgentRun a = object [(''run_id'', Some (JNum (ag_RunID a))), (''status'', Some (JStr (ag_Status a))),
     (''title'', Some (JStr (ag_Title a))), (''last_triggered_at'', Some (JStr (ag_LastTriggeredAt a))),
     (''created_at'', Some (JStr (ag_CreatedAt a))), (''user_id'', map_option JNum (ag_UserID a)),
     (''category_key'', map_option JStr (ag_CategoryKey a)), (''category_value'', map_option JStr (ag_CategoryValue a))]"

definition enc_RunsResponse :: "AgentRun gomap \<Rightarrow> json" where
  "enc_RunsResponse runs = JObj [(''data'', JObj (map (\<lambda>(k, a). (k, enc_AgentRun a)) runs))]"

definition enc_UpdateResponse :: "UpdateResponse \<Rightarrow> json" where
  "enc_UpdateResponse r = object [(''run_id'', Some (JNum (ur_RunID r))), (''status'', nonempty_string (ur_Status r)),
     (''message'', map_option JStr (ur_Message r))]"

definition explorerChat where
  "explorerChat index c body = handled enc_ChatResponse (Chat index c body)"

definition explorerState where
  "explorerState c body = handled enc_StateResponse (GetState c body)"

definition explorerRunsByIDs where
  "explorerRunsByIDs c body = handled enc_RunsResponse (GetRunsByIDs c body)"

definition explorerUpdate where
  "explorerUpdate c body = handled (\<lambda>i. JObj [(''run_id'', JNum i)]) (Update c body)"

definition explorerStatePR where
  "explorerStatePR c body = handled enc_StateResponse (GetStateByPR c body)"

definition codingAgentStateSet where
  "codingAgentStateSet c body = handled enc_UpdateResponse (StoreCodingAgentStates c body)"

definition codingAgentStateUpdate where
  "codingAgentStateUpdate c body = handled enc_UpdateResponse (UpdateCodingAgentState c body)"

section \<open>Repositories of an organization\<close>

record repoResponse =
  rr_ID :: string
  rr_Name :: string
  rr_Provider :: string
  rr_Owner :: string
  rr_ExternalID :: string
  rr_DefaultBranch :: string
  rr_ReadAccess :: bool
  rr_WriteAccess :: bool

definition enc_repoResponse :: "repoResponse \<Rightarrow> json" where
  "enc_repoResponse r = JObj [(''id'', JStr (rr_ID r)), (''name'', JStr (rr_Name r)), (''provider'', JStr (rr_Provider r)),
     (''owner'', JStr (rr_Owner r)), (''external_id'', JStr (rr_ExternalID r)),
     (''default_branch'', JStr (rr_DefaultBranch r)), (''read_access'', JBool (rr_ReadAccess r)),
     (''write_access'', JBool (rr_WriteAccess r))]"

definition repoFromGit :: "Repo \<Rightarrow> repoResponse" where
  "repoFromGit repo = \<lparr>rr_ID = hr_ExternalID repo, rr_Name = hr_Name repo, rr_Provider = hr_Provider repo,
     rr_Owner = hr_Owner repo, rr_ExternalID = hr_ExternalID repo, rr_DefaultBranch = hr_DefaultBranch repo,
     rr_ReadAccess = hr_HasReadAccess repo, rr_WriteAccess = hr_HasWriteAccess repo\<rparr>"

definition maxExplorerRepos :: nat where
  "maxExplorerRepos = 100"

definition configured_repo :: "Repository \<Rightarrow> repoResponse" where
  "configured_repo r = \<lparr>rr_ID = rq_ExternalID r, rr_Name = rq_Name r, rr_Provider = rq_Provider r,
     rr_Owner = rq_Owner r, rr_ExternalID = rq_ExternalID r, rr_DefaultBranch = [],
     rr_ReadAccess = True, rr_WriteAccess = True\<rparr>"

definition configuredRepos :: "ctx \<Rightarrow> int \<Rightarrow> 't world \<Rightarrow> repoResponse list \<times> 't world" where
  "configuredRepos c organizationID w =
     (if organizationID = 0 then ([], w)
      else case on_db c (GetProjectPreference organizationID) w of
          (Inr (Some rec), w1) \<Rightarrow>
            (case unmarshal dec_Repositories (pp_ReposJSON rec) of
               Inl e \<Rightarrow> ([], w1)
             | Inr stored \<Rightarrow> (map configured_repo stored, w1))
        | (_, w1) \<Rightarrow> ([], w1))"

fun add_repos :: "repoResponse list \<Rightarrow> Repo list \<Rightarrow> repoResponse list" where
  "add_repos repos [] = repos"
| "add_repos repos (repo # rest) =
     (if length repos \<ge> maxExplorerRepos then repos else add_repos (repos @ [repoFromGit repo]) rest)"

definition dec_reposRequest :: "json \<Rightarrow> int res" where
  "dec_reposRequest = dec_struct (\<lambda>ms.
     bindE (field ''run_id'' dec_int64 0 ms) (\<lambda>i. field ''organization_id'' dec_int64 0 ms))"

text \<open>\<open>listRepos\<close> is what the repository host answers, \<open>None\<close> when no host is configured.\<close>

definition explorerRepos :: "Repo list res option \<Rightarrow> ctx \<Rightarrow> blob \<Rightarrow> 't world \<Rightarrow> response \<times> 't world" where
  "explorerRepos listRepos c body w = (case unmarshal dec_reposRequest body of
       Inl e \<Rightarrow> (writeError 400 (''decode explorer repos request: '' @ err_text e), w)
     | Inr organizationID \<Rightarrow> (case configuredRepos c organizationID w of (repos, w1) \<Rightarrow>
         let answer = (\<lambda>rs. (writeJSON 200 (JObj [(''repos'', JArr (map enc_repoResponse rs))]), w1)) in
         (case listRepos of
            Some (Inr repositories) \<Rightarrow> answer (add_repos repos repositories)
          | _ \<Rightarrow> answer repos)))"

section \<open>Indexing\<close>

definition removedRepoKey :: "string \<Rightarrow> string \<Rightarrow> string" where
  "removedRepoKey provider externalID = provider @ [CHR 0x00] @ externalID"

record repoDetails =
  rd_ProjectIDs :: "int list"
  rd_Provider :: string
  rd_Owner :: string
  rd_Name :: string
  rd_ExternalID :: string
  rd_Languages :: "string list"
  rd_IntegrationID :: "string option"

definition dec_repoDetails :: "json \<Rightarrow> repoDetails res" where
  "dec_repoDetails = dec_struct (\<lambda>ms.
     bindE (field ''project_ids'' (dec_array dec_int64 0) [] ms) (\<lambda>ids.
     bindE (field ''provider'' dec_string [] ms) (\<lambda>p.
     bindE (field ''owner'' dec_string [] ms) (\<lambda>ow.
     bindE (field ''name'' dec_string [] ms) (\<lambda>n.
     bindE (field ''external_id'' dec_string [] ms) (\<lambda>x.
     bindE (field ''languages'' (dec_array dec_string []) [] ms) (\<lambda>ls.
     bindE (field ''integration_id'' (dec_ptr dec_string) None ms) (\<lambda>i.
       Inr \<lparr>rd_ProjectIDs = ids, rd_Provider = p, rd_Owner = ow, rd_Name = n, rd_ExternalID = x,
            rd_Languages = ls, rd_IntegrationID = i\<rparr>))))))))"

definition zero_repoDetails :: repoDetails where
  "zero_repoDetails = \<lparr>rd_ProjectIDs = [], rd_Provider = [], rd_Owner = [], rd_Name = [],
     rd_ExternalID = [], rd_Languages = [], rd_IntegrationID = None\<rparr>"

definition dec_indexOrgRepo :: "json \<Rightarrow> (int \<times> repoDetails list) res" where
  "dec_indexOrgRepo = dec_struct (\<lambda>ms.
     bindE (field ''org_id'' dec_int64 0 ms) (\<lambda>org.
     bindE (field ''repos'' (dec_array dec_repoDetails zero_repoDetails) [] ms) (\<lambda>repos.
       Inr (org, repos))))"

type_synonym index_world = "IndexRequest world"

definition index_key :: "IndexRequest \<Rightarrow> string" where
  "index_key request = ''code_index:'' @ iq_Owner request @ ''/'' @ iq_Name request"

definition startIndexTask :: "IndexRequest \<Rightarrow> index_world \<Rightarrow> index_world" where
  "startIndexTask request w = (case mgr w of
       None \<Rightarrow> w
     | Some m \<Rightarrow> w\<lparr>mgr := Some (mgr_Start (index_key request) (request, 0) m)\<rparr>)"

text \<open>The task: \<open>poll\<close> is what the loop of \<open>IndexRepo\<close> sees of the context.\<close>

definition index_task :: "store CodeIndex \<Rightarrow> (nat \<Rightarrow> goerr option) \<Rightarrow> ctx \<Rightarrow> IndexRequest \<Rightarrow> (unit, index_world) op" where
  "index_task ci poll c request =
     andThen (wrapping (''index '' @ iq_Owner request @ ''/'' @ iq_Name request)
       (on_db c (IndexRepo ci poll request))) (\<lambda>_. ret ())"

definition index_request :: "int \<Rightarrow> repoDetails \<Rightarrow> IndexRequest" where
  "index_request org repo = \<lparr>iq_OrganizationID = org, iq_Provider = rd_Provider repo,
     iq_Owner = rd_Owner repo, iq_Name = rd_Name repo, iq_Ref = []\<rparr>"

fun index_repos :: "int \<Rightarrow> string set \<Rightarrow> repoDetails list \<Rightarrow> index_world \<Rightarrow> index_world" where
  "index_repos org removed [] w = w"
| "index_repos org removed (repo # repos) w =
     (if removedRepoKey (rd_Provider repo) (rd_ExternalID repo) \<in> removed then index_repos org removed repos w
      else index_repos org removed repos (startIndexTask (index_request org repo) w))"

definition explorerIndexOrgRepo :: "store CodeIndex option \<Rightarrow> ctx \<Rightarrow> blob \<Rightarrow> index_world \<Rightarrow> response \<times> index_world" where
  "explorerIndexOrgRepo codeIndex c body w = (case decodeOptionalJSONBody dec_indexOrgRepo body of
       Inl e \<Rightarrow> (writeError 400 (''decode org repo knowledge index request: '' @ err_text e), w)
     | Inr (org, repos) \<Rightarrow>
         if \<not> Indexed codeIndex then (success_response, w)
         else (case RemovedSet c org w of
             (Inl e, w1) \<Rightarrow> (success_response, index_repos org {} repos w1)
           | (Inr removed, w1) \<Rightarrow> (success_response, index_repos org removed repos w1)))"

text \<open>The endpoints that only check their request.\<close>

definition acknowledged :: "(json \<Rightarrow> 'a res) \<Rightarrow> string \<Rightarrow> blob \<Rightarrow> 's \<Rightarrow> response \<times> 's" where
  "acknowledged d what body s = (case decodeOptionalJSONBody d body of
       Inl e \<Rightarrow> (writeError 400 (what @ '': '' @ err_text e), s)
     | Inr x \<Rightarrow> (success_response, s))"

definition dec_indexProject :: "json \<Rightarrow> (int \<times> (int \<times> string) list) res" where
  "dec_indexProject = dec_struct (\<lambda>ms.
     bindE (field ''org_id'' dec_int64 0 ms) (\<lambda>org.
     bindE (field ''projects'' (dec_array (dec_struct (\<lambda>ps.
         bindE (field ''project_id'' dec_int64 0 ps) (\<lambda>p.
         bindE (field ''slug'' dec_string [] ps) (\<lambda>s. Inr (p, s))))) (0, [])) [] ms) (\<lambda>projects.
       Inr (org, projects))))"

definition dec_indexGeneric :: "json \<Rightarrow> (int \<times> int) list res" where
  "dec_indexGeneric = dec_struct (\<lambda>ms.
     field ''projects'' (dec_array (dec_struct (\<lambda>ps.
       bindE (field ''org_id'' dec_int64 0 ps) (\<lambda>org.
       bindE (field ''project_id'' dec_int64 0 ps) (\<lambda>p. Inr (org, p))))) (0, 0)) [] ms)"

definition explorerIndexProject :: "blob \<Rightarrow> 's \<Rightarrow> response \<times> 's" where
  "explorerIndexProject = acknowledged dec_indexProject ''decode org project knowledge index request''"

definition explorerIndexGeneric :: "blob \<Rightarrow> 's \<Rightarrow> response \<times> 's" where
  "explorerIndexGeneric = acknowledged dec_indexGeneric ''decode explorer index request''"

definition explorerIndexSentryKnowledge :: "blob \<Rightarrow> 's \<Rightarrow> response \<times> 's" where
  "explorerIndexSentryKnowledge = acknowledged dec_any ''decode sentry knowledge index request''"

definition explorerExportIndexes :: "blob \<Rightarrow> 's \<Rightarrow> response \<times> 's" where
  "explorerExportIndexes = acknowledged dec_any ''decode explorer export-indexes request''"

section \<open>Agent feature runs\<close>

record feature_task =
  ft_FeatureID :: string
  ft_Payload :: "json gomap option"

record featureRequest =
  fq_FeatureID :: string
  fq_Payload :: "json gomap option"
  fq_ExternalIdempotencyKey :: string

definition dec_featureRequest :: "json \<Rightarrow> featureRequest res" where
  "dec_featureRequest = dec_struct (\<lambda>ms.
     bindE (field ''feature_id'' dec_string [] ms) (\<lambda>i.
     bindE (field ''payload'' (dec_ptr dec_anymap) None ms) (\<lambda>p.
     bindE (field ''agent_run_options'' (dec_ptr dec_anymap) None ms) (\<lambda>opts.
     bindE (field ''referrer'' dec_string [] ms) (\<lambda>referrer.
     bindE (field ''ref'' dec_string [] ms) (\<lambda>ref.
     bindE (field ''external_idempotency_key'' dec_string [] ms) (\<lambda>k.
       Inr \<lparr>fq_FeatureID = i, fq_Payload = p, fq_ExternalIdempotencyKey = k\<rparr>)))))))"

definition featurePrompt :: string where
  "featurePrompt = ''You run a single Sentry Seer agent feature and reply with the feature result in one short paragraph.''"

definition featureTask :: "ctx \<Rightarrow> feature_task \<Rightarrow> int \<Rightarrow> (unit, feature_task world) op" where
  "featureTask c t runID = (\<lambda>w.
     case CompleteText c featurePrompt (''Feature: '' @ ft_FeatureID t @ [CHR 0x0A] @ ''Payload: '' @ map_text (ft_Payload t)) 500 w of
       (Inl e, w1) \<Rightarrow> Fail runID e w1
     | (Inr answer, w1) \<Rightarrow> Complete c runID (Some (JObj ((''feature_id'', JStr (ft_FeatureID t)) #
         (if TrimSpace answer \<noteq> [] then [(''result'', JStr answer)] else [])))) w1)"

definition runRecord :: "string \<Rightarrow> blob \<Rightarrow> string \<Rightarrow> RunRecord" where
  "runRecord kind body idempotencyKey =
     \<lparr>run_ID = 0, run_Kind = kind, run_OrganizationID = None, run_Status = RunStatusProcessing,
      run_RequestJSON = body, run_ResultJSON = Blank, run_Error = None, run_WorkflowVersion = 0,
      run_IdempotencyKey = (if idempotencyKey \<noteq> [] then Some idempotencyKey else None),
      run_CreatedAt = [], run_UpdatedAt = []\<rparr>"

definition run_response :: "int \<Rightarrow> response" where
  "run_response i = writeJSON 200 (JObj [(''success'', JBool True), (''run_id'', JNum i)])"

definition start_feature_run :: "ctx \<Rightarrow> blob \<Rightarrow> featureRequest \<Rightarrow> feature_task world \<Rightarrow> response \<times> feature_task world" where
  "start_feature_run c body request w =
     (case runs_Start featureTask c (runRecord KindAgentFeature body (fq_ExternalIdempotencyKey request))
         (Some \<lparr>ft_FeatureID = fq_FeatureID request, ft_Payload = fq_Payload request\<rparr>) w of
        (Inl e, w1) \<Rightarrow> (writeError 500 (err_text e), w1)
      | (Inr run, w1) \<Rightarrow> (run_response (run_ID run), w1))"

definition agentFeatureRun :: "ctx \<Rightarrow> blob \<Rightarrow> feature_task world \<Rightarrow> response \<times> feature_task world" where
  "agentFeatureRun c body w = (case decodeOptionalJSONBody dec_featureRequest body of
       Inl e \<Rightarrow> (writeError 400 (''decode agent feature run request: '' @ err_text e), w)
     | Inr request \<Rightarrow>
         if fq_ExternalIdempotencyKey request \<noteq> [] then
           (case FindByIdempotencyKey c KindAgentFeature (fq_ExternalIdempotencyKey request) w of
              (Inl e, w1) \<Rightarrow> (writeError 500 (err_text e), w1)
            | (Inr (Some existing), w1) \<Rightarrow> (run_response (run_ID existing), w1)
            | (Inr None, w1) \<Rightarrow> start_feature_run c body request w1)
         else start_feature_run c body request w)"

section \<open>Investigations\<close>

definition enc_map :: "json gomap option \<Rightarrow> json" where
  "enc_map m = (case m of None \<Rightarrow> JNull | Some kvs \<Rightarrow> JObj kvs)"

definition enc_RunResponse :: "RunResponse \<Rightarrow> json" where
  "enc_RunResponse r = JObj [(''runId'', JNum (ir_RunID r)), (''created'', JBool (ir_Created r)), (''projection'', enc_map (ir_Projection r))]"

definition enc_CommandResponse :: "CommandResponse \<Rightarrow> json" where
  "enc_CommandResponse r = JObj [(''runId'', JNum (ic_RunID r)), (''requestId'', JStr (ic_RequestID r)),
     (''accepted'', JBool (ic_Accepted r)), (''duplicate'', JBool (ic_Duplicate r)),
     (''workflowVersion'', JNum (sint (ic_WorkflowVersion r))), (''projection'', enc_map (ic_Projection r))]"

definition dec_requestID :: "json \<Rightarrow> string res" where
  "dec_requestID = dec_struct (\<lambda>ms.
     bindE (field ''requestId'' dec_string [] ms) (\<lambda>q.
     bindE (field ''expectedWorkflowVersion'' dec_int64 0 ms) (\<lambda>v. Inr q)))"

definition investigationCreate where
  "investigationCreate c body = handled enc_RunResponse (Create c body)"

text \<open>\<open>uuid_parse\<close> and \<open>fresh_uuid\<close> are the uuid package.\<close>

definition investigationCommand ::
    "(string \<Rightarrow> string option) \<Rightarrow> string \<Rightarrow> ctx \<Rightarrow> string \<Rightarrow> blob \<Rightarrow> inv_task world \<Rightarrow> response \<times> inv_task world" where
  "investigationCommand uuid_parse fresh_uuid c run_id body w = (case decodeOptionalJSONBody dec_requestID body of
       Inl e \<Rightarrow> (writeError 400 (''decode investigation command request: '' @ err_text e), w)
     | Inr q \<Rightarrow> handled enc_CommandResponse (Command c (parseRunID run_id)
         (case uuid_parse q of Some parsed \<Rightarrow> parsed | None \<Rightarrow> fresh_uuid) body) w)"

definition investigationGet where
  "investigationGet c run_id = handled enc_RunResponse (inv_Get c (parseRunID run_id))"

end
