(* ===== verification/HandlerProps.thy ===== *)
theory HandlerProps
  imports Handlers
begin

text \<open>
  What holds across the HTTP layer and the services: who can change the state, what a removed
  repository is worth to the indexer, which index tasks cancel each other, and what a retried
  feature dispatch does.
\<close>

section \<open>Index tasks\<close>

lemma RemovedSet_blank:
  assumes "blank_prefs w"
  shows "(case fst (RemovedSet c org w) of Inl e \<Rightarrow> True | Inr removed \<Rightarrow> removed = {}) \<and> mgr (snd (RemovedSet c org w)) = mgr w"
proof (cases "on_db c (GetProjectPreference org) w")
  case (Pair r w1)
  have "mgr w1 = mgr w" using on_db_frameD [OF Pair] by simp
  moreover have "stored_repositories rec = Inr []" if "r = Inr (Some rec)" for rec
    using GetProjectPreference_w [of c org w "Some rec" w1] Pair that assms by (auto simp: blank_prefs_def)
  ultimately show ?thesis
    by (auto simp: RemovedSet_def andThen_def Pair split: sum.split option.split)
qed

lemma startIndexTask_mgr: "mgr w = Some m \<Longrightarrow>
    mgr (startIndexTask q w) = Some (mgr_Start (index_key q) (q, 0) m)"
  by (simp add: startIndexTask_def)

lemma mgr_Start_goroutines: "goroutines (mgr_Start k t m) = goroutines m @ [\<lparr>g_handle = next_handle m, g_key = k, g_task = t\<rparr>]"
  "next_handle (mgr_Start k t m) = next_handle m + 1"
  by (simp_all add: mgr_Start_def Let_def)

lemma index_repos_all:
  assumes "mgr w = Some m"
  shows "\<exists>m'. mgr (index_repos org {} repos w) = Some m' \<and> next_handle m \<le> next_handle m' \<and>
    set (goroutines m) \<subseteq> set (goroutines m') \<and>
    (\<forall>repo \<in> set repos. \<exists>g \<in> set (goroutines m'). g_task g = (index_request org repo, 0) \<and> next_handle m \<le> g_handle g)"
  using assms
proof (induction repos arbitrary: w m)
  case (Cons repo repos)
  let ?m = "mgr_Start (index_key (index_request org repo)) (index_request org repo, 0) m"
  from Cons.IH [OF startIndexTask_mgr [OF Cons.prems]] obtain m' where
    m': "mgr (index_repos org {} repos (startIndexTask (index_request org repo) w)) = Some m'"
    "next_handle ?m \<le> next_handle m'" "set (goroutines ?m) \<subseteq> set (goroutines m')"
    "\<forall>x \<in> set repos. \<exists>g \<in> set (goroutines m'). g_task g = (index_request org x, 0) \<and> next_handle ?m \<le> g_handle g" by blast
  have this_one: "\<exists>g \<in> set (goroutines m'). g_task g = (index_request org repo, 0) \<and> next_handle m \<le> g_handle g"
    using m'(3) by (intro bexI [of _ "\<lparr>g_handle = next_handle m, g_key = index_key (index_request org repo),
        g_task = (index_request org repo, 0)\<rparr>"]) (auto simp: mgr_Start_goroutines)
  have "\<exists>g \<in> set (goroutines m'). g_task g = (index_request org x, 0) \<and> next_handle m \<le> g_handle g" if "x \<in> set repos" for x
    using m'(4) that by (fastforce simp: mgr_Start_goroutines)
  with this_one m' show ?case by (auto simp: mgr_Start_goroutines)
qed simp

lemma explorerIndexOrgRepo_blank:
  assumes "explorerIndexOrgRepo codeIndex c body w = (resp, w')" and "decodeOptionalJSONBody dec_indexOrgRepo body = Inr (org, repos)"
    and "Indexed codeIndex" and "blank_prefs w"
  shows "\<exists>w1. mgr w1 = mgr w \<and> w' = index_repos org {} repos w1 \<and> resp = success_response"
  using RemovedSet_blank [OF assms(4), of c org] assms(1-3)
  by (cases "RemovedSet c org w") (auto simp: explorerIndexOrgRepo_def split: sum.splits)

section \<open>Properties\<close>

text \<open>Only a signed request changes anything. Behind the authentication wrapper, for every handler, a request that
  leaves a different state when a secret is configured carried the scheme, the version and the MAC of its
  very body under one of the secrets; an unreadable body or a failed check is answered 400 or 401.\<close>

theorem change_needs_signature:
  assumes "withAuth mac secrets parse next_handler readBody header s = (resp, t)" and "t \<noteq> s" and "secrets \<noteq> []"
  shows "\<exists>body scheme digits. readBody = Inr body \<and> header = scheme @ '' rpc0:'' @ digits \<and>
    EqualFold scheme ''Rpcsignature'' \<and> (\<exists>secret \<in> set secrets. DecodeString digits = Some (mac secret body)) \<and>
    next_handler (parse body) s = (resp, t)"
proof -
  from assms(1,2) obtain body where body: "readBody = Inr body" "VerifyRequest mac body header secrets = Inr ()"
    and run: "next_handler (parse body) s = (resp, t)"
    by (auto simp: withAuth_def split: sum.splits)
  from body(2) assms(3) have "signed_by mac body secrets header" by (simp add: VerifyRequest_accepts)
  with body(1) run show ?thesis by (auto simp: signed_by_def)
qed

definition blank_mac :: "string \<Rightarrow> string \<Rightarrow> string" where
  "blank_mac secret body = [CHR 0x0A]"

theorem change_needs_signature_witness:
  "\<exists>body scheme digits. ''rpcsignature rpc0:0a'' = scheme @ '' rpc0:'' @ digits \<and> EqualFold scheme ''Rpcsignature'' \<and>
     (\<exists>secret \<in> set [''k'']. DecodeString digits = Some (blank_mac secret body)) \<and> body = ''b''"
proof -
  have "withAuth blank_mac [''k''] Garbage (\<lambda>b n. (success_response, Suc n)) (Inr ''b'') ''rpcsignature rpc0:0a'' 0 =
      (success_response, 1)"
    by code_simp
  from change_needs_signature [OF this] show ?thesis by auto
qed

text \<open>C23: a repository removed from Seer is indexed again. From an empty database no step ever stores a repository to
  remember, so after a removal that was answered with success a request to index the organization's
  repositories starts a task for every repository it lists, the removed one included.\<close>

theorem removed_repository_is_indexed_again:
  fixes w :: index_world
  assumes "prefs_reachable w" and "RemoveRepository c raw w = (Inr x, w1)" and "unmarshal dec_removeRepositoryRequest raw = Inr rq"
    and "explorerIndexOrgRepo codeIndex d body w1 = (resp, w2)" and "Indexed codeIndex" and "mgr w1 = Some m"
    and "decodeOptionalJSONBody dec_indexOrgRepo body = Inr (rm_OrganizationID rq, repos)" and "repo \<in> set repos"
    and "removedRepoKey (rd_Provider repo) (rd_ExternalID repo) = repositoryKey (rm_RepoProvider rq) (rm_RepoExternalID rq)"
  shows "\<exists>m' g. mgr w2 = Some m' \<and> g \<in> set (goroutines m') \<and> next_handle m \<le> g_handle g \<and>
    g_task g = (index_request (rm_OrganizationID rq) repo, 0) \<and> resp = success_response"
proof -
  have "prefs_reachable w1" using pr_remove [OF assms(1), of c raw] assms(2) by simp
  from explorerIndexOrgRepo_blank [OF assms(4,7,5) reachable_blank [OF this]] obtain w' where
    w': "mgr w' = mgr w1" "w2 = index_repos (rm_OrganizationID rq) {} repos w'" "resp = success_response" by blast
  from index_repos_all [of w' m "rm_OrganizationID rq" repos] w' assms(6) obtain m' where m': "mgr w2 = Some m'"
    "\<forall>repo \<in> set repos. \<exists>g \<in> set (goroutines m'). g_task g = (index_request (rm_OrganizationID rq) repo, 0) \<and> next_handle m \<le> g_handle g"
    by metis
  from m'(2) assms(8) obtain g where "g \<in> set (goroutines m')" "g_task g = (index_request (rm_OrganizationID rq) repo, 0)"
    "next_handle m \<le> g_handle g" by blast
  with m'(1) w'(3) show ?thesis by blast
qed

definition index_world0 :: index_world where
  "index_world0 = start_world no_fault (answering [])"

definition remove_request :: blob where
  "remove_request = Doc (JObj [(''organization_id'', JNum 1), (''repo_provider'', JStr ''github''), (''repo_external_id'', JStr ''9'')])"

definition index_org_request :: "int \<Rightarrow> blob" where
  "index_org_request org = Doc (JObj [(''org_id'', JNum org), (''repos'', JArr [JObj [(''provider'', JStr ''github''),
     (''owner'', JStr ''acme''), (''name'', JStr ''app''), (''external_id'', JStr ''9'')]])])"

definition acme_app :: repoDetails where
  "acme_app = zero_repoDetails\<lparr>rd_Provider := ''github'', rd_Owner := ''acme'', rd_Name := ''app'', rd_ExternalID := ''9''\<rparr>"

lemma index_requests_decoded:
  "unmarshal dec_removeRepositoryRequest remove_request = Inr \<lparr>rm_OrganizationID = 1, rm_RepoProvider = ''github'', rm_RepoExternalID = ''9''\<rparr>"
  "decodeOptionalJSONBody dec_indexOrgRepo (index_org_request 1) = Inr (1, [acme_app])"
  by code_simp+

lemma remove_runs: "fst (RemoveRepository None remove_request index_world0) = Inr ()"
  by code_simp

theorem removed_repository_is_indexed_again_witness:
  "\<exists>m' g. mgr (snd (explorerIndexOrgRepo (Some (demo_index demo_host)) None (index_org_request 1)
       (snd (RemoveRepository None remove_request index_world0)))) = Some m' \<and>
     g \<in> set (goroutines m') \<and> g_task g = (index_request 1 acme_app, 0)"
proof -
  let ?w1 = "snd (RemoveRepository None remove_request index_world0)"
  let ?i = "explorerIndexOrgRepo (Some (demo_index demo_host)) None (index_org_request 1) ?w1"
  have run: "RemoveRepository None remove_request index_world0 = (Inr (), ?w1)"
    using remove_runs by (cases "RemoveRepository None remove_request index_world0") simp
  have reach: "prefs_reachable index_world0"
    by (rule pr_init) (simp add: index_world0_def start_world_def New_def)
  have ixd: "Indexed (Some (demo_index demo_host))" by (simp add: Indexed_def demo_defs ci_New_def)
  have "map_option inflight (mgr ?w1) = Some []" by code_simp
  then obtain m where m: "mgr ?w1 = Some m" by auto
  have key: "removedRepoKey (rd_Provider acme_app) (rd_ExternalID acme_app) = repositoryKey ''github'' ''9''"
    by (simp add: acme_app_def removedRepoKey_def repositoryKey_def)
  have index: "?i = (fst ?i, snd ?i)" by simp
  show ?thesis
    using removed_repository_is_indexed_again [OF reach run index_requests_decoded(1) index ixd m, of "[acme_app]" acme_app]
      index_requests_decoded(2) key by auto
qed

text \<open>Indexing a repository for one organization cancels the indexing of the same repository for another. The key
  of an index task is the owner and the name alone, so of two requests that share them the second
  cancels the context of the first, whatever their organizations and hosts; nothing starts it again.\<close>

theorem index_task_cancels_other_organization:
  assumes "mgr w = Some m" and "iq_Owner b = iq_Owner a" and "iq_Name b = iq_Name a"
  shows "\<exists>m' g. mgr (startIndexTask b (startIndexTask a w)) = Some m' \<and> g \<in> set (goroutines m') \<and>
    g_task g = (a, 0) \<and> g_handle g = next_handle m \<and> task_ctx g m' = Some canceled"
proof -
  let ?k = "index_key a"
  let ?m1 = "mgr_Start ?k (a, 0) m" and ?g = "\<lparr>g_handle = next_handle m, g_key = ?k, g_task = (a, 0)\<rparr>"
  let ?m2 = "mgr_Start ?k (b, 0) ?m1"
  have "index_key b = ?k" using assms(2,3) by (simp add: index_key_def)
  then have m2: "mgr (startIndexTask b (startIndexTask a w)) = Some ?m2"
    using startIndexTask_mgr [OF startIndexTask_mgr [OF assms(1), of a], of b] by simp
  have "map_of (inflight ?m1) ?k = Some (next_handle m)" by (simp add: mgr_Start_def Let_def)
  then have "next_handle m \<in> cancelled ?m2" by (simp add: mgr_Start_def [of ?k "(b, 0)"] Let_def)
  then have "task_ctx ?g ?m2 = Some canceled" by (simp add: task_ctx_def ctx_done_def canceled_def)
  moreover have "?g \<in> set (goroutines ?m2)" by (simp add: mgr_Start_goroutines)
  ultimately show ?thesis using m2 by fastforce
qed

theorem index_task_cancels_other_organization_witness:
  "\<exists>m' g. mgr (startIndexTask (index_request 2 acme_app) (startIndexTask (index_request 1 acme_app) index_world0)) = Some m' \<and>
     g \<in> set (goroutines m') \<and> iq_OrganizationID (fst (g_task g)) = 1 \<and> task_ctx g m' = Some canceled"
proof -
  have "mgr index_world0 = Some mgr_New" by (simp add: index_world0_def start_world_def)
  from index_task_cancels_other_organization [OF this, of "index_request 2 acme_app" "index_request 1 acme_app"]
  obtain m' g where "mgr (startIndexTask (index_request 2 acme_app) (startIndexTask (index_request 1 acme_app) index_world0)) = Some m'"
    "g \<in> set (goroutines m')" "g_task g = (index_request 1 acme_app, 0)" "task_ctx g m' = Some canceled"
    by (auto simp: index_request_def)
  then show ?thesis by (intro exI [of _ m'] exI [of _ g]) (simp add: index_request_def)
qed

text \<open>A retried feature dispatch starts nothing. When a feature run with the idempotency key is stored, the handler
  creates no run and starts no task; it answers with the id of the oldest such run, or with 500 when the lookup fails.\<close>

theorem feature_retry_starts_nothing:
  assumes "agentFeatureRun c body w = (resp, w')" and "decodeOptionalJSONBody dec_featureRequest body = Inr rq"
    and "fq_ExternalIdempotencyKey rq \<noteq> []"
    and "r \<in> set (runs_tbl (db w))" and "run_Kind r = KindAgentFeature" and "run_IdempotencyKey r = Some (fq_ExternalIdempotencyKey rq)"
  shows "runs_tbl (db w') = runs_tbl (db w) \<and> mgr w' = mgr w \<and> (fst resp = 500 \<or>
    (\<exists>r0 \<in> set (runs_tbl (db w)). resp = run_response (run_ID r0) \<and> run_Kind r0 = KindAgentFeature \<and>
       run_IdempotencyKey r0 = Some (fq_ExternalIdempotencyKey rq) \<and> run_ID r0 \<le> run_ID r))"
proof -
  let ?key = "fq_ExternalIdempotencyKey rq" and ?P = "keyed KindAgentFeature (fq_ExternalIdempotencyKey rq)"
  obtain found w1 where f: "FindByIdempotencyKey c KindAgentFeature ?key w = (found, w1)"
    by (cases "FindByIdempotencyKey c KindAgentFeature ?key w")
  have "?P r" using assms(5,6) by (simp add: keyed_def)
  with assms(4) have some: "first_row (select_asc run_ID ?P (runs_tbl (db w))) \<noteq> None"
    by (auto simp: first_row_None dest: arg_cong [of _ _ set])
  show ?thesis
  proof (cases found)
    case (Inl e)
    with assms(1-3) f have "resp = writeError 500 (err_text e)" "w' = w1" by (simp_all add: agentFeatureRun_def)
    moreover have "runs_tbl (db w1) = runs_tbl (db w) \<and> mgr w1 = mgr w"
    proof -
      have "readonly runs_tbl (FindRunByIdempotencyKey KindAgentFeature ?key)"
        unfolding FindRunByIdempotencyKey_def by (intro readonly_stmt) simp_all
      from readonlyD [OF readonly_on_db [OF this, of c]] f on_db_frameD show ?thesis
        unfolding FindByIdempotencyKey_def by (metis blind_runs_tbl)
    qed
    ultimately show ?thesis by (simp add: writeError_def writeJSON_def)
  next
    case (Inr x)
    note find = FindByIdempotencyKey_w [OF f [unfolded Inr] assms(3)]
    with some obtain r0 where r0: "x = Some r0" by auto
    with find have first: "first_row (select_asc run_ID ?P (runs_tbl (db w))) = Some r0" by simp
    from r0 Inr assms(1-3) f have "resp = run_response (run_ID r0)" "w' = w1" by (simp_all add: agentFeatureRun_def)
    with find first_asc_least [OF first] assms(4) \<open>?P r\<close> show ?thesis by (auto simp: keyed_def)
  qed
qed

definition feature_body :: blob where
  "feature_body = Doc (JObj [(''feature_id'', JStr ''triage''), (''payload'', JObj []), (''external_idempotency_key'', JStr ''k1'')])"

definition feature_started :: "feature_task world" where
  "feature_started = snd (agentFeatureRun None feature_body (start_world no_fault (answering ''done'')))"

lemma feature_started_rows: "map (\<lambda>r. (run_ID r, run_Kind r, run_IdempotencyKey r)) (runs_tbl (db feature_started)) =
    [(1, KindAgentFeature, Some ''k1'')]"
  by code_simp

lemma feature_decoded: "decodeOptionalJSONBody dec_featureRequest feature_body =
    Inr \<lparr>fq_FeatureID = ''triage'', fq_Payload = Some [], fq_ExternalIdempotencyKey = ''k1''\<rparr>"
  by code_simp

theorem feature_retry_starts_nothing_witness:
  "\<exists>resp w'. agentFeatureRun None feature_body feature_started = (resp, w') \<and>
     runs_tbl (db w') = runs_tbl (db feature_started) \<and> length (runs_tbl (db feature_started)) = 1"
proof -
  obtain resp w' where run: "agentFeatureRun None feature_body feature_started = (resp, w')"
    by (cases "agentFeatureRun None feature_body feature_started")
  from feature_started_rows obtain r where r: "runs_tbl (db feature_started) = [r]"
    "run_Kind r = KindAgentFeature" "run_IdempotencyKey r = Some ''k1''" by auto
  from feature_retry_starts_nothing [OF run feature_decoded, of r] r run show ?thesis by auto
qed

end
