(* ===== verification/Similarity.thy ===== *)
theory Similarity
  imports VectorStore Float64
begin

text \<open>
  Similar issues (\<open>internal/similarity/service.go\<close>): grouping records kept in the vector store
  and searched by the embedding of a stacktrace. The embedding client and the store are
  arguments; what is proved of the operations is proved inside \<open>vector_store_laws\<close>, for any
  store that keeps the contract, and then read off for the SQLite implementation.
\<close>

section \<open>Requests\<close>

record SimilarRequest =
  sm_ProjectID :: int
  sm_Stacktrace :: string
  sm_ExceptionType :: "string option"
  sm_Hash :: string
  sm_K :: int
  sm_Threshold :: "rat option"
  sm_TrainingMode :: bool

record SimilarResponse =
  sp_Responses :: "SimilarIssue list"
  sp_ModelUsed :: string

record DeleteByHashRequest =
  dh_ProjectID :: int
  dh_HashList :: "string list"

definition dec_SimilarRequest :: "json \<Rightarrow> SimilarRequest res" where
  "dec_SimilarRequest = dec_struct (\<lambda>ms.
     bindE (field ''project_id'' dec_int64 0 ms) (\<lambda>p.
     bindE (field ''stacktrace'' dec_string [] ms) (\<lambda>st.
     bindE (field ''exception_type'' (dec_ptr dec_string) None ms) (\<lambda>ty.
     bindE (field ''hash'' dec_string [] ms) (\<lambda>h.
     bindE (field ''k'' dec_int64 0 ms) (\<lambda>k.
     bindE (field ''threshold'' (dec_ptr dec_float64) None ms) (\<lambda>th.
     bindE (field ''training_mode'' dec_bool False ms) (\<lambda>tm.
       Inr \<lparr>sm_ProjectID = p, sm_Stacktrace = st, sm_ExceptionType = ty, sm_Hash = h, sm_K = k,
            sm_Threshold = th, sm_TrainingMode = tm\<rparr>))))))))"

definition dec_DeleteByHashRequest :: "json \<Rightarrow> DeleteByHashRequest res" where
  "dec_DeleteByHashRequest = dec_struct (\<lambda>ms.
     bindE (field ''project_id'' dec_int64 0 ms) (\<lambda>p.
     bindE (field ''hash_list'' (dec_array dec_string []) [] ms) (\<lambda>hs.
       Inr \<lparr>dh_ProjectID = p, dh_HashList = hs\<rparr>)))"

definition dec_supergroups :: "json \<Rightarrow> (int \<times> int option \<times> int option \<times> int list) res" where
  "dec_supergroups = dec_struct (\<lambda>ms.
     bindE (field ''organization_id'' dec_int64 0 ms) (\<lambda>org.
     bindE (field ''offset'' (dec_ptr dec_int64) None ms) (\<lambda>off.
     bindE (field ''limit'' (dec_ptr dec_int64) None ms) (\<lambda>lim.
     bindE (field ''project_ids'' (dec_array dec_int64 0) [] ms) (\<lambda>ps.
       Inr (org, off, lim, ps))))))"

section \<open>Operations\<close>

type_synonym Embedder = "string list \<Rightarrow> vector list res"

record similarity_cfg =
  sc_SimilarityThreshold :: rat
  sc_EmbeddingModel :: "string list"

definition primaryEmbeddingModel :: "similarity_cfg \<Rightarrow> string" where
  "primaryEmbeddingModel cfg = (case sc_EmbeddingModel cfg of [] \<Rightarrow> [] | m # ms \<Rightarrow> m)"

text \<open>\<open>vectors[0]\<close> of an empty slice panics; the request ends without an answer.\<close>

definition index_panic :: goerr where
  "index_panic = errorf ''runtime error: index out of range [0] with length 0''"

definition first_vector :: "vector list \<Rightarrow> vector res" where
  "first_vector vs = (case vs of [] \<Rightarrow> Inl index_panic | v # rest \<Rightarrow> Inr v)"

definition grouping_record :: "SimilarRequest \<Rightarrow> vector \<Rightarrow> GroupingRecord" where
  "grouping_record request v = \<lparr>gr_ProjectID = sm_ProjectID request, gr_Hash = sm_Hash request,
     gr_ExceptionType = sm_ExceptionType request, gr_Vector = v\<rparr>"

definition Similar :: "similarity_cfg \<Rightarrow> Embedder \<Rightarrow> 's VectorStore \<Rightarrow> blob \<Rightarrow> (SimilarResponse, 's) op" where
  "Similar cfg emb S raw =
     andThen (liftE (case unmarshal dec_SimilarRequest raw of
         Inl e \<Rightarrow> Inl (wrap ''decode similar issues request'' e) | Inr x \<Rightarrow> Inr x)) (\<lambda>request.
     let k = (if sm_K request \<le> 0 then 1 else sm_K request);
         threshold = (case sm_Threshold request of None \<Rightarrow> sc_SimilarityThreshold cfg | Some t \<Rightarrow> t)
     in andThen (liftE (emb [sm_Stacktrace request])) (\<lambda>vectors.
        andThen (liftE (first_vector vectors)) (\<lambda>v.
        if sm_TrainingMode request then
          andThen (vs_UpsertGroupingRecords S [grouping_record request v]) (\<lambda>_.
            ret \<lparr>sp_Responses = [], sp_ModelUsed = primaryEmbeddingModel cfg\<rparr>)
        else andThen (vs_SearchSimilar S (sm_ProjectID request) (sm_Hash request) v k threshold) (\<lambda>results.
            ret \<lparr>sp_Responses = results, sp_ModelUsed = primaryEmbeddingModel cfg\<rparr>))))"

definition sim_DeleteProject :: "'s VectorStore \<Rightarrow> int \<Rightarrow> (bool, 's) op" where
  "sim_DeleteProject S projectID = vs_DeleteProject S projectID"

definition DeleteByHash :: "'s VectorStore \<Rightarrow> blob \<Rightarrow> (bool, 's) op" where
  "DeleteByHash S raw =
     andThen (liftE (case unmarshal dec_DeleteByHashRequest raw of
         Inl e \<Rightarrow> Inl (wrap ''decode delete-by-hash request'' e) | Inr x \<Rightarrow> Inr x)) (\<lambda>request.
       vs_DeleteHashes S (dh_ProjectID request) (dh_HashList request))"

definition sim_ListSupergroups :: "'s VectorStore \<Rightarrow> blob \<Rightarrow> (json gomap list, 's) op" where
  "sim_ListSupergroups S raw =
     andThen (liftE (case unmarshal dec_supergroups raw of
         Inl e \<Rightarrow> Inl (wrap ''decode supergroups list request'' e) | Inr x \<Rightarrow> Inr x)) (\<lambda>(org, off, lim, ps).
       vs_ListSupergroups S org ps (case off of None \<Rightarrow> 0 | Some n \<Rightarrow> n) (case lim of None \<Rightarrow> 50 | Some n \<Rightarrow> n))"

lemma no_vector_panics:
  "unmarshal dec_SimilarRequest raw = Inr q \<Longrightarrow> emb [sm_Stacktrace q] = Inr [] \<Longrightarrow>
   Similar cfg emb S raw s = (Inl index_panic, s)"
  by (simp add: Similar_def Let_def andThen_def first_vector_def)

section \<open>The abstract machine\<close>

text \<open>
  The calls that reach the grouping table, and the table they promise: a map from project and
  hash to a record. \<open>Stored\<close> answers carry what a training call was embedded to.
\<close>

datatype similarity_call = SimilarCall blob | DeleteProjectCall int | DeleteByHashCall blob

datatype similarity_answer = Answered SimilarResponse | Deleted | Failed

type_synonym groups = "int \<times> string \<Rightarrow> GroupingRecord option"

definition perform_call :: "similarity_cfg \<Rightarrow> Embedder \<Rightarrow> 's VectorStore \<Rightarrow> similarity_call \<Rightarrow> 's \<Rightarrow> similarity_answer \<times> 's" where
  "perform_call cfg emb S call s = (case call of
       SimilarCall raw \<Rightarrow> (case Similar cfg emb S raw s of (Inl e, t) \<Rightarrow> (Failed, t) | (Inr r, t) \<Rightarrow> (Answered r, t))
     | DeleteProjectCall p \<Rightarrow> (case sim_DeleteProject S p s of (Inl e, t) \<Rightarrow> (Failed, t) | (Inr b, t) \<Rightarrow> (Deleted, t))
     | DeleteByHashCall raw \<Rightarrow> (case DeleteByHash S raw s of (Inl e, t) \<Rightarrow> (Failed, t) | (Inr b, t) \<Rightarrow> (Deleted, t)))"

fun perform_calls :: "similarity_cfg \<Rightarrow> Embedder \<Rightarrow> 's VectorStore \<Rightarrow> similarity_call list \<Rightarrow> 's \<Rightarrow> similarity_answer list \<times> 's" where
  "perform_calls cfg emb S [] s = ([], s)"
| "perform_calls cfg emb S (c # cs) s = (case perform_call cfg emb S c s of (a, t) \<Rightarrow>
     (case perform_calls cfg emb S cs t of (as, u) \<Rightarrow> (a # as, u)))"

text \<open>What an answer may be and what a call does to the map.\<close>

definition effect_on :: "Embedder \<Rightarrow> similarity_call \<Rightarrow> groups \<Rightarrow> groups" where
  "effect_on emb call m = (case call of
       SimilarCall raw \<Rightarrow> (case unmarshal dec_SimilarRequest raw of Inl e \<Rightarrow> m | Inr q \<Rightarrow>
         if \<not> sm_TrainingMode q then m
         else (case emb [sm_Stacktrace q] of Inl e \<Rightarrow> m | Inr [] \<Rightarrow> m
             | Inr (v # vs) \<Rightarrow> m((sm_ProjectID q, sm_Hash q) \<mapsto> grouping_record q v)))
     | DeleteProjectCall p \<Rightarrow> (\<lambda>k. if fst k = p then None else m k)
     | DeleteByHashCall raw \<Rightarrow> (case unmarshal dec_DeleteByHashRequest raw of Inl e \<Rightarrow> m
         | Inr q \<Rightarrow> (\<lambda>k. if fst k = dh_ProjectID q \<and> snd k \<in> set (dh_HashList q) then None else m k)))"

definition answer_ok :: "similarity_cfg \<Rightarrow> similarity_call \<Rightarrow> groups \<Rightarrow> SimilarResponse \<Rightarrow> bool" where
  "answer_ok cfg call m r \<longleftrightarrow> (\<forall>raw q. call = SimilarCall raw \<longrightarrow> unmarshal dec_SimilarRequest raw = Inr q \<longrightarrow>
     length (sp_Responses r) \<le> nat (max 1 (sm_K q)) \<and> (sm_TrainingMode q \<longrightarrow> sp_Responses r = []) \<and>
     (\<forall>i \<in> set (sp_Responses r). m (sm_ProjectID q, si_ParentHash i) \<noteq> None \<and> si_ParentHash i \<noteq> sm_Hash q \<and>
        si_StacktraceDistance i \<le> (case sm_Threshold q of None \<Rightarrow> sc_SimilarityThreshold cfg | Some t \<Rightarrow> t)))"

fun machine_run :: "similarity_cfg \<Rightarrow> Embedder \<Rightarrow> similarity_call list \<Rightarrow> similarity_answer list \<Rightarrow> groups \<Rightarrow> groups \<Rightarrow> bool" where
  "machine_run cfg emb [] [] m m' \<longleftrightarrow> m' = m"
| "machine_run cfg emb (c # cs) (a # as) m m' \<longleftrightarrow>
     (case a of
        Failed \<Rightarrow> machine_run cfg emb cs as m m'
      | Deleted \<Rightarrow> machine_run cfg emb cs as (effect_on emb c m) m'
      | Answered r \<Rightarrow> answer_ok cfg c m r \<and> machine_run cfg emb cs as (effect_on emb c m) m')"
| "machine_run cfg emb _ _ m m' \<longleftrightarrow> False"

text \<open>The three ways a request can go.\<close>

lemma Similar_cases:
  assumes "Similar cfg emb S raw s = (x, t)"
  obtains
    (refused) e where "x = Inl e" "t = s"
  | (trained) q v vs y where "unmarshal dec_SimilarRequest raw = Inr q" "emb [sm_Stacktrace q] = Inr (v # vs)"
      "sm_TrainingMode q" "vs_UpsertGroupingRecords S [grouping_record q v] s = (y, t)"
      "x = (case y of Inl e \<Rightarrow> Inl e | Inr u \<Rightarrow> Inr \<lparr>sp_Responses = [], sp_ModelUsed = primaryEmbeddingModel cfg\<rparr>)"
  | (searched) q v vs y where "unmarshal dec_SimilarRequest raw = Inr q" "emb [sm_Stacktrace q] = Inr (v # vs)"
      "\<not> sm_TrainingMode q" "vs_SearchSimilar S (sm_ProjectID q) (sm_Hash q) v (if sm_K q \<le> 0 then 1 else sm_K q)
        (case sm_Threshold q of None \<Rightarrow> sc_SimilarityThreshold cfg | Some th \<Rightarrow> th) s = (y, t)"
      "x = (case y of Inl e \<Rightarrow> Inl e | Inr out \<Rightarrow> Inr \<lparr>sp_Responses = out, sp_ModelUsed = primaryEmbeddingModel cfg\<rparr>)"
proof (cases "unmarshal dec_SimilarRequest raw")
  case (Inl e)
  with assms show ?thesis by (intro refused) (auto simp: Similar_def andThen_def)
next
  case q: (Inr q)
  show ?thesis
  proof (cases "bindE (emb [sm_Stacktrace q]) first_vector")
    case (Inl e)
    with assms q show ?thesis
      by (intro refused [of e]) (auto simp: Similar_def Let_def andThen_def split: sum.splits)
  next
    case (Inr v)
    then obtain out where out: "emb [sm_Stacktrace q] = Inr out" "first_vector out = Inr v"
      by (auto simp: bindE_eq_Inr)
    then obtain vs where v: "emb [sm_Stacktrace q] = Inr (v # vs)"
      by (cases out) (simp_all add: first_vector_def)
    show ?thesis
    proof (cases "sm_TrainingMode q")
      case True
      let ?m = "vs_UpsertGroupingRecords S [grouping_record q v] s"
      from assms q v True show ?thesis
        by (intro trained [of q v vs "fst ?m"])
          (auto simp: Similar_def Let_def andThen_def first_vector_def split: sum.splits prod.splits)
    next
      case False
      let ?m = "vs_SearchSimilar S (sm_ProjectID q) (sm_Hash q) v (if sm_K q \<le> 0 then 1 else sm_K q)
        (case sm_Threshold q of None \<Rightarrow> sc_SimilarityThreshold cfg | Some th \<Rightarrow> th) s"
      from assms q v False show ?thesis
        by (intro searched [of q v vs "fst ?m"])
          (auto simp: Similar_def Let_def andThen_def first_vector_def split: sum.splits prod.splits)
    qed
  qed
qed

section \<open>Every store that keeps the contract runs the machine\<close>

context vector_store_laws
begin

lemma search_frame: "vs_SearchSimilar S p h v k th s = (x, t) \<Longrightarrow> groups t = groups s \<and> chunks t = chunks s"
  using search_similar_reads [of p h v k th, unfolded readonly_def, rule_format, of s] by simp

lemma upsert_frame: "vs_UpsertGroupingRecords S rs s = (Inl e, t) \<Longrightarrow> groups t = groups s \<and> chunks t = chunks s"
  using upsert_groups_err [of rs] by (simp add: all_or_nothing_def)

lemma Similar_answers:
  assumes "ok s" and "Similar cfg emb S raw s = (x, t)"
  shows "ok t \<and> chunks t = chunks s \<and> (case x of Inl e \<Rightarrow> groups t = groups s
    | Inr r \<Rightarrow> answer_ok cfg (SimilarCall raw) (groups s) r \<and> groups t = effect_on emb (SimilarCall raw) (groups s))"
  using assms(2)
proof (cases rule: Similar_cases)
  case (refused e)
  with assms(1) show ?thesis by simp
next
  case (trained q v vs y)
  with keepsD [OF keeps_ok(1) assms(1)] have "ok t" by (metis snd_conv)
  with trained show ?thesis
    using upsert_frame [of "[grouping_record q v]" s] upsert_groups [of "[grouping_record q v]" s]
    by (cases y) (auto simp: effect_on_def answer_ok_def grouping_record_def)
next
  case (searched q v vs y)
  from searched(4) keepsD [OF keeps_ok(7) assms(1)] have "ok t" by (metis snd_conv)
  note frame = search_frame [OF searched(4)] this
  show ?thesis
  proof (cases y)
    case (Inl e)
    with searched frame show ?thesis by simp
  next
    case (Inr out)
    note run = searched(4) [unfolded Inr]
    have "answer_ok cfg (SimilarCall raw) (groups s) \<lparr>sp_Responses = out, sp_ModelUsed = primaryEmbeddingModel cfg\<rparr>"
      using search_similar [OF assms(1) run] search_similar_bound [OF run] searched(1,3)
      by (fastforce simp: answer_ok_def split: if_splits)
    with searched Inr frame show ?thesis by (simp add: effect_on_def)
  qed
qed

lemma call_runs:
  assumes "ok s" and "perform_call cfg emb S c s = (a, t)"
  shows "ok t \<and> chunks t = chunks s \<and> (case a of
      Failed \<Rightarrow> groups t = groups s
    | Deleted \<Rightarrow> groups t = effect_on emb c (groups s)
    | Answered r \<Rightarrow> answer_ok cfg c (groups s) r \<and> groups t = effect_on emb c (groups s))"
proof (cases c)
  case (SimilarCall raw)
  obtain x u where x: "Similar cfg emb S raw s = (x, u)" by (cases "Similar cfg emb S raw s")
  with assms(2) SimilarCall have "a = (case x of Inl e \<Rightarrow> Failed | Inr r \<Rightarrow> Answered r)" "u = t"
    by (auto simp: perform_call_def split: sum.splits)
  with Similar_answers [OF assms(1) x] SimilarCall show ?thesis by (cases x) simp_all
next
  case (DeleteProjectCall p)
  obtain x u where x: "vs_DeleteProject S p s = (x, u)" by (cases "vs_DeleteProject S p s")
  with assms(2) DeleteProjectCall have a: "a = (case x of Inl e \<Rightarrow> Failed | Inr r \<Rightarrow> Deleted)" "u = t"
    by (auto simp: perform_call_def sim_DeleteProject_def split: sum.splits)
  from x a(2) keepsD [OF keeps_ok(2) assms(1)] have "ok t" by (metis snd_conv)
  with a x DeleteProjectCall delete_groups_err(1) [of p] delete_project [OF assms(1), of p] show ?thesis
    by (cases x) (auto simp: effect_on_def all_or_nothing_def)
next
  case (DeleteByHashCall raw)
  show ?thesis
  proof (cases "unmarshal dec_DeleteByHashRequest raw")
    case (Inl e)
    with assms DeleteByHashCall show ?thesis by (auto simp: perform_call_def DeleteByHash_def andThen_def)
  next
    case (Inr q)
    let ?m = "vs_DeleteHashes S (dh_ProjectID q) (dh_HashList q)"
    obtain x u where x: "?m s = (x, u)" by (cases "?m s")
    with assms(2) DeleteByHashCall Inr have a: "a = (case x of Inl e \<Rightarrow> Failed | Inr r \<Rightarrow> Deleted)" "u = t"
      by (auto simp: perform_call_def DeleteByHash_def andThen_def split: sum.splits)
    from x a(2) keepsD [OF keeps_ok(3) assms(1)] have "ok t" by (metis snd_conv)
    with a x DeleteByHashCall Inr delete_groups_err(2) [of "dh_ProjectID q" "dh_HashList q"] delete_hashes [OF assms(1)] show ?thesis
      by (cases x) (auto simp: effect_on_def all_or_nothing_def)
  qed
qed

lemma calls_run:
  "ok s \<Longrightarrow> perform_calls cfg emb S cs s = (as, t) \<Longrightarrow>
   ok t \<and> chunks t = chunks s \<and> machine_run cfg emb cs as (groups s) (groups t)"
proof (induction cs arbitrary: s as)
  case (Cons c cs)
  obtain a u where a: "perform_call cfg emb S c s = (a, u)" by (cases "perform_call cfg emb S c s")
  obtain bs v where b: "perform_calls cfg emb S cs u = (bs, v)" by (cases "perform_calls cfg emb S cs u")
  from Cons.prems(2) a b have as: "as = a # bs" "v = t" by simp_all
  note one = call_runs [OF Cons.prems(1) a]
  then have "ok u" by simp
  from one Cons.IH [OF this b [unfolded as(2)]] as(1) show ?case by (cases a) auto
qed simp

end

section \<open>The SQLite store\<close>

text \<open>C32: on the SQLite store every sequence of similarity requests runs the abstract machine: training
  stores exactly the embedded record under its project and hash, the deletes remove exactly what they
  name, a failed request changes nothing, and a search answers, within the number asked for, records
  that are in the table, of the project asked for, under another hash and within the threshold. The
  code chunks in the same database are never touched.\<close>

theorem grouping_store_refines:
  assumes "vec_ok s" and "perform_calls cfg emb (sqlitevec_store sv) calls s = (as, t)"
  shows "machine_run cfg emb calls as (vec_groups s) (vec_groups t) \<and> vec_code t = vec_code s \<and> vec_ok t"
  using sqlitevec_laws.calls_run [OF assms] by blast

definition sim_body :: "string \<Rightarrow> bool \<Rightarrow> blob" where
  "sim_body h train = Doc (JObj [(''project_id'', JNum 1), (''stacktrace'', JStr ''at main''), (''hash'', JStr h),
     (''training_mode'', JBool train)])"

definition sim_calls :: "similarity_call list" where
  "sim_calls = [SimilarCall (sim_body ''a'' True), SimilarCall (sim_body ''b'' False),
     DeleteByHashCall (Doc (JObj [(''project_id'', JNum 1), (''hash_list'', JArr [JStr ''a''])])),
     SimilarCall (sim_body ''b'' False)]"

definition sim_run :: "similarity_answer list \<times> store" where
  "sim_run = perform_calls \<lparr>sc_SimilarityThreshold = 0, sc_EmbeddingModel = [''m'']\<rparr> (\<lambda>texts. Inr (map (\<lambda>x. [1, 0]) texts))
     (sqlitevec_store \<lparr>sv_dimensions = 2, sv_distance = \<lambda>u v. Inr (Some 0)\<rparr>) sim_calls (New (\<lambda>n. None) (\<lambda>n. []))"

theorem grouping_store_refines_witness:
  "\<exists>as t. sim_run = (as, t) \<and> vec_groups t (1, ''a'') = None \<and> length as = 4 \<and>
     as ! 1 = Answered \<lparr>sp_Responses = [\<lparr>si_ParentHash = ''a'', si_StacktraceDistance = 0, si_ShouldGroup = True\<rparr>], sp_ModelUsed = ''m''\<rparr> \<and>
     machine_run \<lparr>sc_SimilarityThreshold = 0, sc_EmbeddingModel = [''m'']\<rparr> (\<lambda>texts. Inr (map (\<lambda>x. [1, 0]) texts))
       sim_calls as (vec_groups (New (\<lambda>n. None) (\<lambda>n. []))) (vec_groups t)"
proof -
  have ok: "vec_ok (New (\<lambda>n. None) (\<lambda>n. []))" by (simp add: vec_ok_def New_def)
  obtain as t where run: "sim_run = (as, t)" by (cases sim_run)
  have "case sim_run of (as, t) \<Rightarrow> as ! 1 = Answered \<lparr>sp_Responses = [\<lparr>si_ParentHash = ''a'', si_StacktraceDistance = 0, si_ShouldGroup = True\<rparr>],
     sp_ModelUsed = ''m''\<rparr> \<and> length as = 4 \<and> vec_groups t (1, ''a'') = None" by code_simp
  then have "as ! 1 = Answered \<lparr>sp_Responses = [\<lparr>si_ParentHash = ''a'', si_StacktraceDistance = 0, si_ShouldGroup = True\<rparr>],
     sp_ModelUsed = ''m''\<rparr> \<and> length as = 4 \<and> vec_groups t (1, ''a'') = None" unfolding run by simp
  with grouping_store_refines [OF ok run [unfolded sim_run_def]] run show ?thesis by blast
qed

end
