(* ===== verification/Http.thy ===== *)
theory Http
  imports Prompts "HOL-Library.List_Lexorder" "HOL-Library.Char_ord"
begin

text \<open>
  What the HTTP clients of the program share: the parts of \<open>net/url\<close> they use, requests and
  responses, and the transport they send requests through. The transport is an argument: it is
  the network and the server, with a state of its own. A transport that logs what it is asked
  makes the requests of an operation visible.
\<close>

section \<open>Escaping\<close>

definition hex_upper :: "nat \<Rightarrow> char" where
  "hex_upper d = (if d < 10 then char_of (48 + d) else char_of (55 + d))"

definition hex_value :: "char \<Rightarrow> nat option" where
  "hex_value c = (let n = of_char c :: nat in
     if 48 \<le> n \<and> n \<le> 57 then Some (n - 48) else if 97 \<le> n \<and> n \<le> 102 then Some (n - 87)
     else if 65 \<le> n \<and> n \<le> 70 then Some (n - 55) else None)"

definition unreserved :: "char \<Rightarrow> bool" where
  "unreserved c \<longleftrightarrow> (let n = of_char c :: nat in
     48 \<le> n \<and> n \<le> 57 \<or> 65 \<le> n \<and> n \<le> 90 \<or> 97 \<le> n \<and> n \<le> 122 \<or> c \<in> set ''-_.~'')"

text \<open>\<open>shouldEscape\<close> for a path segment keeps some reserved characters.\<close>

definition segment_char :: "char \<Rightarrow> bool" where
  "segment_char c \<longleftrightarrow> unreserved c \<or> c \<in> set ''$&+:=@''"

definition percent_char :: "char \<Rightarrow> string" where
  "percent_char c = (let n = of_char c :: nat in [CHR ''%'', hex_upper (n div 16), hex_upper (n mod 16)])"

definition PathEscape :: "string \<Rightarrow> string" where
  "PathEscape s = concat (map (\<lambda>c. if segment_char c then [c] else percent_char c) s)"

definition QueryEscape :: "string \<Rightarrow> string" where
  "QueryEscape s = concat (map (\<lambda>c. if unreserved c then [c] else if c = CHR '' '' then ''+'' else percent_char c) s)"

text \<open>\<open>PathUnescape\<close>, and the decoding of \<open>URL.Path\<close> by \<open>url.Parse\<close>.\<close>

fun PathUnescape :: "string \<Rightarrow> string option" where
  "PathUnescape [] = Some []"
| "PathUnescape (c # cs) =
     (if c = CHR ''%'' then (case cs of
          a # b # rest \<Rightarrow> (case (hex_value a, hex_value b) of
              (Some x, Some y) \<Rightarrow> map_option (Cons (char_of (16 * x + y))) (PathUnescape rest)
            | _ \<Rightarrow> None)
        | _ \<Rightarrow> None)
      else map_option (Cons c) (PathUnescape cs))"

text \<open>\<open>url.Values.Encode\<close>: the keys in order, each key with one value here.\<close>

definition Encode :: "(string \<times> string) list \<Rightarrow> string" where
  "Encode vs = Join (map (\<lambda>(k, v). QueryEscape k @ ''='' @ QueryEscape v) (sort_key fst vs)) ''&''"

section \<open>Parsing\<close>

text \<open>
  \<open>url.Parse\<close>, as far as the path and the raw query of the result. Whether the authority of
  a URL is accepted is an argument; the texts of the errors are not modelled.
\<close>

definition url_err :: goerr where
  "url_err = errorf ''invalid URL''"

definition letter :: "char \<Rightarrow> bool" where
  "letter c \<longleftrightarrow> (let n = of_char c :: nat in 65 \<le> n \<and> n \<le> 90 \<or> 97 \<le> n \<and> n \<le> 122)"

text \<open>The scheme, if there is one, and what follows its colon.\<close>

fun scheme_from :: "bool \<Rightarrow> string \<Rightarrow> string \<Rightarrow> (string \<times> string) option res" where
  "scheme_from first seen [] = Inr None"
| "scheme_from first seen (c # cs) =
     (if letter c then scheme_from False (seen @ [c]) cs
      else if digit_val c \<noteq> None \<or> c \<in> set ''+-.'' then (if first then Inr None else scheme_from False (seen @ [c]) cs)
      else if c = CHR '':'' then (if first then Inl url_err else Inr (Some (seen, cs)))
      else Inr None)"

definition Cut :: "char \<Rightarrow> string \<Rightarrow> string \<times> string" where
  "Cut c s = (takeWhile (\<lambda>x. x \<noteq> c) s, drop (Suc (length (takeWhile (\<lambda>x. x \<noteq> c) s))) s)"

definition path_of :: "string \<Rightarrow> string \<Rightarrow> (string \<times> string) res" where
  "path_of p raw_query = (case PathUnescape p of None \<Rightarrow> Inl url_err | Some path \<Rightarrow> Inr (path, raw_query))"

definition url_Parse :: "(string \<Rightarrow> bool) \<Rightarrow> string \<Rightarrow> (string \<times> string) res" where
  "url_Parse authority_ok raw = (case Cut CHR ''#'' raw of (u, fragment) \<Rightarrow>
     if \<exists>c \<in> set u. (of_char c :: nat) < 32 \<or> (of_char c :: nat) = 127 then Inl url_err
     else if PathUnescape fragment = None then Inl url_err
     else if u = ''*'' then Inr (''*'', [])
     else bindE (scheme_from True [] u) (\<lambda>sch.
       let rest0 = (case sch of None \<Rightarrow> u | Some (s, r) \<Rightarrow> r) in
       case Cut CHR ''?'' rest0 of (rest, raw_query) \<Rightarrow>
         if take 1 rest \<noteq> ''/'' then
           (if sch \<noteq> None then Inr ([], raw_query)
            else if CHR '':'' \<in> set (fst (Cut CHR ''/'' rest)) then Inl url_err
            else path_of rest raw_query)
         else if take 2 rest = ''//'' \<and> (sch \<noteq> None \<or> take 3 rest \<noteq> ''///'') then
           (let authority = takeWhile (\<lambda>c. c \<noteq> CHR ''/'') (drop 2 rest) in
            if authority_ok authority then path_of (drop (2 + length authority) rest) raw_query else Inl url_err)
         else path_of rest raw_query))"

section \<open>Requests\<close>

record http_request =
  hq_Method :: string
  hq_URL :: string
  hq_Headers :: "(string \<times> string) list"
  hq_Body :: "json option"

text \<open>
  A response: the status, the value of the \<open>Link\<close> header (empty without one), the bytes of the
  body that arrive and the error that cut them short, if any.
\<close>

record http_response =
  hs_Status :: int
  hs_Link :: string
  hs_Body :: string
  hs_BodyErr :: "goerr option"

text \<open>
  The outside: which URLs \<open>http.NewRequest\<close> refuses, what sending a request does, how a body
  parses as JSON, and which authorities \<open>url.Parse\<close> accepts.
\<close>

record 'w transport =
  tr_refuses :: "string \<Rightarrow> goerr option"
  tr_do :: "http_request \<Rightarrow> (http_response, 'w) op"
  tr_json :: "string \<Rightarrow> blob"
  tr_authority :: "string \<Rightarrow> bool"

text \<open>The same transport, keeping a log of the requests.\<close>

definition logging :: "'w transport \<Rightarrow> ('w \<times> http_request list) transport" where
  "logging t = \<lparr>tr_refuses = tr_refuses t,
     tr_do = (\<lambda>rq (w, log). case tr_do t rq w of (r, w') \<Rightarrow> (r, (w', log @ [rq]))),
     tr_json = tr_json t, tr_authority = tr_authority t\<rparr>"

text \<open>And keeping the answers beside them.\<close>

definition recording :: "'w transport \<Rightarrow> ('w \<times> (http_request \<times> http_response res) list) transport" where
  "recording t = \<lparr>tr_refuses = tr_refuses t,
     tr_do = (\<lambda>rq (w, log). case tr_do t rq w of (r, w') \<Rightarrow> (r, (w', log @ [(rq, r)]))),
     tr_json = tr_json t, tr_authority = tr_authority t\<rparr>"

section \<open>Escaped segments\<close>

lemma hex_upper_value: "d < 16 \<Longrightarrow> hex_value (hex_upper d) = Some d"
  by (auto simp: hex_value_def hex_upper_def Let_def of_char_of)

lemma of_char_16: "16 * (of_char c div 16) + of_char c mod 16 = (of_char c :: nat)"
  by (simp add: mult.commute)

lemma of_char_less: "(of_char c :: nat) div 16 < 16"
  using less_mult_imp_div_less [of "of_char c :: nat" 16 16] by simp

lemma percent_escaped [simp]: "\<not> segment_char CHR ''%''"
  by (simp add: segment_char_def unreserved_def)

lemma Unescape_escaped: "PathUnescape (percent_char c @ s) = map_option (Cons c) (PathUnescape s)"
  using of_char_less [of c] of_char_16 [of c]
  by (simp add: percent_char_def Let_def hex_upper_value)

text \<open>Escaping a segment loses nothing.\<close>

lemma Unescape_PathEscape: "PathUnescape (PathEscape s) = Some s"
proof (induction s)
  case (Cons c s)
  then show ?case
    by (cases "segment_char c") (auto simp: PathEscape_def Unescape_escaped)
qed (simp add: PathEscape_def)

lemma PathEscape_inject: "PathEscape s = PathEscape t \<longleftrightarrow> s = t"
  using Unescape_PathEscape by (metis option.inject)

lemma hex_upper_unreserved: "d < 16 \<Longrightarrow> unreserved (hex_upper d)"
  by (auto simp: hex_upper_def unreserved_def Let_def of_char_of take_bit_nat_eq_self)

text \<open>An escaped segment holds no separator.\<close>

lemma PathEscape_chars: "c \<in> set (PathEscape s) \<Longrightarrow> segment_char c \<or> c = CHR ''%''"
  using of_char_less
  by (auto simp: PathEscape_def percent_char_def Let_def segment_char_def hex_upper_unreserved split: if_splits)

lemma PathEscape_plain: "c \<in> set (PathEscape s) \<Longrightarrow> c \<notin> set ''/?#;,''"
  by (drule PathEscape_chars) (auto simp: segment_char_def unreserved_def)

section \<open>What an operation sends\<close>

definition sends :: "('x \<Rightarrow> bool) \<Rightarrow> ('a, 'w \<times> 'x list) op \<Rightarrow> bool" where
  "sends P m \<longleftrightarrow> (\<forall>w sent. \<exists>rqs. snd (snd (m (w, sent))) = sent @ rqs \<and> (\<forall>rq \<in> set rqs. P rq))"

named_theorems sends_intro

lemma sendsD: "sends P m \<Longrightarrow> m (w, sent) = (r, (w', sent')) \<Longrightarrow> \<exists>rqs. sent' = sent @ rqs \<and> (\<forall>rq \<in> set rqs. P rq)"
  unfolding sends_def by (metis snd_conv)

lemma sends_ret [sends_intro]: "sends P (ret x)"
  by (simp add: sends_def)

lemma sends_fail [sends_intro]: "sends P (fail e)"
  by (simp add: sends_def)

lemma sends_liftE [sends_intro]: "sends P (liftE r)"
  by (simp add: sends_def)

lemma sends_wrapping [sends_intro]: "sends P m \<Longrightarrow> sends P (wrapping p m)"
  by (simp add: sends_def)

lemma sends_if [sends_intro]: "sends P m \<Longrightarrow> sends P n \<Longrightarrow> sends P (if b then m else n)"
  by simp

lemma sends_option [sends_intro]:
  "sends P m \<Longrightarrow> (\<And>x. sends P (f x)) \<Longrightarrow> sends P (case y of None \<Rightarrow> m | Some x \<Rightarrow> f x)"
  by (cases y) auto

lemma sends_prod [sends_intro]: "(\<And>x y. sends P (f x y)) \<Longrightarrow> sends P (case z of (x, y) \<Rightarrow> f x y)"
  by (cases z) auto

lemma sends_andThen [sends_intro]:
  assumes "sends P m" and "\<And>x. sends P (f x)"
  shows "sends P (andThen m f)"
  unfolding sends_def
proof (intro allI)
  fix w sent
  obtain r w1 sent1 where m: "m (w, sent) = (r, w1, sent1)" by (cases "m (w, sent)") auto
  from sendsD [OF assms(1) m] obtain a where a: "sent1 = sent @ a" "\<forall>rq \<in> set a. P rq" by blast
  show "\<exists>rqs. snd (snd (andThen m f (w, sent))) = sent @ rqs \<and> (\<forall>rq \<in> set rqs. P rq)"
  proof (cases r)
    case (Inl e)
    with m a show ?thesis by (simp add: andThen_def)
  next
    case (Inr x)
    obtain r2 w2 sent2 where f: "f x (w1, sent1) = (r2, w2, sent2)" by (cases "f x (w1, sent1)") auto
    from sendsD [OF assms(2) f] obtain b where "sent2 = sent1 @ b" "\<forall>rq \<in> set b. P rq" by blast
    with m f a Inr show ?thesis by (auto simp: andThen_def intro!: exI [of _ "a @ b"])
  qed
qed

lemma sends_do: "P rq \<Longrightarrow> sends P (tr_do (logging t) rq)"
  by (auto simp: sends_def logging_def split: prod.splits)

lemma sends_recording: "(\<And>r. P (rq, r)) \<Longrightarrow> sends P (tr_do (recording t) rq)"
  by (auto simp: sends_def recording_def split: prod.splits)

lemma recording_simps [simp]:
  "tr_refuses (recording t) = tr_refuses t" "tr_json (recording t) = tr_json t" "tr_authority (recording t) = tr_authority t"
  by (simp_all add: recording_def)

lemma logging_simps [simp]:
  "tr_refuses (logging t) = tr_refuses t" "tr_json (logging t) = tr_json t" "tr_authority (logging t) = tr_authority t"
  by (simp_all add: logging_def)

end
