(* ===== verification/GitHub.thy ===== *)
theory GitHub
  imports Http GitProvider Utf8
begin

text \<open>
  The GitHub client (\<open>internal/git/github.go\<close>). An operation sends requests through the
  transport and reads their answers; its state is that of the outside. The file contents a
  commit carries go through the JSON encoder, which writes U+FFFD for bytes that are no UTF-8.
\<close>

section \<open>Client and requests\<close>

definition maxResponseBytes :: int where
  "maxResponseBytes = 8388608"

text \<open>\<open>io.LimitReader\<close>: what is beyond the limit is dropped, without an error.\<close>

definition limited :: "string \<Rightarrow> string" where
  "limited s = (if int (length s) \<le> maxResponseBytes then s else take (nat maxResponseBytes) s)"

record 'w githubProvider =
  gh_client :: "'w transport"
  gh_baseURL :: string
  gh_token :: string
  gh_perPage :: int
  gh_maxPages :: nat

definition trim_right :: "char \<Rightarrow> string \<Rightarrow> string" where
  "trim_right c s = rev (dropWhile (\<lambda>x. x = c) (rev s))"

definition NewGitHubProvider :: "string \<Rightarrow> string \<Rightarrow> 'w transport \<Rightarrow> 'w githubProvider res" where
  "NewGitHubProvider baseURL token client =
     (if TrimSpace token = [] then Inl (not_configured ''GITHUB_TOKEN is empty'')
      else Inr \<lparr>gh_client = client,
        gh_baseURL = trim_right CHR ''/'' (if TrimSpace baseURL = [] then ''https://api.github.com'' else baseURL),
        gh_token = token, gh_perPage = 100, gh_maxPages = 50\<rparr>)"

text \<open>\<open>strings.Trim(s, "<>")\<close>\<close>

definition trim_angles :: "string \<Rightarrow> string" where
  "trim_angles s = (let d = dropWhile (\<lambda>x. x \<in> set ''<>'') in rev (d (rev (d s))))"

fun next_of :: "string list \<Rightarrow> string" where
  "next_of [] = []"
| "next_of (part # parts) = (let sections = split_on CHR '';'' part in
     if length sections < 2 then next_of parts
     else if \<not> Contains (sections ! 1) (''rel='' @ [CHR 0x22] @ ''next'' @ [CHR 0x22]) then next_of parts
     else trim_angles (TrimSpace (sections ! 0)))"

definition nextLink :: "string \<Rightarrow> string" where
  "nextLink header = next_of (split_on CHR '','' header)"

definition http_error :: "string \<Rightarrow> string \<Rightarrow> int \<Rightarrow> string \<Rightarrow> goerr" where
  "http_error method path status body =
     errorf (''github '' @ method @ '' '' @ path @ '' returned '' @ FormatInt status @ '': '' @ body)"

definition gh_request :: "'w githubProvider \<Rightarrow> string \<Rightarrow> string \<Rightarrow> string \<Rightarrow> json option \<Rightarrow> http_request" where
  "gh_request p method path accept payload = \<lparr>hq_Method = method, hq_URL = gh_baseURL p @ path,
     hq_Headers = [(''Accept'', accept), (''Authorization'', ''Bearer '' @ gh_token p), (''X-GitHub-Api-Version'', ''2022-11-28'')] @
       (if payload = None then [] else [(''Content-Type'', ''application/json'')]),
     hq_Body = payload\<rparr>"

text \<open>\<open>do\<close>, and \<open>doJSON\<close> with and without a target.\<close>

definition gh_do :: "'w githubProvider \<Rightarrow> string \<Rightarrow> string \<Rightarrow> string \<Rightarrow> json option \<Rightarrow> (string \<times> string, 'w) op" where
  "gh_do p method path accept payload =
     (let rq = gh_request p method path accept payload; what = method @ '' '' @ path in
      case tr_refuses (gh_client p) (hq_URL rq) of
        Some e \<Rightarrow> fail (wrap (''build github request for '' @ what) e)
      | None \<Rightarrow> andThen (wrapping (''call github '' @ what) (tr_do (gh_client p) rq)) (\<lambda>resp.
          let raw = limited (hs_Body resp) in
          if hs_BodyErr resp \<noteq> None \<and> int (length (hs_Body resp)) < maxResponseBytes
          then fail (wrap (''read github response for '' @ what) (the (hs_BodyErr resp)))
          else if hs_Status resp = 404 then fail (not_found (''github '' @ what))
          else if hs_Status resp \<ge> 400 then fail (http_error method path (hs_Status resp) (TrimSpace raw))
          else ret (raw, nextLink (hs_Link resp))))"

definition json_accept :: string where
  "json_accept = ''application/vnd.github+json''"

definition gh_json :: "'w githubProvider \<Rightarrow> string \<Rightarrow> string \<Rightarrow> json option \<Rightarrow> (json \<Rightarrow> 'a res) \<Rightarrow> ('a \<times> string, 'w) op" where
  "gh_json p method path payload d =
     andThen (gh_do p method path json_accept payload) (\<lambda>(raw, next).
       liftE (case unmarshal d (tr_json (gh_client p) raw) of
           Inl e \<Rightarrow> Inl (wrap (''decode github response for '' @ method @ '' '' @ path) e)
         | Inr x \<Rightarrow> Inr (x, next)))"

definition gh_send :: "'w githubProvider \<Rightarrow> string \<Rightarrow> string \<Rightarrow> json \<Rightarrow> (unit, 'w) op" where
  "gh_send p method path payload =
     andThen (gh_do p method path json_accept (Some payload)) (\<lambda>(raw, next). ret ())"

definition repoPath :: "string \<Rightarrow> string \<Rightarrow> string" where
  "repoPath owner name = ''/repos/'' @ PathEscape owner @ ''/'' @ PathEscape name"

definition escapePath :: "string \<Rightarrow> string" where
  "escapePath path = (let trimmed = (case path of c # cs \<Rightarrow> if c = CHR ''/'' then cs else path | [] \<Rightarrow> [])
     in Join (map PathEscape (split_on CHR ''/'' trimmed)) ''/'')"

text \<open>The target of a page is the link's path and query; its scheme and host are dropped.\<close>

definition pathFromNext :: "'w githubProvider \<Rightarrow> string \<Rightarrow> string res" where
  "pathFromNext p next = (case url_Parse (tr_authority (gh_client p)) next of
       Inl e \<Rightarrow> Inl (wrap (''parse github pagination link '' @ Quote next) e)
     | Inr (path, raw_query) \<Rightarrow> Inr (if raw_query \<noteq> [] then path @ ''?'' @ raw_query else path))"

section \<open>Repositories\<close>

record githubRepo =
  ar_ID :: int
  ar_Name :: string
  ar_FullName :: string
  ar_DefaultBranch :: string
  ar_Private :: bool
  ar_Admin :: bool
  ar_Push :: bool
  ar_Pull :: bool

definition dec_permissions :: "json \<Rightarrow> (bool \<times> bool \<times> bool) res" where
  "dec_permissions = dec_struct (\<lambda>ms.
     bindE (field ''admin'' dec_bool False ms) (\<lambda>a.
     bindE (field ''push'' dec_bool False ms) (\<lambda>w.
     bindE (field ''pull'' dec_bool False ms) (\<lambda>r. Inr (a, w, r)))))"

definition dec_githubRepo :: "json \<Rightarrow> githubRepo res" where
  "dec_githubRepo = dec_struct (\<lambda>ms.
     bindE (field ''id'' dec_int64 0 ms) (\<lambda>i.
     bindE (field ''name'' dec_string [] ms) (\<lambda>n.
     bindE (field ''full_name'' dec_string [] ms) (\<lambda>f.
     bindE (field ''default_branch'' dec_string [] ms) (\<lambda>b.
     bindE (field ''private'' dec_bool False ms) (\<lambda>pv.
     bindE (field ''permissions'' dec_permissions (False, False, False) ms) (\<lambda>(a, w, r).
       Inr \<lparr>ar_ID = i, ar_Name = n, ar_FullName = f, ar_DefaultBranch = b, ar_Private = pv,
            ar_Admin = a, ar_Push = w, ar_Pull = r\<rparr>)))))))"

definition zero_githubRepo :: githubRepo where
  "zero_githubRepo = \<lparr>ar_ID = 0, ar_Name = [], ar_FullName = [], ar_DefaultBranch = [], ar_Private = False,
     ar_Admin = False, ar_Push = False, ar_Pull = False\<rparr>"

text \<open>A top-level array; \<open>null\<close> leaves the nil slice.\<close>

definition dec_list :: "(json \<Rightarrow> 'a res) \<Rightarrow> 'a \<Rightarrow> json \<Rightarrow> 'a list res" where
  "dec_list d z j = (if j = JNull then Inr [] else dec_array d z j)"

definition repoFromAPI :: "githubRepo \<Rightarrow> Repo" where
  "repoFromAPI raw = \<lparr>hr_Provider = ''github'',
     hr_Owner = (case cut_at CHR ''/'' (ar_FullName raw) of None \<Rightarrow> [] | Some (u, v) \<Rightarrow> u),
     hr_Name = ar_Name raw, hr_ExternalID = FormatInt (ar_ID raw), hr_DefaultBranch = ar_DefaultBranch raw,
     hr_HasReadAccess = (ar_Pull raw \<or> ar_Push raw \<or> ar_Admin raw),
     hr_HasWriteAccess = (ar_Push raw \<or> ar_Admin raw)\<rparr>"

text \<open>The loop of \<open>ListRepos\<close>: \<open>n\<close> pages are left, \<open>pg\<close> is the next one.\<close>

fun list_pages :: "'w githubProvider \<Rightarrow> nat \<Rightarrow> int \<Rightarrow> string \<Rightarrow> (string \<times> string) list \<Rightarrow> (githubRepo list, 'w) op" where
  "list_pages p 0 pg path qs = ret []"
| "list_pages p (Suc n) pg path qs =
     (let qs' = mput ''page'' (FormatInt pg) qs in
      andThen (gh_json p ''GET'' (path @ ''?'' @ Encode qs') None (dec_list dec_githubRepo zero_githubRepo)) (\<lambda>(batch, next).
        if next = [] then ret batch
        else andThen (liftE (pathFromNext p next)) (\<lambda>path'.
          andThen (list_pages p n (pg + 1) path' []) (\<lambda>rest. ret (batch @ rest)))))"

definition ListRepos :: "'w githubProvider \<Rightarrow> string \<Rightarrow> (Repo list, 'w) op" where
  "ListRepos p org =
     (let path = (if TrimSpace org \<noteq> [] then ''/orgs/'' @ PathEscape org @ ''/repos'' else ''/user/repos'') in
      andThen (list_pages p (gh_maxPages p) 1 path [(''per_page'', FormatInt (gh_perPage p)), (''sort'', ''updated'')])
        (\<lambda>repos. ret (map repoFromAPI repos)))"

definition GetRepo :: "'w githubProvider \<Rightarrow> string \<Rightarrow> string \<Rightarrow> (Repo, 'w) op" where
  "GetRepo p owner name =
     andThen (gh_json p ''GET'' (repoPath owner name) None dec_githubRepo) (\<lambda>(raw, next). ret (repoFromAPI raw))"

definition GetDefaultBranch :: "'w githubProvider \<Rightarrow> string \<Rightarrow> string \<Rightarrow> (string, 'w) op" where
  "GetDefaultBranch p owner name = andThen (GetRepo p owner name) (\<lambda>repo.
     if hr_DefaultBranch repo = []
     then fail (not_found (''repository '' @ owner @ ''/'' @ name @ '' has no default branch''))
     else ret (hr_DefaultBranch repo))"

section \<open>Trees and files\<close>

record treeItem =
  ti_Path :: string
  ti_Type :: string
  ti_Size :: int
  ti_SHA :: string

record githubTree =
  gt_Truncated :: bool
  gt_SHA :: string
  gt_Entries :: "treeItem list"

definition dec_treeItem :: "json \<Rightarrow> treeItem res" where
  "dec_treeItem = dec_struct (\<lambda>ms.
     bindE (field ''path'' dec_string [] ms) (\<lambda>p.
     bindE (field ''type'' dec_string [] ms) (\<lambda>ty.
     bindE (field ''size'' dec_int64 0 ms) (\<lambda>sz.
     bindE (field ''sha'' dec_string [] ms) (\<lambda>sha.
       Inr \<lparr>ti_Path = p, ti_Type = ty, ti_Size = sz, ti_SHA = sha\<rparr>)))))"

definition dec_githubTree :: "json \<Rightarrow> githubTree res" where
  "dec_githubTree = dec_struct (\<lambda>ms.
     bindE (field ''truncated'' dec_bool False ms) (\<lambda>t.
     bindE (field ''SHA'' dec_string [] ms) (\<lambda>sha.
     bindE (field ''tree'' (dec_array dec_treeItem \<lparr>ti_Path = [], ti_Type = [], ti_Size = 0, ti_SHA = []\<rparr>) [] ms) (\<lambda>es.
       Inr \<lparr>gt_Truncated = t, gt_SHA = sha, gt_Entries = es\<rparr>))))"

definition tree_entry :: "treeItem \<Rightarrow> TreeEntry" where
  "tree_entry item = \<lparr>te_Path = ti_Path item, te_Type = ti_Type item, te_Size = ti_Size item\<rparr>"

definition subtrees :: "treeItem list \<Rightarrow> string list" where
  "subtrees items = map ti_SHA (filter (\<lambda>item. ti_Type item = ''tree'') items)"

definition tree_path :: "string \<Rightarrow> string \<Rightarrow> string \<Rightarrow> string" where
  "tree_path owner name ref = repoPath owner name @ ''/git/trees/'' @ PathEscape ref"

text \<open>
  The walk over the pending subtrees ends when they do, which is up to the server: the value
  is \<open>None\<close> for a walk that never ends.
\<close>

partial_function (option) walk ::
    "'w githubProvider \<Rightarrow> string \<Rightarrow> string \<Rightarrow> string list \<Rightarrow> TreeEntry list \<Rightarrow> 'w \<Rightarrow> (TreeEntry list res \<times> 'w) option" where
  "walk p owner name pending entries w = (case pending of
       [] \<Rightarrow> Some (Inr entries, w)
     | sha # rest \<Rightarrow>
         (case gh_json p ''GET'' (tree_path owner name sha) None dec_githubTree w of
            (Inl e, w1) \<Rightarrow> Some (Inl e, w1)
          | (Inr (subtree, next), w1) \<Rightarrow>
              walk p owner name (rest @ subtrees (gt_Entries subtree))
                (entries @ map tree_entry (gt_Entries subtree)) w1))"

definition ReadTree :: "'w githubProvider \<Rightarrow> string \<Rightarrow> string \<Rightarrow> string \<Rightarrow> 'w \<Rightarrow> (TreeEntry list res \<times> 'w) option" where
  "ReadTree p owner name ref0 w0 =
     (case (if ref0 = [] then GetDefaultBranch p owner name w0 else (Inr ref0, w0)) of
        (Inl e, w) \<Rightarrow> Some (Inl e, w)
      | (Inr ref, w) \<Rightarrow>
          (case gh_json p ''GET'' (tree_path owner name ref @ ''?recursive=1'') None dec_githubTree w of
             (Inl e, w1) \<Rightarrow> Some (Inl e, w1)
           | (Inr (listing, next), w1) \<Rightarrow>
               walk p owner name (if gt_Truncated listing then subtrees (gt_Entries listing) else [])
                 (map tree_entry (gt_Entries listing)) w1))"

definition ReadFile :: "'w githubProvider \<Rightarrow> string \<Rightarrow> string \<Rightarrow> string \<Rightarrow> string \<Rightarrow> (string, 'w) op" where
  "ReadFile p owner name ref path =
     andThen (gh_do p ''GET'' (repoPath owner name @ ''/contents/'' @ escapePath path @
         (if ref \<noteq> [] then ''?ref='' @ QueryEscape ref else [])) ''application/vnd.github.raw'' None)
       (\<lambda>(body, next). ret body)"

section \<open>Pull requests\<close>

definition dec_pr_ref :: "json \<Rightarrow> (string \<times> string) res" where
  "dec_pr_ref = dec_struct (\<lambda>ms.
     bindE (field ''ref'' dec_string [] ms) (\<lambda>r. bindE (field ''sha'' dec_string [] ms) (\<lambda>s. Inr (r, s))))"

text \<open>\<open>githubPR\<close> read by \<open>pullFromAPI\<close>.\<close>

definition dec_githubPR :: "json \<Rightarrow> PullRequest res" where
  "dec_githubPR = dec_struct (\<lambda>ms.
     bindE (field ''number'' dec_int64 0 ms) (\<lambda>n.
     bindE (field ''html_url'' dec_string [] ms) (\<lambda>u.
     bindE (field ''title'' dec_string [] ms) (\<lambda>t.
     bindE (field ''body'' dec_string [] ms) (\<lambda>b.
     bindE (field ''state'' dec_string [] ms) (\<lambda>st.
     bindE (field ''head'' dec_pr_ref ([], []) ms) (\<lambda>(href, hsha).
     bindE (field ''base'' dec_pr_ref ([], []) ms) (\<lambda>(bref, bsha).
       Inr \<lparr>pr_Number = n, pr_URL = u, pr_Title = t, pr_Body = b, pr_State = st, pr_Head = href,
            pr_HeadSHA = hsha, pr_Base = bref\<rparr>))))))))"

definition pull_path :: "string \<Rightarrow> string \<Rightarrow> int \<Rightarrow> string" where
  "pull_path owner name number = repoPath owner name @ ''/pulls/'' @ FormatInt number"

definition GetPR :: "'w githubProvider \<Rightarrow> string \<Rightarrow> string \<Rightarrow> int \<Rightarrow> (PullRequest, 'w) op" where
  "GetPR p owner name number =
     andThen (gh_json p ''GET'' (pull_path owner name number) None dec_githubPR) (\<lambda>(pr, next). ret pr)"

definition dec_PRFile :: "json \<Rightarrow> PRFile res" where
  "dec_PRFile = dec_struct (\<lambda>ms.
     bindE (field ''filename'' dec_string [] ms) (\<lambda>f.
     bindE (field ''status'' dec_string [] ms) (\<lambda>s.
     bindE (field ''patch'' dec_string [] ms) (\<lambda>pt. Inr \<lparr>pf_Path = f, pf_Status = s, pf_Patch = pt\<rparr>))))"

definition files_page :: "'w githubProvider \<Rightarrow> string \<Rightarrow> string \<Rightarrow> int \<Rightarrow> int \<Rightarrow> string" where
  "files_page p owner name number pg = pull_path owner name number @ ''/files?per_page='' @
     FormatInt (gh_perPage p) @ ''&page='' @ FormatInt pg"

fun file_pages :: "'w githubProvider \<Rightarrow> string \<Rightarrow> string \<Rightarrow> int \<Rightarrow> nat \<Rightarrow> int \<Rightarrow> (PRFile list, 'w) op" where
  "file_pages p owner name number 0 pg = ret []"
| "file_pages p owner name number (Suc n) pg =
     andThen (gh_json p ''GET'' (files_page p owner name number pg) None
         (dec_list dec_PRFile \<lparr>pf_Path = [], pf_Status = [], pf_Patch = []\<rparr>)) (\<lambda>(batch, next).
       if next = [] then ret batch
       else andThen (file_pages p owner name number n (pg + 1)) (\<lambda>rest. ret (batch @ rest)))"

definition GetPRFiles :: "'w githubProvider \<Rightarrow> string \<Rightarrow> string \<Rightarrow> int \<Rightarrow> (PRFile list, 'w) op" where
  "GetPRFiles p owner name number = file_pages p owner name number (gh_maxPages p) 1"

section \<open>Changes\<close>

definition dec_sha :: "json \<Rightarrow> string res" where
  "dec_sha = dec_struct (field ''sha'' dec_string [])"

definition dec_ref_sha :: "json \<Rightarrow> string res" where
  "dec_ref_sha = dec_struct (field ''object'' dec_sha [])"

definition dec_tree_sha :: "json \<Rightarrow> string res" where
  "dec_tree_sha = dec_struct (field ''tree'' dec_sha [])"

definition json_string :: "string \<Rightarrow> json" where
  "json_string s = JStr (ToValidUTF8 s)"

definition CreateBranch :: "'w githubProvider \<Rightarrow> string \<Rightarrow> string \<Rightarrow> string \<Rightarrow> string \<Rightarrow> (unit, 'w) op" where
  "CreateBranch p owner name baseBranch newBranch =
     andThen (gh_json p ''GET'' (repoPath owner name @ ''/git/ref/heads/'' @ escapePath baseBranch) None dec_ref_sha) (\<lambda>(sha, next).
       gh_send p ''POST'' (repoPath owner name @ ''/git/refs'')
         (JObj [(''ref'', json_string (''refs/heads/'' @ newBranch)), (''sha'', json_string sha)]))"

fun create_blobs :: "'w githubProvider \<Rightarrow> string \<Rightarrow> string \<Rightarrow> FileChange list \<Rightarrow> (json list, 'w) op" where
  "create_blobs p owner name [] = ret []"
| "create_blobs p owner name (file # files) =
     andThen (gh_json p ''POST'' (repoPath owner name @ ''/git/blobs'')
         (Some (JObj [(''content'', json_string (fc_Content file)), (''encoding'', JStr ''utf-8'')])) dec_sha) (\<lambda>(sha, next).
       andThen (create_blobs p owner name files) (\<lambda>rest.
         ret (JObj [(''mode'', JStr ''100644''), (''path'', json_string (fc_Path file)), (''sha'', json_string sha),
                    (''type'', JStr ''blob'')] # rest)))"

definition commit_objects :: "'w githubProvider \<Rightarrow> string \<Rightarrow> string \<Rightarrow> string \<Rightarrow> string \<Rightarrow> FileChange list \<Rightarrow> (string, 'w) op" where
  "commit_objects p owner name branch message files =
     andThen (gh_json p ''GET'' (repoPath owner name @ ''/git/ref/heads/'' @ escapePath branch) None dec_ref_sha) (\<lambda>(baseCommitSHA, n1).
     andThen (gh_json p ''GET'' (repoPath owner name @ ''/git/commits/'' @ PathEscape baseCommitSHA) None dec_tree_sha) (\<lambda>(baseTree, n2).
     andThen (create_blobs p owner name files) (\<lambda>tree.
     andThen (gh_json p ''POST'' (repoPath owner name @ ''/git/trees'')
         (Some (JObj [(''base_tree'', json_string baseTree), (''tree'', JArr tree)])) dec_sha) (\<lambda>(newTree, n3).
     andThen (gh_json p ''POST'' (repoPath owner name @ ''/git/commits'')
         (Some (JObj [(''message'', json_string message), (''parents'', JArr [json_string baseCommitSHA]),
                      (''tree'', json_string newTree)])) dec_sha) (\<lambda>(commit, n4).
       ret commit)))))"

definition move_branch :: "'w githubProvider \<Rightarrow> string \<Rightarrow> string \<Rightarrow> string \<Rightarrow> string \<Rightarrow> (unit, 'w) op" where
  "move_branch p owner name branch sha =
     gh_send p ''PATCH'' (repoPath owner name @ ''/git/refs/heads/'' @ escapePath branch)
       (JObj [(''force'', JBool False), (''sha'', json_string sha)])"

definition CreateCommit :: "'w githubProvider \<Rightarrow> string \<Rightarrow> string \<Rightarrow> string \<Rightarrow> string \<Rightarrow> FileChange list \<Rightarrow> (string, 'w) op" where
  "CreateCommit p owner name branch message files =
     andThen (commit_objects p owner name branch message files) (\<lambda>commit.
     andThen (move_branch p owner name branch commit) (\<lambda>_. ret commit))"

definition OpenPR :: "'w githubProvider \<Rightarrow> string \<Rightarrow> string \<Rightarrow> string \<Rightarrow> string \<Rightarrow> string \<Rightarrow> string \<Rightarrow> (PullRequest, 'w) op" where
  "OpenPR p owner name title body head base =
     andThen (gh_json p ''POST'' (repoPath owner name @ ''/pulls'')
         (Some (JObj [(''base'', json_string base), (''body'', json_string body), (''head'', json_string head),
                      (''title'', json_string title)])) dec_githubPR) (\<lambda>(pr, next). ret pr)"

definition review_comment :: "PRReviewComment \<Rightarrow> json" where
  "review_comment c = JObj [(''body'', json_string (rc_Body c)), (''line'', JNum (rc_Line c)), (''path'', json_string (rc_Path c))]"

definition PostPRReview :: "'w githubProvider \<Rightarrow> string \<Rightarrow> string \<Rightarrow> int \<Rightarrow> string \<Rightarrow> PRReviewComment list \<Rightarrow> (unit, 'w) op" where
  "PostPRReview p owner name number body comments =
     gh_send p ''POST'' (pull_path owner name number @ ''/reviews'')
       (JObj ([(''body'', json_string body)] @
         (if comments = [] then [] else [(''comments'', JArr (map review_comment comments))]) @
         [(''event'', JStr ''COMMENT'')]))"

end
