(* ===== verification/GitHubProps.thy ===== *)
theory GitHubProps
  imports GitHub
begin

text \<open>
  What the GitHub client asks for: requests stay in the repository they name, listings are read
  page by page, truncated trees are walked, and a commit moves its branch last.
\<close>

section \<open>Requests stay in the repository they name\<close>

text \<open>The same client over the logging transport.\<close>

definition logged :: "'w githubProvider \<Rightarrow> ('w \<times> http_request list) githubProvider" where
  "logged p = \<lparr>gh_client = logging (gh_client p), gh_baseURL = gh_baseURL p, gh_token = gh_token p,
     gh_perPage = gh_perPage p, gh_maxPages = gh_maxPages p\<rparr>"

lemma logged_simps [simp]:
  "gh_client (logged p) = logging (gh_client p)" "gh_baseURL (logged p) = gh_baseURL p"
  "gh_token (logged p) = gh_token p" "gh_perPage (logged p) = gh_perPage p" "gh_maxPages (logged p) = gh_maxPages p"
  by (simp_all add: logged_def)

lemma gh_request_logged [simp]: "gh_request (logged p) = gh_request p"
  by (simp add: gh_request_def fun_eq_iff)

lemma sends_gh_do [sends_intro]:
  "P (gh_request p method path accept payload) \<Longrightarrow> sends P (gh_do (logged p) method path accept payload)"
  unfolding gh_do_def Let_def
  by (auto intro!: sends_option sends_fail sends_andThen sends_wrapping sends_do sends_if sends_ret)

lemma sends_gh_json [sends_intro]:
  "P (gh_request p method path json_accept payload) \<Longrightarrow> sends P (gh_json (logged p) method path payload d)"
  unfolding gh_json_def by (intro sends_andThen sends_gh_do sends_prod sends_liftE)

lemma sends_gh_send [sends_intro]:
  "P (gh_request p method path json_accept (Some payload)) \<Longrightarrow> sends P (gh_send (logged p) method path payload)"
  unfolding gh_send_def by (intro sends_andThen sends_gh_do sends_prod sends_ret)

text \<open>How a server reads the address of a request: the repository between two slashes, up to a slash or a query.\<close>

definition addressed :: "'w githubProvider \<Rightarrow> http_request \<Rightarrow> (string \<times> string) option" where
  "addressed p rq = (let base = gh_baseURL p @ ''/repos/'' in
     if take (length base) (hq_URL rq) \<noteq> base then None
     else let u = drop (length base) (hq_URL rq);
              owner = takeWhile (\<lambda>c. c \<noteq> CHR ''/'') u;
              name = takeWhile (\<lambda>c. c \<notin> set ''/?'') (drop (Suc (length owner)) u)
          in (case (PathUnescape owner, PathUnescape name) of (Some x, Some y) \<Rightarrow> Some (x, y) | _ \<Rightarrow> None))"

definition stays_in :: "'w githubProvider \<Rightarrow> string \<Rightarrow> string \<Rightarrow> http_request \<Rightarrow> bool" where
  "stays_in p owner name rq \<longleftrightarrow> addressed p rq = Some (owner, name) \<and>
     (''Authorization'', ''Bearer '' @ gh_token p) \<in> set (hq_Headers rq)"

lemma takeWhile_before: "\<forall>c \<in> set u. Q c \<Longrightarrow> v = [] \<or> \<not> Q (hd v) \<Longrightarrow> takeWhile Q (u @ v) = u"
  by (cases v) (simp_all add: takeWhile_append2)

lemma stays_request:
  assumes "rest = [] \<or> hd rest \<in> set ''/?''"
  shows "stays_in p owner name (gh_request p method (repoPath owner name @ rest) accept payload)"
proof -
  have o: "takeWhile (\<lambda>c. c \<noteq> CHR ''/'') (PathEscape owner @ ''/'' @ PathEscape name @ rest) = PathEscape owner"
    using PathEscape_plain by (intro takeWhile_before) fastforce+
  have n: "takeWhile (\<lambda>c. c \<notin> set ''/?'') (PathEscape name @ rest) = PathEscape name"
    using PathEscape_plain assms by (intro takeWhile_before) fastforce+
  show ?thesis
    using o n by (simp add: stays_in_def addressed_def gh_request_def repoPath_def Let_def Unescape_PathEscape)
qed

lemma stays_root: "stays_in p owner name (gh_request p method (repoPath owner name) accept payload)"
  using stays_request [of "[]" p owner name] by simp

lemmas stays_paths = stays_root stays_request

lemma sends_file_pages:
  "sends (stays_in p owner name) (file_pages (logged p) owner name number n pg)"
proof (induction n arbitrary: pg)
  case (Suc n)
  have "files_page (logged p) owner name number pg = repoPath owner name @
      (''/pulls/'' @ FormatInt number @ ''/files?per_page='' @ FormatInt (gh_perPage p) @ ''&page='' @ FormatInt pg)"
    by (simp add: files_page_def pull_path_def)
  then have "sends (stays_in p owner name) (gh_json (logged p) ''GET'' (files_page (logged p) owner name number pg) None d)"
    for d :: "json \<Rightarrow> PRFile list res"
    by (simp only:) (intro sends_gh_json stays_request; simp)
  then show ?case
    unfolding file_pages.simps by (intro sends_andThen sends_prod sends_if sends_ret Suc.IH)
qed (simp add: sends_ret)

lemma sends_create_blobs: "sends (stays_in p owner name) (create_blobs (logged p) owner name files)"
proof (induction files)
  case (Cons f files)
  then show ?case
    unfolding create_blobs.simps
    by (intro sends_andThen sends_prod sends_ret sends_gh_json stays_request) simp_all
qed (simp only: create_blobs.simps sends_ret)

lemma sends_GetDefaultBranch: "sends (stays_in p owner name) (GetDefaultBranch (logged p) owner name)"
  unfolding GetDefaultBranch_def GetRepo_def
  by (intro sends_andThen sends_gh_json sends_prod sends_if sends_fail sends_ret stays_root)

lemma sends_changes:
  "sends (stays_in p owner name) (CreateBranch (logged p) owner name baseBranch newBranch)"
  "sends (stays_in p owner name) (CreateCommit (logged p) owner name branch message files)"
  "sends (stays_in p owner name) (OpenPR (logged p) owner name title body hd_branch base)"
  "sends (stays_in p owner name) (PostPRReview (logged p) owner name number body comments)"
  unfolding CreateBranch_def CreateCommit_def commit_objects_def move_branch_def OpenPR_def PostPRReview_def pull_path_def append_assoc
  by (intro sends_andThen sends_prod sends_ret sends_gh_json sends_gh_send sends_create_blobs stays_request; simp)+

lemma sends_reads:
  "sends (stays_in p owner name) (GetRepo (logged p) owner name)"
  "sends (stays_in p owner name) (ReadFile (logged p) owner name ref path)"
  "sends (stays_in p owner name) (GetPR (logged p) owner name number)"
  unfolding GetRepo_def ReadFile_def GetPR_def pull_path_def append_assoc
  by (intro sends_andThen sends_prod sends_ret sends_gh_json sends_gh_do stays_paths; simp)+

text \<open>The walk, when it returns.\<close>

lemma sends_walk:
  assumes "walk (logged p) owner name pending entries (w, sent) = Some (r, (w', sent'))"
  shows "\<exists>rqs. sent' = sent @ rqs \<and> (\<forall>rq \<in> set rqs. stays_in p owner name rq)"
proof -
  have step: "sends (stays_in p owner name) (gh_json (logged p) ''GET'' (tree_path owner name sha) None dec_githubTree)" for sha
    unfolding tree_path_def by (intro sends_gh_json stays_request) simp
  define Q where "Q q own nm pend es w0 y \<longleftrightarrow> (q = logged p \<and> own = owner \<and> nm = name \<longrightarrow>
      (\<exists>rqs. snd (snd y) = snd w0 @ rqs \<and> (\<forall>rq \<in> set rqs. stays_in p owner name rq)))"
    for q own nm and pend :: "string list" and es :: "TreeEntry list" and w0 :: "'a \<times> http_request list"
      and y :: "TreeEntry list res \<times> 'a \<times> http_request list"
  have "Q (logged p) owner name pending entries (w, sent) (r, (w', sent'))"
  proof (rule walk.raw_induct [OF _ assms])
    fix again q own nm pend es w0 y
    assume IH: "\<And>q own nm pend es w0 y. again q own nm pend es w0 = Some y \<Longrightarrow> Q q own nm pend es w0 y"
      and run: "(case pend of [] \<Rightarrow> Some (Inr es, w0)
        | sha # rest \<Rightarrow> (case gh_json q ''GET'' (tree_path own nm sha) None dec_githubTree w0 of
            (Inl e, w1) \<Rightarrow> Some (Inl e, w1)
          | (Inr (subtree, next), w1) \<Rightarrow> again q own nm (rest @ subtrees (gt_Entries subtree))
              (es @ map tree_entry (gt_Entries subtree)) w1)) = Some y"
    show "Q q own nm pend es w0 y"
      unfolding Q_def
    proof (intro impI, elim conjE)
      assume eq: "q = logged p" "own = owner" "nm = name"
      show "\<exists>rqs. snd (snd y) = snd w0 @ rqs \<and> (\<forall>rq \<in> set rqs. stays_in p owner name rq)"
      proof (cases pend)
        case Nil
        with run show ?thesis by auto
      next
        case (Cons sha rest)
        obtain s0 l0 where w0: "w0 = (s0, l0)" by (cases w0)
        obtain r1 s1 l1 where g: "gh_json q ''GET'' (tree_path own nm sha) None dec_githubTree w0 = (r1, s1, l1)"
          by (cases "gh_json q ''GET'' (tree_path own nm sha) None dec_githubTree w0") auto
        from sendsD [OF step [of sha] g [unfolded eq w0]] obtain a where
          a: "l1 = l0 @ a" "\<forall>rq \<in> set a. stays_in p owner name rq" by blast
        show ?thesis
        proof (cases r1)
          case (Inl e)
          with run Cons g a w0 show ?thesis by auto
        next
          case (Inr tn)
          with run Cons g obtain pend' es' where "again q own nm pend' es' (s1, l1) = Some y"
            by (auto split: prod.splits)
          from IH [OF this] eq obtain b where "snd (snd y) = l1 @ b" "\<forall>rq \<in> set b. stays_in p owner name rq"
            unfolding Q_def by auto
          with a w0 show ?thesis by (intro exI [of _ "a @ b"]) auto
        qed
      qed
    qed
  qed
  then show ?thesis by (simp add: Q_def)
qed

lemma sends_ReadTree:
  assumes "ReadTree (logged p) owner name ref (w, sent) = Some (r, (w', sent'))"
  shows "\<exists>rqs. sent' = sent @ rqs \<and> (\<forall>rq \<in> set rqs. stays_in p owner name rq)"
proof -
  let ?branch = "if ref = [] then GetDefaultBranch (logged p) owner name else ret ref"
  have b: "sends (stays_in p owner name) ?branch" by (intro sends_if sends_GetDefaultBranch sends_ret)
  have same: "(if ref = [] then GetDefaultBranch (logged p) owner name (w, sent) else (Inr ref, (w, sent))) = ?branch (w, sent)"
    by simp
  obtain r0 w0 s0 where r0: "?branch (w, sent) = (r0, w0, s0)" by (cases "?branch (w, sent)") auto
  from sendsD [OF b r0] obtain a where a: "s0 = sent @ a" "\<forall>rq \<in> set a. stays_in p owner name rq" by blast
  show ?thesis
  proof (cases r0)
    case (Inl e)
    with assms a r0 show ?thesis unfolding ReadTree_def same by auto
  next
    case (Inr rf)
    let ?get = "gh_json (logged p) ''GET'' (tree_path owner name rf @ ''?recursive=1'') None dec_githubTree"
    have g: "sends (stays_in p owner name) ?get"
      unfolding tree_path_def append_assoc by (intro sends_gh_json stays_request) simp
    obtain r1 w1 s1 where r1: "?get (w0, s0) = (r1, w1, s1)" by (cases "?get (w0, s0)") auto
    from sendsD [OF g r1] obtain b where b: "s1 = s0 @ b" "\<forall>rq \<in> set b. stays_in p owner name rq" by blast
    show ?thesis
    proof (cases r1)
      case (Inl e)
      with assms a b r0 r1 Inr show ?thesis unfolding ReadTree_def same by auto
    next
      case (Inr tn)
      obtain pend es where "walk (logged p) owner name pend es (w1, s1) = Some (r, (w', sent'))"
        using assms r0 r1 Inr \<open>r0 = Inr rf\<close> unfolding ReadTree_def same by (cases tn) auto
      from sends_walk [OF this] obtain c where "sent' = s1 @ c" "\<forall>rq \<in> set c. stays_in p owner name rq" by blast
      with a b show ?thesis by (intro exI [of _ "a @ b @ c"]) auto
    qed
  qed
qed

text \<open>C30: whatever the owner, the name, the branch, the reference or the path is, and whatever the
  server answers, every request an operation on a repository sends carries the configured token and is
  addressed to that repository of the configured host: a server that splits the address at the slashes
  and decodes the segments reads back exactly the owner and the name. No name can leave its segment.\<close>

theorem requests_stay_in_repository:
  "sends (stays_in p owner name) (GetRepo (logged p) owner name) \<and>
   sends (stays_in p owner name) (GetDefaultBranch (logged p) owner name) \<and>
   sends (stays_in p owner name) (ReadFile (logged p) owner name ref path) \<and>
   sends (stays_in p owner name) (GetPR (logged p) owner name number) \<and>
   sends (stays_in p owner name) (GetPRFiles (logged p) owner name number) \<and>
   sends (stays_in p owner name) (CreateBranch (logged p) owner name baseBranch newBranch) \<and>
   sends (stays_in p owner name) (CreateCommit (logged p) owner name branch message files) \<and>
   sends (stays_in p owner name) (OpenPR (logged p) owner name title body hd_branch base) \<and>
   sends (stays_in p owner name) (PostPRReview (logged p) owner name number body comments) \<and>
   (case ReadTree (logged p) owner name ref (w, sent) of None \<Rightarrow> True
    | Some (r, w', sent') \<Rightarrow> \<exists>rqs. sent' = sent @ rqs \<and> list_all (stays_in p owner name) rqs)"
  using sends_reads sends_changes sends_GetDefaultBranch sends_file_pages sends_ReadTree
  by (fastforce simp: GetPRFiles_def list_all_iff split: option.splits)

section \<open>Pages\<close>

text \<open>A server whose answer to the request for page \<open>i\<close> is \<open>batch i\<close>, with a next link on all but the last.\<close>

definition serves_pages ::
    "'w githubProvider \<Rightarrow> string \<Rightarrow> string \<Rightarrow> int \<Rightarrow> nat \<Rightarrow> (nat \<Rightarrow> PRFile list) \<Rightarrow> 'w \<Rightarrow> bool" where
  "serves_pages p owner name number pages batch w \<longleftrightarrow> (\<forall>i. 1 \<le> i \<longrightarrow> i \<le> pages \<longrightarrow>
     (\<exists>next. gh_json p ''GET'' (files_page p owner name number (int i)) None
         (dec_list dec_PRFile \<lparr>pf_Path = [], pf_Status = [], pf_Patch = []\<rparr>) w = (Inr (batch i, next), w) \<and>
       (next = [] \<longleftrightarrow> i = pages)))"

lemma file_pages_served:
  assumes "serves_pages p owner name number pages batch w" and "1 \<le> i" and "i \<le> pages"
  shows "file_pages p owner name number n (int i) w = (Inr (concat (map batch [i..<min (Suc pages) (i + n)])), w)"
  using assms(2, 3)
proof (induction n arbitrary: i)
  case (Suc n)
  from assms(1) Suc.prems obtain nxt where g: "gh_json p ''GET'' (files_page p owner name number (int i)) None
         (dec_list dec_PRFile \<lparr>pf_Path = [], pf_Status = [], pf_Patch = []\<rparr>) w = (Inr (batch i, nxt), w)"
      "nxt = [] \<longleftrightarrow> i = pages"
    by (auto simp: serves_pages_def)
  define m where "m = min (Suc pages) (i + Suc n)"
  have m: "i < m" "m = min (Suc pages) (Suc i + n)" using Suc.prems by (auto simp: m_def)
  have upt: "concat (map batch [i..<m]) = batch i @ concat (map batch [Suc i..<m])"
    by (simp only: upt_conv_Cons [OF m(1)] list.map concat.simps)
  show ?case
    unfolding m_def [symmetric]
  proof (cases "i = pages")
    case True
    with m(2) have "[Suc i..<m] = []" by simp
    then have "concat (map batch [i..<m]) = batch i" unfolding upt by (simp only: list.map concat.simps append_Nil2)
    with g True show "file_pages p owner name number (Suc n) (int i) w = (Inr (concat (map batch [i..<m])), w)"
      by (simp add: andThen_def)
  next
    case False
    with Suc.prems Suc.IH [of "Suc i", folded m(2)] have
      "file_pages p owner name number n (int i + 1) w = (Inr (concat (map batch [Suc i..<m])), w)"
      by (simp add: add.commute)
    with g False upt show "file_pages p owner name number (Suc n) (int i) w = (Inr (concat (map batch [i..<m])), w)"
      by (simp add: andThen_def)
  qed
qed simp

text \<open>The files of a pull request are those of its pages in order, each once, and no request is
  sent past the last page; but no more than the configured number of pages (50) is ever read, and the
  files beyond are left out without an error.\<close>

theorem pull_request_files_by_page:
  assumes "serves_pages p owner name number pages batch w" and "1 \<le> pages"
  shows "GetPRFiles p owner name number w = (Inr (concat (map batch [1..<Suc (min pages (gh_maxPages p))])), w)"
proof -
  have "min (Suc pages) (1 + gh_maxPages p) = Suc (min pages (gh_maxPages p))" by simp
  with file_pages_served [OF assms(1) _ assms(2), of "gh_maxPages p"] show ?thesis by (simp add: GetPRFiles_def)
qed

text \<open>Two pages of one file each.\<close>

definition page_link :: "string" where
  "page_link = ''<https://h/x?page=2>; rel='' @ [CHR 0x22] @ ''next'' @ [CHR 0x22]"

definition json_response :: "string \<Rightarrow> string \<Rightarrow> http_response" where
  "json_response link body = \<lparr>hs_Status = 200, hs_Link = link, hs_Body = body, hs_BodyErr = None\<rparr>"

definition pr_server :: "unit transport" where
  "pr_server = \<lparr>tr_refuses = \<lambda>u. None,
     tr_do = \<lambda>rq w. (Inr (if hq_URL rq = ''https://h/repos/o/n/pulls/7/files?per_page=100&page=1''
        then json_response page_link ''1'' else json_response [] ''2''), w),
     tr_json = \<lambda>s. Doc (JArr [JObj [(''filename'', JStr s)]]), tr_authority = \<lambda>a. True\<rparr>"

definition demo_github :: "'w transport \<Rightarrow> string \<Rightarrow> 'w githubProvider" where
  "demo_github t url = \<lparr>gh_client = t, gh_baseURL = url, gh_token = ''t'', gh_perPage = 100, gh_maxPages = 50\<rparr>"

definition demo_file :: "nat \<Rightarrow> PRFile list" where
  "demo_file i = [\<lparr>pf_Path = FormatInt (int i), pf_Status = [], pf_Patch = []\<rparr>]"

theorem pull_request_files_by_page_witness:
  "GetPRFiles (demo_github pr_server ''https://h'') ''o'' ''n'' 7 () =
     (Inr (concat (map demo_file [1..<Suc (min 2 50)])), ())"
proof -
  let ?p = "demo_github pr_server ''https://h''"
  let ?get = "\<lambda>i. gh_json ?p ''GET'' (files_page ?p ''o'' ''n'' 7 i) None
    (dec_list dec_PRFile \<lparr>pf_Path = [], pf_Status = [], pf_Patch = []\<rparr>) ()"
  have one: "?get 1 = (Inr (demo_file 1, ''https://h/x?page=2''), ())" by code_simp
  have two: "?get 2 = (Inr (demo_file 2, []), ())" by code_simp
  have "serves_pages ?p ''o'' ''n'' 7 2 demo_file ()"
    unfolding serves_pages_def
  proof (intro allI impI)
    fix i :: nat
    assume "1 \<le> i" "i \<le> 2"
    then have "i = 1 \<or> i = 2" by auto
    then show "\<exists>next. ?get (int i) = (Inr (demo_file i, next), ()) \<and> (next = [] \<longleftrightarrow> i = 2)"
      using one two by auto
  qed
  from pull_request_files_by_page [OF this] show ?thesis by (simp add: demo_github_def)
qed

text \<open>The address of a page after the first: the base URL once more in front of the path of the link.\<close>

lemma next_page_address:
  assumes "url_Parse (tr_authority (gh_client p)) next = Inr (path, raw_query)" and "raw_query \<noteq> []"
  shows "pathFromNext p next = Inr (path @ ''?'' @ raw_query)"
  using assms by (simp add: pathFromNext_def)

lemma Encode_page: "Encode [(''page'', FormatInt i)] = ''page='' @ QueryEscape (FormatInt i)"
  by (simp add: Encode_def QueryEscape_def unreserved_def Let_def)

definition first_target :: "'w githubProvider \<Rightarrow> string \<Rightarrow> string" where
  "first_target p org = (if TrimSpace org \<noteq> [] then ''/orgs/'' @ PathEscape org @ ''/repos'' else ''/user/repos'') @ ''?'' @
     Encode [(''per_page'', FormatInt (gh_perPage p)), (''sort'', ''updated''), (''page'', ''1'')]"

lemma snd_andThen_ret: "snd (andThen m (\<lambda>x. ret (f x)) s) = snd (m s)"
  by (simp add: snd_andThen split: sum.split)

lemma gh_do_logged:
  "gh_do (logged p) method path accept payload (w, sent) =
     (case gh_do p method path accept payload w of (r, w') \<Rightarrow> (r, (w', sent @
       (if tr_refuses (gh_client p) (gh_baseURL p @ path) = None then [gh_request p method path accept payload] else []))))"
proof (cases "tr_refuses (gh_client p) (gh_baseURL p @ path)")
  case None
  obtain r w' where r: "tr_do (gh_client p) (gh_request p method path accept payload) w = (r, w')"
    by (cases "tr_do (gh_client p) (gh_request p method path accept payload) w")
  then have l: "tr_do (logging (gh_client p)) (gh_request p method path accept payload) (w, sent) =
      (r, w', sent @ [gh_request p method path accept payload])"
    by (simp add: logging_def)
  have url: "hq_URL (gh_request p method path accept payload) = gh_baseURL p @ path" by (simp add: gh_request_def)
  show ?thesis using r l None by (cases r) (simp_all add: gh_do_def Let_def andThen_def wrapping_def url)
next
  case (Some e)
  have url: "hq_URL (gh_request p method path accept payload) = gh_baseURL p @ path" by (simp add: gh_request_def)
  with Some show ?thesis by (simp add: gh_do_def Let_def)
qed

lemma gh_json_logged:
  "gh_json (logged p) method path payload d (w, sent) =
     (case gh_json p method path payload d w of (r, w') \<Rightarrow> (r, (w', sent @
       (if tr_refuses (gh_client p) (gh_baseURL p @ path) = None then [gh_request p method path json_accept payload] else []))))"
proof -
  obtain r w' where "gh_do p method path json_accept payload w = (r, w')"
    by (cases "gh_do p method path json_accept payload w")
  then show ?thesis by (cases r) (auto simp: gh_json_def andThen_def gh_do_logged)
qed

lemma list_pages_logs: "sends (\<lambda>rq. True) (list_pages (logged p) n pg path qs)"
proof (induction n arbitrary: pg path qs)
  case (Suc n)
  show ?case
    unfolding list_pages.simps Let_def
  proof (rule sends_andThen)
    show "sends (\<lambda>rq. True) (gh_json (logged p) ''GET'' (path @ ''?'' @ Encode (mput ''page'' (FormatInt pg) qs)) None
        (dec_list dec_githubRepo zero_githubRepo))"
      by (rule sends_gh_json) simp
  qed (intro sends_prod sends_if sends_ret sends_andThen sends_liftE Suc.IH)
qed (simp add: sends_ret)

text \<open>The second page of a repository listing is asked for under an address that is not the one the
  server gave: the path of the link, which begins with the path of the base URL (\<open>/api/v3\<close> of an
  enterprise server), is put behind the base URL again, and a second query is put behind the query of
  the link. Such a server is asked for a page it does not have, and elsewhere the last parameter of
  the link is garbled.\<close>

theorem second_page_is_asked_elsewhere:
  assumes base: "gh_baseURL p = site @ api_path" and pages: "2 \<le> gh_maxPages p"
    and one: "gh_json p ''GET'' (first_target p org) None (dec_list dec_githubRepo zero_githubRepo) w = (Inr (batch, next), w1)"
    and more: "next \<noteq> []" and link: "url_Parse (tr_authority (gh_client p)) next = Inr (api_path @ route, parameters)"
    and "parameters \<noteq> []" and valid: "\<And>u. tr_refuses (gh_client p) u = None"
  shows "\<exists>rq1 rq2 rest. snd (snd (ListRepos (logged p) org (w, []))) = rq1 # rq2 # rest \<and>
    hq_URL rq2 = site @ api_path @ api_path @ route @ ''?'' @ parameters @ ''?page=2''"
proof -
  from pages obtain n where n: "gh_maxPages p = Suc (Suc n)" by (metis Suc_le_D numeral_2_eq_2 Suc_le_mono)
  let ?path = "if TrimSpace org \<noteq> [] then ''/orgs/'' @ PathEscape org @ ''/repos'' else ''/user/repos''"
  let ?d = "dec_list dec_githubRepo zero_githubRepo"
  let ?next = "api_path @ route @ ''?'' @ parameters"
  have one_text: "FormatInt 1 = ''1''" by code_simp
  have t1: "first_target p org = ?path @ ''?'' @ Encode (mput ''page'' (FormatInt 1) [(''per_page'', FormatInt (gh_perPage p)), (''sort'', ''updated'')])"
    by (simp add: first_target_def one_text)
  have t2: "Encode (mput ''page'' (FormatInt 2) []) = ''page=2''" by code_simp
  have pfn: "pathFromNext (logged p) next = Inr ?next"
    using link \<open>parameters \<noteq> []\<close> by (simp add: pathFromNext_def)
  obtain r2 w2 where two: "gh_json p ''GET'' (?next @ ''?page=2'') None ?d w1 = (r2, w2)"
    by (cases "gh_json p ''GET'' (?next @ ''?page=2'') None ?d w1")
  let ?rq1 = "gh_request p ''GET'' (first_target p org) json_accept None"
  let ?rq2 = "gh_request p ''GET'' (?next @ ''?page=2'') json_accept None"
  have g1: "gh_json (logged p) ''GET'' (first_target p org) None ?d (w, []) = (Inr (batch, next), (w1, [?rq1]))"
    and g2: "gh_json (logged p) ''GET'' (?next @ ''?page=2'') None ?d (w1, [?rq1]) = (r2, (w2, [?rq1, ?rq2]))"
    using one two valid by (simp_all add: gh_json_logged)
  have "\<exists>rest. snd (snd (list_pages (logged p) (Suc n) 2 ?next [] (w1, [?rq1]))) = ?rq1 # ?rq2 # rest"
  proof (cases r2)
    case (Inl e)
    with g2 t2 show ?thesis by (simp add: Let_def andThen_def)
  next
    case (Inr bn)
    obtain b nx where bn: "bn = (b, nx)" by (cases bn)
    let ?more = "if nx = [] then ret b else andThen (liftE (pathFromNext (logged p) nx)) (\<lambda>path'.
          andThen (list_pages (logged p) n (2 + 1) path' []) (\<lambda>rest. ret (b @ rest)))"
    have "sends (\<lambda>rq. True) ?more"
      by (intro sends_if sends_ret sends_andThen sends_liftE list_pages_logs)
    then obtain rest where "snd (snd (?more (w2, [?rq1, ?rq2]))) = [?rq1, ?rq2] @ rest"
      unfolding sends_def by meson
    with g2 t2 Inr bn show ?thesis by (simp add: Let_def andThen_def split del: if_split)
  qed
  then obtain rest where rest: "snd (snd (list_pages (logged p) (Suc n) 2 ?next [] (w1, [?rq1]))) = ?rq1 # ?rq2 # rest" ..
  have "list_pages (logged p) (Suc (Suc n)) 1 ?path [(''per_page'', FormatInt (gh_perPage p)), (''sort'', ''updated'')] (w, []) =
      andThen (list_pages (logged p) (Suc n) 2 ?next []) (\<lambda>rest. ret (batch @ rest)) (w1, [?rq1])"
    unfolding list_pages.simps(2) [of p' "Suc n" for p'] Let_def t1 [symmetric]
    by (simp add: andThen_def [of "gh_json q m u pl d" for q m u pl d] g1 more pfn andThen_liftE del: list_pages.simps mput.simps)
  with rest have "snd (snd (ListRepos (logged p) org (w, []))) = ?rq1 # ?rq2 # rest"
    unfolding ListRepos_def Let_def logged_simps n snd_andThen_ret by (simp only: snd_andThen_ret)
  moreover have "hq_URL ?rq2 = site @ api_path @ api_path @ route @ ''?'' @ parameters @ ''?page=2''"
    by (simp add: gh_request_def base)
  ultimately show ?thesis by blast
qed

text \<open>An enterprise server with two repositories in two pages, which knows no other address.\<close>

definition ghe_link :: string where
  "ghe_link = ''<https://h/api/v3/orgs/o/repos?page=2>; rel='' @ [CHR 0x22] @ ''next'' @ [CHR 0x22]"

definition ghe_server :: "unit transport" where
  "ghe_server = \<lparr>tr_refuses = \<lambda>u. None,
     tr_do = \<lambda>rq w. (Inr (if hq_URL rq = ''https://h/api/v3/orgs/o/repos?page=1&per_page=100&sort=updated''
        then json_response ghe_link ''1''
        else if hq_URL rq = ''https://h/api/v3/orgs/o/repos?page=2'' then json_response [] ''2''
        else (json_response [] [])\<lparr>hs_Status := 404\<rparr>), w),
     tr_json = \<lambda>s. Doc (JArr [JObj [(''name'', JStr s)]]), tr_authority = \<lambda>a. True\<rparr>"

definition ghe :: "unit githubProvider" where
  "ghe = demo_github ghe_server ''https://h/api/v3''"

theorem second_page_is_asked_elsewhere_witness:
  "\<exists>rq1 rq2 rest. snd (snd (ListRepos (logged ghe) ''o'' ((), []))) = rq1 # rq2 # rest \<and>
     hq_URL rq2 = ''https://h/api/v3/api/v3/orgs/o/repos?page=2?page=2'' \<and>
     isl (fst (ListRepos ghe ''o'' ()))"
proof -
  let ?get = "gh_json ghe ''GET'' (first_target ghe ''o'') None (dec_list dec_githubRepo zero_githubRepo) ()"
  have one: "?get = (Inr ([zero_githubRepo\<lparr>ar_Name := ''1''\<rparr>], ''https://h/api/v3/orgs/o/repos?page=2''), ())" by code_simp
  have link: "url_Parse (tr_authority (gh_client ghe)) ''https://h/api/v3/orgs/o/repos?page=2'' = Inr (''/api/v3'' @ ''/orgs/o/repos'', ''page=2'')"
    by code_simp
  have "isl (fst (ListRepos ghe ''o'' ()))" by code_simp
  moreover have "gh_baseURL ghe = ''https://h'' @ ''/api/v3''" "2 \<le> gh_maxPages ghe" "\<And>u. tr_refuses (gh_client ghe) u = None"
    by (simp_all add: ghe_def demo_github_def ghe_server_def)
  ultimately show ?thesis
    using second_page_is_asked_elsewhere [OF _ _ one _ link, of "''https://h''"] by simp
qed

section \<open>Commits\<close>

lemma sends_mono: "sends P m \<Longrightarrow> (\<And>rq. P rq \<Longrightarrow> Q rq) \<Longrightarrow> sends Q m"
  unfolding sends_def by meson

definition moves_nothing :: "http_request \<Rightarrow> bool" where
  "moves_nothing rq \<longleftrightarrow> hq_Method rq \<noteq> ''PATCH''"

lemma moves_nothing_request: "method \<noteq> ''PATCH'' \<Longrightarrow> moves_nothing (gh_request p method path accept payload)"
  by (simp add: moves_nothing_def gh_request_def)

lemma gh_send_logged:
  "gh_send (logged p) method path payload (w, sent) =
     (case gh_send p method path payload w of (r, w') \<Rightarrow> (r, (w', sent @
       (if tr_refuses (gh_client p) (gh_baseURL p @ path) = None then [gh_request p method path json_accept (Some payload)] else []))))"
proof -
  obtain r w' where "gh_do p method path json_accept (Some payload) w = (r, w')"
    by (cases "gh_do p method path json_accept (Some payload) w")
  then show ?thesis by (cases r) (auto simp: gh_send_def andThen_def gh_do_logged)
qed

lemma gh_send_sent:
  "gh_send p method path payload w = (Inr x, w') \<Longrightarrow> tr_refuses (gh_client p) (gh_baseURL p @ path) = None"
  by (cases "tr_refuses (gh_client p) (gh_baseURL p @ path)")
    (simp_all add: gh_send_def andThen_def gh_do_def Let_def gh_request_def)

text \<open>The request that moves a branch: by name, to one commit, refused by the server unless it is a fast-forward.\<close>

definition moves_branch :: "'w githubProvider \<Rightarrow> string \<Rightarrow> string \<Rightarrow> string \<Rightarrow> string \<Rightarrow> http_request" where
  "moves_branch p owner name branch sha = gh_request p ''PATCH'' (repoPath owner name @ ''/git/refs/heads/'' @ escapePath branch)
     json_accept (Some (JObj [(''force'', JBool False), (''sha'', json_string sha)]))"

lemma move_branch_logged:
  assumes "move_branch (logged p) owner name branch sha (w, sent) = (r, (w', sent'))"
  shows "sent' = sent \<and> isl r \<or> sent' = sent @ [moves_branch p owner name branch sha]"
  using assms gh_send_sent [of p "''PATCH''" "repoPath owner name @ ''/git/refs/heads/'' @ escapePath branch"
      "JObj [(''force'', JBool False), (''sha'', json_string sha)]" w]
  unfolding move_branch_def moves_branch_def gh_send_logged
  by (cases r) (auto split: prod.splits if_splits)

text \<open>The same client with its exchanges recorded, and an exchange that asked for something and was given it: the
  server accepted the request and answered the hash \<open>sha\<close>.\<close>

definition recorded :: "'w githubProvider \<Rightarrow> ('w \<times> (http_request \<times> http_response res) list) githubProvider" where
  "recorded p = \<lparr>gh_client = recording (gh_client p), gh_baseURL = gh_baseURL p, gh_token = gh_token p,
     gh_perPage = gh_perPage p, gh_maxPages = gh_maxPages p\<rparr>"

lemma recorded_simps [simp]:
  "gh_client (recorded p) = recording (gh_client p)" "gh_request (recorded p) = gh_request p"
  by (simp_all add: recorded_def gh_request_def fun_eq_iff)

definition accepted :: "http_response res \<Rightarrow> bool" where
  "accepted a \<longleftrightarrow> (case a of Inl e \<Rightarrow> False | Inr resp \<Rightarrow> hs_Status resp < 400)"

definition gave :: "'w githubProvider \<Rightarrow> string \<Rightarrow> string \<Rightarrow> json option \<Rightarrow> (json \<Rightarrow> string res) \<Rightarrow> string \<Rightarrow>
    http_request \<times> http_response res \<Rightarrow> bool" where
  "gave p method path payload d sha e \<longleftrightarrow> fst e = gh_request p method path json_accept payload \<and> accepted (snd e) \<and>
     (case snd e of Inl x \<Rightarrow> False | Inr resp \<Rightarrow> unmarshal d (tr_json (gh_client p) (limited (hs_Body resp))) = Inr sha)"

lemma gh_do_recorded:
  "gh_do (recorded p) method path accept payload (w, exs) = (Inr (raw, nx), (w', exs')) \<Longrightarrow>
   \<exists>resp. exs' = exs @ [(gh_request p method path accept payload, Inr resp)] \<and> hs_Status resp < 400 \<and> raw = limited (hs_Body resp)"
  by (auto simp: gh_do_def recording_def andThen_eq_Inr wrapping_def Let_def
      split: option.split_asm prod.split_asm sum.split_asm if_split_asm)

lemma gh_json_recorded:
  assumes "gh_json (recorded p) method path payload d (w, exs) = (Inr (x, nx), (w', exs'))"
  shows "\<exists>e. exs' = exs @ [e] \<and> gave p method path payload d x e"
proof -
  from assms obtain raw nx' where g: "gh_do (recorded p) method path json_accept payload (w, exs) = (Inr (raw, nx'), (w', exs'))"
    and u: "(case unmarshal d (tr_json (gh_client p) raw) of Inl e \<Rightarrow> Inl (wrap (''decode github response for '' @ method @ '' '' @ path) e)
         | Inr y \<Rightarrow> Inr (y, nx')) = Inr (x, nx)"
    by (auto simp: gh_json_def andThen_eq_Inr)
  from u have "unmarshal d (tr_json (gh_client p) raw) = Inr x" by (simp split: sum.split_asm)
  with gh_do_recorded [OF g] show ?thesis by (auto simp: gave_def accepted_def)
qed

abbreviation no_move :: "http_request \<times> http_response res \<Rightarrow> bool" where
  "no_move e \<equiv> moves_nothing (fst e)"

lemma sends_gh_do_recorded:
  "(\<And>r. P (gh_request p method path accept payload, r)) \<Longrightarrow> sends P (gh_do (recorded p) method path accept payload)"
  unfolding gh_do_def Let_def recorded_simps
  by (auto intro!: sends_option sends_fail sends_andThen sends_wrapping sends_recording sends_if sends_ret)

lemma sends_gh_json_recorded:
  "method \<noteq> ''PATCH'' \<Longrightarrow> sends no_move (gh_json (recorded p) method path payload d)"
  unfolding gh_json_def
  by (intro sends_andThen sends_gh_do_recorded sends_prod sends_liftE) (simp add: moves_nothing_request)

lemma sends_objects: "sends no_move (commit_objects (recorded p) owner name branch message files)"
proof -
  have "sends no_move (create_blobs (recorded p) owner name files)"
  proof (induction files)
    case (Cons f files)
    then show ?case
      unfolding create_blobs.simps by (intro sends_andThen sends_prod sends_ret sends_gh_json_recorded) simp_all
  qed (simp only: create_blobs.simps sends_ret)
  then show ?thesis
    unfolding commit_objects_def by (intro sends_andThen sends_prod sends_ret sends_gh_json_recorded) simp_all
qed

text \<open>The requests that create the parts of a commit.\<close>

definition blob_given :: "'w githubProvider \<Rightarrow> string \<Rightarrow> string \<Rightarrow> FileChange \<times> string \<Rightarrow> http_request \<times> http_response res \<Rightarrow> bool" where
  "blob_given p owner name fb = gave p ''POST'' (repoPath owner name @ ''/git/blobs'')
     (Some (JObj [(''content'', json_string (fc_Content (fst fb))), (''encoding'', JStr ''utf-8'')])) dec_sha (snd fb)"

definition file_entry :: "FileChange \<times> string \<Rightarrow> json" where
  "file_entry fb = JObj [(''mode'', JStr ''100644''), (''path'', json_string (fc_Path (fst fb))), (''sha'', json_string (snd fb)),
     (''type'', JStr ''blob'')]"

lemma create_blobs_recorded:
  "create_blobs (recorded p) owner name files (w, exs) = (Inr js, (w', exs')) \<Longrightarrow>
   \<exists>blobs es. length blobs = length files \<and> exs' = exs @ es \<and> js = map file_entry (zip files blobs) \<and>
     list_all2 (blob_given p owner name) (zip files blobs) es"
proof (induction files arbitrary: w exs js)
  case Nil
  then show ?case by simp
next
  case (Cons f files)
  let ?get = "gh_json (recorded p) ''POST'' (repoPath owner name @ ''/git/blobs'')
         (Some (JObj [(''content'', json_string (fc_Content f)), (''encoding'', JStr ''utf-8'')])) dec_sha"
  from Cons.prems obtain sha nx w1 log1 rest where
    g: "?get (w, exs) = (Inr (sha, nx), (w1, log1))" and
    r: "create_blobs (recorded p) owner name files (w1, log1) = (Inr rest, (w', exs'))" and
    js: "js = file_entry (f, sha) # rest"
    by (auto simp: andThen_eq_Inr file_entry_def)
  from gh_json_recorded [OF g] obtain e where e: "log1 = exs @ [e]" "blob_given p owner name (f, sha) e"
    by (auto simp: blob_given_def)
  from Cons.IH [OF r] obtain blobs es where "length blobs = length files" "exs' = log1 @ es"
    "rest = map file_entry (zip files blobs)" "list_all2 (blob_given p owner name) (zip files blobs) es" by blast
  with e js show ?case by (intro exI [of _ "sha # blobs"] exI [of _ "e # es"]) simp
qed

lemma commit_objects_recorded:
  assumes "commit_objects (recorded p) owner name branch message files (w, []) = (Inr sha, (w', exs))"
  shows "\<exists>base tree blobs newTree e1 e2 es e3 e4. exs = [e1, e2] @ es @ [e3, e4] \<and> length blobs = length files \<and>
    gave p ''GET'' (repoPath owner name @ ''/git/ref/heads/'' @ escapePath branch) None dec_ref_sha base e1 \<and>
    gave p ''GET'' (repoPath owner name @ ''/git/commits/'' @ PathEscape base) None dec_tree_sha tree e2 \<and>
    list_all2 (blob_given p owner name) (zip files blobs) es \<and>
    gave p ''POST'' (repoPath owner name @ ''/git/trees'') (Some (JObj [(''base_tree'', json_string tree),
       (''tree'', JArr (map file_entry (zip files blobs)))])) dec_sha newTree e3 \<and>
    gave p ''POST'' (repoPath owner name @ ''/git/commits'') (Some (JObj [(''message'', json_string message),
       (''parents'', JArr [json_string base]), (''tree'', json_string newTree)])) dec_sha sha e4"
proof -
  from assms obtain b n1 v1 t1 tree n2 v2 t2 js v3 t3 nt n3 v4 t4 n4 where
    g1: "gh_json (recorded p) ''GET'' (repoPath owner name @ ''/git/ref/heads/'' @ escapePath branch) None dec_ref_sha (w, []) = (Inr (b, n1), (v1, t1))"
    and g2: "gh_json (recorded p) ''GET'' (repoPath owner name @ ''/git/commits/'' @ PathEscape b) None dec_tree_sha (v1, t1) = (Inr (tree, n2), (v2, t2))"
    and g3: "create_blobs (recorded p) owner name files (v2, t2) = (Inr js, (v3, t3))"
    and g4: "gh_json (recorded p) ''POST'' (repoPath owner name @ ''/git/trees'')
         (Some (JObj [(''base_tree'', json_string tree), (''tree'', JArr js)])) dec_sha (v3, t3) = (Inr (nt, n3), (v4, t4))"
    and g5: "gh_json (recorded p) ''POST'' (repoPath owner name @ ''/git/commits'')
         (Some (JObj [(''message'', json_string message), (''parents'', JArr [json_string b]),
                      (''tree'', json_string nt)])) dec_sha (v4, t4) = (Inr (sha, n4), (w', exs))"
    unfolding commit_objects_def andThen_eq_Inr by (auto simp: andThen_eq_Inr)
  from create_blobs_recorded [OF g3] obtain blobs es where bs: "length blobs = length files" "t3 = t2 @ es"
    "js = map file_entry (zip files blobs)" "list_all2 (blob_given p owner name) (zip files blobs) es" by blast
  from gh_json_recorded [OF g1] gh_json_recorded [OF g2] gh_json_recorded [OF g4] gh_json_recorded [OF g5] obtain e1 e2 e3 e4 where
    "t1 = [e1]" "gave p ''GET'' (repoPath owner name @ ''/git/ref/heads/'' @ escapePath branch) None dec_ref_sha b e1"
    "t2 = t1 @ [e2]" "gave p ''GET'' (repoPath owner name @ ''/git/commits/'' @ PathEscape b) None dec_tree_sha tree e2"
    "t4 = t3 @ [e3]" "gave p ''POST'' (repoPath owner name @ ''/git/trees'')
         (Some (JObj [(''base_tree'', json_string tree), (''tree'', JArr js)])) dec_sha nt e3"
    "exs = t4 @ [e4]" "gave p ''POST'' (repoPath owner name @ ''/git/commits'')
         (Some (JObj [(''message'', json_string message), (''parents'', JArr [json_string b]),
                      (''tree'', json_string nt)])) dec_sha sha e4" by auto
  with bs show ?thesis
    by (intro exI [of _ b] exI [of _ tree] exI [of _ blobs] exI [of _ nt] exI [of _ e1] exI [of _ e2] exI [of _ es]
        exI [of _ e3] exI [of _ e4]) simp
qed

lemma gh_do_exchange:
  assumes "gh_do (recorded p) method path accept payload (w, exs) = (r, (w', exs'))"
  shows "exs' = exs \<and> isl r \<or> (\<exists>a. exs' = exs @ [(gh_request p method path accept payload, a)])"
proof (cases "tr_refuses (gh_client p) (hq_URL (gh_request p method path accept payload))")
  case None
  obtain a w1 where a: "tr_do (gh_client p) (gh_request p method path accept payload) w = (a, w1)"
    by (cases "tr_do (gh_client p) (gh_request p method path accept payload) w")
  then have "tr_do (recording (gh_client p)) (gh_request p method path accept payload) (w, exs) =
      (a, w1, exs @ [(gh_request p method path accept payload, a)])"
    by (simp add: recording_def)
  with None assms show ?thesis
    by (cases a) (auto simp: gh_do_def Let_def andThen_def wrapping_def split: if_split_asm)
next
  case (Some e)
  with assms show ?thesis by (auto simp: gh_do_def Let_def)
qed

lemma move_branch_recorded:
  assumes "move_branch (recorded p) owner name branch sha (w, exs) = (r, (w', exs'))"
  shows "exs' = exs \<and> isl r \<or> (\<exists>a. exs' = exs @ [(moves_branch p owner name branch sha, a)] \<and> (isl r \<or> accepted a))"
proof -
  let ?do = "gh_do (recorded p) ''PATCH'' (repoPath owner name @ ''/git/refs/heads/'' @ escapePath branch) json_accept
       (Some (JObj [(''force'', JBool False), (''sha'', json_string sha)]))"
  obtain r1 w1 exs1 where d: "?do (w, exs) = (r1, w1, exs1)" by (cases "?do (w, exs)") auto
  show ?thesis
  proof (cases r1)
    case (Inl e)
    with d assms have "exs' = exs1" "isl r" "isl r1" by (auto simp: move_branch_def gh_send_def andThen_def)
    with gh_do_exchange [OF d] show ?thesis by (auto simp: moves_branch_def)
  next
    case (Inr x)
    obtain raw nx where "x = (raw, nx)" by (cases x)
    with d assms Inr have "exs' = exs1" by (auto simp: move_branch_def gh_send_def andThen_def)
    with gh_do_recorded [OF d [unfolded Inr \<open>x = (raw, nx)\<close>]] show ?thesis
      by (auto simp: moves_branch_def accepted_def)
  qed
qed

text \<open>C31: a commit moves its branch with its last request, and only after everything the new commit points to was
  created. Either CreateCommit fails without having asked to move anything, or its exchanges are: the head
  of the branch, the tree of that commit, one accepted blob per file in order, an accepted tree over that
  tree whose entries are the paths of the files with the hashes the server gave their blobs, an accepted commit with
  that tree and the head as its only parent, and last the one request that moves the branch, to the hash the
  server gave that commit, forbidding anything but a fast-forward; it returns that hash only when
  the server accepted the move.\<close>

theorem commit_moves_branch_last:
  assumes "CreateCommit (recorded p) owner name branch message files (w, []) = (r, (w', exs))"
  shows "isl r \<and> list_all no_move exs \<or>
    (\<exists>base tree blobs newTree sha e1 e2 es e3 e4 a.
      exs = [e1, e2] @ es @ [e3, e4, (moves_branch p owner name branch sha, a)] \<and>
      list_all no_move ([e1, e2] @ es @ [e3, e4]) \<and> length blobs = length files \<and>
      gave p ''GET'' (repoPath owner name @ ''/git/ref/heads/'' @ escapePath branch) None dec_ref_sha base e1 \<and>
      gave p ''GET'' (repoPath owner name @ ''/git/commits/'' @ PathEscape base) None dec_tree_sha tree e2 \<and>
      list_all2 (blob_given p owner name) (zip files blobs) es \<and>
      gave p ''POST'' (repoPath owner name @ ''/git/trees'') (Some (JObj [(''base_tree'', json_string tree),
         (''tree'', JArr (map file_entry (zip files blobs)))])) dec_sha newTree e3 \<and>
      gave p ''POST'' (repoPath owner name @ ''/git/commits'') (Some (JObj [(''message'', json_string message),
         (''parents'', JArr [json_string base]), (''tree'', json_string newTree)])) dec_sha sha e4 \<and>
      (isl r \<or> r = Inr sha \<and> accepted a))"
proof -
  obtain r1 w1 objects where o: "commit_objects (recorded p) owner name branch message files (w, []) = (r1, w1, objects)"
    by (cases "commit_objects (recorded p) owner name branch message files (w, [])") auto
  from sendsD [OF sends_objects o] have quiet: "list_all no_move objects" by (simp add: list_all_iff)
  show ?thesis
  proof (cases r1)
    case (Inl e)
    with o assms quiet show ?thesis by (auto simp: CreateCommit_def andThen_def)
  next
    case (Inr sha)
    obtain r2 w2 log2 where m: "move_branch (recorded p) owner name branch sha (w1, objects) = (r2, w2, log2)"
      by (cases "move_branch (recorded p) owner name branch sha (w1, objects)") auto
    with o assms Inr have r: "r = (case r2 of Inl e \<Rightarrow> Inl e | Inr u \<Rightarrow> Inr sha)" "exs = log2"
      by (auto simp: CreateCommit_def andThen_def split: sum.splits)
    from move_branch_recorded [OF m] show ?thesis
    proof
      assume "log2 = objects \<and> isl r2"
      with r quiet show ?thesis by (cases r2) auto
    next
      assume "\<exists>a. log2 = objects @ [(moves_branch p owner name branch sha, a)] \<and> (isl r2 \<or> accepted a)"
      then obtain a where a: "log2 = objects @ [(moves_branch p owner name branch sha, a)]" "isl r2 \<or> accepted a" by blast
      have "isl r \<or> r = Inr sha \<and> accepted a" using r a by (cases r2) auto
      moreover from commit_objects_recorded [OF o [unfolded Inr]] obtain base tree blobs newTree e1 e2 es e3 e4 where
        "objects = [e1, e2] @ es @ [e3, e4]" "length blobs = length files"
        "gave p ''GET'' (repoPath owner name @ ''/git/ref/heads/'' @ escapePath branch) None dec_ref_sha base e1"
        "gave p ''GET'' (repoPath owner name @ ''/git/commits/'' @ PathEscape base) None dec_tree_sha tree e2"
        "list_all2 (blob_given p owner name) (zip files blobs) es"
        "gave p ''POST'' (repoPath owner name @ ''/git/trees'') (Some (JObj [(''base_tree'', json_string tree),
           (''tree'', JArr (map file_entry (zip files blobs)))])) dec_sha newTree e3"
        "gave p ''POST'' (repoPath owner name @ ''/git/commits'') (Some (JObj [(''message'', json_string message),
           (''parents'', JArr [json_string base]), (''tree'', json_string newTree)])) dec_sha sha e4" by blast
      moreover from this(1) a r have "exs = [e1, e2] @ es @ [e3, e4, (moves_branch p owner name branch sha, a)]" by simp
      ultimately show ?thesis using quiet by blast
    qed
  qed
qed

text \<open>A server that creates what it is asked to.\<close>

definition commit_server :: "unit transport" where
  "commit_server = \<lparr>tr_refuses = \<lambda>u. None, tr_do = \<lambda>rq w. (Inr (json_response [] (hq_Method rq)), w),
     tr_json = \<lambda>s. Doc (JObj [(''sha'', JStr ''abc''), (''object'', JObj [(''sha'', JStr ''b0'')]), (''tree'', JObj [(''sha'', JStr ''t0'')])]),
     tr_authority = \<lambda>a. True\<rparr>"

definition commit_run :: "string res \<times> unit \<times> http_request list" where
  "commit_run = CreateCommit (logged (demo_github commit_server ''https://h'')) ''o'' ''n'' ''main'' ''fix''
     [\<lparr>fc_Path = ''a.go'', fc_Content = ''x''\<rparr>] ((), [])"

definition recorded_commit :: "string res \<times> unit \<times> (http_request \<times> http_response res) list" where
  "recorded_commit = CreateCommit (recorded (demo_github commit_server ''https://h'')) ''o'' ''n'' ''main'' ''fix''
     [\<lparr>fc_Path = ''a.go'', fc_Content = ''x''\<rparr>] ((), [])"

theorem commit_moves_branch_last_witness:
  "\<exists>objects a e b. recorded_commit =
       (Inr ''abc'', (), objects @ [(moves_branch (demo_github commit_server ''https://h'') ''o'' ''n'' ''main'' ''abc'', a)]) \<and>
     length objects = 5 \<and> accepted a \<and> e \<in> set objects \<and>
     blob_given (demo_github commit_server ''https://h'') ''o'' ''n'' (\<lparr>fc_Path = ''a.go'', fc_Content = ''x''\<rparr>, b) e"
proof -
  let ?p = "demo_github commit_server ''https://h''"
  define exs where "exs = snd (snd recorded_commit)"
  have "fst recorded_commit = Inr ''abc''" by code_simp
  then have run: "recorded_commit = (Inr ''abc'', (), exs)" by (simp add: exs_def prod_eq_iff)
  from commit_moves_branch_last [OF run [unfolded recorded_commit_def]] obtain blobs :: "string list" and e1 e2 es e3 e4 a where
    all: "exs = [e1, e2] @ es @ [e3, e4, (moves_branch ?p ''o'' ''n'' ''main'' ''abc'', a)]" "accepted a" "length blobs = 1"
    "list_all2 (blob_given ?p ''o'' ''n'') (zip [\<lparr>fc_Path = ''a.go'', fc_Content = ''x''\<rparr>] blobs) es" by auto
  from all(3) obtain b where b: "blobs = [b]" by (auto simp: length_Suc_conv)
  with all(4) obtain e where e: "es = [e]" "blob_given ?p ''o'' ''n'' (\<lparr>fc_Path = ''a.go'', fc_Content = ''x''\<rparr>, b) e"
    by (auto simp: list_all2_Cons1)
  show ?thesis
    by (intro exI [of _ "[e1, e2, e, e3, e4]"] exI [of _ a] exI [of _ e] exI [of _ b]) (use run all(1,2) e in simp)
qed

text \<open>The content of the blob a request creates.\<close>

definition blob_content :: "http_request \<Rightarrow> json list" where
  "blob_content rq = (case hq_Body rq of
       Some (JObj [(k, content), (k', encoding)]) \<Rightarrow> if k = ''content'' then [content] else [] | _ \<Rightarrow> [])"

lemma gh_json_sent:
  assumes "gh_json (logged p) method path payload d (w, sent) = (Inr x, (w', sent'))"
  shows "sent' = sent @ [gh_request p method path json_accept payload]"
proof (cases "tr_refuses (gh_client p) (gh_baseURL p @ path)")
  case None
  with assms show ?thesis by (auto simp: gh_json_logged split: prod.splits)
next
  case (Some e)
  then have "isl (fst (gh_json p method path payload d w))"
    by (simp add: gh_json_def andThen_def gh_do_def Let_def gh_request_def)
  with assms show ?thesis by (auto simp: gh_json_logged split: prod.splits)
qed

lemma hq_Body_request [simp]: "hq_Body (gh_request p method path accept payload) = payload"
  by (simp add: gh_request_def)

lemma create_blobs_contents:
  "create_blobs (logged p) owner name files (w, sent) = (Inr js, (w', sent')) \<Longrightarrow>
   \<exists>rqs. sent' = sent @ rqs \<and> concat (map blob_content rqs) = map (\<lambda>f. json_string (fc_Content f)) files"
proof (induction files arbitrary: w sent js)
  case Nil
  then show ?case by simp
next
  case (Cons f files)
  let ?get = "gh_json (logged p) ''POST'' (repoPath owner name @ ''/git/blobs'')
         (Some (JObj [(''content'', json_string (fc_Content f)), (''encoding'', JStr ''utf-8'')])) dec_sha"
  from Cons.prems obtain sha nx w1 s1 rest where
    g: "?get (w, sent) = (Inr (sha, nx), (w1, s1))" and
    r: "create_blobs (logged p) owner name files (w1, s1) = (Inr rest, (w', sent'))"
    by (auto simp: andThen_eq_Inr)
  from Cons.IH [OF r] obtain rqs where
    "sent' = s1 @ rqs" "concat (map blob_content rqs) = map (\<lambda>f. json_string (fc_Content f)) files" by blast
  moreover have "blob_content (gh_request p m u a (Some (JObj [(''content'', x), (k, y)]))) = [x]" for m u a x k y
    by (simp add: blob_content_def)
  ultimately show ?case
    using gh_json_sent [OF g] by (intro exI [of _ "gh_request p ''POST'' (repoPath owner name @ ''/git/blobs'') json_accept
      (Some (JObj [(''content'', json_string (fc_Content f)), (''encoding'', JStr ''utf-8'')])) # rqs"]) simp
qed

text \<open>C33: a commit that succeeds has created one blob for every file, in order, and the content of the
  blob is the content of the file exactly when that is valid UTF-8: bytes that are not (of an image, an
  archive) are replaced on the way to the server, without an error.\<close>

theorem commit_carries_files:
  assumes "CreateCommit (logged p) owner name branch message files (w, []) = (Inr sha, (w', sent))"
  shows "concat (map blob_content sent) = map (\<lambda>f. json_string (fc_Content f)) files \<and>
    (\<forall>f \<in> set files. json_string (fc_Content f) = JStr (fc_Content f) \<longleftrightarrow> utf8_valid (fc_Content f))"
proof -
  let ?d = "commit_objects (logged p) owner name branch message files"
  from assms obtain w1 s1 where o: "?d (w, []) = (Inr sha, (w1, s1))" and
    m: "move_branch (logged p) owner name branch sha (w1, s1) = (Inr (), (w', sent))"
    by (auto simp: CreateCommit_def andThen_eq_Inr)
  from o obtain b n1 v1 t1 tree n2 v2 t2 js v3 t3 nt n3 v4 t4 n4 where
    g1: "gh_json (logged p) ''GET'' (repoPath owner name @ ''/git/ref/heads/'' @ escapePath branch) None dec_ref_sha (w, []) = (Inr (b, n1), (v1, t1))"
    and g2: "gh_json (logged p) ''GET'' (repoPath owner name @ ''/git/commits/'' @ PathEscape b) None dec_tree_sha (v1, t1) = (Inr (tree, n2), (v2, t2))"
    and g3: "create_blobs (logged p) owner name files (v2, t2) = (Inr js, (v3, t3))"
    and g4: "gh_json (logged p) ''POST'' (repoPath owner name @ ''/git/trees'')
         (Some (JObj [(''base_tree'', json_string tree), (''tree'', JArr js)])) dec_sha (v3, t3) = (Inr (nt, n3), (v4, t4))"
    and g5: "gh_json (logged p) ''POST'' (repoPath owner name @ ''/git/commits'')
         (Some (JObj [(''message'', json_string message), (''parents'', JArr [json_string b]),
                      (''tree'', json_string nt)])) dec_sha (v4, t4) = (Inr (sha, n4), (w1, s1))"
    unfolding commit_objects_def andThen_eq_Inr by (auto simp: andThen_eq_Inr)
  from create_blobs_contents [OF g3] obtain rqs where
    "t3 = t2 @ rqs" "concat (map blob_content rqs) = map (\<lambda>f. json_string (fc_Content f)) files" by blast
  moreover from move_branch_logged [OF m] have "sent = s1 @ [moves_branch p owner name branch sha]" by auto
  moreover have "blob_content (moves_branch p owner name branch sha) = []" by (simp add: moves_branch_def blob_content_def)
  ultimately have "concat (map blob_content sent) = map (\<lambda>f. json_string (fc_Content f)) files"
    using gh_json_sent [OF g1] gh_json_sent [OF g2] gh_json_sent [OF g4] gh_json_sent [OF g5]
    by (simp add: blob_content_def)
  moreover have "json_string s = JStr s \<longleftrightarrow> utf8_valid s" for s
    using ToValidUTF8_id [of s] ToValidUTF8_changes [of s] by (auto simp: json_string_def)
  ultimately show ?thesis by simp
qed

theorem commit_carries_files_witness:
  "\<exists>sent. commit_run = (Inr ''abc'', (), sent) \<and> concat (map blob_content sent) = [JStr ''x'']"
proof -
  have c: "fst commit_run = Inr ''abc''" by code_simp
  define sent where "sent = snd (snd commit_run)"
  with c have run: "commit_run = (Inr ''abc'', (), sent)" by (simp add: prod_eq_iff)
  from commit_carries_files [OF run [unfolded commit_run_def]] have "concat (map blob_content sent) = [json_string ''x'']" by simp
  moreover have "json_string ''x'' = JStr ''x''" by code_simp
  ultimately show ?thesis using run by auto
qed

section \<open>Truncated trees\<close>

text \<open>The tree objects of a repository: closed under subtrees and acyclic (a tree weighs more than its subtrees).\<close>

definition tree_store :: "(string \<Rightarrow> treeItem list option) \<Rightarrow> (string \<Rightarrow> nat) \<Rightarrow> bool" where
  "tree_store trees weight \<longleftrightarrow> (\<forall>sha items. trees sha = Some items \<longrightarrow>
     (\<forall>s \<in> set (subtrees items). trees s \<noteq> None) \<and> sum_list (map weight (subtrees items)) < weight sha)"

definition serves_trees :: "'w githubProvider \<Rightarrow> string \<Rightarrow> string \<Rightarrow> (string \<Rightarrow> treeItem list option) \<Rightarrow> 'w \<Rightarrow> bool" where
  "serves_trees p owner name trees w \<longleftrightarrow> (\<forall>sha items. trees sha = Some items \<longrightarrow>
     (\<exists>next. gh_json p ''GET'' (tree_path owner name sha) None dec_githubTree w =
        (Inr (\<lparr>gt_Truncated = False, gt_SHA = sha, gt_Entries = items\<rparr>, next), w)))"

text \<open>The items of a tree and of the trees below it, each as the tree that holds it names it.\<close>

inductive listed :: "(string \<Rightarrow> treeItem list option) \<Rightarrow> string \<Rightarrow> treeItem \<Rightarrow> bool" for trees where
  here: "trees sha = Some items \<Longrightarrow> i \<in> set items \<Longrightarrow> listed trees sha i"
| below: "trees sha = Some items \<Longrightarrow> s \<in> set (subtrees items) \<Longrightarrow> listed trees s i \<Longrightarrow> listed trees sha i"

inductive_simps listed_iff: "listed trees sha i"

definition below_trees :: "(string \<Rightarrow> treeItem list option) \<Rightarrow> string list \<Rightarrow> TreeEntry set" where
  "below_trees trees shas = tree_entry ` (\<Union>s \<in> set shas. Collect (listed trees s))"

lemma below_trees_step:
  assumes "trees sha = Some items"
  shows "below_trees trees (sha # shas) = tree_entry ` set items \<union> below_trees trees (shas @ subtrees items)"
proof -
  have "Collect (listed trees sha) = set items \<union> (\<Union>s \<in> set (subtrees items). Collect (listed trees s))"
    using assms by (auto simp: listed_iff [of trees sha])
  then show ?thesis by (simp add: below_trees_def image_Un Un_ac)
qed

lemma below_trees_Nil [simp]: "below_trees trees [] = {}"
  by (simp add: below_trees_def)

lemma walk_returns:
  assumes "tree_store trees weight" and "serves_trees p owner name trees w" and "\<forall>s \<in> set pending. trees s \<noteq> None"
  shows "\<exists>es. walk p owner name pending entries w = Some (Inr (entries @ es), w) \<and>
    set es = below_trees trees pending"
  using assms(3)
proof (induction "sum_list (map weight pending)" arbitrary: pending entries rule: less_induct)
  case less
  show ?case
  proof (cases pending)
    case Nil
    then show ?thesis by (simp add: walk.simps)
  next
    case (Cons sha rest)
    with less.prems obtain items where items: "trees sha = Some items" by auto
    with assms(2) obtain nx where g: "gh_json p ''GET'' (tree_path owner name sha) None dec_githubTree w =
        (Inr (\<lparr>gt_Truncated = False, gt_SHA = sha, gt_Entries = items\<rparr>, nx), w)"
      unfolding serves_trees_def by blast
    from items assms(1) have sub: "\<forall>s \<in> set (subtrees items). trees s \<noteq> None" "sum_list (map weight (subtrees items)) < weight sha"
      by (auto simp: tree_store_def)
    have "sum_list (map weight (rest @ subtrees items)) < sum_list (map weight pending)" using sub(2) Cons by simp
    moreover have "\<forall>s \<in> set (rest @ subtrees items). trees s \<noteq> None" using less.prems Cons sub(1) by auto
    ultimately obtain es where
      "walk p owner name (rest @ subtrees items) (entries @ map tree_entry items) w = Some (Inr ((entries @ map tree_entry items) @ es), w)"
      "set es = below_trees trees (rest @ subtrees items)"
      using less.hyps by blast
    moreover from this(2) below_trees_step [of trees sha items rest] items Cons
    have "set (map tree_entry items @ es) = below_trees trees pending" by simp
    ultimately show ?thesis
      using Cons g by (intro exI [of _ "map tree_entry items @ es"]) (simp add: walk.simps [of p owner name "sha # rest"])
  qed
qed

text \<open>C34: reading a tree always ends, with one request for a listing that is complete. A truncated listing
  is completed by a walk over the trees it names, and the walk ends because trees do not contain
  themselves; but it names what it finds by the path inside its own directory: a file \<open>a.go\<close> of the
  directory \<open>src\<close> is reported as \<open>a.go\<close>, a path the repository does not have, besides the entries
  of the listing, which are kept.\<close>

theorem truncated_tree_loses_directories:
  assumes store: "tree_store trees weight" "serves_trees p owner name trees w" and ref: "ref \<noteq> []"
    and listing: "gh_json p ''GET'' (tree_path owner name ref @ ''?recursive=1'') None dec_githubTree w = (Inr (listing, next), w)"
    and known: "\<forall>s \<in> set (subtrees (gt_Entries listing)). trees s \<noteq> None"
  shows "\<exists>es. ReadTree p owner name ref w = Some (Inr (map tree_entry (gt_Entries listing) @ es), w) \<and>
    set es = (if gt_Truncated listing
      then below_trees trees (subtrees (gt_Entries listing)) else {})"
  using walk_returns [OF store, of "if gt_Truncated listing then subtrees (gt_Entries listing) else []"] ref listing known
  by (auto simp: ReadTree_def below_trees_def)

text \<open>A repository of one file in one directory, whose listing is cut.\<close>

definition tree_items :: "string \<Rightarrow> treeItem list option" where
  "tree_items sha = (if sha = ''s'' then Some [\<lparr>ti_Path = ''a.go'', ti_Type = ''blob'', ti_Size = 1, ti_SHA = ''b''\<rparr>] else None)"

definition tree_server :: "unit transport" where
  "tree_server = \<lparr>tr_refuses = \<lambda>u. None, tr_do = \<lambda>rq w. (Inr (json_response [] (hq_URL rq)), w),
     tr_json = \<lambda>u. if u = ''https://h/repos/o/n/git/trees/s''
       then Doc (JObj [(''sha'', JStr ''s''), (''tree'', JArr [JObj [(''path'', JStr ''a.go''), (''type'', JStr ''blob''), (''size'', JNum 1), (''sha'', JStr ''b'')]])])
       else Doc (JObj [(''truncated'', JBool True), (''tree'', JArr [JObj [(''path'', JStr ''src''), (''type'', JStr ''tree''), (''sha'', JStr ''s'')]])]),
     tr_authority = \<lambda>a. True\<rparr>"

theorem truncated_tree_loses_directories_witness:
  "\<exists>es. ReadTree (demo_github tree_server ''https://h'') ''o'' ''n'' ''main'' () =
      Some (Inr (\<lparr>te_Path = ''src'', te_Type = ''tree'', te_Size = 0\<rparr> # es), ()) \<and>
     set es = {\<lparr>te_Path = ''a.go'', te_Type = ''blob'', te_Size = 1\<rparr>}"
proof -
  let ?p = "demo_github tree_server ''https://h''"
  let ?l = "\<lparr>gt_Truncated = True, gt_SHA = [], gt_Entries = [\<lparr>ti_Path = ''src'', ti_Type = ''tree'', ti_Size = 0, ti_SHA = ''s''\<rparr>]\<rparr>"
  have "gh_json ?p ''GET'' (tree_path ''o'' ''n'' ''s'') None dec_githubTree () =
      (Inr (\<lparr>gt_Truncated = False, gt_SHA = ''s'', gt_Entries = the (tree_items ''s'')\<rparr>, []), ())" by code_simp
  then have serves: "serves_trees ?p ''o'' ''n'' tree_items ()"
    by (auto simp: serves_trees_def tree_items_def split: if_splits)
  have store: "tree_store tree_items (\<lambda>s. 1)" by (auto simp: tree_store_def tree_items_def subtrees_def split: if_splits)
  have listing: "gh_json ?p ''GET'' (tree_path ''o'' ''n'' ''main'' @ ''?recursive=1'') None dec_githubTree () = (Inr (?l, []), ())"
    by code_simp
  have "below_trees tree_items (subtrees (gt_Entries ?l)) = {\<lparr>te_Path = ''a.go'', te_Type = ''blob'', te_Size = 1\<rparr>}"
    using below_trees_step [of tree_items "''s''" "the (tree_items ''s'')" "[]"]
    by (simp add: subtrees_def tree_items_def tree_entry_def below_trees_def)
  then show ?thesis
    using truncated_tree_loses_directories [OF store serves _ listing] by (simp add: tree_entry_def subtrees_def tree_items_def)
qed

end
