(* ===== verification/GitHosts.thy ===== *)
theory GitHosts
  imports GitHub
begin

text \<open>
  The repository hosts behind one interface (\<open>internal/git/provider.go\<close>, \<open>factory.go\<close>): GitHub,
  and the three hosts that are placeholders (\<open>gitlab.go\<close>, \<open>gitea.go\<close>, \<open>bitbucket.go\<close>). The
  interface is a record of operations, as the Go interface is.
\<close>

record 'w Provider =
  pv_Name :: string
  pv_ListRepos :: "string \<Rightarrow> (Repo list, 'w) op"
  pv_GetRepo :: "string \<Rightarrow> string \<Rightarrow> (Repo, 'w) op"
  pv_GetDefaultBranch :: "string \<Rightarrow> string \<Rightarrow> (string, 'w) op"
  pv_ReadTree :: "string \<Rightarrow> string \<Rightarrow> string \<Rightarrow> 'w \<Rightarrow> (TreeEntry list res \<times> 'w) option"
  pv_ReadFile :: "string \<Rightarrow> string \<Rightarrow> string \<Rightarrow> string \<Rightarrow> (string, 'w) op"
  pv_GetPR :: "string \<Rightarrow> string \<Rightarrow> int \<Rightarrow> (PullRequest, 'w) op"
  pv_GetPRFiles :: "string \<Rightarrow> string \<Rightarrow> int \<Rightarrow> (PRFile list, 'w) op"
  pv_CreateBranch :: "string \<Rightarrow> string \<Rightarrow> string \<Rightarrow> string \<Rightarrow> (unit, 'w) op"
  pv_CreateCommit :: "string \<Rightarrow> string \<Rightarrow> string \<Rightarrow> string \<Rightarrow> FileChange list \<Rightarrow> (string, 'w) op"
  pv_OpenPR :: "string \<Rightarrow> string \<Rightarrow> string \<Rightarrow> string \<Rightarrow> string \<Rightarrow> string \<Rightarrow> (PullRequest, 'w) op"
  pv_PostPRReview :: "string \<Rightarrow> string \<Rightarrow> int \<Rightarrow> string \<Rightarrow> PRReviewComment list \<Rightarrow> (unit, 'w) op"

definition github_Provider :: "'w githubProvider \<Rightarrow> 'w Provider" where
  "github_Provider p = \<lparr>pv_Name = ''github'', pv_ListRepos = ListRepos p, pv_GetRepo = GetRepo p,
     pv_GetDefaultBranch = GetDefaultBranch p, pv_ReadTree = ReadTree p, pv_ReadFile = ReadFile p,
     pv_GetPR = GetPR p, pv_GetPRFiles = GetPRFiles p, pv_CreateBranch = CreateBranch p,
     pv_CreateCommit = CreateCommit p, pv_OpenPR = OpenPR p, pv_PostPRReview = PostPRReview p\<rparr>"

section \<open>Placeholders\<close>

definition unsupported :: "string \<Rightarrow> string \<Rightarrow> goerr" where
  "unsupported host method = not_configured (''the '' @ host @ '' provider does not implement '' @ method @ '' yet'')"

definition placeholder :: "string \<Rightarrow> 'w Provider" where
  "placeholder host = \<lparr>pv_Name = host,
     pv_ListRepos = (\<lambda>org. fail (unsupported host ''ListRepos'')),
     pv_GetRepo = (\<lambda>owner name. fail (unsupported host ''GetRepo'')),
     pv_GetDefaultBranch = (\<lambda>owner name. fail (unsupported host ''GetDefaultBranch'')),
     pv_ReadTree = (\<lambda>owner name ref w. Some (Inl (unsupported host ''ReadTree''), w)),
     pv_ReadFile = (\<lambda>owner name ref path. fail (unsupported host ''ReadFile'')),
     pv_GetPR = (\<lambda>owner name number. fail (unsupported host ''GetPR'')),
     pv_GetPRFiles = (\<lambda>owner name number. fail (unsupported host ''GetPRFiles'')),
     pv_CreateBranch = (\<lambda>owner name baseBranch newBranch. fail (unsupported host ''CreateBranch'')),
     pv_CreateCommit = (\<lambda>owner name branch message files. fail (unsupported host ''CreateCommit'')),
     pv_OpenPR = (\<lambda>owner name title body hd_branch base. fail (unsupported host ''OpenPR'')),
     pv_PostPRReview = (\<lambda>owner name number body comments. fail (unsupported host ''PostPRReview''))\<rparr>"

definition gitlab_Provider :: "'w Provider" where
  "gitlab_Provider = placeholder ''gitlab''"

definition gitea_Provider :: "'w Provider" where
  "gitea_Provider = placeholder ''gitea''"

definition bitbucket_Provider :: "'w Provider" where
  "bitbucket_Provider = placeholder ''bitbucket''"

text \<open>The base URL and the token of a placeholder are kept and never used.\<close>

definition NewGitLabProvider :: "string \<Rightarrow> string \<Rightarrow> 'w Provider res" where
  "NewGitLabProvider baseURL token =
     (if TrimSpace token = [] then Inl (not_configured ''GITLAB_TOKEN is empty'') else Inr gitlab_Provider)"

definition NewGiteaProvider :: "string \<Rightarrow> string \<Rightarrow> 'w Provider res" where
  "NewGiteaProvider baseURL token =
     (if TrimSpace token = [] \<or> TrimSpace baseURL = []
      then Inl (not_configured ''GITEA_TOKEN and GITEA_BASE_URL are required'') else Inr gitea_Provider)"

definition NewBitbucketProvider :: "string \<Rightarrow> string \<Rightarrow> 'w Provider res" where
  "NewBitbucketProvider baseURL token =
     (if TrimSpace token = [] then Inl (not_configured ''BITBUCKET_TOKEN is empty'') else Inr bitbucket_Provider)"

record git_config =
  gc_GitHubBaseURL :: string
  gc_GitHubToken :: string
  gc_GitLabBaseURL :: string
  gc_GitLabToken :: string
  gc_GiteaBaseURL :: string
  gc_GiteaToken :: string
  gc_BitbucketBaseURL :: string
  gc_BitbucketToken :: string

definition NewProvider :: "git_config \<Rightarrow> 'w transport \<Rightarrow> string \<Rightarrow> 'w Provider res" where
  "NewProvider cfg client provider =
     (let host = ToLower (TrimSpace provider) in
      if host = [] \<or> host = ''github''
      then bindE (NewGitHubProvider (gc_GitHubBaseURL cfg) (gc_GitHubToken cfg) client) (\<lambda>p. Inr (github_Provider p))
      else if host = ''gitlab'' then NewGitLabProvider (gc_GitLabBaseURL cfg) (gc_GitLabToken cfg)
      else if host = ''gitea'' then NewGiteaProvider (gc_GiteaBaseURL cfg) (gc_GiteaToken cfg)
      else if host = ''bitbucket'' then NewBitbucketProvider (gc_BitbucketBaseURL cfg) (gc_BitbucketToken cfg)
      else Inl (not_configured (''unknown git provider '' @ Quote provider)))"

section \<open>What the factory promises\<close>

definition refuses :: "('a, 'w) op \<Rightarrow> bool" where
  "refuses m \<longleftrightarrow> (\<forall>w. \<exists>e. m w = (Inl e, w) \<and> err_kind e = KNotConfigured)"

definition refuses_all :: "'w Provider \<Rightarrow> bool" where
  "refuses_all p \<longleftrightarrow> (\<forall>org. refuses (pv_ListRepos p org)) \<and> (\<forall>u v. refuses (pv_GetRepo p u v)) \<and>
     (\<forall>u v. refuses (pv_GetDefaultBranch p u v)) \<and>
     (\<forall>u v r w. \<exists>e. pv_ReadTree p u v r w = Some (Inl e, w) \<and> err_kind e = KNotConfigured) \<and>
     (\<forall>u v r f. refuses (pv_ReadFile p u v r f)) \<and> (\<forall>u v n. refuses (pv_GetPR p u v n)) \<and>
     (\<forall>u v n. refuses (pv_GetPRFiles p u v n)) \<and> (\<forall>u v a b. refuses (pv_CreateBranch p u v a b)) \<and>
     (\<forall>u v a b c. refuses (pv_CreateCommit p u v a b c)) \<and> (\<forall>u v a b c d. refuses (pv_OpenPR p u v a b c d)) \<and>
     (\<forall>u v n b c. refuses (pv_PostPRReview p u v n b c))"

lemma refuses_fail: "err_kind e = KNotConfigured \<Longrightarrow> refuses (fail e)"
  by (simp add: refuses_def)

lemma kind_unsupported [simp]: "err_kind (unsupported host method) = KNotConfigured"
  by (simp add: unsupported_def not_configured_def)

lemma placeholder_refuses: "refuses_all (placeholder host)"
  by (simp add: refuses_all_def placeholder_def refuses_fail)

text \<open>The factory answers a provider with the name it was asked for (GitHub when none was), or an error
  that says the provider is not configured. What it answers for another host than GitHub refuses every
  operation with that same error and touches nothing, so a caller that falls back on it loses nothing.\<close>

theorem factory_hosts:
  "case NewProvider cfg client provider of
     Inl e \<Rightarrow> err_kind e = KNotConfigured
   | Inr p \<Rightarrow> pv_Name p = (if ToLower (TrimSpace provider) = [] then ''github'' else ToLower (TrimSpace provider)) \<and>
       pv_Name p \<in> {''github'', ''gitlab'', ''gitea'', ''bitbucket''} \<and>
       (pv_Name p = ''github'' \<or> refuses_all p)"
proof -
  have named: "pv_Name (placeholder host) = host" for host by (simp add: placeholder_def)
  show ?thesis
    by (simp add: NewProvider_def Let_def NewGitHubProvider_def NewGitLabProvider_def NewGiteaProvider_def
        NewBitbucketProvider_def not_configured_def gitlab_Provider_def gitea_Provider_def bitbucket_Provider_def
        named placeholder_refuses github_Provider_def split: sum.split)
qed

end
