(* ===== verification/GoAny.thy ===== *)
theory GoAny
  imports JsonText Float64 Prompts
begin

text \<open>
  JSON decoded into \<open>any\<close>: numbers become \<open>float64\<close>, objects maps. What the services do with such
  values: compare them (\<open>reflect.DeepEqual\<close>, equality here), print them with \<open>%v\<close>, and encode
  them again. Both texts of a number are its shortest decimal digits, the first with an
  exponent from a million on.
\<close>

section \<open>Values\<close>

datatype any = AnyNil | AnyBool bool | AnyFloat rat | AnyString string | AnyArray "any list" | AnyMap "(string \<times> any) list"

text \<open>The entries of a map are kept in the order of their keys, so that equal maps are equal here.\<close>

fun any_value :: "json \<Rightarrow> any res" and any_values :: "json list \<Rightarrow> any list res"
  and any_members :: "(string \<times> json) list \<Rightarrow> (string \<times> any) list res" where
  "any_value JNull = Inr AnyNil"
| "any_value (JBool b) = Inr (AnyBool b)"
| "any_value (JNum n) = bindE (dec_float64 (JNum n)) (\<lambda>x. Inr (AnyFloat x))"
| "any_value (JDec s) = bindE (dec_float64 (JDec s)) (\<lambda>x. Inr (AnyFloat x))"
| "any_value (JStr s) = Inr (AnyString s)"
| "any_value (JArr js) = bindE (any_values js) (\<lambda>vs. Inr (AnyArray vs))"
| "any_value (JObj ms) = bindE (any_members ms) (\<lambda>kvs. Inr (AnyMap (sort_key fst (of_members kvs))))"
| "any_values [] = Inr []"
| "any_values (j # js) = bindE (any_value j) (\<lambda>v. bindE (any_values js) (\<lambda>vs. Inr (v # vs)))"
| "any_members [] = Inr []"
| "any_members ((k, j) # ms) = bindE (any_value j) (\<lambda>v. bindE (any_members ms) (\<lambda>vs. Inr ((k, v) # vs)))"

text \<open>A \<open>map[string]any\<close> target; \<open>null\<close> is the nil map.\<close>

type_synonym anymap = "(string \<times> any) list option"

fun dec_map_any :: "json \<Rightarrow> anymap res" where
  "dec_map_any (JObj ms) = bindE (any_members ms) (\<lambda>kvs. Inr (Some (sort_key fst (of_members kvs))))"
| "dec_map_any JNull = Inr None"
| "dec_map_any _ = Inl dec_err"

text \<open>Reading an entry: a nil map has none, and an entry that is missing is nil.\<close>

definition entry :: "anymap \<Rightarrow> string \<Rightarrow> any" where
  "entry m k = (case m of None \<Rightarrow> AnyNil | Some kvs \<Rightarrow> (case map_of kvs k of None \<Rightarrow> AnyNil | Some v \<Rightarrow> v))"

fun any_string :: "any \<Rightarrow> string option" where
  "any_string (AnyString s) = Some s"
| "any_string _ = None"

fun any_map :: "any \<Rightarrow> anymap" where
  "any_map (AnyMap kvs) = Some kvs"
| "any_map _ = None"

section \<open>Shortest digits\<close>

text \<open>How many digits stand before the point; zero or less for a number below one tenth.\<close>

fun leading_zeros :: "nat \<Rightarrow> rat \<Rightarrow> int" where
  "leading_zeros 0 x = 0"
| "leading_zeros (Suc n) x = (if 1 \<le> 10 * x then 0 else 1 + leading_zeros n (10 * x))"

text \<open>The decimal digits of a number that is not negative.\<close>

function int_digits :: "int \<Rightarrow> string" where
  "int_digits n = (if n < 10 then [digit_char (nat n)] else int_digits (n div 10) @ [digit_char (nat (n mod 10))])"
  by auto
termination by (relation "measure nat") auto

declare int_digits.simps [simp del]

definition point :: "rat \<Rightarrow> int" where
  "point x = (if 1 \<le> x then int (length (int_digits \<lfloor>x\<rfloor>)) else - leading_zeros 400 x)"

text \<open>
  The fewest digits that read back as the number, and the nearest such digits: \<open>m\<close> and \<open>k\<close> stand
  for \<open>m * 10 ^ k\<close>. Seventeen digits are always enough.
\<close>

fun shortest :: "rat \<Rightarrow> int \<Rightarrow> nat list \<Rightarrow> int \<times> int" where
  "shortest x dp [] = (\<lfloor>x / ten_to (dp - 17)\<rfloor>, dp - 17)"
| "shortest x dp (nd # nds) =
     (let k = dp - int nd; y = x / ten_to k; lo = \<lfloor>y\<rfloor>;
          reads_back = (\<lambda>m. rounded (of_int m * ten_to k) = x)
      in if reads_back lo \<and> (y - of_int lo \<le> 1 / 2 \<or> \<not> reads_back (lo + 1)) then (lo, k)
         else if reads_back (lo + 1) then (lo + 1, k) else shortest x dp nds)"

text \<open>The digits without trailing zeros, and where the point stands.\<close>

definition float_digits :: "rat \<Rightarrow> string \<times> int" where
  "float_digits x = (case shortest x (point x) [1..<18] of (m, k) \<Rightarrow>
     let ds = int_digits m in (rev (dropWhile (\<lambda>c. c = CHR ''0'') (rev ds)), int (length ds) + k))"

definition exponent_form :: "string \<Rightarrow> int \<Rightarrow> nat \<Rightarrow> string" where
  "exponent_form ds e width = take 1 ds @ (if length ds \<le> 1 then [] else CHR ''.'' # drop 1 ds) @
     ''e'' @ (if e < 0 then ''-'' else ''+'') @
     (let t = show_nat (nat \<bar>e\<bar>) in replicate (width - length t) CHR ''0'' @ t)"

definition plain_form :: "string \<Rightarrow> int \<Rightarrow> string" where
  "plain_form ds dp =
     (if dp \<le> 0 then ''0.'' @ replicate (nat (- dp)) CHR ''0'' @ ds
      else if int (length ds) \<le> dp then ds @ replicate (nat dp - length ds) CHR ''0''
      else take (nat dp) ds @ ''.'' @ drop (nat dp) ds)"

definition signed :: "(rat \<Rightarrow> string) \<Rightarrow> rat \<Rightarrow> string" where
  "signed f x = (if x = 0 then ''0'' else if x < 0 then CHR ''-'' # f (- x) else f x)"

text \<open>\<open>%v\<close> of a \<open>float64\<close> (\<open>strconv\<close>'s \<open>'g'\<close> with the shortest precision), and the number \<open>encoding/json\<close> writes.\<close>

definition show_float :: "rat \<Rightarrow> string" where
  "show_float = signed (\<lambda>x. case float_digits x of (ds, dp) \<Rightarrow>
     if dp - 1 < -4 \<or> dp - 1 \<ge> 6 then exponent_form ds (dp - 1) 2 else plain_form ds dp)"

definition json_float :: "rat \<Rightarrow> string" where
  "json_float = signed (\<lambda>x. case float_digits x of (ds, dp) \<Rightarrow>
     if x < 1 / 10 ^ 6 \<or> x \<ge> 10 ^ 21 then exponent_form ds (dp - 1) 1 else plain_form ds dp)"

section \<open>Texts\<close>

fun show_any :: "any \<Rightarrow> string" where
  "show_any AnyNil = ''<nil>''"
| "show_any (AnyBool b) = show_bool b"
| "show_any (AnyFloat x) = show_float x"
| "show_any (AnyString s) = s"
| "show_any (AnyArray vs) = ''['' @ Join (map show_any vs) '' '' @ '']''"
| "show_any (AnyMap kvs) = ''map['' @ Join (map (\<lambda>(k, v). k @ '':'' @ show_any v) kvs) '' '' @ '']''"

fun any_text :: "any \<Rightarrow> string" where
  "any_text AnyNil = ''null''"
| "any_text (AnyBool b) = show_bool b"
| "any_text (AnyFloat x) = json_float x"
| "any_text (AnyString s) = string_text s"
| "any_text (AnyArray vs) = ''['' @ Join (map any_text vs) '','' @ '']''"
| "any_text (AnyMap kvs) = ''{'' @ Join (map (\<lambda>(k, v). string_text k @ '':'' @ any_text v) kvs) '','' @ ''}''"

definition anymap_text :: "anymap \<Rightarrow> string" where
  "anymap_text m = (case m of None \<Rightarrow> ''null'' | Some kvs \<Rightarrow> any_text (AnyMap kvs))"

section \<open>Numbers of a million and more\<close>

lemma int_digits_upper: "0 \<le> n \<Longrightarrow> n < 10 ^ length (int_digits n)"
proof (induction n rule: int_digits.induct)
  case (1 n)
  show ?case
  proof (cases "n < 10")
    case False
    then have "n div 10 < 10 ^ length (int_digits (n div 10))" using 1 by simp
    with False show ?thesis by (subst int_digits.simps) simp
  qed (simp add: int_digits.simps)
qed

lemma int_digits_lower: "0 < n \<Longrightarrow> 10 ^ (length (int_digits n) - 1) \<le> n"
proof (induction n rule: int_digits.induct)
  case (1 n)
  show ?case
  proof (cases "n < 10")
    case False
    moreover have ne: "int_digits (n div 10) \<noteq> []" by (subst int_digits.simps) simp
    moreover have "10 ^ (length (int_digits (n div 10)) - 1) \<le> n div 10" using 1 False by simp
    moreover obtain l where "length (int_digits (n div 10)) = Suc l" using ne by (cases "int_digits (n div 10)") auto
    ultimately have "10 ^ l \<le> n div 10" "length (int_digits n) = Suc (Suc l)"
      using False by (simp, subst int_digits.simps, simp)
    moreover have "10 * (n div 10) \<le> n" by simp
    ultimately show ?thesis by simp
  qed (use 1 in \<open>simp add: int_digits.simps\<close>)
qed

lemma ten_to_powi: "ten_to k = 10 powi k"
  by (simp add: ten_to_def power_int_def power_one_over)

lemma shortest_run:
  assumes "shortest x dp nds = (m, k)" and "\<And>nd. nd \<in> set nds \<Longrightarrow> 1 \<le> nd"
  shows "\<exists>nd\<ge>1. k = dp - int nd \<and> \<lfloor>x / ten_to k\<rfloor> \<le> m"
  using assms
proof (induction nds)
  case Nil
  then show ?case by (intro exI [of _ 17]) auto
next
  case (Cons nd nds)
  show ?case
  proof (cases "shortest x dp nds = (m, k)")
    case False
    with Cons.prems show ?thesis by (intro exI [of _ nd]) (auto simp: Let_def split: if_splits)
  qed (use Cons in auto)
qed

lemma digits_reach_point:
  assumes "float_digits x = (ds, dp)" and x: "10 ^ l \<le> x"
  shows "int l < dp"
proof -
  obtain m k where mk: "shortest x (point x) [1..<18] = (m, k)" by (cases "shortest x (point x) [1..<18]")
  from shortest_run [OF this] obtain nd where nd: "1 \<le> nd" "k = point x - int nd" "\<lfloor>x / ten_to k\<rfloor> \<le> m" by auto
  have one: "1 \<le> x" using x by (meson one_le_power order_trans one_le_numeral)
  let ?d = "length (int_digits \<lfloor>x\<rfloor>)"
  have fl: "0 < \<lfloor>x\<rfloor>" "10 ^ l \<le> \<lfloor>x\<rfloor>" using one x by (auto simp: le_floor_iff)
  have pt: "point x = int ?d" using one by (simp add: point_def)
  have "10 ^ l < (10 :: int) ^ ?d" using fl int_digits_upper [of "\<lfloor>x\<rfloor>"] by linarith
  then have l: "l < ?d" by (simp add: power_strict_increasing_iff)
  have "(10 :: int) ^ (?d - 1) \<le> \<lfloor>x\<rfloor>" using int_digits_lower [OF fl(1)] .
  then have "10 ^ (?d - 1) \<le> x" by (simp add: le_floor_iff)
  moreover have "ten_to k * 10 ^ (nd - 1) = 10 ^ (?d - 1)"
  proof -
    have "ten_to k * 10 ^ (nd - 1) = (10 :: rat) powi (k + int (nd - 1))" by (simp add: ten_to_powi power_int_add)
    also have "k + int (nd - 1) = int (?d - 1)" using nd pt l by simp
    finally show ?thesis by simp
  qed
  moreover have "0 < ten_to k" by (simp add: ten_to_powi)
  ultimately have "10 ^ (nd - 1) \<le> x / ten_to k" by (simp add: pos_le_divide_eq mult.commute)
  then have "(10 :: int) ^ (nd - 1) \<le> \<lfloor>x / ten_to k\<rfloor>" by (simp add: le_floor_iff)
  then have m: "(10 :: int) ^ (nd - 1) \<le> m" using nd(3) by linarith
  then have "0 \<le> m" using zero_le_power [of "10 :: int" "nd - 1"] by linarith
  with int_digits_upper [of m] m have "(10 :: int) ^ (nd - 1) < 10 ^ length (int_digits m)" by linarith
  then have "nd - 1 < length (int_digits m)" by (simp add: power_strict_increasing_iff)
  with assms(1) mk nd pt l show ?thesis by (auto simp: float_digits_def Let_def)
qed

text \<open>Such a number is printed with an exponent, so never as its digits.\<close>

lemma show_float_exponent: "10 ^ 6 \<le> x \<Longrightarrow> CHR ''e'' \<in> set (show_float x)"
proof -
  assume x: "10 ^ 6 \<le> x"
  obtain ds dp where f: "float_digits x = (ds, dp)" by (cases "float_digits x")
  from digits_reach_point [OF f x] have "dp - 1 \<ge> 6" by simp
  with f x show ?thesis by (simp add: show_float_def signed_def exponent_form_def)
qed

lemma FormatInt_no_letter: "CHR ''e'' \<notin> set (FormatInt n)"
proof
  assume "CHR ''e'' \<in> set (FormatInt n)"
  then obtain m where "CHR ''e'' \<in> set (show_nat m)" by (auto simp: FormatInt_def split: if_splits)
  then obtain d where "d < 10" "CHR ''e'' = digit_char d" using show_nat_digits by blast
  with digit_val_digit_char [of d] have "digit_val CHR ''e'' = Some d" by simp
  then show False by (simp add: digit_val_def)
qed

lemma dec_float64_int: "0 \<le> n \<Longrightarrow> n < 2 ^ 53 \<Longrightarrow> dec_float64 (JNum n) = Inr (of_int n)"
proof -
  assume n: "0 \<le> n" "n < 2 ^ 53"
  have r: "rounded (of_int n) = of_int n"
  proof (cases "n = 0")
    case False
    have "(of_int n :: rat) < 2 ^ 53" using n by (metis of_int_less_iff of_int_numeral of_int_power)
    then have last: "last_place (of_int n) \<le> 0" using n False by (intro last_place_small) auto
    obtain m where m: "of_int n / two_to (last_place (of_int n)) = of_int m" using unit_scale [OF last, of n] by blast
    then have "of_int m * two_to (last_place (of_int n)) = (of_int n :: rat)"
      using two_to_pos [of "last_place (of_int n)"] by (simp add: field_simps)
    with m False show ?thesis by (simp add: rounded_def half_even_def)
  qed (simp add: rounded_def)
  have "(of_int n :: rat) \<le> of_int (2 ^ 53 - 1)" using n by (intro of_int_le_iff [THEN iffD2]) simp
  also have "\<dots> \<le> (2 ^ 53 - 1) * two_to 971" by (simp add: two_to_def)
  finally have "of_int n \<le> max_float" by (simp add: max_float_def)
  with n r show ?thesis by (simp add: finite_float_def)
qed

lemma map_of_sort: "map_of (sort_key fst kvs) = map_of kvs"
proof
  fix k
  have first: "map_of xs k = map_option snd (case filter (\<lambda>p. fst p = k) xs of [] \<Rightarrow> None | p # _ \<Rightarrow> Some p)" for xs :: "('a \<times> 'b) list"
    by (induction xs) auto
  show "map_of (sort_key fst kvs) k = map_of kvs k"
    by (simp add: first sort_key_stable)
qed

end
