(* ===== verification/IssueSummary.thy ===== *)
theory IssueSummary
  imports GoAny Utf8
begin

text \<open>
  Issue and trace summaries (\<open>internal/issueSummary/service.go\<close>): the model's answer, every
  missing part of it replaced by a fixed sentence. A request is read as a map; of a map only
  strings and \<open>nil\<close> are told apart, and the group id is printed as \<open>%v\<close>.
\<close>

section \<open>Data\<close>

datatype score = FloatScore rat | IntScore int | BoolScore bool

record SummarizeIssueResponse =
  is_GroupID :: string
  is_Headline :: string
  is_WhatsWrong :: "string option"
  is_Trace :: "string option"
  is_PossibleCause :: "string option"
  is_Scores :: "(string \<times> score) list"

record SummarizeTraceResponse =
  ts_TraceID :: string
  ts_Summary :: string
  ts_KeyObservations :: string
  ts_PerformanceCharacteristics :: string
  ts_SuggestedInvestigations :: "anymap list"

record SummarizeTraceRequest =
  tq_TraceID :: string
  tq_OnlyTransaction :: bool
  tq_Trace :: anymap

record issue_answer =
  ia_Headline :: string
  ia_WhatsWrong :: string
  ia_Trace :: string
  ia_PossibleCause :: string

record fixability_answer =
  fa_FixabilityScore :: rat
  fa_IsFixable :: "bool option"
  fa_Issue :: issue_answer

record trace_answer =
  ta_Summary :: string
  ta_KeyObservations :: string
  ta_PerformanceCharacteristics :: string
  ta_SuggestedInvestigations :: "anymap list"

definition dec_SummarizeTraceRequest :: "json \<Rightarrow> SummarizeTraceRequest res" where
  "dec_SummarizeTraceRequest = dec_struct (\<lambda>ms.
     bindE (field ''trace_id'' dec_string [] ms) (\<lambda>i.
     bindE (field ''only_transaction'' dec_bool False ms) (\<lambda>b.
     bindE (field ''trace'' dec_map_any None ms) (\<lambda>t.
       Inr \<lparr>tq_TraceID = i, tq_OnlyTransaction = b, tq_Trace = t\<rparr>))))"

definition dec_issue_members :: "members \<Rightarrow> issue_answer res" where
  "dec_issue_members ms =
     bindE (field ''headline'' dec_string [] ms) (\<lambda>h.
     bindE (field ''whats_wrong'' dec_string [] ms) (\<lambda>w.
     bindE (field ''trace'' dec_string [] ms) (\<lambda>t.
     bindE (field ''possible_cause'' dec_string [] ms) (\<lambda>p.
       Inr \<lparr>ia_Headline = h, ia_WhatsWrong = w, ia_Trace = t, ia_PossibleCause = p\<rparr>))))"

definition dec_issue_answer :: "json \<Rightarrow> issue_answer res" where
  "dec_issue_answer = dec_struct dec_issue_members"

definition dec_fixability_answer :: "json \<Rightarrow> fixability_answer res" where
  "dec_fixability_answer = dec_struct (\<lambda>ms.
     bindE (field ''fixability_score'' dec_float64 0 ms) (\<lambda>s.
     bindE (field ''is_fixable'' (dec_ptr dec_bool) None ms) (\<lambda>b.
     bindE (dec_issue_members ms) (\<lambda>i.
       Inr \<lparr>fa_FixabilityScore = s, fa_IsFixable = b, fa_Issue = i\<rparr>))))"

definition dec_trace_answer :: "json \<Rightarrow> trace_answer res" where
  "dec_trace_answer = dec_struct (\<lambda>ms.
     bindE (field ''summary'' dec_string [] ms) (\<lambda>s.
     bindE (field ''key_observations'' dec_string [] ms) (\<lambda>k.
     bindE (field ''performance_characteristics'' dec_string [] ms) (\<lambda>p.
     bindE (field ''suggested_investigations'' (dec_array dec_map_any None) [] ms) (\<lambda>i.
       Inr \<lparr>ta_Summary = s, ta_KeyObservations = k, ta_PerformanceCharacteristics = p, ta_SuggestedInvestigations = i\<rparr>)))))"

section \<open>Strings\<close>

fun is_firstNonEmpty :: "string list \<Rightarrow> string" where
  "is_firstNonEmpty [] = []"
| "is_firstNonEmpty (v # vs) = (if TrimSpace v \<noteq> [] then TrimSpace v else is_firstNonEmpty vs)"

definition stringField :: "anymap \<Rightarrow> string \<Rightarrow> string" where
  "stringField m key = (case any_string (entry m key) of None \<Rightarrow> [] | Some value \<Rightarrow> TrimSpace value)"

definition firstSentence :: "string \<Rightarrow> string \<Rightarrow> string" where
  "firstSentence text fallback = (let trimmed = TrimSpace text in
     if trimmed = [] then fallback
     else let idx = length (takeWhile (\<lambda>c. c \<noteq> CHR ''.'') trimmed)
          in if 0 < idx \<and> idx < length trimmed then TrimSpace (take (idx + 1) trimmed) else trimmed)"

definition hundredth :: "nat \<Rightarrow> rat" where
  "hundredth n = rounded (of_nat n / 100)"

section \<open>Issues\<close>

definition said :: "string \<Rightarrow> string" where
  "said name = [quote] @ name @ [quote]"

definition issueSummarySystemPrompt :: string where
  "issueSummarySystemPrompt = ''You summarize Sentry issues in concise engineering language. Reply with exactly one JSON object: {'' @
     said ''headline'' @ '': '' @ said ''<one-line headline>'' @ '', '' @ said ''whats_wrong'' @ '': '' @ said ''<what is going wrong>'' @
     '', '' @ said ''trace'' @ '': '' @ said ''<trace analysis>'' @ '', '' @ said ''possible_cause'' @ '': '' @ said ''<likely root cause>'' @
     ''}. No other text.''"

definition fixabilitySystemPrompt :: string where
  "fixabilitySystemPrompt = ''You assess how fixable a Sentry issue is. Reply with exactly one JSON object: {'' @
     said ''fixability_score'' @ '': <0.0-1.0>, '' @ said ''is_fixable'' @ '': <true or false>, '' @
     said ''headline'' @ '': '' @ said ''<one-line headline>'' @ '', '' @ said ''whats_wrong'' @ '': '' @ said ''<what is going wrong>'' @
     '', '' @ said ''trace'' @ '': '' @ said ''<trace analysis>'' @ '', '' @ said ''possible_cause'' @ '': '' @ said ''<likely root cause>'' @
     ''}. No other text.''"

definition no_trace :: string where
  "no_trace = ''Trace context was not provided.''"

definition has_trace :: string where
  "has_trace = ''Trace context is available and should be reviewed alongside the issue.''"

definition failing_path :: string where
  "failing_path = ''Inspect the top in-app frames and recent deploys affecting the failing code path.''"

definition causes_failures :: "string \<Rightarrow> string" where
  "causes_failures title = title @ '' is causing user-visible failures.''"

definition issue_scores :: "(string \<times> score) list" where
  "issue_scores = [(''possible_cause_confidence'', FloatScore (hundredth 42)), (''possible_cause_novelty'', FloatScore (hundredth 31)),
     (''fixability_score'', FloatScore (hundredth 58)), (''fixability_score_version'', IntScore 1), (''is_fixable'', BoolScore True)]"

definition issue_title :: "anymap \<Rightarrow> string" where
  "issue_title request = (let issue = any_map (entry request ''issue'') in
     is_firstNonEmpty [stringField issue ''title'', stringField issue ''culprit'', ''Issue summary''])"

definition printed_group :: "anymap \<Rightarrow> string" where
  "printed_group request = show_any (entry request ''group_id'')"

definition issue_prompt :: "anymap \<Rightarrow> string" where
  "issue_prompt request = ''Summarize this issue for an engineer.'' @ newline @ ''Title: '' @ issue_title request @ newline @
     ''Group ID: '' @ printed_group request"

definition issue_response :: "anymap \<Rightarrow> issue_answer option \<Rightarrow> SummarizeIssueResponse" where
  "issue_response request answer = (let title = issue_title request; traced = (entry request ''trace_tree'' \<noteq> AnyNil) in
     case answer of
       Some parsed \<Rightarrow>
         let trace = is_firstNonEmpty [ia_Trace parsed, no_trace] in
         \<lparr>is_GroupID = printed_group request, is_Headline = is_firstNonEmpty [ia_Headline parsed, title],
          is_WhatsWrong = Some (is_firstNonEmpty [ia_WhatsWrong parsed, causes_failures title]),
          is_Trace = Some (if traced \<and> trace = no_trace then has_trace else trace),
          is_PossibleCause = Some (is_firstNonEmpty [ia_PossibleCause parsed, failing_path]), is_Scores = issue_scores\<rparr>
     | None \<Rightarrow>
         \<lparr>is_GroupID = printed_group request, is_Headline = title, is_WhatsWrong = Some (causes_failures title),
          is_Trace = Some (if traced then has_trace else no_trace), is_PossibleCause = Some failing_path, is_Scores = issue_scores\<rparr>)"

definition SummarizeIssue :: "(string \<Rightarrow> blob) \<Rightarrow> ctx \<Rightarrow> blob \<Rightarrow> (SummarizeIssueResponse, 't world) op" where
  "SummarizeIssue parse c raw =
     andThen (decoding ''decode issue summary request'' dec_map_any raw) (\<lambda>request.
     andThen (ask c issueSummarySystemPrompt (issue_prompt request) ''0.1'' 256) (\<lambda>text.
     ret (issue_response request (extracted parse dec_issue_answer text))))"

definition fixability_prompt :: "anymap \<Rightarrow> string" where
  "fixability_prompt request = ''Assess the fixability of this issue.'' @ newline @ ''Group ID: '' @ printed_group request"

definition fixability_response :: "anymap \<Rightarrow> fixability_answer option \<Rightarrow> SummarizeIssueResponse" where
  "fixability_response request answer = (case answer of
       Some parsed \<Rightarrow>
         let score = fa_FixabilityScore parsed; shown = (if score < 0 \<or> score > 1 then hundredth 61 else score); i = fa_Issue parsed in
         \<lparr>is_GroupID = printed_group request, is_Headline = is_firstNonEmpty [ia_Headline i, ''Fixability assessment''],
          is_WhatsWrong = Some (is_firstNonEmpty [ia_WhatsWrong i, ''LLM returned a fixability assessment.'']),
          is_Trace = Some (is_firstNonEmpty [ia_Trace i, ''Trace analysis context.'']),
          is_PossibleCause = Some (is_firstNonEmpty [ia_PossibleCause i, ''This issue appears actionable based on the available context.'']),
          is_Scores = [(''fixability_score'', FloatScore shown), (''fixability_score_version'', IntScore 1),
            (''is_fixable'', BoolScore (case fa_IsFixable parsed of None \<Rightarrow> True | Some b \<Rightarrow> b))]\<rparr>
     | None \<Rightarrow>
         \<lparr>is_GroupID = printed_group request, is_Headline = ''Fixability assessment'',
          is_WhatsWrong = Some ''Compatibility mode returned a heuristic fixability score.'',
          is_Trace = Some ''Detailed trace analysis is not available in heuristic mode.'',
          is_PossibleCause = Some ''This issue appears actionable if you can reproduce it locally or from stacktrace context.'',
          is_Scores = [(''fixability_score'', FloatScore (hundredth 61)), (''fixability_score_version'', IntScore 1), (''is_fixable'', BoolScore True)]\<rparr>)"

definition Fixability :: "(string \<Rightarrow> blob) \<Rightarrow> ctx \<Rightarrow> blob \<Rightarrow> (SummarizeIssueResponse, 't world) op" where
  "Fixability parse c raw =
     andThen (decoding ''decode fixability request'' dec_map_any raw) (\<lambda>request.
     andThen (try_ask parse dec_fixability_answer c fixabilitySystemPrompt (fixability_prompt request) ''0.1'' 256) (\<lambda>answer.
     ret (fixability_response request answer)))"

section \<open>Traces\<close>

definition traceSummarySystemPrompt :: string where
  "traceSummarySystemPrompt = ''You analyze distributed traces. Reply with exactly one JSON object: {'' @
     said ''summary'' @ '': '' @ said ''<overall summary>'' @ '', '' @ said ''key_observations'' @ '': '' @ said ''<key findings>'' @ '', '' @
     said ''performance_characteristics'' @ '': '' @ said ''<performance analysis>'' @ '', '' @
     said ''suggested_investigations'' @ '': [{'' @ said ''explanation'' @ '': '' @ said ''<what to investigate>'' @ '', '' @
     said ''span_id'' @ '': '' @ said ''<span id>'' @ '', '' @ said ''span_op'' @ '': '' @ said ''<span operation>'' @ ''}]}. No other text.''"

definition defaultInvestigations :: "anymap list" where
  "defaultInvestigations = [Some [(''explanation'', AnyString ''Inspect the slowest transaction span and its child spans.''),
     (''span_id'', AnyString ''compat-span-1''), (''span_op'', AnyString ''http.server'')]]"

definition slow_path :: string where
  "slow_path = ''Trace contains a slow or failing execution path that should be inspected span-by-span.''"

definition longest_spans :: string where
  "longest_spans = ''Review the longest-running spans, error spans, and service boundaries.''"

definition critical_path :: string where
  "critical_path = ''Look for concentrated latency in the critical path and repeated downstream calls.''"

definition fallbackTraceSummary :: "string \<Rightarrow> SummarizeTraceResponse" where
  "fallbackTraceSummary traceID = \<lparr>ts_TraceID = traceID, ts_Summary = slow_path, ts_KeyObservations = longest_spans,
     ts_PerformanceCharacteristics = critical_path, ts_SuggestedInvestigations = defaultInvestigations\<rparr>"

definition trace_response :: "string \<Rightarrow> trace_answer option \<Rightarrow> SummarizeTraceResponse" where
  "trace_response traceID answer = (case answer of
       Some parsed \<Rightarrow> \<lparr>ts_TraceID = traceID, ts_Summary = is_firstNonEmpty [ta_Summary parsed, slow_path],
         ts_KeyObservations = is_firstNonEmpty [ta_KeyObservations parsed, longest_spans],
         ts_PerformanceCharacteristics = is_firstNonEmpty [ta_PerformanceCharacteristics parsed, critical_path],
         ts_SuggestedInvestigations = (if ta_SuggestedInvestigations parsed = [] then defaultInvestigations
           else ta_SuggestedInvestigations parsed)\<rparr>
     | None \<Rightarrow> fallbackTraceSummary traceID)"

definition summarizeTrace :: "(string \<Rightarrow> blob) \<Rightarrow> ctx \<Rightarrow> SummarizeTraceRequest \<Rightarrow> (SummarizeTraceResponse, 't world) op" where
  "summarizeTrace parse c req =
     andThen (try_ask parse dec_trace_answer c traceSummarySystemPrompt
       (''Summarize this trace for an engineer.'' @ newline @ ''Trace ID: '' @ tq_TraceID req @ newline @
        ''Only transaction: '' @ show_bool (tq_OnlyTransaction req) @ newline @ ''Trace: '' @ anymap_text (tq_Trace req)) ''0.1'' 512)
     (\<lambda>answer. ret (trace_response (tq_TraceID req) answer))"

definition summarizeTraceGeneric :: "(string \<Rightarrow> blob) \<Rightarrow> ctx \<Rightarrow> string \<Rightarrow> (SummarizeTraceResponse, 't world) op" where
  "summarizeTraceGeneric parse c traceID =
     andThen (try_ask parse dec_trace_answer c traceSummarySystemPrompt
       (''Summarize this trace for an engineer.'' @ newline @ ''Trace ID: '' @ traceID) ''0.1'' 512)
     (\<lambda>answer. ret (trace_response traceID answer))"

text \<open>A request that does not fit the struct is read again as a map; if it is no map either, the first error is reported.\<close>

definition SummarizeTrace :: "(string \<Rightarrow> blob) \<Rightarrow> ctx \<Rightarrow> blob \<Rightarrow> (SummarizeTraceResponse, 't world) op" where
  "SummarizeTrace parse c raw = (case unmarshal dec_SummarizeTraceRequest raw of
       Inr req \<Rightarrow> summarizeTrace parse c req
     | Inl e \<Rightarrow> (case unmarshal dec_map_any raw of
           Inl e2 \<Rightarrow> fail (wrap ''decode trace summary request'' e)
         | Inr generic \<Rightarrow> summarizeTraceGeneric parse c (show_any (entry generic ''trace_id''))))"

section \<open>Required strings\<close>

lemma firstNonEmpty_last: "TrimSpace v \<noteq> [] \<Longrightarrow> is_firstNonEmpty [u, v] \<noteq> []" "TrimSpace v \<noteq> [] \<Longrightarrow> is_firstNonEmpty [t, u, v] \<noteq> []"
  by simp_all

lemma fixed_filled:
  "TrimSpace no_trace \<noteq> []" "TrimSpace has_trace \<noteq> []" "TrimSpace failing_path \<noteq> []" "TrimSpace slow_path \<noteq> []"
  "TrimSpace longest_spans \<noteq> []" "TrimSpace critical_path \<noteq> []" "TrimSpace ''Issue summary'' \<noteq> []"
  "TrimSpace ''Fixability assessment'' \<noteq> []" "TrimSpace ''LLM returned a fixability assessment.'' \<noteq> []"
  "TrimSpace ''Trace analysis context.'' \<noteq> []"
  "TrimSpace ''This issue appears actionable based on the available context.'' \<noteq> []"
  by code_simp+

lemma fixed_nonempty: "no_trace \<noteq> []" "has_trace \<noteq> []" "failing_path \<noteq> []" "slow_path \<noteq> []" "longest_spans \<noteq> []" "critical_path \<noteq> []"
  "causes_failures t \<noteq> []"
  by (simp_all add: no_trace_def has_trace_def failing_path_def slow_path_def longest_spans_def critical_path_def causes_failures_def)

lemma issue_title_nonempty: "issue_title request \<noteq> []"
  unfolding issue_title_def Let_def by (rule firstNonEmpty_last(2)) (rule fixed_filled)

text \<open>The sentence built from a title ends in a full stop, so it is not blank whatever the title.\<close>

definition printing :: "char \<Rightarrow> bool" where
  "printing c \<longleftrightarrow> \<not> is_ascii_space c \<and> (of_char c :: nat) < 128"

lemma space_ends:
  assumes "0 < space_width s" shows "\<not> printing (last (take (space_width s) s))"
proof -
  obtain a s' where s: "s = a # s'" using assms by (cases s) auto
  show ?thesis
  proof (cases "is_ascii_space a")
    case False
    with assms s obtain b t where b: "s' = b # t" by (cases s') auto
    show ?thesis
    proof (cases "is_space2 a b")
      case True
      with False s b show ?thesis by (auto simp: printing_def is_space2_def)
    next
      case two: False
      with False assms s b obtain c u where c: "t = c # u" by (cases t) auto
      with two False assms s b have "is_space3 a b c" by (simp split: if_splits)
      then have "128 \<le> (of_char c :: nat)" by (auto simp: is_space3_def Let_def)
      with two False s b c \<open>is_space3 a b c\<close> show ?thesis by (simp add: printing_def)
    qed
  qed (simp add: s printing_def)
qed

lemma drop_space_printing:
  "w = space_width \<Longrightarrow> s \<noteq> [] \<Longrightarrow> printing (last s) \<Longrightarrow> drop_space w s \<noteq> [] \<and> last (drop_space w s) = last s"
proof (induction w s rule: drop_space.induct)
  case (1 w s)
  show ?case
  proof (cases "0 < w s \<and> w s \<le> length s")
    case True
    have "drop (w s) s \<noteq> []"
    proof
      assume "drop (w s) s = []"
      then have "take (w s) s = s" by simp
      with space_ends [of s] True 1 show False by simp
    qed
    moreover from this have "last (drop (w s) s) = last s" by simp
    ultimately show ?thesis using True 1 by (subst (1 2) drop_space.simps) simp
  next
    case False
    with 1 show ?thesis by (subst (1 2) drop_space.simps) auto
  qed
qed

lemma no_space_at_end:
  assumes "printing a" shows "space_width_rev (a # s) = 0"
proof -
  have "\<not> is_space2 b a" "\<not> is_space3 c b a" for b c
    using assms by (auto simp: printing_def is_space2_def is_space3_def Let_def)
  with assms show ?thesis by (auto simp: printing_def split: list.split)
qed

lemma TrimSpace_printing: "s \<noteq> [] \<Longrightarrow> printing (last s) \<Longrightarrow> TrimSpace s \<noteq> []"
proof -
  assume s: "s \<noteq> []" "printing (last s)"
  let ?t = "drop_space space_width s"
  have t: "?t \<noteq> []" "last ?t = last s" using drop_space_printing [OF refl s] by simp_all
  then have "rev ?t = last s # rev (butlast ?t)" by (metis append_butlast_last_id rev.simps(2) rev_rev_ident rev_append)
  then have "space_width_rev (rev ?t) = 0" using no_space_at_end [OF s(2)] by metis
  then have "drop_space space_width_rev (rev ?t) = rev ?t" by (rule drop_space_fix)
  with t show ?thesis by (simp add: TrimSpace_def)
qed

lemma failures_filled: "TrimSpace (causes_failures t) \<noteq> []"
  by (rule TrimSpace_printing) (simp_all add: causes_failures_def printing_def is_ascii_space_def)

definition issue_complete :: "SummarizeIssueResponse \<Rightarrow> bool" where
  "issue_complete a \<longleftrightarrow> is_Headline a \<noteq> [] \<and> is_WhatsWrong a \<notin> {None, Some []} \<and> is_Trace a \<notin> {None, Some []} \<and>
     is_PossibleCause a \<notin> {None, Some []}"

definition trace_complete :: "SummarizeTraceResponse \<Rightarrow> bool" where
  "trace_complete a \<longleftrightarrow> ts_Summary a \<noteq> [] \<and> ts_KeyObservations a \<noteq> [] \<and> ts_PerformanceCharacteristics a \<noteq> [] \<and>
     ts_SuggestedInvestigations a \<noteq> []"


lemma issue_title_filled: "TrimSpace (issue_title request) \<noteq> []"
  using fixed_filled(7) by (auto simp: issue_title_def Let_def TrimSpace_idem)

lemma issue_response_complete: "issue_complete (issue_response request answer)"
proof (cases answer)
  case None
  then show ?thesis
    using issue_title_nonempty [of request] by (simp add: issue_complete_def issue_response_def Let_def fixed_nonempty)
next
  case (Some parsed)
  then show ?thesis
    using issue_title_filled [of request]
    by (simp add: issue_complete_def issue_response_def Let_def fixed_nonempty fixed_filled failures_filled)
qed

lemma fixability_response_complete: "issue_complete (fixability_response request answer)"
  by (cases answer) (simp_all add: issue_complete_def fixability_response_def Let_def fixed_filled)

lemma trace_response_complete: "trace_complete (trace_response i answer)"
  by (cases answer) (simp_all add: trace_complete_def trace_response_def fallbackTraceSummary_def fixed_filled fixed_nonempty
    defaultInvestigations_def)

lemma hundredth_61: "0 \<le> hundredth 61" "hundredth 61 \<le> 1"
  using rounded_le_int [of "of_nat 61 / 100" 1] by (simp_all add: hundredth_def rounded_nonneg)

definition fixability_scores :: "rat \<Rightarrow> bool \<Rightarrow> (string \<times> score) list" where
  "fixability_scores s b = [(''fixability_score'', FloatScore s), (''fixability_score_version'', IntScore 1), (''is_fixable'', BoolScore b)]"

lemma fixability_response_scores:
  "\<exists>s b. is_Scores (fixability_response request answer) = fixability_scores s b \<and> 0 \<le> s \<and> s \<le> 1"
proof (cases answer)
  case None
  then show ?thesis by (auto simp: fixability_response_def fixability_scores_def hundredth_61)
next
  case (Some parsed)
  let ?f = "fa_FixabilityScore parsed"
  have "0 \<le> (if ?f < 0 \<or> ?f > 1 then hundredth 61 else ?f) \<and> (if ?f < 0 \<or> ?f > 1 then hundredth 61 else ?f) \<le> 1"
    using hundredth_61 by auto
  with Some show ?thesis by (auto simp: fixability_response_def fixability_scores_def Let_def)
qed

text \<open>C37: no required string of a summary is empty, whatever the request holds and the model answers. A
  readable fixability request is always answered, with a score between 0 and 1, also when the model
  cannot be reached; a readable issue request is answered exactly when the model is, and its failure is the
  caller's, although the deterministic summary would not need the model.\<close>

theorem summaries_are_never_blank:
  assumes req: "unmarshal dec_map_any raw = Inr request"
  shows "(\<exists>a w' s b. Fixability parse c raw w = (Inr a, w') \<and> issue_complete a \<and>
      is_Scores a = fixability_scores s b \<and> 0 \<le> s \<and> s \<le> 1 \<and> same_state w' w) \<and>
    (case ask c issueSummarySystemPrompt (issue_prompt request) ''0.1'' 256 w of
       (Inl e, w') \<Rightarrow> SummarizeIssue parse c raw w = (Inl e, w')
     | (Inr text, w') \<Rightarrow> \<exists>a. SummarizeIssue parse c raw w = (Inr a, w') \<and> issue_complete a \<and> is_GroupID a = printed_group request)"
proof
  obtain x w' where run: "try_ask parse dec_fixability_answer c fixabilitySystemPrompt (fixability_prompt request) ''0.1'' 256 w = (Inr x, w')"
    using try_ask_run [of parse dec_fixability_answer] by blast
  have "same_state w' w" using only_asks_try run by (metis only_asks_def snd_conv)
  moreover have "Fixability parse c raw w = (Inr (fixability_response request x), w')"
    using req run by (simp add: Fixability_def decoding_def andThen_def)
  ultimately show "\<exists>a w' s b. Fixability parse c raw w = (Inr a, w') \<and> issue_complete a \<and>
      is_Scores a = fixability_scores s b \<and> 0 \<le> s \<and> s \<le> 1 \<and> same_state w' w"
    using fixability_response_complete [of request x] fixability_response_scores [of request x] by blast
  have "is_GroupID (issue_response request a) = printed_group request" for a
    by (cases a) (simp_all add: issue_response_def Let_def)
  with req show "case ask c issueSummarySystemPrompt (issue_prompt request) ''0.1'' 256 w of
       (Inl e, w') \<Rightarrow> SummarizeIssue parse c raw w = (Inl e, w')
     | (Inr text, w') \<Rightarrow> \<exists>a. SummarizeIssue parse c raw w = (Inr a, w') \<and> issue_complete a \<and> is_GroupID a = printed_group request"
    by (auto simp: SummarizeIssue_def decoding_def andThen_def issue_response_complete split: prod.split sum.split)
qed

definition issue_body :: "int \<Rightarrow> blob" where
  "issue_body n = Doc (JObj [(''group_id'', JNum n), (''issue'', JObj [(''title'', JStr '' '')])])"

theorem summaries_are_never_blank_witness:
  "\<exists>a w'. SummarizeIssue (\<lambda>s. Garbage s) None (issue_body 7) (start_world no_fault (answering ''x'') :: unit world) = (Inr a, w') \<and>
     issue_complete a \<and> is_GroupID a = ''7''"
proof -
  let ?r = "Some [(''group_id'', AnyFloat 7), (''issue'', AnyMap [(''title'', AnyString '' '')])]"
  have "any_members [(''group_id'', JNum 7), (''issue'', JObj [(''title'', JStr '' '')])] =
      Inr [(''group_id'', AnyFloat 7), (''issue'', AnyMap [(''title'', AnyString '' '')])]"
    by (simp add: dec_float64_int del: dec_float64.simps) code_simp
  moreover have "sort_key fst (of_members [(''group_id'', AnyFloat 7), (''issue'', AnyMap [(''title'', AnyString '' '')])]) =
      [(''group_id'', AnyFloat 7), (''issue'', AnyMap [(''title'', AnyString '' '')])]" by code_simp
  ultimately have r: "unmarshal dec_map_any (issue_body 7) = Inr ?r" by (simp add: issue_body_def)
  have "ask None issueSummarySystemPrompt (issue_prompt ?r) ''0.1'' 256 (start_world no_fault (answering ''x'') :: unit world) =
      (Inr ''x'', snd (ask None issueSummarySystemPrompt (issue_prompt ?r) ''0.1'' 256 (start_world no_fault (answering ''x'') :: unit world)))"
    by (simp add: ask_def llm_complete_def start_world_def answering_def)
  moreover have "printed_group ?r = ''7''" by code_simp
  ultimately show ?thesis
    using summaries_are_never_blank [OF r, of "\<lambda>s. Garbage s" None "start_world no_fault (answering ''x'') :: unit world"]
    by (auto split: prod.splits)
qed

text \<open>A trace request is refused only when it is neither the struct nor any map; otherwise it is always answered in full.\<close>

theorem trace_always_summarized:
  "case (unmarshal dec_SummarizeTraceRequest raw, unmarshal dec_map_any raw) of
     (Inl e, Inl e2) \<Rightarrow> SummarizeTrace parse c raw w = (Inl (wrap ''decode trace summary request'' e), w)
   | (Inl e, Inr m) \<Rightarrow> \<exists>a w'. SummarizeTrace parse c raw w = (Inr a, w') \<and> trace_complete a \<and> ts_TraceID a = show_any (entry m ''trace_id'')
   | (Inr req, _) \<Rightarrow> \<exists>a w'. SummarizeTrace parse c raw w = (Inr a, w') \<and> trace_complete a \<and> ts_TraceID a = tq_TraceID req"
proof -
  have i: "ts_TraceID (trace_response i answer) = i" for i answer
    by (cases answer) (simp_all add: trace_response_def fallbackTraceSummary_def)
  have tried: "\<exists>x w'. try_ask parse dec_trace_answer c s p t m w = (Inr x, w')" for s p t m
    using try_ask_run [of parse dec_trace_answer] by blast
  have struct: "\<exists>a w'. summarizeTrace parse c req w = (Inr a, w') \<and> trace_complete a \<and> ts_TraceID a = tq_TraceID req" for req
    using tried [of traceSummarySystemPrompt "''Summarize this trace for an engineer.'' @ newline @ ''Trace ID: '' @ tq_TraceID req @ newline @
        ''Only transaction: '' @ show_bool (tq_OnlyTransaction req) @ newline @ ''Trace: '' @ anymap_text (tq_Trace req)" "''0.1''" 512]
    by (auto simp: summarizeTrace_def andThen_def i trace_response_complete simp del: append.simps)
  have generic: "\<exists>a w'. summarizeTraceGeneric parse c k w = (Inr a, w') \<and> trace_complete a \<and> ts_TraceID a = k" for k
    using tried [of traceSummarySystemPrompt "''Summarize this trace for an engineer.'' @ newline @ ''Trace ID: '' @ k" "''0.1''" 512]
    by (auto simp: summarizeTraceGeneric_def andThen_def i trace_response_complete simp del: append.simps)
  show ?thesis
    using struct generic by (simp add: SummarizeTrace_def split: sum.split)
qed

section \<open>Group ids\<close>

lemma sorted_members_entry:
  assumes "any_members ((k, j) # ms) = Inr kvs" and "any_value j = Inr v" and "k \<notin> fst ` set ms"
  shows "entry (Some (sort_key fst (of_members kvs))) k = v"
proof -
  from assms obtain vs where kvs: "kvs = (k, v) # vs" "any_members ms = Inr vs" by (auto simp: bindE_eq_Inr)
  have "any_members ms = Inr vs \<Longrightarrow> fst ` set vs = fst ` set ms" for vs
  proof (induction ms arbitrary: vs)
    case (Cons p ms)
    obtain k' j' where p: "p = (k', j')" by (cases p)
    with Cons.prems obtain v' vs' where "any_members ms = Inr vs'" "vs = (k', v') # vs'" by (auto simp: bindE_eq_Inr)
    with Cons.IH p show ?case by simp
  qed simp
  with kvs assms(3) have "map_of (rev vs) k = None" by (simp add: map_of_eq_None_iff)
  with kvs show ?thesis by (simp add: entry_def map_of_sort map_of_of_members map_add_def)
qed

text \<open>A group id of a million or more, which Sentry sends as a JSON integer, is answered in exponent
  form: decoded into \<open>any\<close> it is a \<open>float64\<close>, and \<open>%v\<close> prints \<open>1.234567e+06\<close>. The id a summary
  carries is then not the id of the group, in the answer and in the prompt.\<close>

theorem large_group_id_is_garbled:
  assumes body: "raw = Doc (JObj ((''group_id'', JNum n) # ms))" and once: "''group_id'' \<notin> fst ` set ms"
    and n: "10 ^ 6 \<le> n" "n < 2 ^ 53"
    and run: "SummarizeIssue parse c raw w = (Inr a, w') \<or> Fixability parse c raw w = (Inr a, w')"
  shows "CHR ''e'' \<in> set (is_GroupID a) \<and> is_GroupID a \<noteq> FormatInt n"
proof -
  have v: "any_value (JNum n) = Inr (AnyFloat (of_int n))" using n by (simp add: dec_float64_int del: dec_float64.simps)
  from run body obtain kvs where kvs: "any_members ((''group_id'', JNum n) # ms) = Inr kvs"
    by (cases "any_members ((''group_id'', JNum n) # ms)")
      (auto simp: SummarizeIssue_def Fixability_def decoding_def andThen_def simp del: any_members.simps)
  let ?m = "Some (sort_key fst (of_members kvs))"
  have m: "unmarshal dec_map_any raw = Inr ?m" using body kvs by simp
  have "is_GroupID (issue_response m x) = printed_group m" "is_GroupID (fixability_response m y) = printed_group m" for m x y
    by (cases x; simp add: issue_response_def Let_def) (cases y; simp add: fixability_response_def Let_def)
  with run m have "is_GroupID a = printed_group ?m"
    by (auto simp: SummarizeIssue_def Fixability_def decoding_def andThen_def split: prod.splits sum.splits)
  also have "\<dots> = show_float (of_int n)"
    using sorted_members_entry [OF kvs v once] by (simp add: printed_group_def)
  finally have "is_GroupID a = show_float (of_int n)" .
  moreover have "(10 :: rat) ^ 6 \<le> of_int n" using n(1) by (metis of_int_le_iff of_int_numeral of_int_power)
  ultimately show ?thesis using show_float_exponent FormatInt_no_letter [of n] by metis
qed

theorem large_group_id_is_garbled_witness:
  "\<exists>a w'. Fixability (\<lambda>s. Garbage s) None (issue_body 5123456789) (start_world no_fault (answering ''x'') :: unit world) = (Inr a, w') \<and>
     is_GroupID a \<noteq> ''5123456789''"
proof -
  let ?w = "start_world no_fault (answering ''x'') :: unit world" and ?n = "5123456789 :: int"
  have v: "any_value (JNum ?n) = Inr (AnyFloat (of_int ?n))" by (simp add: dec_float64_int del: dec_float64.simps)
  then obtain m where m: "unmarshal dec_map_any (issue_body ?n) = Inr m" by (auto simp: issue_body_def)
  obtain x w' where "try_ask (\<lambda>s. Garbage s) dec_fixability_answer None fixabilitySystemPrompt (fixability_prompt m) ''0.1'' 256 ?w = (Inr x, w')"
    using try_ask_run [of "\<lambda>s. Garbage s" dec_fixability_answer] by blast
  with m have run: "Fixability (\<lambda>s. Garbage s) None (issue_body ?n) ?w = (Inr (fixability_response m x), w')"
    by (simp add: Fixability_def decoding_def andThen_def)
  have "FormatInt ?n = ''5123456789''"
    by (simp add: FormatInt_def show_nat.simps digit_char_def) code_simp
  with large_group_id_is_garbled [of "issue_body ?n" ?n _ "\<lambda>s. Garbage s" None ?w "fixability_response m x" w'] run
  show ?thesis by (auto simp: issue_body_def)
qed

end
