(* ===== verification/Generation.thy ===== *)
theory Generation
  imports GoAny GitHosts
begin

text \<open>
  Text generation (\<open>internal/generation/service.go\<close>): a plain call of the model, one-shot tasks
  and unit tests for a pull request. The repository host is optional; its operations act on the
  same state as the service.
\<close>

section \<open>Data\<close>

record GenerateRequest =
  gq_Prompt :: string
  gq_SystemPrompt :: string
  gq_Temperature :: rat
  gq_MaxTokens :: int

record GenerateResponse =
  gr_Content :: string
  gr_Model :: string

record OneShotRequest =
  oq_OneshotID :: string
  oq_Payload :: anymap

record UnitTestRequest =
  uq_Repo :: anymap
  uq_PRID :: int

record UnitTestResponse =
  ut_Success :: bool
  ut_Tests :: string

text \<open>What is decoded and not used is decoded here too: it can make the request unreadable.\<close>

definition dec_GenerateRequest :: "json \<Rightarrow> GenerateRequest res" where
  "dec_GenerateRequest = dec_struct (\<lambda>ms.
     bindE (field ''provider'' dec_string [] ms) (\<lambda>provider.
     bindE (field ''model'' dec_string [] ms) (\<lambda>model.
     bindE (field ''referrer'' dec_string [] ms) (\<lambda>referrer.
     bindE (field ''prompt'' dec_string [] ms) (\<lambda>p.
     bindE (field ''system_prompt'' dec_string [] ms) (\<lambda>s.
     bindE (field ''temperature'' dec_float64 0 ms) (\<lambda>t.
     bindE (field ''max_tokens'' dec_int64 0 ms) (\<lambda>m.
     bindE (field ''response_schema'' any_value AnyNil ms) (\<lambda>schema.
     bindE (field ''timeout'' any_value AnyNil ms) (\<lambda>timeout.
     bindE (field ''reasoning'' any_value AnyNil ms) (\<lambda>reasoning.
     bindE (field ''conversation_id'' any_value AnyNil ms) (\<lambda>conversation.
       Inr \<lparr>gq_Prompt = p, gq_SystemPrompt = s, gq_Temperature = t, gq_MaxTokens = m\<rparr>))))))))))))"

definition dec_OneShotRequest :: "json \<Rightarrow> OneShotRequest res" where
  "dec_OneShotRequest = dec_struct (\<lambda>ms.
     bindE (field ''oneshot_id'' dec_string [] ms) (\<lambda>i.
     bindE (field ''payload'' dec_map_any None ms) (\<lambda>p.
       Inr \<lparr>oq_OneshotID = i, oq_Payload = p\<rparr>)))"

definition dec_UnitTestRequest :: "json \<Rightarrow> UnitTestRequest res" where
  "dec_UnitTestRequest = dec_struct (\<lambda>ms.
     bindE (field ''repo'' dec_map_any None ms) (\<lambda>r.
     bindE (field ''pr_id'' dec_int64 0 ms) (\<lambda>n.
       Inr \<lparr>uq_Repo = r, uq_PRID = n\<rparr>)))"

section \<open>Operations\<close>

text \<open>\<open>models\<close> are the configured models; the first is reported, whichever answers. A temperature is
  the text the client writes for it.\<close>

definition Generate :: "string list \<Rightarrow> ctx \<Rightarrow> blob \<Rightarrow> (GenerateResponse, 't world) op" where
  "Generate models c raw =
     andThen (decoding ''decode LLM generate request'' dec_GenerateRequest raw) (\<lambda>req.
     andThen (wrapping ''LLM generate call'' (ask c (gq_SystemPrompt req) (gq_Prompt req)
         (json_float (gq_Temperature req)) (gq_MaxTokens req))) (\<lambda>text.
     ret \<lparr>gr_Content = text, gr_Model = (case models of [] \<Rightarrow> [] | m # ms \<Rightarrow> m)\<rparr>))"

definition oneshot_prompt :: "OneShotRequest \<Rightarrow> string" where
  "oneshot_prompt req = ''One-shot task: '' @ oq_OneshotID req @ newline @ ''Payload: '' @ anymap_text (oq_Payload req)"

definition oneshotSystemPrompt :: string where
  "oneshotSystemPrompt = ''You are a one-shot task executor. Reply with the result as a JSON object.''"

definition result_key :: "string \<Rightarrow> string" where
  "result_key oneshot = (if oneshot = ''conversation_title'' then ''title'' else ''answer'')"

definition oneshot_result :: "OneShotRequest \<Rightarrow> string \<Rightarrow> anymap option \<Rightarrow> anymap" where
  "oneshot_result req text parsed = (case parsed of
       Some m \<Rightarrow> if m \<noteq> oq_Payload req then m else Some [(result_key (oq_OneshotID req), AnyString (TrimSpace text))]
     | None \<Rightarrow> Some [(result_key (oq_OneshotID req), AnyString (TrimSpace text))])"

definition OneShot :: "(string \<Rightarrow> blob) \<Rightarrow> ctx \<Rightarrow> blob \<Rightarrow> (anymap, 't world) op" where
  "OneShot parse c raw =
     andThen (decoding ''decode oneshot request'' dec_OneShotRequest raw) (\<lambda>req.
     andThen (wrapping ''oneshot LLM call'' (ask c oneshotSystemPrompt (oneshot_prompt req) ''0.2'' 512)) (\<lambda>text.
     ret (oneshot_result req text (extracted parse dec_map_any text))))"

definition no_tests :: UnitTestResponse where
  "no_tests = \<lparr>ut_Success = True, ut_Tests = []\<rparr>"

text \<open>Owner and name, when the request names the provider, the owner and the name.\<close>

definition named_repo :: "anymap \<Rightarrow> (string \<times> string) option" where
  "named_repo repo =
     (let text = (\<lambda>k. case any_string (entry repo k) of None \<Rightarrow> [] | Some s \<Rightarrow> s);
          provider = text ''provider''; owner = text ''owner''; name = text ''name''
      in if provider = [] \<or> owner = [] \<or> name = [] then None else Some (owner, name))"

definition unitTestSystemPrompt :: string where
  "unitTestSystemPrompt = ''You are a Go/Python/JavaScript unit test generator. Write thorough, well-structured tests.''"

definition diff_part :: "PRFile \<Rightarrow> string" where
  "diff_part f = ''File: '' @ pf_Path f @ '' (status: '' @ pf_Status f @ '')'' @ newline @ pf_Patch f"

definition unit_test_prompt :: "PullRequest \<Rightarrow> PRFile list \<Rightarrow> string" where
  "unit_test_prompt pr files =
     ''Generate comprehensive unit tests for the following pull request.'' @ newline @
     ''PR #'' @ FormatInt (pr_Number pr) @ '': '' @ pr_Title pr @ newline @
     ''Base: '' @ pr_Base pr @ '', Head: '' @ pr_Head pr @ newline @ newline @ ''Changed files:'' @ newline @
     Join (map diff_part files) (newline @ newline) @ newline @ newline @
     ''Write test functions that cover the changed code paths. Return only the test code.''"

text \<open>A read of the host whose absence is acknowledged: \<open>None\<close> for a resource that is not found.\<close>

definition if_found :: "string \<Rightarrow> ('a, 's) op \<Rightarrow> ('a option, 's) op" where
  "if_found what m = (\<lambda>s. case m s of
       (Inl e, t) \<Rightarrow> if IsNotFound e then (Inr None, t) else (Inl (wrap what e), t)
     | (Inr x, t) \<Rightarrow> (Inr (Some x), t))"

definition write_tests :: "ctx \<Rightarrow> PullRequest \<Rightarrow> PRFile list \<Rightarrow> (UnitTestResponse, 't world) op" where
  "write_tests c pr files =
     (if files = [] then ret no_tests
      else andThen (wrapping ''generate unit tests'' (ask c unitTestSystemPrompt (unit_test_prompt pr files) ''0.2'' 4096))
        (\<lambda>text. ret \<lparr>ut_Success = True, ut_Tests = text\<rparr>))"

definition tests_of_files :: "'t world Provider \<Rightarrow> ctx \<Rightarrow> string \<Rightarrow> string \<Rightarrow> int \<Rightarrow> PullRequest \<Rightarrow> (UnitTestResponse, 't world) op" where
  "tests_of_files host c owner name n pr =
     andThen (if_found (''fetch pull request files '' @ owner @ ''/'' @ name @ ''#'' @ FormatInt n) (pv_GetPRFiles host owner name n))
       (\<lambda>listed. case listed of None \<Rightarrow> ret no_tests | Some files \<Rightarrow> write_tests c pr files)"

definition tests_of_pr :: "'t world Provider \<Rightarrow> ctx \<Rightarrow> string \<Rightarrow> string \<Rightarrow> int \<Rightarrow> (UnitTestResponse, 't world) op" where
  "tests_of_pr host c owner name n =
     andThen (if_found (''fetch pull request '' @ owner @ ''/'' @ name @ ''#'' @ FormatInt n) (pv_GetPR host owner name n))
       (\<lambda>found. case found of None \<Rightarrow> ret no_tests | Some pr \<Rightarrow> tests_of_files host c owner name n pr)"

definition UnitTests :: "'t world Provider option \<Rightarrow> ctx \<Rightarrow> blob \<Rightarrow> (UnitTestResponse, 't world) op" where
  "UnitTests provider c raw =
     andThen (decoding ''decode unit test request'' dec_UnitTestRequest raw) (\<lambda>req.
     case provider of None \<Rightarrow> ret no_tests
     | Some host \<Rightarrow> (case named_repo (uq_Repo req) of None \<Rightarrow> ret no_tests
         | Some (owner, name) \<Rightarrow> tests_of_pr host c owner name (uq_PRID req)))"

section \<open>One-shot results\<close>

text \<open>C39: a one-shot task is answered with what the model said: the map its answer parses to, unless that is
  the payload it was shown, which is never handed back as the result of a parse; else its trimmed text under the key Sentry
  reads for the task. It fails only when the request is unreadable or the model does not answer.\<close>

theorem oneshot_is_not_the_payload:
  assumes req: "unmarshal dec_OneShotRequest raw = Inr req"
    and said: "ask c oneshotSystemPrompt (oneshot_prompt req) ''0.2'' 512 w = (Inr text, w1)"
  shows "\<exists>m. OneShot parse c raw w = (Inr m, w1) \<and>
    (extracted parse dec_map_any text = Some m \<and> m \<noteq> oq_Payload req \<or>
     extracted parse dec_map_any text \<in> {None, Some (oq_Payload req)} \<and>
     m = Some [(if oq_OneshotID req = ''conversation_title'' then ''title'' else ''answer'', AnyString (TrimSpace text))])"
proof -
  have "OneShot parse c raw w = (Inr (oneshot_result req text (extracted parse dec_map_any text)), w1)"
    using req said by (simp add: OneShot_def decoding_def andThen_def wrapping_def)
  then show ?thesis by (auto simp: oneshot_result_def result_key_def split: option.split)
qed

definition oneshot_body :: blob where
  "oneshot_body = Doc (JObj [(''oneshot_id'', JStr ''conversation_title''), (''payload'', JObj [(''q'', JStr ''why'')])])"

text \<open>A model that echoes the payload.\<close>

theorem oneshot_is_not_the_payload_witness:
  "\<exists>m w1. OneShot (\<lambda>s. Doc (JObj [(''q'', JStr ''why'')])) None oneshot_body (start_world no_fault (answering ''{echo}'') :: unit world) = (Inr m, w1) \<and>
     m = Some [(''title'', AnyString ''{echo}'')]"
proof -
  let ?w = "start_world no_fault (answering ''{echo}'') :: unit world" and ?p = "\<lambda>s. Doc (JObj [(''q'', JStr ''why'')])"
  let ?r = "\<lparr>oq_OneshotID = ''conversation_title'', oq_Payload = Some [(''q'', AnyString ''why'')]\<rparr>"
  have r: "unmarshal dec_OneShotRequest oneshot_body = Inr ?r" by code_simp
  have a: "ask None oneshotSystemPrompt (oneshot_prompt ?r) ''0.2'' 512 ?w =
      (Inr ''{echo}'', snd (ask None oneshotSystemPrompt (oneshot_prompt ?r) ''0.2'' 512 ?w))"
    by (simp add: ask_def llm_complete_def start_world_def answering_def)
  have "extracted ?p dec_map_any ''{echo}'' = Some (Some [(''q'', AnyString ''why'')])" by code_simp
  moreover have "TrimSpace ''{echo}'' = ''{echo}''" by code_simp
  ultimately show ?thesis using oneshot_is_not_the_payload [OF r a, of ?p] by auto
qed

section \<open>Unit tests\<close>

text \<open>Without a host, without a named repository, for a pull request that is not there and for one
  that changes nothing, unit tests are acknowledged and the model is not asked. The factory's promise that
  a placeholder host (GitLab, Gitea, Bitbucket) makes a caller fall back to such a simulated answer is
  not kept: behind such a host a request that names a repository is refused.\<close>

theorem placeholder_host_refuses_unit_tests:
  assumes host: "NewProvider cfg client selected = Inr p" and other: "pv_Name p \<noteq> ''github''"
    and req: "unmarshal dec_UnitTestRequest raw = Inr req" and repo: "named_repo (uq_Repo req) = Some (owner, name)"
  shows "UnitTests None c raw w = (Inr no_tests, w) \<and>
    (\<exists>e. UnitTests (Some p) c raw w = (Inl (wrap (''fetch pull request '' @ owner @ ''/'' @ name @ ''#'' @ FormatInt (uq_PRID req)) e), w) \<and>
      err_kind e = KNotConfigured)"
proof
  show "UnitTests None c raw w = (Inr no_tests, w)"
    using req by (simp add: UnitTests_def decoding_def andThen_def)
  have "refuses_all p"
    using host other
    by (auto simp: NewProvider_def Let_def NewGitLabProvider_def NewGiteaProvider_def NewBitbucketProvider_def
        gitlab_Provider_def gitea_Provider_def bitbucket_Provider_def placeholder_refuses github_Provider_def bindE_eq_Inr
        split: if_splits)
  then obtain e where e: "pv_GetPR p owner name (uq_PRID req) w = (Inl e, w)" "err_kind e = KNotConfigured"
    by (auto simp: refuses_all_def refuses_def) meson
  with req repo show "\<exists>e. UnitTests (Some p) c raw w =
      (Inl (wrap (''fetch pull request '' @ owner @ ''/'' @ name @ ''#'' @ FormatInt (uq_PRID req)) e), w) \<and> err_kind e = KNotConfigured"
    by (auto simp: UnitTests_def decoding_def andThen_def if_found_def IsNotFound_def tests_of_pr_def)
qed

text \<open>The model is asked only with a pull request and its files in hand, and its answer is the tests.\<close>

lemma if_found_Some: "if_found what m s = (Inr (Some x), t) \<longleftrightarrow> m s = (Inr x, t)"
  by (auto simp: if_found_def split: prod.splits sum.splits if_splits)

lemma no_tests_simps [simp]: "ut_Success no_tests" "ut_Tests no_tests = []"
  by (simp_all add: no_tests_def)

definition asked_for :: "'t world Provider option \<Rightarrow> ctx \<Rightarrow> string \<Rightarrow> 't world \<Rightarrow> 't world \<Rightarrow> bool" where
  "asked_for provider c tests w w' \<longleftrightarrow> (\<exists>host owner name n pr files w1 w2. provider = Some host \<and>
     pv_GetPR host owner name n w = (Inr pr, w1) \<and> pv_GetPRFiles host owner name n w1 = (Inr files, w2) \<and>
     files \<noteq> [] \<and> ask c unitTestSystemPrompt (unit_test_prompt pr files) ''0.2'' 4096 w2 = (Inr tests, w'))"

lemma write_tests_succeed:
  "write_tests c pr files w = (Inr a, w') \<Longrightarrow> ut_Success a \<and>
   (ut_Tests a \<noteq> [] \<longrightarrow> files \<noteq> [] \<and> ask c unitTestSystemPrompt (unit_test_prompt pr files) ''0.2'' 4096 w = (Inr (ut_Tests a), w'))"
  by (auto simp: write_tests_def andThen_eq_Inr wrapping_eq_Inr split: if_splits)

lemma tests_of_files_succeed:
  "tests_of_files host c owner name n pr w = (Inr a, w') \<Longrightarrow> a = no_tests \<or>
   (\<exists>files w2. pv_GetPRFiles host owner name n w = (Inr files, w2) \<and> write_tests c pr files w2 = (Inr a, w'))"
  unfolding tests_of_files_def andThen_eq_Inr by (auto simp: if_found_Some simp del: append.simps split: option.splits)

lemma tests_of_pr_succeed:
  "tests_of_pr host c owner name n w = (Inr a, w') \<Longrightarrow> a = no_tests \<or>
   (\<exists>pr w1. pv_GetPR host owner name n w = (Inr pr, w1) \<and> tests_of_files host c owner name n pr w1 = (Inr a, w'))"
  unfolding tests_of_pr_def andThen_eq_Inr by (auto simp: if_found_Some simp del: append.simps split: option.splits)

lemma unit_tests_succeed:
  assumes run: "UnitTests provider c raw w = (Inr a, w')"
  shows "ut_Success a \<and> (ut_Tests a \<noteq> [] \<longrightarrow> asked_for provider c (ut_Tests a) w w')"
proof (cases "a = no_tests")
  case False
  with run obtain host owner name n where provider: "provider = Some host" and
      t: "tests_of_pr host c owner name n w = (Inr a, w')"
    by (auto simp: UnitTests_def decoding_def andThen_eq_Inr split: option.splits sum.splits)
  from tests_of_pr_succeed [OF t] False obtain pr w1 where
    p: "pv_GetPR host owner name n w = (Inr pr, w1)" "tests_of_files host c owner name n pr w1 = (Inr a, w')" by blast
  from tests_of_files_succeed [OF p(2)] False obtain files w2 where
    f: "pv_GetPRFiles host owner name n w1 = (Inr files, w2)" "write_tests c pr files w2 = (Inr a, w')" by blast
  from write_tests_succeed [OF f(2)] provider p(1) f(1) show ?thesis unfolding asked_for_def by blast
qed simp

definition unit_test_body :: blob where
  "unit_test_body = Doc (JObj [(''repo'', JObj [(''provider'', JStr ''gitlab''), (''owner'', JStr ''a''), (''name'', JStr ''b'')])])"

theorem placeholder_host_refuses_unit_tests_witness:
  "\<exists>p e. NewProvider (\<lparr>gc_GitHubBaseURL = [], gc_GitHubToken = [], gc_GitLabBaseURL = [], gc_GitLabToken = ''t'', gc_GiteaBaseURL = [],
      gc_GiteaToken = [], gc_BitbucketBaseURL = [], gc_BitbucketToken = []\<rparr>) undefined ''gitlab'' = Inr p \<and>
     fst (UnitTests (Some p) None unit_test_body (start_world no_fault (answering ''x'') :: unit world)) = Inl e"
proof -
  let ?cfg = "\<lparr>gc_GitHubBaseURL = [], gc_GitHubToken = [], gc_GitLabBaseURL = [], gc_GitLabToken = ''t'', gc_GiteaBaseURL = [],
      gc_GiteaToken = [], gc_BitbucketBaseURL = [], gc_BitbucketToken = []\<rparr>"
  have t: "TrimSpace ''t'' \<noteq> []" by code_simp
  have l: "ToLower (TrimSpace ''gitlab'') = ''gitlab''" by code_simp
  have h: "NewProvider ?cfg undefined ''gitlab'' = Inr gitlab_Provider"
    using t l by (simp add: NewProvider_def NewGitLabProvider_def)
  have n: "pv_Name gitlab_Provider \<noteq> ''github''" by (simp add: gitlab_Provider_def placeholder_def)
  have r: "unmarshal dec_UnitTestRequest unit_test_body =
      Inr \<lparr>uq_Repo = Some [(''name'', AnyString ''b''), (''owner'', AnyString ''a''), (''provider'', AnyString ''gitlab'')], uq_PRID = 0\<rparr>"
    by code_simp
  have o: "named_repo (uq_Repo \<lparr>uq_Repo = Some [(''name'', AnyString ''b''), (''owner'', AnyString ''a''), (''provider'', AnyString ''gitlab'')],
      uq_PRID = 0\<rparr>) = Some (''a'', ''b'')" by code_simp
  from placeholder_host_refuses_unit_tests [OF h n r o, of None "start_world no_fault (answering ''x'') :: unit world"] h
  show ?thesis by auto
qed

end
