(* ===== verification/PgVector.thy ===== *)
theory PgVector
  imports CodeIndex Similarity Prompts
begin

text \<open>
  The Postgres implementation of the vector store (\<open>internal/vectorstore/pgvector/store.go\<close>), over a
  database with the same three tables. It keeps the same laws as the SQLite one, so everything
  proved of the interface holds of both; what the laws leave open differs.

  The operator \<open><=>\<close> of the extension is a parameter: on two vectors it fails (their dimensions
  differ), is NaN (\<open>None\<close>, a zero vector), or a number. Postgres sorts NaN after every number and
  answers it; \<open>pg_NaN\<close> stands for it in an answer. A text that is not UTF-8 or holds a zero byte
  is refused by the server, as an argument of any statement.
\<close>

section \<open>Statements\<close>

record pgvector =
  pg_dimensions :: int
  pg_distance :: "vector \<Rightarrow> vector \<Rightarrow> rat option res"
  pg_NaN :: rat

definition pg_text :: "string \<Rightarrow> bool" where
  "pg_text s \<longleftrightarrow> utf8_valid s \<and> char_of (0 :: nat) \<notin> set s"

text \<open>A statement whose arguments or row the server does not take is refused.\<close>

definition not_taken :: goerr where
  "not_taken = errorf ''ERROR: value rejected''"

definition pg_stmt :: "bool \<Rightarrow> (store \<Rightarrow> 'a res \<times> store) \<Rightarrow> (store \<Rightarrow> 'a res \<times> store)" where
  "pg_stmt taken stmt = (\<lambda>s. if taken then stmt s else (Inl not_taken, s))"

section \<open>Migration\<close>

text \<open>\<open>compact\<close>, and the statements of \<open>migrate\<close> in its form; a statement that succeeds leaves the
  tables there.\<close>

definition compact :: "string list \<Rightarrow> string" where
  "compact parts = (if length parts \<le> 8 then Join parts '' '' else Join (take 8 parts @ [''...'']) '' '')"

definition pg_migrations :: "string list list" where
  "pg_migrations = (let table = (\<lambda>t. [''CREATE'', ''TABLE'', ''IF'', ''NOT'', ''EXISTS'', t, ''('']);
       index = (\<lambda>i. [''CREATE'', ''INDEX'', ''IF'', ''NOT'', ''EXISTS'', i, ''ON'']) in
     [[''CREATE'', ''EXTENSION'', ''IF'', ''NOT'', ''EXISTS'', ''vector''],
      table ''grouping_records'' @ [''project_id'', ''BIGINT''], index ''idx_grouping_records_project'' @ [''grouping_records(project_id)''],
      table ''supergroups'' @ [''id'', ''BIGSERIAL''], index ''idx_supergroups_org_project'' @ [''supergroups(organization_id,'', ''project_id)''],
      table ''code_chunks'' @ [''organization_id'', ''BIGINT''], index ''idx_code_chunks_org'' @ [''code_chunks(organization_id)''],
      index ''idx_code_chunks_repo'' @ [''code_chunks(provider,'', ''owner,'', ''name)'']])"

definition pg_New :: "(string \<Rightarrow> goerr option) \<Rightarrow> (vector \<Rightarrow> vector \<Rightarrow> rat option res) \<Rightarrow> rat \<Rightarrow> string \<Rightarrow> int \<Rightarrow> (pgvector, store) op" where
  "pg_New ParseConfig distance NaN dsn dimensions = (case ParseConfig dsn of
       Some e \<Rightarrow> fail (wrap ''parse pgvector DSN'' e)
     | None \<Rightarrow> if dimensions \<le> 0 then fail (errorf ''pgvector dimensions must be greater than zero'')
         else andThen (each (\<lambda>m. wrapping (''run pgvector migration '' @ Quote (compact m)) (update (\<lambda>s. s))) pg_migrations)
           (\<lambda>_. ret \<lparr>pg_dimensions = dimensions, pg_distance = distance, pg_NaN = NaN\<rparr>))"

section \<open>Operations\<close>

definition vector_fits :: "pgvector \<Rightarrow> vector \<Rightarrow> bool" where
  "vector_fits pg v \<longleftrightarrow> int (length v) = pg_dimensions pg"

definition group_fits :: "pgvector \<Rightarrow> GroupingRecord \<Rightarrow> bool" where
  "group_fits pg r \<longleftrightarrow> vector_fits pg (gr_Vector r) \<and> pg_text (gr_Hash r) \<and>
     (case gr_ExceptionType r of None \<Rightarrow> True | Some t \<Rightarrow> pg_text t)"

definition pg_UpsertGroupingRecords :: "pgvector \<Rightarrow> GroupingRecord list \<Rightarrow> (unit, store) op" where
  "pg_UpsertGroupingRecords pg records = atomically
     (andThen (tx_step ''begin pgvector upsert tx'') (\<lambda>_.
      andThen (tx_step ''prepare pgvector upsert'') (\<lambda>_.
      andThen (each (\<lambda>r. wrapping ''exec pgvector upsert'' (exec (\<lambda>s.
          if group_fits pg r
          then (Inr (), s\<lparr>vec_grouping := upsert gr_key merge_grouping r (vec_grouping s)\<rparr>)
          else (Inl not_taken, s)))) records) (\<lambda>_.
        tx_step ''commit pgvector upsert tx''))))"

text \<open>\<open>ORDER BY distance ASC LIMIT k\<close>, NaN last.\<close>

definition nearest_first :: "nat \<Rightarrow> ('r \<times> rat option) list \<Rightarrow> ('r \<times> rat option) list" where
  "nearest_first k ds = take k (sort_key (\<lambda>x. the (snd x)) (filter (\<lambda>x. snd x \<noteq> None) ds) @ filter (\<lambda>x. snd x = None) ds)"

definition pg_SearchSimilar ::
    "pgvector \<Rightarrow> int \<Rightarrow> string \<Rightarrow> vector \<Rightarrow> int \<Rightarrow> rat \<Rightarrow> (SimilarIssue list, store) op" where
  "pg_SearchSimilar pg projectID hash v k0 threshold =
     (let k = (if k0 \<le> 0 then 1 else k0) in
      andThen (wrapping ''query pgvector nearest neighbors'' (exec (pg_stmt (pg_text hash \<and> v \<noteq> []) (\<lambda>s.
          (rated (\<lambda>r. pg_distance pg (gr_Vector r) v)
             (filter (\<lambda>r. gr_ProjectID r = projectID \<and> gr_Hash r \<noteq> hash) (vec_grouping s)), s))))) (\<lambda>ds.
        ret (map (\<lambda>(r, d). \<lparr>si_ParentHash = gr_Hash r, si_StacktraceDistance = the d, si_ShouldGroup = True\<rparr>)
          (nearest_first (nat k) (filter (\<lambda>x. case snd x of None \<Rightarrow> False | Some d \<Rightarrow> d \<le> threshold) ds)))))"

definition pg_DeleteProject :: "int \<Rightarrow> (bool, store) op" where
  "pg_DeleteProject projectID =
     andThen (wrapping ''delete pgvector records for project'' (update (\<lambda>s. s\<lparr>vec_grouping :=
       filter (\<lambda>r. gr_ProjectID r \<noteq> projectID) (vec_grouping s)\<rparr>))) (\<lambda>_. ret True)"

definition pg_DeleteHashes :: "int \<Rightarrow> string list \<Rightarrow> (bool, store) op" where
  "pg_DeleteHashes projectID hashes =
     (if hashes = [] then ret True
      else andThen (wrapping ''delete pgvector hashes'' (exec (pg_stmt (list_all pg_text hashes) (\<lambda>s. (Inr (), s\<lparr>vec_grouping :=
        filter (\<lambda>r. \<not> (gr_ProjectID r = projectID \<and> gr_Hash r \<in> set hashes)) (vec_grouping s)\<rparr>))))) (\<lambda>_. ret True))"

text \<open>\<open>jsonb\<close> refuses a text with a zero character or that is not UTF-8.\<close>

fun pg_json :: "json \<Rightarrow> bool" where
  "pg_json (JStr s) = pg_text s"
| "pg_json (JArr js) = list_all pg_json js"
| "pg_json (JObj ms) = list_all (\<lambda>(k, v). pg_text k \<and> pg_json v) ms"
| "pg_json j = True"

definition pg_InsertSupergroup :: "SupergroupRecord \<Rightarrow> (unit, store) op" where
  "pg_InsertSupergroup rec =
     wrapping ''insert pgvector supergroup'' (exec (\<lambda>s. if pg_json (sg_Artifact rec)
       then (Inr (), s\<lparr>supergroups_tbl := supergroups_tbl s @ [rec]\<rparr>) else (Inl not_taken, s)))"

definition negative_offset :: goerr where
  "negative_offset = errorf ''ERROR: OFFSET must not be negative''"

fun decode_artifacts :: "json list \<Rightarrow> json gomap list res" where
  "decode_artifacts [] = Inr []"
| "decode_artifacts (j # js) =
     (case (if j = JNull then Inr [] else dec_anymap j) of
        Inl e \<Rightarrow> Inl (wrap ''decode pgvector supergroup'' e)
      | Inr m \<Rightarrow> bindE (decode_artifacts js) (\<lambda>ms. Inr (m # ms)))"

definition pg_ListSupergroups :: "int \<Rightarrow> int list \<Rightarrow> int \<Rightarrow> int \<Rightarrow> (json gomap list, store) op" where
  "pg_ListSupergroups organizationID projectIDs offset limit0 =
     (let limit = (if limit0 \<le> 0 then 50 else limit0) in
      andThen (wrapping ''list pgvector supergroups'' (exec (\<lambda>s.
          if offset < 0 then (Inl negative_offset, s)
          else (Inr (take (nat limit) (drop (nat offset) (map sg_Artifact (rev (filter (\<lambda>r. sg_OrganizationID r = organizationID \<and>
            (projectIDs = [] \<or> sg_ProjectID r \<in> set projectIDs)) (supergroups_tbl s)))))), s)))) (\<lambda>rows.
        liftE (decode_artifacts rows)))"

definition chunk_texts :: "CodeChunk \<Rightarrow> string list" where
  "chunk_texts c = [cc_Provider c, cc_Owner c, cc_Name c, cc_Ref c, cc_Path c, cc_Text c]"

text \<open>\<open>INTEGER\<close> columns have 32 bits.\<close>

definition chunk_fits :: "pgvector \<Rightarrow> CodeChunk \<Rightarrow> bool" where
  "chunk_fits pg c \<longleftrightarrow> vector_fits pg (cc_Vector c) \<and> list_all pg_text (chunk_texts c) \<and>
     cc_ChunkIndex c < 2 ^ 31 \<and> cc_StartLine c < 2 ^ 31 \<and> cc_EndLine c < 2 ^ 31"

definition pg_UpsertCodeChunks :: "pgvector \<Rightarrow> CodeChunk list \<Rightarrow> (unit, store) op" where
  "pg_UpsertCodeChunks pg chunks =
     (if chunks = [] then ret ()
      else atomically
       (andThen (tx_step ''begin pgvector code chunk tx'') (\<lambda>_.
        andThen (tx_step ''prepare pgvector code chunk upsert'') (\<lambda>_.
        andThen (each (\<lambda>c. wrapping ''exec pgvector code chunk upsert'' (exec (\<lambda>s.
            if chunk_fits pg c
            then (Inr (), s\<lparr>vec_chunks := upsert cc_key merge_chunk c (vec_chunks s)\<rparr>)
            else (Inl not_taken, s)))) chunks) (\<lambda>_.
          tx_step ''commit pgvector code chunk tx'')))))"

definition pg_SearchCode :: "pgvector \<Rightarrow> vector \<Rightarrow> int \<Rightarrow> CodeFilters \<Rightarrow> (CodeResult list, store) op" where
  "pg_SearchCode pg v k0 filters =
     (let k = (if k0 \<le> 0 then 10 else k0) in
      andThen (wrapping ''query pgvector code chunks'' (exec (pg_stmt (v \<noteq> [] \<and>
          list_all pg_text [cf_Provider filters, cf_Owner filters, cf_Name filters, cf_Ref filters]) (\<lambda>s.
          (rated (\<lambda>c. pg_distance pg (cc_Vector c) v) (filter (matches filters) (vec_chunks s)), s))))) (\<lambda>ds.
        ret (map (\<lambda>(c, d). code_result c (case d of None \<Rightarrow> pg_NaN pg | Some x \<Rightarrow> x)) (nearest_first (nat k) ds))))"

definition pg_DeleteCodeRepo :: "int \<Rightarrow> string \<Rightarrow> string \<Rightarrow> string \<Rightarrow> (bool, store) op" where
  "pg_DeleteCodeRepo organizationID provider owner name =
     andThen (wrapping ''delete pgvector code chunks'' (exec (pg_stmt (list_all pg_text [provider, owner, name]) (\<lambda>s. (Inr (), s\<lparr>vec_chunks :=
       filter (\<lambda>c. \<not> in_repo organizationID provider owner name c) (vec_chunks s)\<rparr>))))) (\<lambda>_. ret True)"

definition pg_HasCodeChunks :: "int \<Rightarrow> (bool, store) op" where
  "pg_HasCodeChunks organizationID =
     wrapping ''check pgvector code chunks'' (query (\<lambda>s. \<exists>c \<in> set (vec_chunks s). cc_OrganizationID c = organizationID))"

definition pgvector_store :: "pgvector \<Rightarrow> store VectorStore" where
  "pgvector_store pg = \<lparr>vs_UpsertGroupingRecords = pg_UpsertGroupingRecords pg,
     vs_SearchSimilar = pg_SearchSimilar pg, vs_DeleteProject = pg_DeleteProject,
     vs_DeleteHashes = pg_DeleteHashes, vs_InsertSupergroup = pg_InsertSupergroup,
     vs_ListSupergroups = pg_ListSupergroups, vs_UpsertCodeChunks = pg_UpsertCodeChunks pg,
     vs_SearchCode = pg_SearchCode pg, vs_DeleteCodeRepo = pg_DeleteCodeRepo,
     vs_HasCodeChunks = pg_HasCodeChunks\<rparr>"

section \<open>The same laws\<close>

lemma nearest_first_in: "x \<in> set (nearest_first k ds) \<Longrightarrow> x \<in> set ds"
  by (auto simp: nearest_first_def dest!: in_set_takeD)

lemma nearest_first_length: "length (nearest_first k ds) \<le> k"
  by (simp add: nearest_first_def)

lemma pg_search_similar_run:
  assumes "pg_SearchSimilar pg p h v k th s = (Inr found, t)"
  shows "\<exists>ds. rated (\<lambda>r. pg_distance pg (gr_Vector r) v)
      (filter (\<lambda>r. gr_ProjectID r = p \<and> gr_Hash r \<noteq> h) (vec_grouping s)) = Inr ds \<and>
    found = map (\<lambda>(r, d). \<lparr>si_ParentHash = gr_Hash r, si_StacktraceDistance = the d, si_ShouldGroup = True\<rparr>)
      (nearest_first (nat (if k \<le> 0 then 1 else k)) (filter (\<lambda>x. case snd x of None \<Rightarrow> False | Some d \<Rightarrow> d \<le> th) ds))"
  using assms by (auto simp: pg_SearchSimilar_def pg_stmt_def Let_def stmt_Inr split: if_splits)

lemma pg_search_code_run:
  assumes "pg_SearchCode pg v k f s = (Inr found, t)"
  shows "\<exists>ds. rated (\<lambda>c. pg_distance pg (cc_Vector c) v) (filter (matches f) (vec_chunks s)) = Inr ds \<and>
    found = map (\<lambda>(c, d). code_result c (case d of None \<Rightarrow> pg_NaN pg | Some x \<Rightarrow> x)) (nearest_first (nat (if k \<le> 0 then 10 else k)) ds)"
  using assms by (auto simp: pg_SearchCode_def pg_stmt_def Let_def stmt_Inr split: if_splits)

lemma pg_search_reads:
  "readonly vec_tables (pg_SearchSimilar pg p h v k th)" "readonly vec_tables (pg_SearchCode pg v k f)"
  unfolding pg_SearchSimilar_def pg_SearchCode_def pg_stmt_def Let_def
  by (intro readonly_andThen readonly_wrapping readonly_exec readonly_if readonly_fail readonly_ret; simp)+

lemma pg_keeps:
  "keeps vec_ok (pg_UpsertGroupingRecords pg rs)" "keeps vec_ok (pg_UpsertCodeChunks pg cs)"
  "keeps vec_ok (pg_DeleteProject p)" "keeps vec_ok (pg_DeleteHashes p hs)"
  "keeps vec_ok (pg_DeleteCodeRepo g pv w n)" "keeps vec_ok (pg_SearchCode pg v k f)"
  "keeps vec_ok (pg_SearchSimilar pg p h v k th)" "keeps vec_ok (pg_HasCodeChunks g)"
  unfolding pg_UpsertGroupingRecords_def pg_UpsertCodeChunks_def pg_DeleteProject_def pg_DeleteHashes_def
    pg_DeleteCodeRepo_def pg_SearchCode_def pg_SearchSimilar_def pg_HasCodeChunks_def pg_stmt_def Let_def
  by (intro keeps_if keeps_ret keeps_atomically keeps_each keeps_tx_step keeps_ok_step keeps_andThen
        keeps_fail keeps_wrapping keeps_query keeps_update;
      auto simp: vec_ok_def uniq_upsert uniq_filter split: if_splits)+

lemma checked_all_or_nothing:
  assumes "\<And>s. V (tick s) = V s" shows "all_or_nothing V (exec (pg_stmt taken (\<lambda>s. (Inr (), f s))))"
  using assms by (auto simp: all_or_nothing_def exec_def pg_stmt_def split: option.splits if_splits)

interpretation pgvector_laws: vector_store_laws "pgvector_store pg" vec_groups vec_code vec_ok for pg
proof unfold_locales
  show "vec_groups t = put_all gr_key rs (vec_groups s) \<and> vec_code t = vec_code s"
    if "vs_UpsertGroupingRecords (pgvector_store pg) rs s = (Inr x, t)" for rs s x t
    using that by (auto simp: pgvector_store_def pg_UpsertGroupingRecords_def atomically_Inr tx_step_def stmt_Inr
        dest!: upsert_groups_each)
  show "vec_code t = put_all cc_key cs (vec_code s) \<and> vec_groups t = vec_groups s"
    if "vs_UpsertCodeChunks (pgvector_store pg) cs s = (Inr x, t)" for cs s x t
    using that by (cases "cs = []")
      (auto simp: pgvector_store_def pg_UpsertCodeChunks_def atomically_Inr tx_step_def stmt_Inr
        dest!: upsert_chunks_each)
  show "all_or_nothing vec_tables (vs_UpsertGroupingRecords (pgvector_store pg) rs)" for rs
    by (simp add: pgvector_store_def pg_UpsertGroupingRecords_def atomically_all_or_nothing)
  show "all_or_nothing vec_tables (vs_UpsertCodeChunks (pgvector_store pg) cs)" for cs
    by (simp add: pgvector_store_def pg_UpsertCodeChunks_def atomically_all_or_nothing all_or_nothing_ret)
  show "\<exists>r. vec_groups s (p, si_ParentHash i) = Some r \<and> si_ParentHash i \<noteq> h \<and> si_StacktraceDistance i \<le> th"
    if ok: "vec_ok s" and run: "vs_SearchSimilar (pgvector_store pg) p h v k th s = (Inr out, t)" and i: "i \<in> set out"
    for s p h v k th out t i
  proof -
    from run obtain ds where rate: "rated (\<lambda>r. pg_distance pg (gr_Vector r) v)
      (filter (\<lambda>r. gr_ProjectID r = p \<and> gr_Hash r \<noteq> h) (vec_grouping s)) = Inr ds" and
      out: "out = map (\<lambda>(r, d). \<lparr>si_ParentHash = gr_Hash r, si_StacktraceDistance = the d, si_ShouldGroup = True\<rparr>)
      (nearest_first (nat (if k \<le> 0 then 1 else k)) (filter (\<lambda>x. case snd x of None \<Rightarrow> False | Some d \<Rightarrow> d \<le> th) ds))"
      using pg_search_similar_run by (force simp: pgvector_store_def)
    from i out obtain r d where rd: "(r, d) \<in> set ds" "\<exists>x. d = Some x \<and> x \<le> th"
      and hash: "si_ParentHash i = gr_Hash r" "si_StacktraceDistance i = the d"
      by (force dest!: nearest_first_in split: option.splits)
    with rated_in [OF rate rd(1)] have "r \<in> set (vec_grouping s)" "gr_ProjectID r = p" "gr_Hash r \<noteq> h" by auto
    moreover from this(1) ok have "row_at gr_key (vec_grouping s) (gr_key r) = Some r"
      using row_at_uniq [of gr_key "vec_grouping s" r] by (simp add: vec_ok_def)
    ultimately show ?thesis using rd(2) hash by (auto simp: vec_groups_def)
  qed
  show "length out \<le> nat (max 1 k)" if "vs_SearchSimilar (pgvector_store pg) p h v k th s = (Inr out, t)"
    for p h v k th s out t
    using that nearest_first_length by (fastforce simp: pgvector_store_def dest!: pg_search_similar_run split: if_splits)
  show "readonly vec_tables (vs_SearchSimilar (pgvector_store pg) p h v k th)" for p h v k th
    by (simp add: pgvector_store_def pg_search_reads)
  show "b \<and> vec_groups t = (\<lambda>gk. if fst gk = p then None else vec_groups s gk) \<and> vec_code t = vec_code s"
    if "vec_ok s" "vs_DeleteProject (pgvector_store pg) p s = (Inr b, t)" for s p b t
    using that by (auto simp: pgvector_store_def pg_DeleteProject_def stmt_Inr vec_groups_def vec_code_def
        vec_ok_def row_at_filter fun_eq_iff split: option.splits dest: row_at_key)
  show "b \<and> vec_groups t = (\<lambda>gk. if fst gk = p \<and> snd gk \<in> set hs then None else vec_groups s gk) \<and> vec_code t = vec_code s"
    if "vec_ok s" "vs_DeleteHashes (pgvector_store pg) p hs s = (Inr b, t)" for s p hs b t
    using that by (cases "hs = []") (auto simp: pgvector_store_def pg_DeleteHashes_def pg_stmt_def stmt_Inr vec_groups_def vec_code_def
        vec_ok_def row_at_filter fun_eq_iff split: option.splits if_splits dest: row_at_key)
  show "all_or_nothing vec_tables (vs_DeleteProject (pgvector_store pg) p)" for p
    by (simp add: pgvector_store_def pg_DeleteProject_def)
      (intro all_or_nothing_andThen_ret all_or_nothing_wrapping all_or_nothing_update; simp)
  show "all_or_nothing vec_tables (vs_DeleteHashes (pgvector_store pg) p hs)" for p hs
    by (simp add: pgvector_store_def pg_DeleteHashes_def)
      (intro conjI impI all_or_nothing_ret all_or_nothing_andThen_ret all_or_nothing_wrapping checked_all_or_nothing; simp)
  show "\<exists>c. vec_code s (cc_key c) = Some c \<and> matches f c \<and> y = code_result c (cs_Distance y)"
    if ok: "vec_ok s" and run: "vs_SearchCode (pgvector_store pg) v k f s = (Inr found, t)" and y: "y \<in> set found"
    for s v k f found t y
  proof -
    from run obtain ds where rate: "rated (\<lambda>c. pg_distance pg (cc_Vector c) v) (filter (matches f) (vec_chunks s)) = Inr ds"
      and found: "found = map (\<lambda>(c, d). code_result c (case d of None \<Rightarrow> pg_NaN pg | Some x \<Rightarrow> x))
        (nearest_first (nat (if k \<le> 0 then 10 else k)) ds)"
      using pg_search_code_run by (force simp: pgvector_store_def)
    from y found obtain c d where cd: "(c, d) \<in> set ds" and res: "\<exists>q. y = code_result c q"
      by (force dest!: nearest_first_in)
    with rated_in [OF rate cd] have "c \<in> set (vec_chunks s)" "matches f c" by auto
    moreover from this(1) ok have "row_at cc_key (vec_chunks s) (cc_key c) = Some c"
      by (simp add: vec_ok_def row_at_uniq)
    ultimately show ?thesis using res by (auto simp: vec_code_def code_result_def)
  qed
  show "length found \<le> nat (if k \<le> 0 then 10 else k)" if "vs_SearchCode (pgvector_store pg) v k f s = (Inr found, t)"
    for v k f s found t
    using that nearest_first_length by (fastforce simp: pgvector_store_def dest!: pg_search_code_run)
  show "readonly vec_tables (vs_SearchCode (pgvector_store pg) v k f)" for v k f
    by (simp add: pgvector_store_def pg_search_reads)
  show "b \<and> vec_groups t = vec_groups s \<and> vec_code t = (\<lambda>ck. case vec_code s ck of
        Some c \<Rightarrow> if in_repo g pv w n c then None else Some c | None \<Rightarrow> None)"
    if "vec_ok s" "vs_DeleteCodeRepo (pgvector_store pg) g pv w n s = (Inr b, t)" for s g pv w n b t
    using that by (auto simp: pgvector_store_def pg_DeleteCodeRepo_def pg_stmt_def stmt_Inr vec_groups_def vec_code_def
        vec_ok_def row_at_filter fun_eq_iff split: option.splits if_splits)
  show "all_or_nothing vec_tables (vs_DeleteCodeRepo (pgvector_store pg) g pv w n)" for g pv w n
    by (simp add: pgvector_store_def pg_DeleteCodeRepo_def)
      (intro all_or_nothing_andThen_ret all_or_nothing_wrapping checked_all_or_nothing; simp)
  show "b \<longleftrightarrow> (\<exists>ck c. vec_code s ck = Some c \<and> cc_OrganizationID c = g)"
    if "vec_ok s" "vs_HasCodeChunks (pgvector_store pg) g s = (Inr b, t)" for s g b t
    using that row_at_ex [of cc_key "vec_chunks s" "\<lambda>c. cc_OrganizationID c = g"]
    by (simp add: pgvector_store_def pg_HasCodeChunks_def stmt_Inr vec_code_def vec_ok_def)
  show "readonly vec_tables (vs_HasCodeChunks (pgvector_store pg) g)" for g
    by (simp add: pgvector_store_def pg_HasCodeChunks_def) (intro readonly_wrapping readonly_query; simp)
qed (simp_all add: pgvector_store_def pg_keeps)

section \<open>Where the two stores differ\<close>

text \<open>The project filter of a supergroup listing is honoured by Postgres and ignored by SQLite.\<close>

lemma list_supergroups_projects:
  "sv_ListSupergroups organizationID projectIDs offset limit = sv_ListSupergroups organizationID [] offset limit"
  "projectIDs \<noteq> [] \<Longrightarrow> fst (pg_ListSupergroups organizationID projectIDs offset limit s) =
     fst (pg_ListSupergroups organizationID [] offset limit
       (s\<lparr>supergroups_tbl := filter (\<lambda>r. sg_ProjectID r \<in> set projectIDs) (supergroups_tbl s)\<rparr>))"
  by (simp_all add: sv_ListSupergroups_def ListSupergroups_def pg_ListSupergroups_def Let_def exec_def andThen_def wrapping_def
      split: option.splits prod.splits sum.splits) (auto simp: conj_commute)

end
