(* ===== verification/VectorProps.thy ===== *)
theory VectorProps
  imports PgVector
begin

text \<open>
  The services over the Postgres store: what was proved from the laws of the interface, once more
  for the second implementation.
\<close>

text \<open>C15: on the Postgres store, too, every sequence of similarity requests runs the abstract machine of
  grouping records, and never touches the code chunks. Where both stores answer they may choose different matches,
  but each answer is one the machine allows.\<close>

theorem postgres_store_refines:
  assumes "vec_ok s" and "perform_calls cfg emb (pgvector_store pg) calls s = (as, t)"
  shows "machine_run cfg emb calls as (vec_groups s) (vec_groups t) \<and> vec_code t = vec_code s \<and> vec_ok t"
  using pgvector_laws.calls_run [OF assms] by blast

definition demo_pgvector :: pgvector where
  "demo_pgvector = \<lparr>pg_dimensions = 2, pg_distance = (\<lambda>u v. Inr (Some 0)), pg_NaN = 0\<rparr>"

definition pg_run :: "similarity_answer list \<times> store" where
  "pg_run = perform_calls \<lparr>sc_SimilarityThreshold = 0, sc_EmbeddingModel = [''m'']\<rparr> (\<lambda>texts. Inr (map (\<lambda>x. [1, 0]) texts))
     (pgvector_store demo_pgvector) sim_calls (New (\<lambda>n. None) (\<lambda>n. []))"

theorem postgres_store_refines_witness:
  "\<exists>as t. pg_run = (as, t) \<and> vec_groups t (1, ''a'') = None \<and>
     as ! 1 = Answered \<lparr>sp_Responses = [\<lparr>si_ParentHash = ''a'', si_StacktraceDistance = 0, si_ShouldGroup = True\<rparr>], sp_ModelUsed = ''m''\<rparr> \<and>
     machine_run \<lparr>sc_SimilarityThreshold = 0, sc_EmbeddingModel = [''m'']\<rparr> (\<lambda>texts. Inr (map (\<lambda>x. [1, 0]) texts))
       sim_calls as (vec_groups (New (\<lambda>n. None) (\<lambda>n. []))) (vec_groups t)"
proof -
  have ok: "vec_ok (New (\<lambda>n. None) (\<lambda>n. []))" by (simp add: vec_ok_def New_def)
  obtain as t where run: "pg_run = (as, t)" by (cases pg_run)
  have "case pg_run of (as, t) \<Rightarrow> as ! 1 = Answered \<lparr>sp_Responses = [\<lparr>si_ParentHash = ''a'', si_StacktraceDistance = 0, si_ShouldGroup = True\<rparr>],
     sp_ModelUsed = ''m''\<rparr> \<and> vec_groups t (1, ''a'') = None" by code_simp
  then have "as ! 1 = Answered \<lparr>sp_Responses = [\<lparr>si_ParentHash = ''a'', si_StacktraceDistance = 0, si_ShouldGroup = True\<rparr>],
     sp_ModelUsed = ''m''\<rparr> \<and> vec_groups t (1, ''a'') = None" unfolding run by simp
  with postgres_store_refines [OF ok run [unfolded pg_run_def]] run show ?thesis by blast
qed

end
