(* ===== verification/ServiceHandlers.thy ===== *)
theory ServiceHandlers
  imports Handlers Feedback Replay Severity AssistedQuery Similarity Generation IssueSummary
begin

text \<open>
  The endpoints of the smaller services (\<open>internal/handler/similarity.go\<close>, \<open>feedback.go\<close>,
  \<open>replays.go\<close>, \<open>severity.go\<close>, \<open>generation.go\<close>, \<open>issueSummary.go\<close>, \<open>assistedQuery.go\<close>,
  \<open>preferences.go\<close>, \<open>platform.go\<close>, \<open>anomaly.go\<close>, \<open>codeReview.go\<close>, and what \<open>investigations.go\<close>
  simulates): each decodes a body, calls its service and encodes the answer. A number in an answer is
  the text the encoder writes for it.
\<close>

section \<open>Answers\<close>

definition enc_float :: "rat \<Rightarrow> json" where
  "enc_float x = JDec (json_float x)"

fun enc_any :: "any \<Rightarrow> json" where
  "enc_any AnyNil = JNull"
| "enc_any (AnyBool b) = JBool b"
| "enc_any (AnyFloat x) = enc_float x"
| "enc_any (AnyString s) = JStr s"
| "enc_any (AnyArray vs) = JArr (map enc_any vs)"
| "enc_any (AnyMap kvs) = JObj (map (\<lambda>(k, v). (k, enc_any v)) kvs)"

definition enc_anymap :: "anymap \<Rightarrow> json" where
  "enc_anymap m = (case m of None \<Rightarrow> JNull | Some kvs \<Rightarrow> enc_any (AnyMap kvs))"

definition enc_SimilarIssue :: "SimilarIssue \<Rightarrow> json" where
  "enc_SimilarIssue i = JObj [(''parent_hash'', JStr (si_ParentHash i)),
     (''stacktrace_distance'', enc_float (si_StacktraceDistance i)), (''should_group'', JBool (si_ShouldGroup i))]"

definition enc_SimilarResponse :: "SimilarResponse \<Rightarrow> json" where
  "enc_SimilarResponse r = object [(''responses'', Some (JArr (map enc_SimilarIssue (sp_Responses r)))),
     (''model_used'', nonempty_string (sp_ModelUsed r))]"

definition enc_success :: "bool \<Rightarrow> json" where
  "enc_success b = JObj [(''success'', JBool b)]"

definition enc_strings :: "string list \<Rightarrow> json" where
  "enc_strings ss = JArr (map JStr ss)"

text \<open>A nil slice is \<open>null\<close>.\<close>

definition enc_LabelGroupEntry :: "LabelGroupEntry \<Rightarrow> json" where
  "enc_LabelGroupEntry g = JObj [(''primaryLabel'', JStr (lg_PrimaryLabel g)),
     (''associatedLabels'', case lg_AssociatedLabels g of None \<Rightarrow> JNull | Some ls \<Rightarrow> enc_strings ls)]"

definition enc_score :: "score \<Rightarrow> json" where
  "enc_score s = (case s of FloatScore x \<Rightarrow> enc_float x | IntScore n \<Rightarrow> JNum n | BoolScore b \<Rightarrow> JBool b)"

definition enc_SummarizeIssueResponse :: "SummarizeIssueResponse \<Rightarrow> json" where
  "enc_SummarizeIssueResponse r = object [(''group_id'', Some (JStr (is_GroupID r))), (''headline'', Some (JStr (is_Headline r))),
     (''whats_wrong'', map_option JStr (is_WhatsWrong r)), (''trace'', map_option JStr (is_Trace r)),
     (''possible_cause'', map_option JStr (is_PossibleCause r)),
     (''scores'', if is_Scores r = [] then None
        else Some (JObj (sort_key fst (map (\<lambda>(k, s). (k, enc_score s)) (is_Scores r)))))]"

definition enc_SummarizeTraceResponse :: "SummarizeTraceResponse \<Rightarrow> json" where
  "enc_SummarizeTraceResponse r = JObj [(''trace_id'', JStr (ts_TraceID r)), (''summary'', JStr (ts_Summary r)),
     (''key_observations'', JStr (ts_KeyObservations r)), (''performance_characteristics'', JStr (ts_PerformanceCharacteristics r)),
     (''suggested_investigations'', JArr (map enc_anymap (ts_SuggestedInvestigations r)))]"

definition enc_GenerateResponse :: "GenerateResponse \<Rightarrow> json" where
  "enc_GenerateResponse r = JObj [(''content'', JStr (gr_Content r)), (''model'', JStr (gr_Model r))]"

definition enc_UnitTestResponse :: "UnitTestResponse \<Rightarrow> json" where
  "enc_UnitTestResponse r = object [(''success'', Some (JBool (ut_Success r))), (''tests'', nonempty_string (ut_Tests r))]"

definition enc_Query :: "Query \<Rightarrow> json" where
  "enc_Query q = object [(''query'', Some (JStr (qu_Query q))), (''stats_period'', Some (JStr (qu_StatsPeriod q))),
     (''group_by'', if qu_GroupBy q = [] then None else Some (enc_strings (qu_GroupBy q))),
     (''visualization'', if qu_Visualization q = [] then None else Some (enc_strings (qu_Visualization q))),
     (''sort'', Some (JStr (qu_Sort q))), (''mode'', nonempty_string (qu_Mode q))]"

definition enc_TranslateResponse :: "TranslateResponse \<Rightarrow> json" where
  "enc_TranslateResponse r = JObj [(''responses'', JArr (map enc_Query (tr_Responses r))),
     (''unsupported_reason'', case tr_UnsupportedReason r of None \<Rightarrow> JNull | Some s \<Rightarrow> JStr s)]"

definition enc_aqSession :: "aqSession \<Rightarrow> json" where
  "enc_aqSession s = JObj [(''session'', JObj [(''run_id'', JNum (as_RunID s)), (''status'', JStr (as_Status s)),
     (''current_step'', JNull), (''completed_steps'', JArr []), (''updated_at'', JStr (as_UpdatedAt s)),
     (''final_response'', case as_FinalResponse s of None \<Rightarrow> JNull | Some kvs \<Rightarrow> JObj kvs),
     (''unsupported_reason'', case as_UnsupportedReason s of None \<Rightarrow> JNull | Some r \<Rightarrow> JStr r)])]"

section \<open>Similarity\<close>

text \<open>\<open>asInt64\<close> of a path value: what does not parse is 0, and \<open>strconv.ParseInt\<close> answers the
  nearest number with a range error.\<close>

definition asInt64 :: "string \<Rightarrow> int" where
  "asInt64 typed = (let s = TrimSpace typed; digits = (\<lambda>cs. case parse_nat cs of None \<Rightarrow> 0 | Some n \<Rightarrow> int n);
       v = (case s of c # cs \<Rightarrow> if c = CHR ''-'' then - digits cs else if c = CHR ''+'' then digits cs else digits s | [] \<Rightarrow> 0)
     in max (- (2 ^ 63)) (min (2 ^ 63 - 1) v))"

definition similarIssues where
  "similarIssues cfg emb S body = handled enc_SimilarResponse (Similar cfg emb S body)"

definition deleteGroupingProject where
  "deleteGroupingProject S project_id = handled enc_success (sim_DeleteProject S (asInt64 project_id))"

definition deleteGroupingByHash where
  "deleteGroupingByHash S body = handled enc_success (DeleteByHash S body)"

definition dec_lightweight :: "json \<Rightarrow> unit res" where
  "dec_lightweight = dec_struct (\<lambda>ms.
     bindE (field ''organization_id'' dec_int64 0 ms) (\<lambda>org.
     bindE (field ''group_id'' dec_int64 0 ms) (\<lambda>g.
     bindE (field ''project_id'' dec_int64 0 ms) (\<lambda>p.
     bindE (field ''issue'' dec_map_any None ms) (\<lambda>issue. Inr ())))))"

definition supergroupClusterLightweight :: "blob \<Rightarrow> 's \<Rightarrow> response \<times> 's" where
  "supergroupClusterLightweight body s = (case unmarshal dec_lightweight body of
       Inl e \<Rightarrow> (writeError 400 (''decode lightweight cluster request: '' @ err_text e), s)
     | Inr u \<Rightarrow> (success_response, s))"

definition supergroupList where
  "supergroupList S body = handled (\<lambda>items. JObj [(''data'', JArr (map JObj items))]) (sim_ListSupergroups S body)"

section \<open>Feedback, replays, severity, summaries, generation\<close>

definition feedbackSpamDetection where
  "feedbackSpamDetection parse c body = handled (\<lambda>b. JObj [(''is_spam'', JBool b)]) (SpamDetection parse c body)"

definition feedbackLabels where
  "feedbackLabels parse c body = handled (\<lambda>ls. JObj [(''data'', JObj [(''labels'', enc_strings ls)])]) (Labels parse c body)"

definition feedbackTitle where
  "feedbackTitle parse c body = handled (\<lambda>t. JObj [(''title'', JStr t)]) (Title parse c body)"

definition feedbackLabelGroups where
  "feedbackLabelGroups parse c body =
     handled (\<lambda>gs. JObj [(''data'', JArr (map enc_LabelGroupEntry gs))]) (LabelGroups parse c body)"

definition feedbackSummarize where
  "feedbackSummarize parse c body = handled (\<lambda>t. JObj [(''data'', JStr t)]) (Feedback.Summarize parse c body)"

definition replayBreadcrumbsStart where
  "replayBreadcrumbsStart parse c body = handled enc_replayResponse (replay_Start parse c body)"

definition replayBreadcrumbsState where
  "replayBreadcrumbsState c body = handled enc_replayResponse (replay_State c body)"

definition replayBreadcrumbsDelete where
  "replayBreadcrumbsDelete c body = handled enc_success (replay_Delete c body)"

definition severityScore where
  "severityScore parse c body = handled (\<lambda>x. JObj [(''severity'', enc_float x)]) (severity_Score parse c body)"

definition h_summarizeIssue where
  "h_summarizeIssue parse c body = handled enc_SummarizeIssueResponse (SummarizeIssue parse c body)"

definition h_summarizeTrace where
  "h_summarizeTrace parse c body = handled enc_SummarizeTraceResponse (SummarizeTrace parse c body)"

definition h_fixability where
  "h_fixability parse c body = handled enc_SummarizeIssueResponse (Fixability parse c body)"

definition oneshotRun where
  "oneshotRun parse c body = handled (\<lambda>m. JObj [(''result'', enc_anymap m)]) (OneShot parse c body)"

definition unitTestsGenerate where
  "unitTestsGenerate provider c body = handled enc_UnitTestResponse (UnitTests provider c body)"

definition llmGenerate where
  "llmGenerate models c body = handled enc_GenerateResponse (Generate models c body)"

section \<open>Assisted queries\<close>

definition assistedQueryStart where
  "assistedQueryStart index c body = handled (\<lambda>i. JObj [(''run_id'', JNum i)]) (aq_Start index c body)"

definition assistedQueryState where
  "assistedQueryState c body = handled enc_aqSession (aq_State c body)"

definition assistedQueryTranslate where
  "assistedQueryTranslate parse index c body = handled enc_TranslateResponse (Translate parse index c body)"

definition assistedQueryTranslateAgentic where
  "assistedQueryTranslateAgentic parse index c body = handled enc_TranslateResponse (TranslateAgentic parse index c body)"

section \<open>Preferences\<close>

definition projectPreferenceRemoveRepository where
  "projectPreferenceRemoveRepository c body =
     handled (\<lambda>_. enc_success True) (wrapping ''remove repository'' (RemoveRepository c body))"

definition projectPreferenceBulkRemoveRepositories where
  "projectPreferenceBulkRemoveRepositories c body =
     handled (\<lambda>_. enc_success True) (wrapping ''bulk remove repositories'' (BulkRemoveRepositories c body))"

definition projectPreferenceRemoveHandoffsForIntegration where
  "projectPreferenceRemoveHandoffsForIntegration c body =
     handled (\<lambda>_. enc_success True) (wrapping ''remove handoffs for integration'' (RemoveHandoffsForIntegration c body))"

section \<open>Models and simulated endpoints\<close>

definition seerModels :: "string list \<Rightarrow> 's \<Rightarrow> response \<times> 's" where
  "seerModels models s = (writeJSON 200 (JObj [(''models'', enc_strings models)]), s)"

definition serviceMapUpdate :: "blob \<Rightarrow> 's \<Rightarrow> response \<times> 's" where
  "serviceMapUpdate body s = (success_response, s)"

text \<open>A check of the request and a fixed document.\<close>

definition simulated :: "response \<Rightarrow> (json \<Rightarrow> 'a res) \<Rightarrow> string \<Rightarrow> blob \<Rightarrow> 's \<Rightarrow> response \<times> 's" where
  "simulated answer d what body s = (case decodeOptionalJSONBody d body of
       Inl e \<Rightarrow> (writeError 400 (what @ '': '' @ err_text e), s)
     | Inr x \<Rightarrow> (answer, s))"

definition breakpointDetector :: "blob \<Rightarrow> 's \<Rightarrow> response \<times> 's" where
  "breakpointDetector = simulated (writeJSON 200 (JObj [(''data'', JArr [])])) dec_map_any ''decode breakpoint detection request''"

definition assistedQueryCreateCache :: "blob \<Rightarrow> 's \<Rightarrow> response \<times> 's" where
  "assistedQueryCreateCache = simulated success_response any_value ''decode assisted-query create-cache request''"

definition anomalyDetect :: "blob \<Rightarrow> 's \<Rightarrow> response \<times> 's" where
  "anomalyDetect = simulated (writeJSON 200 (JObj [(''success'', JBool True), (''timeseries'', JArr [])])) any_value
     ''decode anomaly detect request''"

definition anomalyAlertData :: "blob \<Rightarrow> 's \<Rightarrow> response \<times> 's" where
  "anomalyAlertData = simulated (writeJSON 200 (JObj [(''data'', JArr []), (''success'', JBool True)])) any_value
     ''decode anomaly alert-data request''"

definition anomalyStore :: "blob \<Rightarrow> 's \<Rightarrow> response \<times> 's" where
  "anomalyStore = simulated success_response any_value ''decode anomaly store request''"

definition anomalyDeleteAlertData :: "blob \<Rightarrow> 's \<Rightarrow> response \<times> 's" where
  "anomalyDeleteAlertData = simulated success_response any_value ''decode anomaly delete-alert-data request''"

definition workflowCompareCohort :: "blob \<Rightarrow> 's \<Rightarrow> response \<times> 's" where
  "workflowCompareCohort = simulated (writeJSON 200 (JObj [(''results'', JArr [])])) any_value ''decode compare cohort request''"

definition codeReviewRerun :: "blob \<Rightarrow> 's \<Rightarrow> response \<times> 's" where
  "codeReviewRerun = simulated success_response any_value ''decode code review rerun request''"

definition codeReviewRequest :: "blob \<Rightarrow> 's \<Rightarrow> response \<times> 's" where
  "codeReviewRequest = simulated success_response any_value ''decode code review request''"

definition codeReviewPRClosed :: "blob \<Rightarrow> 's \<Rightarrow> response \<times> 's" where
  "codeReviewPRClosed = simulated success_response any_value ''decode code review pr-closed request''"

definition prMetricsPRCloseJudge :: "blob \<Rightarrow> 's \<Rightarrow> response \<times> 's" where
  "prMetricsPRCloseJudge = simulated success_response any_value ''decode pr-close-judge request''"

definition issueDetectionAnalyze :: "blob \<Rightarrow> 's \<Rightarrow> response \<times> 's" where
  "issueDetectionAnalyze = simulated (writeJSON 202 (JObj [(''success'', JBool True)])) any_value
     ''decode issue detection analyze request''"

definition issueDetectionCheckBudget :: "blob \<Rightarrow> 's \<Rightarrow> response \<times> 's" where
  "issueDetectionCheckBudget body s = (writeJSON 200 (JObj [(''has_budget'', JBool True)]), s)"

definition health :: "'s \<Rightarrow> response \<times> 's" where
  "health s = (writeJSON 200 (JObj [(''status'', JStr ''ok'')]), s)"

section \<open>Offboarding a repository\<close>

record offboardRequest =
  or_OrganizationID :: int
  or_Provider :: string
  or_RepositoryName :: string

definition dec_offboardRequest :: "json \<Rightarrow> offboardRequest res" where
  "dec_offboardRequest = dec_struct (\<lambda>ms.
     bindE (field ''organization_id'' dec_int64 0 ms) (\<lambda>org.
     bindE (field ''repository_id'' dec_int64 0 ms) (\<lambda>i.
     bindE (field ''provider'' dec_string [] ms) (\<lambda>p.
     bindE (field ''repository_name'' dec_string [] ms) (\<lambda>n.
       Inr \<lparr>or_OrganizationID = org, or_Provider = p, or_RepositoryName = n\<rparr>)))))"

text \<open>\<open>owner/name\<close>, cut at the first slash; without one the owner is empty.\<close>

definition owner_and_name :: "string \<Rightarrow> string \<times> string" where
  "owner_and_name repository = (let owner = takeWhile (\<lambda>c. c \<noteq> CHR ''/'') repository in
     if length owner < length repository then (owner, drop (length owner + 1) repository) else ([], repository))"

text \<open>A failed deletion is logged and answered with success.\<close>

definition offboardRepository :: "store CodeIndex option \<Rightarrow> ctx \<Rightarrow> blob \<Rightarrow> 't world \<Rightarrow> response \<times> 't world" where
  "offboardRepository codeIndex c body w = (case decodeOptionalJSONBody dec_offboardRequest body of
       Inl e \<Rightarrow> (writeError 400 (''decode offboard repository request: '' @ err_text e), w)
     | Inr request \<Rightarrow> (case codeIndex of None \<Rightarrow> (success_response, w)
         | Some ci \<Rightarrow> (case owner_and_name (or_RepositoryName request) of (owner, name) \<Rightarrow>
             (success_response, snd (on_db c (DeleteRepo ci (or_OrganizationID request) (or_Provider request) owner name) w)))))"

section \<open>What offboarding deletes\<close>

definition offboarded_provider :: "'s CodeIndex \<Rightarrow> string \<Rightarrow> string" where
  "offboarded_provider ci p = (case ci_provider ci of Some host \<Rightarrow> if p = [] then gp_Name host else p | None \<Rightarrow> p)"

lemma DeleteRepo_rows:
  assumes "DeleteRepo ci g p owner name s = (r, t)" and "ci_store ci = Some (sqlitevec_store sv)"
  shows "vec_chunks t = vec_chunks s \<or>
    vec_chunks t = filter (\<lambda>ch. \<not> in_repo g (offboarded_provider ci p) owner name ch) (vec_chunks s)"
  using assms
  by (auto simp: DeleteRepo_def offboarded_provider_def sqlitevec_store_def sv_DeleteCodeRepo_def update_def exec_def op_defs
      tick_def Let_def split: if_splits option.splits)

text \<open>Offboarding is always answered with success and deletes at most one repository. For every readable request, whether
  or not the database takes the deletion, the answer is 200; the chunks of the database stay as they are or lose
  exactly those of the named repository of the request's organization, and no run, index task or other goroutine changes.\<close>

theorem offboarding_deletes_one_repository:
  assumes "offboardRepository (Some ci) c body w = (resp, w')" and "ci_store ci = Some (sqlitevec_store sv)"
    and "decodeOptionalJSONBody dec_offboardRequest body = Inr request" and "owner_and_name (or_RepositoryName request) = (owner, name)"
  shows "resp = success_response \<and> mgr w' = mgr w \<and>
    (vec_chunks (db w') = vec_chunks (db w) \<or>
     vec_chunks (db w') = filter (\<lambda>ch. \<not> in_repo (or_OrganizationID request)
        (offboarded_provider ci (or_Provider request)) owner name ch) (vec_chunks (db w)))"
proof -
  let ?m = "DeleteRepo ci (or_OrganizationID request) (or_Provider request) owner name"
  obtain r v where run: "on_db c ?m w = (r, v)" by (cases "on_db c ?m w")
  with assms have w': "w' = v" and resp: "resp = success_response" by (simp_all add: offboardRepository_def)
  have "blind vec_chunks" by (simp add: blind_def)
  from on_db_run [OF run this] obtain s t where "?m s = (r, t)" "vec_chunks s = vec_chunks (db w)" "vec_chunks (db v) = vec_chunks t"
    by blast
  with DeleteRepo_rows [OF this(1) assms(2)] w' resp on_db_frameD [OF run] show ?thesis by simp
qed

definition offboard_body :: blob where
  "offboard_body = Doc (JObj [(''organization_id'', JNum 1), (''provider'', JStr ''github''), (''repository_name'', JStr ''o/r'')])"

definition offboard_index :: "sqlitevec \<Rightarrow> store CodeIndex" where
  "offboard_index sv = ci_New None None (Some (sqlitevec_store sv)) 100 20"

theorem offboarding_deletes_one_repository_witness:
  "\<forall>sv. \<exists>w' :: unit world. offboardRepository (Some (offboard_index sv)) None offboard_body (start_world no_fault (\<lambda>_ _ _. Inr [])) = (success_response, w') \<and>
     vec_chunks (db w') = []"
proof
  fix sv
  let ?w = "start_world no_fault (\<lambda>_ _ _. Inr []) :: unit world"
  obtain resp w' where run: "offboardRepository (Some (offboard_index sv)) None offboard_body ?w = (resp, w')" by (rule prod.exhaust)
  have decoded: "decodeOptionalJSONBody dec_offboardRequest offboard_body =
      Inr \<lparr>or_OrganizationID = 1, or_Provider = ''github'', or_RepositoryName = ''o/r''\<rparr>" by code_simp
  have names: "owner_and_name (or_RepositoryName \<lparr>or_OrganizationID = 1, or_Provider = ''github'', or_RepositoryName = ''o/r''\<rparr>) = (''o'', ''r'')"
    by code_simp
  have st: "ci_store (offboard_index sv) = Some (sqlitevec_store sv)" by (simp add: offboard_index_def ci_New_def Let_def)
  have "vec_chunks (db ?w) = []" by (simp add: start_world_def New_def)
  with offboarding_deletes_one_repository [OF run st decoded names] run
  show "\<exists>w' :: unit world. offboardRepository (Some (offboard_index sv)) None offboard_body ?w = (success_response, w') \<and>
     vec_chunks (db w') = []" by auto
qed

end
