(* ===== verification/PrMetrics.thy ===== *)
theory PrMetrics
  imports Handlers AutofixProps JsonText Utf8
begin

text \<open>
  Which agent opened a pull request (\<open>internal/handler/prMetrics.go\<close>, with the query of
  \<open>internal/db/db.go\<close> it falls back on). The first entry of a map the runtime ranges over is an
  argument.
\<close>

section \<open>Runs that name a pull request\<close>

text \<open>SQLite's \<open>LIKE\<close> over the runes of a text: \<open>%\<close> is any text, \<open>_\<close> any rune, ASCII letters match in
  either case.\<close>

fun like :: "string list \<Rightarrow> string list \<Rightarrow> bool" where
  "like [] s = (s = [])"
| "like (p # ps) s =
     (if p = ''%'' then like ps s \<or> (case s of [] \<Rightarrow> False | _ # t \<Rightarrow> like (p # ps) t)
      else (case s of [] \<Rightarrow> False | c # t \<Rightarrow> (p = ''_'' \<or> ToLower p = ToLower c) \<and> like ps t))"

declare like.simps(2) [simp del]

definition blob_text :: "blob \<Rightarrow> string" where
  "blob_text b = (case b of Blank \<Rightarrow> [] | Garbage s \<Rightarrow> s | Doc j \<Rightarrow> json_text (canon j))"

definition FindAutofixRunByPRURL :: "string \<Rightarrow> (AutofixRunRecord option, store) op" where
  "FindAutofixRunByPRURL url = (if url = [] then ret None
     else wrapping ''find autofix run by pr url'' (query (\<lambda>s. first_row (select_desc af_ID
       (\<lambda>r. like (runes (''%'' @ url @ ''%'')) (runes (blob_text (af_StateJSON r)))) (autofix_runs s)))))"

section \<open>The match\<close>

record DelegatedAgentMatch =
  dm_RunID :: int
  dm_AgentID :: string
  dm_SignalType :: string
  dm_MatchPath :: string

definition enc_DelegatedAgentMatch :: "DelegatedAgentMatch \<Rightarrow> json" where
  "enc_DelegatedAgentMatch m = JObj [(''run_id'', JNum (dm_RunID m)), (''agent_id'', JStr (dm_AgentID m)),
     (''signal_type'', JStr (dm_SignalType m)), (''match_path'', JStr (dm_MatchPath m))]"

definition stringValue :: "json gomap \<Rightarrow> string \<Rightarrow> string" where
  "stringValue source key = (case as_string (map_of source key) of None \<Rightarrow> [] | Some s \<Rightarrow> s)"

definition signalTypeForAgent :: "json gomap \<Rightarrow> string" where
  "signalTypeForAgent agent =
     (let identity = ToLower (Join [stringValue agent ''provider'', stringValue agent ''name''] '' '')
      in if Contains identity ''cursor'' then ''seer_delegated:cursor''
      else if Contains identity ''copilot'' then ''seer_delegated:github_copilot''
      else if Contains identity ''claude'' then ''seer_delegated:claude_code''
      else ''seer_delegated:unknown'')"

definition extractDelegatedMatch ::
  "(json gomap \<Rightarrow> string \<times> json) \<Rightarrow> AutofixRunRecord \<Rightarrow> DelegatedAgentMatch option" where
  "extractDelegatedMatch first record = (let codingAgents = agents_of (raw_map (af_StateJSON record))
     in if codingAgents = [] then None
      else (case first codingAgents of (agentID, agentData) \<Rightarrow>
        Some \<lparr>dm_RunID = af_ID record, dm_AgentID = agentID,
          dm_SignalType = signalTypeForAgent (case as_map (Some agentData) of None \<Rightarrow> [] | Some m \<Rightarrow> m),
          dm_MatchPath = ''coding_agent_state''\<rparr>))"

section \<open>The endpoint\<close>

record matchRequest =
  mr_PullRequestID :: int
  mr_PRURL :: string
  mr_Provider :: string

definition dec_matchRequest :: "json \<Rightarrow> matchRequest res" where
  "dec_matchRequest = dec_struct (\<lambda>ms.
     bindE (field ''organization_id'' dec_int64 0 ms) (\<lambda>org.
     bindE (field ''pull_request_id'' dec_int64 0 ms) (\<lambda>i.
     bindE (field ''pr_url'' dec_string [] ms) (\<lambda>u.
     bindE (field ''provider'' dec_string [] ms) (\<lambda>p.
     bindE (field ''head_branch'' dec_string [] ms) (\<lambda>h.
     bindE (field ''group_ids'' (dec_array dec_int64 0) [] ms) (\<lambda>g.
       Inr \<lparr>mr_PullRequestID = i, mr_PRURL = u, mr_Provider = p\<rparr>)))))))"

text \<open>A lookup that is skipped, fails or finds nothing with an agent gives no match.\<close>

definition lookup_match ::
  "(json gomap \<Rightarrow> string \<times> json) \<Rightarrow> bool \<Rightarrow> ctx \<Rightarrow> (AutofixRunRecord option, store) op \<Rightarrow> 't world \<Rightarrow>
     DelegatedAgentMatch option \<times> 't world" where
  "lookup_match first wanted c search w = (if wanted then
       (case on_db c search w of (Inr (Some record), w1) \<Rightarrow> (extractDelegatedMatch first record, w1) | (_, w1) \<Rightarrow> (None, w1))
     else (None, w))"

definition prMetricsDelegatedAgentMatch ::
  "(json gomap \<Rightarrow> string \<times> json) \<Rightarrow> ctx \<Rightarrow> blob \<Rightarrow> 't world \<Rightarrow> response \<times> 't world" where
  "prMetricsDelegatedAgentMatch first c body w = (case decodeOptionalJSONBody dec_matchRequest body of
       Inl e \<Rightarrow> (writeError 400 (''decode delegated-agent-match request: '' @ err_text e), w)
     | Inr request \<Rightarrow>
        (case lookup_match first (mr_Provider request \<noteq> [] \<and> 0 < mr_PullRequestID request) c
            (GetAutofixRunByPR (mr_Provider request) (mr_PullRequestID request)) w of
           (Some m, w1) \<Rightarrow> (writeJSON 200 (enc_DelegatedAgentMatch m), w1)
         | (None, w1) \<Rightarrow>
            (case lookup_match first (mr_PRURL request \<noteq> []) c (FindAutofixRunByPRURL (mr_PRURL request)) w1 of
               (Some m, w2) \<Rightarrow> (writeJSON 200 (enc_DelegatedAgentMatch m), w2)
             | (None, w2) \<Rightarrow> (writeJSON 202 (JObj [(''success'', JBool True)]), w2))))"

section \<open>Texts that contain a URL\<close>

lemma like_from_start: "like (ps @ [''%'']) (ps @ t)"
proof (induction ps)
  case Nil
  show ?case by (induction t) (simp_all add: like.simps)
next
  case (Cons p ps)
  have "like (p # (ps @ [''%''])) (p # (ps @ t))"
  proof (cases "p = ''%''")
    case True
    have "like (p # (ps @ [''%''])) (ps @ t)" using Cons True by (subst like.simps(2)) simp
    with True show ?thesis by (subst like.simps(2)) simp
  qed (use Cons in \<open>simp add: like.simps(2)\<close>)
  then show ?case by simp
qed

lemma like_anywhere: "like ps t \<Longrightarrow> like (''%'' # ps) (u @ t)"
proof (induction u)
  case Nil
  then show ?case by (simp add: like.simps(2))
next
  case (Cons a u)
  then show ?case by (simp add: like.simps(2) [of "''%''" ps "a # _"])
qed

text \<open>The text before the URL and the one after it are cut off at a rune.\<close>

lemma like_contains:
  assumes "s = u @ url @ v" and "url \<noteq> []" and "\<not> is_cont (hd url)" and "v = [] \<or> \<not> is_cont (hd v)"
  shows "like (runes (''%'' @ url @ ''%'')) (runes s)"
proof -
  have pct: "\<not> is_cont CHR ''%''" by code_simp
  have "runes (url @ v) = runes url @ runes v" using assms(2,4) by (intro runes_append) auto
  moreover have "u \<noteq> [] \<Longrightarrow> runes (u @ url @ v) = runes u @ runes (url @ v)"
    using assms(2,3) by (intro runes_append) (cases url; simp)+
  ultimately have s: "runes s = runes u @ runes url @ runes v" using assms(1) by (cases u) auto
  have "runes (url @ ''%'') = runes url @ runes ''%''" using assms(2) pct by (intro runes_append) simp_all
  moreover have "runes (''%'' @ url @ ''%'') = runes ''%'' @ runes (url @ ''%'')"
    using assms(2,3) by (intro runes_append) (cases url; simp)+
  ultimately have "runes (''%'' @ url @ ''%'') = ''%'' # (runes url @ [''%''])" by simp
  with s like_from_start like_anywhere show ?thesis by simp
qed

section \<open>What the lookups find\<close>

abbreviation names_url :: "string \<Rightarrow> AutofixRunRecord \<Rightarrow> bool" where
  "names_url url r \<equiv> like (runes (''%'' @ url @ ''%'')) (runes (blob_text (af_StateJSON r)))"

lemma query_found:
  assumes "wrapping e (query (\<lambda>s. first_row (select_desc k P (V s)))) s = (Inr (Some r), t)"
  shows "r \<in> set (V s) \<and> P r \<and> (\<forall>x \<in> set (V s). P x \<longrightarrow> k x \<le> k r)"
proof (rule first_desc_greatest)
  show "first_row (select_desc k P (V s)) = Some r"
    using assms by (auto simp: wrapping_def query_def exec_def split: option.splits)
qed

lemma by_pr_found: "GetAutofixRunByPR p i s = (Inr (Some r), t) \<Longrightarrow> r \<in> set (autofix_runs s) \<and> af_Provider r = Some p"
  unfolding GetAutofixRunByPR_def by (drule query_found) blast

lemma by_url_found:
  "FindAutofixRunByPRURL url s = (Inr (Some r), t) \<Longrightarrow>
    r \<in> set (autofix_runs s) \<and> names_url url r \<and> (\<forall>x \<in> set (autofix_runs s). names_url url x \<longrightarrow> af_ID x \<le> af_ID r)"
  unfolding FindAutofixRunByPRURL_def by (cases "url = []") (auto simp: ret_def dest!: query_found)

lemma readonly_finds:
  "readonly autofix_runs (GetAutofixRunByPR p i)" "readonly autofix_runs (FindAutofixRunByPRURL url)"
  unfolding GetAutofixRunByPR_def FindAutofixRunByPRURL_def query_def exec_def
  by (auto simp: readonly_def wrapping_def ret_def tick_def split: option.splits)

lemma blind_autofix_runs [simp]: "blind autofix_runs"
  by (simp add: blind_def)

lemma lookup_match_found:
  assumes "lookup_match first wanted c m w = (Some d, w')"
  shows "\<exists>r s t. m s = (Inr (Some r), t) \<and> autofix_runs s = autofix_runs (db w) \<and> extractDelegatedMatch first r = Some d"
  using assms on_db_run [of c m w _ _ autofix_runs]
  by (fastforce simp: lookup_match_def split: if_splits prod.splits sum.splits option.splits)

lemma lookup_match_keeps:
  assumes "lookup_match first wanted c m w = (x, w')" and "readonly autofix_runs m"
  shows "autofix_runs (db w') = autofix_runs (db w)"
proof (cases wanted)
  case True
  obtain q v where run: "on_db c m w = (q, v)" by (cases "on_db c m w")
  with True assms(1) have "w' = v" by (auto simp: lookup_match_def split: sum.splits option.splits)
  with on_db_run [OF run, of autofix_runs] assms(2) show ?thesis by (auto dest: readonlyD)
qed (use assms(1) in \<open>simp add: lookup_match_def\<close>)

lemma signal_types:
  "signalTypeForAgent agent \<in> {''seer_delegated:cursor'', ''seer_delegated:github_copilot'',
     ''seer_delegated:claude_code'', ''seer_delegated:unknown''}"
  by (simp add: signalTypeForAgent_def Let_def)

lemma extracted_match:
  assumes "extractDelegatedMatch first r = Some d" and "\<And>kvs. kvs \<noteq> [] \<Longrightarrow> first kvs \<in> set kvs"
  shows "\<exists>agentID agentData signal. (agentID, agentData) \<in> set (agents_of (raw_map (af_StateJSON r))) \<and>
    signal \<in> {''seer_delegated:cursor'', ''seer_delegated:github_copilot'', ''seer_delegated:claude_code'', ''seer_delegated:unknown''} \<and>
    d = \<lparr>dm_RunID = af_ID r, dm_AgentID = agentID, dm_SignalType = signal, dm_MatchPath = ''coding_agent_state''\<rparr>"
proof -
  let ?agents = "agents_of (raw_map (af_StateJSON r))"
  from assms(1) have "?agents \<noteq> []" by (auto simp: extractDelegatedMatch_def)
  then have "first ?agents \<in> set ?agents" by (rule assms(2))
  moreover obtain a x where "first ?agents = (a, x)" by (cases "first ?agents")
  ultimately show ?thesis using assms(1) \<open>?agents \<noteq> []\<close> signal_types
    by (auto simp: extractDelegatedMatch_def Let_def)
qed

section \<open>Properties\<close>

text \<open>C27: a match is a match of text. In every state the service reaches no run has a provider, so the lookup by
  provider and number never finds one; the answer names the newest run whose state contains the URL, one of its
  coding agents and one of the four attribution types Sentry knows.\<close>

theorem delegated_match_is_by_url:
  assumes "autofix_reachable w" and "prMetricsDelegatedAgentMatch first c body w = ((200, doc), w')"
    and "\<And>kvs. kvs \<noteq> [] \<Longrightarrow> first kvs \<in> set kvs"
  shows "\<exists>request r agentID agentData signal. decodeOptionalJSONBody dec_matchRequest body = Inr request \<and>
    r \<in> set (autofix_runs (db w)) \<and> names_url (mr_PRURL request) r \<and>
    (\<forall>x \<in> set (autofix_runs (db w)). names_url (mr_PRURL request) x \<longrightarrow> af_ID x \<le> af_ID r) \<and>
    (agentID, agentData) \<in> set (agents_of (raw_map (af_StateJSON r))) \<and>
    signal \<in> {''seer_delegated:cursor'', ''seer_delegated:github_copilot'', ''seer_delegated:claude_code'', ''seer_delegated:unknown''} \<and>
    doc = enc_DelegatedAgentMatch
      \<lparr>dm_RunID = af_ID r, dm_AgentID = agentID, dm_SignalType = signal, dm_MatchPath = ''coding_agent_state''\<rparr>"
proof -
  have no_provider: "af_Provider r = None" if "r \<in> set (autofix_runs (db w))" for r
    using autofix_reachable_inv [OF assms(1)] that by (simp add: autofix_ok_def)
  from assms(2) obtain request where request: "decodeOptionalJSONBody dec_matchRequest body = Inr request"
    by (auto simp: prMetricsDelegatedAgentMatch_def writeError_def writeJSON_def split: sum.splits)
  let ?by_pr = "GetAutofixRunByPR (mr_Provider request) (mr_PullRequestID request)"
  let ?by_url = "FindAutofixRunByPRURL (mr_PRURL request)"
  obtain m1 w1 where one: "lookup_match first (mr_Provider request \<noteq> [] \<and> 0 < mr_PullRequestID request) c ?by_pr w = (m1, w1)"
    by fastforce
  have "m1 = None"
  proof (cases m1)
    case (Some d)
    from lookup_match_found [OF one [unfolded Some]] by_pr_found no_provider show ?thesis by fastforce
  qed
  obtain m2 w2 where two: "lookup_match first (mr_PRURL request \<noteq> []) c ?by_url w1 = (m2, w2)" by fastforce
  from assms(2) request one two \<open>m1 = None\<close> obtain d where "m2 = Some d" and doc: "doc = enc_DelegatedAgentMatch d"
    by (auto simp: prMetricsDelegatedAgentMatch_def writeJSON_def split: option.splits)
  from lookup_match_found [OF two [unfolded \<open>m2 = Some d\<close>]] lookup_match_keeps [OF one readonly_finds(1)]
  obtain r s t where "?by_url s = (Inr (Some r), t)" and runs: "autofix_runs s = autofix_runs (db w)"
    and d: "extractDelegatedMatch first r = Some d" by auto
  from by_url_found [OF this(1)] runs extracted_match [OF d assms(3)] request doc show ?thesis by simp blast
qed

section \<open>A pull request whose number begins with another's\<close>

definition pr_report :: blob where
  "pr_report = Doc (JObj [(''run_id'', JNum 3), (''coding_agent_states'', JArr
     [JObj [(''id'', JStr ''a''), (''provider'', JStr ''Cursor''), (''pr'', JStr ''h/o/r/pull/12'')]])])"

definition pr_world :: "blob world" where
  "pr_world = snd (StoreCodingAgentStates None pr_report agent_world)"

definition match_request :: blob where
  "match_request = Doc (JObj [(''organization_id'', JNum 1), (''provider'', JStr ''github''), (''pull_request_id'', JNum 1),
     (''pr_url'', JStr ''h/o/r/pull/1'')])"

lemma pr_answer: "fst (prMetricsDelegatedAgentMatch hd None match_request pr_world) =
    (200, enc_DelegatedAgentMatch \<lparr>dm_RunID = 3, dm_AgentID = ''a'', dm_SignalType = ''seer_delegated:cursor'',
       dm_MatchPath = ''coding_agent_state''\<rparr>)"
  by code_simp

lemma pr_world_reachable: "autofix_reachable pr_world"
proof -
  have "autofix_reachable agent_world"
    by (rule ar_init) (auto simp: agent_world_def start_world_def New_def mgr_New_def)
  then show ?thesis unfolding pr_world_def by (rule ar_store)
qed

lemma match_request_decoded: "decodeOptionalJSONBody dec_matchRequest match_request =
    Inr \<lparr>mr_PullRequestID = 1, mr_PRURL = ''h/o/r/pull/1'', mr_Provider = ''github''\<rparr>"
  by code_simp

definition pr_run :: AutofixRunRecord where
  "pr_run = hd (autofix_runs (db pr_world))"

lemma pr_run_is: "autofix_runs (db pr_world) = [pr_run]" "af_ID pr_run = 3"
  "blob_text (af_StateJSON pr_run) =
     ''{'' @ string_text ''coding_agents'' @ '':{'' @ string_text ''a'' @ '':{'' @ string_text ''id'' @ '':'' @ string_text ''a'' @ '','' @
     string_text ''pr'' @ '':'' @ CHR 0x22 # ''h/o/r/pull/1'' @ ''2'' @ CHR 0x22 # '','' @ string_text ''provider'' @ '':'' @ string_text ''Cursor'' @
     ''}},'' @ string_text ''updated_at'' @ '':'' @ string_text ''2024-01-01T00:00:00Z'' @ ''}''"
  "agents_of (raw_map (af_StateJSON pr_run)) \<noteq> []"
  by code_simp+

theorem delegated_match_is_by_url_witness:
  "\<exists>r agentID agentData. r \<in> set (autofix_runs (db pr_world)) \<and> names_url ''h/o/r/pull/1'' r \<and>
    (agentID, agentData) \<in> set (agents_of (raw_map (af_StateJSON r)))"
proof -
  obtain w' where "prMetricsDelegatedAgentMatch hd None match_request pr_world =
      ((200, enc_DelegatedAgentMatch \<lparr>dm_RunID = 3, dm_AgentID = ''a'', dm_SignalType = ''seer_delegated:cursor'',
         dm_MatchPath = ''coding_agent_state''\<rparr>), w')"
    using pr_answer by (cases "prMetricsDelegatedAgentMatch hd None match_request pr_world") simp
  from delegated_match_is_by_url [OF pr_world_reachable this] obtain request r agentID agentData
    where request: "decodeOptionalJSONBody dec_matchRequest match_request = Inr request"
      and found: "r \<in> set (autofix_runs (db pr_world))" "names_url (mr_PRURL request) r"
        "(agentID, agentData) \<in> set (agents_of (raw_map (af_StateJSON r)))"
    by force
  from request match_request_decoded have "mr_PRURL request = ''h/o/r/pull/1''" by auto
  from found [unfolded this] show ?thesis by blast
qed

lemma by_url_finds:
  assumes "healthy s" and "r \<in> set (autofix_runs s)" and "names_url url r" and "url \<noteq> []"
    and "\<forall>x \<in> set (autofix_runs s). af_ID r \<le> af_ID x \<longrightarrow> x = r"
  shows "FindAutofixRunByPRURL url s = (Inr (Some r), tick s)"
proof -
  have "first_row (select_desc af_ID (names_url url) (autofix_runs s)) = Some r"
  proof (cases "first_row (select_desc af_ID (names_url url) (autofix_runs s))")
    case None
    then have "set (select_desc af_ID (names_url url) (autofix_runs s)) = {}" by (simp add: first_row_None)
    with assms(2,3) show ?thesis by auto
  next
    case (Some x)
    from first_desc_greatest [OF Some] assms(2,3,5) Some show ?thesis by auto
  qed
  with assms(1,4) show ?thesis by (simp add: FindAutofixRunByPRURL_def wrapping_def query_healthy)
qed

text \<open>C28: a URL matches the URLs it begins. When the newest run has an agent and its state contains the URL of the
  request anywhere, followed by whatever text, a request under a live context is answered with that run: the run of
  pull request 12 is answered for pull request 1.\<close>

theorem url_matches_longer_url:
  assumes "autofix_reachable w" and "healthy (db w)" and "decodeOptionalJSONBody dec_matchRequest body = Inr request"
    and "r \<in> set (autofix_runs (db w))" and "\<forall>x \<in> set (autofix_runs (db w)). af_ID r \<le> af_ID x \<longrightarrow> x = r"
    and "agents_of (raw_map (af_StateJSON r)) \<noteq> []"
    and "blob_text (af_StateJSON r) = u @ mr_PRURL request @ v" and "mr_PRURL request \<noteq> []"
    and "\<not> is_cont (hd (mr_PRURL request))" and "v = [] \<or> \<not> is_cont (hd v)"
  shows "\<exists>d. fst (prMetricsDelegatedAgentMatch first None body w) = (200, enc_DelegatedAgentMatch d) \<and> dm_RunID d = af_ID r"
proof -
  let ?by_pr = "GetAutofixRunByPR (mr_Provider request) (mr_PullRequestID request)"
  let ?wanted = "mr_Provider request \<noteq> [] \<and> 0 < mr_PullRequestID request"
  obtain w1 where one: "lookup_match first ?wanted None ?by_pr w = (None, w1)" and h: "healthy (db w1)"
  proof (cases "lookup_match first ?wanted None ?by_pr w")
    case (Pair m1 w1)
    have "m1 = None"
    proof (cases m1)
      case (Some d)
      from lookup_match_found [OF Pair [unfolded Some]] by_pr_found autofix_reachable_inv [OF assms(1)]
      show ?thesis by (fastforce simp: autofix_ok_def)
    qed
    moreover have "healthy (db w1)"
      using Pair assms(2)
      by (auto simp: lookup_match_def on_db_alive GetAutofixRunByPR_def wrapping_def query_healthy split: if_splits option.splits)
    ultimately show ?thesis using Pair that by simp
  qed
  have "autofix_runs (db w1) = autofix_runs (db w)" by (rule lookup_match_keeps [OF one readonly_finds(1)])
  then have "FindAutofixRunByPRURL (mr_PRURL request) (db w1) = (Inr (Some r), tick (db w1))"
    using by_url_finds [OF h] assms(4,5,8) like_contains [OF assms(7-10)] by simp
  moreover obtain d where "extractDelegatedMatch first r = Some d" "dm_RunID d = af_ID r"
    using assms(6) by (simp add: extractDelegatedMatch_def Let_def case_prod_beta)
  ultimately show ?thesis using one assms(3,8)
    by (auto simp: prMetricsDelegatedAgentMatch_def lookup_match_def [of first True] on_db_alive writeJSON_def)
qed

theorem url_matches_longer_url_witness:
  "\<exists>d. fst (prMetricsDelegatedAgentMatch hd None match_request pr_world) = (200, enc_DelegatedAgentMatch d) \<and> dm_RunID d = 3"
proof -
  have healthy: "healthy (db pr_world)" unfolding pr_world_def
    using driver_healthy [of _ agent_world] driver_Store by (auto simp: readonly_def agent_world_def)
  let ?q = "[CHR 0x22]"
  let ?u = "''{'' @ string_text ''coding_agents'' @ '':{'' @ string_text ''a'' @ '':{'' @ string_text ''id'' @ '':'' @ string_text ''a'' @ '','' @
     string_text ''pr'' @ '':'' @ ?q"
  let ?v = "''2'' @ ?q @ '','' @ string_text ''provider'' @ '':'' @ string_text ''Cursor'' @
     ''}},'' @ string_text ''updated_at'' @ '':'' @ string_text ''2024-01-01T00:00:00Z'' @ ''}''"
  have cont: "\<not> is_cont CHR ''h''" "\<not> is_cont CHR ''2''" by code_simp+
  have run: "pr_run \<in> set (autofix_runs (db pr_world))" "\<forall>x \<in> set (autofix_runs (db pr_world)). af_ID pr_run \<le> af_ID x \<longrightarrow> x = pr_run"
    using pr_run_is(1) by simp_all
  have "blob_text (af_StateJSON pr_run) = ?u @ ''h/o/r/pull/1'' @ ?v" unfolding pr_run_is(3) by simp
  with url_matches_longer_url [OF pr_world_reachable healthy match_request_decoded run pr_run_is(4), of ?u ?v hd] pr_run_is(2) cont
  show ?thesis by simp
qed

end
