(* ===== verification/Mux.thy ===== *)
theory Mux
  imports Handlers
begin

text \<open>
  The route table of \<open>internal/handler/server.go\<close> and the multiplexer of \<open>net/http\<close> it is registered
  with. What a handler does is an argument. A request path is
  taken as it is after the multiplexer's cleaning and unescaping: a path the cleaning changes is redirected
  before any handler runs.
\<close>

section \<open>The table\<close>

text \<open>A handler is named by its method of \<open>Server\<close>.\<close>

type_synonym endpoint = string

text \<open>A handler is registered behind \<^const>\<open>withAuth\<close> or as it is.\<close>

datatype handler = WithAuth endpoint | Open endpoint

text \<open>\<open>Routes\<close> registers these patterns.\<close>

definition Routes :: "(string \<times> handler) list" where
  "Routes = [
     (''GET /health'', Open ''health''),
     (''GET /health/live'', Open ''health''),
     (''GET /health/ready'', Open ''health''),
     (''POST /v1/automation/agent/feature/run'', WithAuth ''agentFeatureRun''),
     (''POST /v1/automation/explorer/chat'', WithAuth ''explorerChat''),
     (''POST /v1/automation/explorer/state'', WithAuth ''explorerState''),
     (''POST /v1/automation/explorer/state/pr'', WithAuth ''explorerStatePR''),
     (''POST /v1/automation/explorer/runs/by-ids'', WithAuth ''explorerRunsByIDs''),
     (''POST /v1/automation/explorer/repos'', WithAuth ''explorerRepos''),
     (''POST /v1/automation/explorer/update'', WithAuth ''explorerUpdate''),
     (''POST /v1/automation/explorer/index'', WithAuth ''explorerIndexGeneric''),
     (''POST /v1/automation/explorer/index/org-repo-knowledge'', WithAuth ''explorerIndexOrgRepo''),
     (''POST /v1/automation/explorer/index/org-project-knowledge'', WithAuth ''explorerIndexProject''),
     (''POST /v1/automation/explorer/index/sentry-knowledge'', WithAuth ''explorerIndexSentryKnowledge''),
     (''POST /v1/automation/explorer/export-indexes'', WithAuth ''explorerExportIndexes''),
     (''POST /v1/explorer/service-map/update'', WithAuth ''serviceMapUpdate''),
     (''POST /v1/automation/autofix/coding-agent/state/set'', WithAuth ''codingAgentStateSet''),
     (''POST /v1/automation/autofix/coding-agent/state/update'', WithAuth ''codingAgentStateUpdate''),
     (''POST /v1/automation/summarize/issue'', WithAuth ''summarizeIssue''),
     (''POST /v1/automation/summarize/trace'', WithAuth ''summarizeTrace''),
     (''POST /v1/automation/summarize/fixability'', WithAuth ''fixability''),
     (''POST /v1/automation/summarize/feedback/spam-detection'', WithAuth ''feedbackSpamDetection''),
     (''POST /v1/automation/summarize/feedback/labels'', WithAuth ''feedbackLabels''),
     (''POST /v1/automation/summarize/feedback/title'', WithAuth ''feedbackTitle''),
     (''POST /v1/automation/summarize/feedback/label-groups'', WithAuth ''feedbackLabelGroups''),
     (''POST /v1/automation/summarize/feedback/summarize'', WithAuth ''feedbackSummarize''),
     (''POST /v1/automation/summarize/replay/breadcrumbs/start'', WithAuth ''replayBreadcrumbsStart''),
     (''POST /v1/automation/summarize/replay/breadcrumbs/state'', WithAuth ''replayBreadcrumbsState''),
     (''POST /v1/automation/summarize/replay/breadcrumbs/delete'', WithAuth ''replayBreadcrumbsDelete''),
     (''POST /v1/automation/investigations'', WithAuth ''investigationCreate''),
     (''POST /v1/automation/investigations/{run_id}/commands'', WithAuth ''investigationCommand''),
     (''GET /v1/automation/investigations/{run_id}'', WithAuth ''investigationGet''),
     (''POST /v1/automation/issue-detection/analyze'', WithAuth ''issueDetectionAnalyze''),
     (''GET /v1/automation/issue-detection/check-budget/{org_id}'', WithAuth ''issueDetectionCheckBudget''),
     (''POST /v1/automation/codegen/unit-tests'', WithAuth ''unitTestsGenerate''),
     (''POST /v1/assisted-query/state'', WithAuth ''assistedQueryState''),
     (''POST /v1/assisted-query/start'', WithAuth ''assistedQueryStart''),
     (''POST /v1/assisted-query/translate'', WithAuth ''assistedQueryTranslate''),
     (''POST /v1/assisted-query/translate-agentic'', WithAuth ''assistedQueryTranslateAgentic''),
     (''POST /v1/assisted-query/create-cache'', WithAuth ''assistedQueryCreateCache''),
     (''POST /v1/anomaly-detection/detect'', WithAuth ''anomalyDetect''),
     (''POST /v1/anomaly-detection/alert-data'', WithAuth ''anomalyAlertData''),
     (''POST /v1/anomaly-detection/store'', WithAuth ''anomalyStore''),
     (''POST /v1/anomaly-detection/delete-alert-data'', WithAuth ''anomalyDeleteAlertData''),
     (''POST /v1/workflows/compare/cohort'', WithAuth ''workflowCompareCohort''),
     (''POST /trends/breakpoint-detector'', WithAuth ''breakpointDetector''),
     (''POST /v1/code_review/check/rerun'', WithAuth ''codeReviewRerun''),
     (''POST /v1/code_review/review-request'', WithAuth ''codeReviewRequest''),
     (''POST /v1/code_review/pr-closed'', WithAuth ''codeReviewPRClosed''),
     (''POST /v1/offboarding/repository'', WithAuth ''offboardRepository''),
     (''POST /v1/pr-metrics/delegated-agent-match'', WithAuth ''prMetricsDelegatedAgentMatch''),
     (''POST /v1/pr-metrics/pr-close-judge'', WithAuth ''prMetricsPRCloseJudge''),
     (''POST /v0/issues/similar-issues'', WithAuth ''similarIssues''),
     (''GET /v0/issues/similar-issues/grouping-record/delete/{project_id}'', WithAuth ''deleteGroupingProject''),
     (''POST /v0/issues/similar-issues/grouping-record/delete-by-hash'', WithAuth ''deleteGroupingByHash''),
     (''POST /v0/issues/supergroups/cluster-lightweight'', WithAuth ''supergroupClusterLightweight''),
     (''POST /v0/issues/supergroups/get'', WithAuth ''supergroupList''),
     (''POST /v0/issues/supergroups/get-by-group-ids'', WithAuth ''supergroupList''),
     (''POST /v0/issues/severity-score'', WithAuth ''severityScore''),
     (''GET /v1/models'', WithAuth ''seerModels''),
     (''POST /v1/llm/generate'', WithAuth ''llmGenerate''),
     (''POST /v1/automation/oneshot/run'', WithAuth ''oneshotRun''),
     (''POST /v1/monitoring-providers/gcp/verify-connection'', WithAuth ''monitoringProviderVerifyConnection''),
     (''POST /v1/project-preference/remove-repository'', WithAuth ''projectPreferenceRemoveRepository''),
     (''POST /v1/project-preference/bulk-remove-repositories'', WithAuth ''projectPreferenceBulkRemoveRepositories''),
     (''POST /v1/project-preference/remove-handoffs-for-integration'', WithAuth ''projectPreferenceRemoveHandoffsForIntegration'')]"

section \<open>Patterns and requests\<close>

text \<open>A segment of a pattern: a literal or a named wildcard.\<close>

datatype pattern_segment = Literal string | Wildcard string

definition segment_of :: "string \<Rightarrow> pattern_segment" where
  "segment_of s = (case s of [] \<Rightarrow> Literal s
     | c # cs \<Rightarrow> if c = CHR ''{'' then Wildcard (butlast cs) else Literal s)"

text \<open>A pattern is a method, a blank and a path that begins with a slash.\<close>

definition parsePattern :: "string \<Rightarrow> string \<times> pattern_segment list" where
  "parsePattern p = (case split_on (CHR '' '') p of
       [verb, path] \<Rightarrow> (verb, map segment_of (tl (split_on (CHR ''/'') path)))
     | _ \<Rightarrow> ([], []))"

text \<open>A wildcard takes one segment that is not empty.\<close>

fun match_segments :: "pattern_segment list \<Rightarrow> string list \<Rightarrow> (string \<times> string) list option" where
  "match_segments [] [] = Some []"
| "match_segments (Literal l # ps) (s # ss) = (if l = s then match_segments ps ss else None)"
| "match_segments (Wildcard x # ps) (s # ss) =
     (if s = [] then None else map_option (Cons (x, s)) (match_segments ps ss))"
| "match_segments _ _ = None"

definition route_table :: "(string \<times> pattern_segment list \<times> handler) list" where
  "route_table = map (\<lambda>(p, h). case parsePattern p of (verb, segs) \<Rightarrow> (verb, segs, h)) Routes"

text \<open>A \<open>GET\<close> pattern serves \<open>HEAD\<close> too.\<close>

definition serves_method :: "string \<Rightarrow> string \<Rightarrow> bool" where
  "serves_method verb wanted \<longleftrightarrow> verb = wanted \<or> verb = ''GET'' \<and> wanted = ''HEAD''"

definition route_matches :: "string \<Rightarrow> string list \<Rightarrow> string \<times> pattern_segment list \<times> handler \<Rightarrow> bool" where
  "route_matches wanted path r = (case r of (verb, segs, h) \<Rightarrow> serves_method verb wanted \<and> match_segments segs path \<noteq> None)"

fun path_values :: "pattern_segment list \<Rightarrow> string list \<Rightarrow> (string \<times> string) list" where
  "path_values segs path = (case match_segments segs path of None \<Rightarrow> [] | Some vs \<Rightarrow> vs)"

text \<open>What the client gets: a document of a handler, or the multiplexer's own text.\<close>

datatype reply = Reply response | TextReply int string

primrec reply_status :: "reply \<Rightarrow> int" where
  "reply_status (Reply r) = fst r"
| "reply_status (TextReply n t) = n"

definition run_handler where
  "run_handler mac secrets parse h vs readBody authorization handler s = (case handler of
       Open e \<Rightarrow> h e vs Blank s
     | WithAuth e \<Rightarrow> withAuth mac secrets parse (h e vs) readBody authorization s)"

text \<open>The multiplexer takes the pattern of the method that matches (\<open>one_match\<close> below shows there is no
  second one); a path only other methods serve is answered 405.\<close>

definition serve where
  "serve mac secrets parse h wanted path readBody authorization s =
     (case filter (route_matches wanted path) route_table of
       (verb, segs, handler) # _ \<Rightarrow>
         (case run_handler mac secrets parse h (path_values segs path) readBody authorization handler s of
            (r, t) \<Rightarrow> (Reply r, t))
     | [] \<Rightarrow> (if list_ex (\<lambda>(verb, segs, handler). match_segments segs path \<noteq> None) route_table
              then TextReply 405 ''Method Not Allowed'' else TextReply 404 ''404 page not found'', s))"

section \<open>No two patterns serve one request\<close>

text \<open>Two patterns of which neither has a literal where the other has a different one.\<close>

fun overlap :: "pattern_segment list \<Rightarrow> pattern_segment list \<Rightarrow> bool" where
  "overlap [] [] = True"
| "overlap (Literal a # p) (Literal b # q) = (if a = b then overlap p q else False)"
| "overlap (x # p) (y # q) = overlap p q"
| "overlap _ _ = False"

definition agree :: "pattern_segment \<Rightarrow> pattern_segment \<Rightarrow> bool" where
  "agree x y \<longleftrightarrow> (\<forall>a b. x = Literal a \<and> y = Literal b \<longrightarrow> a = b)"

lemma overlap_agree: "overlap p q = list_all2 agree p q"
  by (induction p q rule: overlap.induct) (auto simp: agree_def)

lemma overlap_rev: "overlap (rev p) (rev q) = overlap p q"
  by (simp add: overlap_agree list_all2_rev)

lemma overlap_match: "match_segments p path \<noteq> None \<Longrightarrow> match_segments q path \<noteq> None \<Longrightarrow> overlap p q"
proof (induction path arbitrary: p q)
  case Nil
  then show ?case by (auto elim!: match_segments.elims)
next
  case (Cons s path)
  obtain x p' y q' where pq: "p = x # p'" "q = y # q'" using Cons.prems by (auto elim!: match_segments.elims)
  with Cons.prems have "match_segments p' path \<noteq> None" "match_segments q' path \<noteq> None" "agree x y"
    by (cases x; cases y; auto simp: agree_def split: if_splits)+
  with Cons.IH pq show ?case by (simp add: overlap_agree)
qed

text \<open>The last segments of two patterns differ most often.\<close>

definition clash :: "string \<times> pattern_segment list \<times> handler \<Rightarrow> string \<times> pattern_segment list \<times> handler \<Rightarrow> bool" where
  "clash r q = (if overlap (rev (fst (snd r))) (rev (fst (snd q))) then fst r = fst q else False)"

fun conflict_free :: "(string \<times> pattern_segment list \<times> handler) list \<Rightarrow> bool" where
  "conflict_free [] = True"
| "conflict_free (r # rs) = (list_all (\<lambda>q. \<not> clash r q) rs \<and> conflict_free rs)"

lemma table_conflict_free: "conflict_free route_table"
  by code_simp

text \<open>What is not behind \<^const>\<open>withAuth\<close> is a health check.\<close>

definition health_paths :: "string list list" where
  "health_paths = [[''health''], [''health'', ''live''], [''health'', ''ready'']]"

definition guarded :: "string \<times> pattern_segment list \<times> handler \<Rightarrow> bool" where
  "guarded r = (case r of (verb, segs, handler) \<Rightarrow> (verb = ''GET'' \<or> verb = ''POST'') \<and>
     (case handler of WithAuth e \<Rightarrow> True | Open e \<Rightarrow> verb = ''GET'' \<and> list_ex (\<lambda>ls. segs = map Literal ls) health_paths))"

lemma guardedD:
  "guarded r \<Longrightarrow> fst r = ''GET'' \<or> fst r = ''POST''"
  "guarded (verb, segs, Open e) \<Longrightarrow> verb = ''GET'' \<and> (\<exists>ls \<in> set health_paths. segs = map Literal ls)"
  by (auto simp: guarded_def list_ex_iff)

lemma table_guarded: "list_all guarded route_table"
  by code_simp

lemma match_literals: "match_segments (map Literal ls) path = (if path = ls then Some [] else None)"
proof (induction ls arbitrary: path)
  case Nil
  show ?case by (cases path) simp_all
next
  case (Cons l ls)
  then show ?case by (cases path) simp_all
qed

lemma one_match:
  "conflict_free rs \<Longrightarrow> list_all guarded rs \<Longrightarrow> length (filter (route_matches wanted path) rs) \<le> 1"
proof (induction rs)
  case (Cons r rs)
  show ?case
  proof (cases "route_matches wanted path r")
    case True
    have "\<not> route_matches wanted path q" if "q \<in> set rs" for q
    proof
      assume "route_matches wanted path q"
      with True have "overlap (fst (snd r)) (fst (snd q))" and "serves_method (fst r) wanted" "serves_method (fst q) wanted"
        by (auto simp: route_matches_def intro: overlap_match split: prod.splits)
      moreover from Cons.prems(2) that have "fst r \<in> {''GET'', ''POST''}" "fst q \<in> {''GET'', ''POST''}"
        using guardedD(1) by (auto simp: list_all_iff)
      ultimately have "clash r q" by (auto simp: clash_def serves_method_def overlap_rev)
      with Cons.prems(1) that show False by (auto simp: list_all_iff)
    qed
    then have "filter (route_matches wanted path) rs = []" by (simp add: filter_empty_conv)
    with True show ?thesis by simp
  next
    case False
    with Cons show ?thesis by simp
  qed
qed simp

lemma withAuth_refuses:
  assumes "secrets \<noteq> []" and "\<forall>body. readBody = Inr body \<longrightarrow> \<not> signed_by mac body secrets authorization"
  shows "snd (withAuth mac secrets parse f readBody authorization s) = s \<and>
    fst (fst (withAuth mac secrets parse f readBody authorization s)) \<in> {400, 401}"
proof (cases readBody)
  case (Inl e)
  then show ?thesis by (simp add: withAuth_def writeError_def writeJSON_def)
next
  case (Inr body)
  with assms have "VerifyRequest mac body authorization secrets \<noteq> Inr ()" by (simp add: VerifyRequest_accepts)
  then obtain e where "VerifyRequest mac body authorization secrets = Inl e"
    by (cases "VerifyRequest mac body authorization secrets") auto
  with Inr show ?thesis by (simp add: withAuth_def writeError_def writeJSON_def)
qed

section \<open>Properties\<close>

text \<open>The table is unambiguous. For every method and path at most one registered pattern matches, so the registration
  does not panic and the order of the registrations does not matter.\<close>

theorem one_handler_per_request: "length (filter (route_matches wanted path) route_table) \<le> 1"
  by (intro one_match table_conflict_free table_guarded)

text \<open>C7: every endpoint but the health checks is behind the signature. Whatever the handlers do, a request without a
  signature over its body under a configured secret is answered with an error of the client and changes nothing, unless
  it asks for one of the three health paths with GET or HEAD.\<close>

theorem unsigned_request_is_refused:
  assumes "serve mac secrets parse h wanted path readBody authorization s = (reply, t)" and "secrets \<noteq> []"
    and "\<forall>body. readBody = Inr body \<longrightarrow> \<not> signed_by mac body secrets authorization"
  shows "t = s \<and> reply_status reply \<in> {400, 401, 404, 405} \<or>
    (wanted = ''GET'' \<or> wanted = ''HEAD'') \<and> path \<in> set health_paths"
proof (cases "filter (route_matches wanted path) route_table")
  case Nil
  let ?other = "list_ex (\<lambda>(verb, segs, handler). match_segments segs path \<noteq> None) route_table"
  from Nil assms(1) have "t = s"
    and "reply = (if ?other then TextReply 405 ''Method Not Allowed'' else TextReply 404 ''404 page not found'')"
    by (simp_all add: serve_def)
  then show ?thesis by (cases ?other) simp_all
next
  case (Cons r rs)
  obtain verb segs handler where r: "r = (verb, segs, handler)" by (cases r)
  have "r \<in> set (filter (route_matches wanted path) route_table)" using Cons by simp
  then have r_in: "r \<in> set route_table" and match: "route_matches wanted path r" by simp_all
  show ?thesis
  proof (cases handler)
    case (Open e)
    have "guarded r" using r_in table_guarded by (simp add: list_all_iff)
    with r Open obtain ls where "verb = ''GET''" "ls \<in> set health_paths" "segs = map Literal ls"
      using guardedD(2) by blast
    with match r show ?thesis by (auto simp: route_matches_def serves_method_def match_literals split: if_splits)
  next
    case (WithAuth e)
    let ?guarded = "withAuth mac secrets parse (h e (path_values segs path)) readBody authorization s"
    have "snd ?guarded = s \<and> fst (fst ?guarded) \<in> {400, 401}"
      by (rule withAuth_refuses [OF assms(2,3)])
    moreover from Cons r WithAuth assms(1) have "reply = Reply (fst ?guarded)" "t = snd ?guarded"
      by (simp_all add: serve_def run_handler_def case_prod_beta)
    ultimately show ?thesis by auto
  qed
qed

definition counting :: "endpoint \<Rightarrow> (string \<times> string) list \<Rightarrow> blob \<Rightarrow> nat \<Rightarrow> response \<times> nat" where
  "counting e vs b n = (success_response, Suc n)"

theorem unsigned_request_is_refused_witness:
  "\<exists>reply t. serve (\<lambda>_ _. [CHR 0x0A]) [''k''] Garbage counting ''GET'' [''v1'', ''models''] (Inr []) [] (0 :: nat) = (reply, t) \<and>
     t = 0 \<and> reply_status reply \<in> {400, 401, 404, 405}"
proof -
  let ?serve = "serve (\<lambda>_ _. [CHR 0x0A]) [''k''] Garbage counting ''GET'' [''v1'', ''models''] (Inr []) [] (0 :: nat)"
  obtain reply t where run: "?serve = (reply, t)" by (cases ?serve)
  have "\<forall>body. (Inr [] :: string res) = Inr body \<longrightarrow> \<not> signed_by (\<lambda>_ _. [CHR 0x0A]) body [''k''] []"
    by (simp add: signed_by_def)
  from unsigned_request_is_refused [OF run _ this] run show ?thesis by (simp add: health_paths_def)
qed

end
