(* ===== verification/Clients.thy ===== *)
theory Clients
  imports GitHub Config Float64 Db
begin

text \<open>
  The clients of the model providers: chat completion (\<open>internal/llm/openaicompat.go\<close>,
  \<open>anthropic.go\<close>, the stub of \<open>factory.go\<close>) and embedding (\<open>internal/embedding/openaicompat.go\<close>,
  \<open>factory.go\<close>), over a transport. A client's state is the rotation over its models and the
  outside. SHA-256 is an argument.
\<close>

section \<open>Single precision\<close>

text \<open>\<open>float32\<close>: 24 significant bits, and no less than \<open>2^-149\<close>.\<close>

definition last_place32 :: "rat \<Rightarrow> int" where
  "last_place32 x = max (binade \<bar>x\<bar> - 23) (- 149)"

definition rounded32 :: "rat \<Rightarrow> rat" where
  "rounded32 x = (if x = 0 then 0 else of_int (half_even (x / two_to (last_place32 x))) * two_to (last_place32 x))"

definition max_float32 :: rat where
  "max_float32 = (2 ^ 24 - 1) * two_to 104"

definition finite_float32 :: "rat \<Rightarrow> rat res" where
  "finite_float32 x = (if \<bar>rounded32 x\<bar> \<le> max_float32 then Inr (rounded32 x) else Inl dec_err)"

fun dec_float32 :: "json \<Rightarrow> rat res" where
  "dec_float32 (JNum n) = finite_float32 (of_int n)"
| "dec_float32 (JDec s) = (case decimal s of None \<Rightarrow> Inl dec_err | Some x \<Rightarrow> finite_float32 x)"
| "dec_float32 _ = Inl dec_err"

text \<open>\<open>math.Sqrt\<close>: the root of a positive number to sixty bits, a half standing for what is cut off,
  and rounded.\<close>

fun isqrt :: "int \<Rightarrow> int" where
  "isqrt n = (if n \<le> 0 then 0 else let r = 2 * isqrt (n div 4) in if (r + 1) * (r + 1) \<le> n then r + 1 else r)"

declare isqrt.simps [simp del]

definition math_Sqrt :: "rat \<Rightarrow> rat" where
  "math_Sqrt x = (if x \<le> 0 then 0 else
     let k = 60 - binade x div 2; y = x * two_to (2 * k); r = isqrt \<lfloor>y\<rfloor>
     in rounded ((if of_int (r * r) = y then of_int r else of_int r + 1 / 2) * two_to (- k)))"

section \<open>A call of an API\<close>

text \<open>Building the request, sending it, reading the answer, and the status.\<close>

definition call_api :: "'w transport \<Rightarrow> string \<Rightarrow> http_request \<Rightarrow> (string, 'w) op" where
  "call_api t what rq = (case tr_refuses t (hq_URL rq) of
       Some e \<Rightarrow> fail (wrap (''build '' @ what @ '' request'') e)
     | None \<Rightarrow> andThen (wrapping (''call '' @ what @ '' API'') (tr_do t rq)) (\<lambda>resp.
         case hs_BodyErr resp of
           Some e \<Rightarrow> fail (wrap (''read '' @ what @ '' response'') e)
         | None \<Rightarrow> if hs_Status resp \<ge> 400
             then fail (errorf (what @ '' API returned '' @ FormatInt (hs_Status resp) @ '': '' @ TrimSpace (hs_Body resp)))
             else ret (hs_Body resp)))"

definition decoded_api :: "'w transport \<Rightarrow> string \<Rightarrow> (json \<Rightarrow> 'a res) \<Rightarrow> string \<Rightarrow> 'a res" where
  "decoded_api t what d body = (case unmarshal d (tr_json t body) of
       Inl e \<Rightarrow> Inl (wrap (''decode '' @ what @ '' response'') e)
     | Inr x \<Rightarrow> Inr x)"

record 'w apiClient =
  ac_httpClient :: "'w transport"
  ac_baseURL :: string
  ac_apiKey :: string
  ac_httpReferer :: string

text \<open>A call first takes the next model.\<close>

definition with_model :: "(string \<Rightarrow> ('a, 'w) op) \<Rightarrow> ('a, ModelSelector \<times> 'w) op" where
  "with_model f = (\<lambda>(sel, w). case Next sel of (model, sel') \<Rightarrow> (case f model w of (r, w') \<Rightarrow> (r, (sel', w'))))"

text \<open>The headers of the OpenAI-compatible APIs.\<close>

definition bearer_headers :: "'w apiClient \<Rightarrow> (string \<times> string) list" where
  "bearer_headers c = [(''Content-Type'', ''application/json'')] @
     (if ac_apiKey c = [] then [] else [(''Authorization'', ''Bearer '' @ ac_apiKey c)]) @
     (if ac_httpReferer c = [] then [] else [(''HTTP-Referer'', ac_httpReferer c)])"

section \<open>OpenAI-compatible chat completion\<close>

definition NewOpenAICompatClient :: "string \<Rightarrow> string \<Rightarrow> string \<Rightarrow> 'w transport \<Rightarrow> 'w apiClient" where
  "NewOpenAICompatClient baseURL apiKey httpReferer httpClient =
     \<lparr>ac_httpClient = httpClient, ac_baseURL = trim_right CHR ''/'' baseURL, ac_apiKey = apiKey, ac_httpReferer = httpReferer\<rparr>"

definition chatMessage :: "string \<Rightarrow> string \<Rightarrow> json" where
  "chatMessage role content = JObj [(''role'', JStr role), (''content'', json_string content)]"

text \<open>\<open>omitempty\<close> drops a number that is zero. A temperature is the decimal it is written as.\<close>

definition nonzero_temperature :: "string \<Rightarrow> json option" where
  "nonzero_temperature s = (if decimal s = Some 0 then None else Some (JDec s))"

definition chatCompletionRequest :: "string \<Rightarrow> CompletionRequest \<Rightarrow> json" where
  "chatCompletionRequest model req = object [(''model'', Some (json_string model)),
     (''messages'', Some (JArr [chatMessage ''system'' (cr_SystemPrompt req), chatMessage ''user'' (cr_UserPrompt req)])),
     (''temperature'', nonzero_temperature (cr_Temperature req)),
     (''max_tokens'', if cr_MaxTokens req = 0 then None else Some (JNum (cr_MaxTokens req)))]"

definition dec_chatMessage :: "json \<Rightarrow> string res" where
  "dec_chatMessage = dec_struct (\<lambda>ms.
     bindE (field ''role'' dec_string [] ms) (\<lambda>r. field ''content'' dec_string [] ms))"

definition dec_chatCompletionResponse :: "json \<Rightarrow> string list res" where
  "dec_chatCompletionResponse = dec_struct (field ''choices'' (dec_array (dec_struct (field ''message'' dec_chatMessage [])) []) [])"

definition first_choice :: "string list \<Rightarrow> string res" where
  "first_choice choices = (case choices of [] \<Rightarrow> Inl (errorf ''chat completion API returned no choices'') | x # _ \<Rightarrow> Inr x)"

definition chat_http_request :: "'w apiClient \<Rightarrow> string \<Rightarrow> CompletionRequest \<Rightarrow> http_request" where
  "chat_http_request c model req = \<lparr>hq_Method = ''POST'', hq_URL = ac_baseURL c @ ''/chat/completions'',
     hq_Headers = bearer_headers c, hq_Body = Some (chatCompletionRequest model req)\<rparr>"

definition openai_Complete :: "'w apiClient \<Rightarrow> CompletionRequest \<Rightarrow> (string, ModelSelector \<times> 'w) op" where
  "openai_Complete c req = with_model (\<lambda>model.
     andThen (call_api (ac_httpClient c) ''chat completion'' (chat_http_request c model req)) (\<lambda>body.
     liftE (bindE (decoded_api (ac_httpClient c) ''chat completion'' dec_chatCompletionResponse body) first_choice)))"

section \<open>Anthropic messages\<close>

definition NewAnthropicClient :: "string \<Rightarrow> string \<Rightarrow> 'w transport \<Rightarrow> 'w apiClient" where
  "NewAnthropicClient baseURL apiKey httpClient =
     \<lparr>ac_httpClient = httpClient,
      ac_baseURL = trim_right CHR ''/'' (if TrimSpace baseURL = [] then ''https://api.anthropic.com/v1'' else baseURL),
      ac_apiKey = apiKey, ac_httpReferer = []\<rparr>"

definition anthropicRequest :: "string \<Rightarrow> CompletionRequest \<Rightarrow> json" where
  "anthropicRequest model req = object [(''model'', Some (json_string model)),
     (''system'', if cr_SystemPrompt req = [] then None else Some (json_string (cr_SystemPrompt req))),
     (''max_tokens'', Some (JNum (cr_MaxTokens req))), (''messages'', Some (JArr [chatMessage ''user'' (cr_UserPrompt req)]))]"

definition dec_anthropicResponse :: "json \<Rightarrow> (string \<times> string) list res" where
  "dec_anthropicResponse = dec_struct (field ''content'' (dec_array (dec_struct (\<lambda>ms.
     bindE (field ''type'' dec_string [] ms) (\<lambda>ty.
     bindE (field ''text'' dec_string [] ms) (\<lambda>tx. Inr (ty, tx))))) ([], [])) [])"

fun first_text :: "(string \<times> string) list \<Rightarrow> string res" where
  "first_text [] = Inl (errorf ''anthropic API returned no text content'')"
| "first_text ((ty, tx) # parts) = (if ty = ''text'' \<and> TrimSpace tx \<noteq> [] then Inr tx else first_text parts)"

definition anthropic_http_request :: "'w apiClient \<Rightarrow> string \<Rightarrow> CompletionRequest \<Rightarrow> http_request" where
  "anthropic_http_request c model req = \<lparr>hq_Method = ''POST'', hq_URL = ac_baseURL c @ ''/messages'',
     hq_Headers = [(''Content-Type'', ''application/json''), (''x-api-key'', ac_apiKey c), (''anthropic-version'', ''2023-06-01'')],
     hq_Body = Some (anthropicRequest model req)\<rparr>"

definition anthropic_Complete :: "'w apiClient \<Rightarrow> CompletionRequest \<Rightarrow> (string, ModelSelector \<times> 'w) op" where
  "anthropic_Complete c req = with_model (\<lambda>model.
     andThen (call_api (ac_httpClient c) ''anthropic'' (anthropic_http_request c model req)) (\<lambda>body.
     liftE (bindE (decoded_api (ac_httpClient c) ''anthropic'' dec_anthropicResponse body) first_text)))"

section \<open>The configured chat client\<close>

definition stub_Complete :: "CompletionRequest \<Rightarrow> (string, ModelSelector \<times> 'w) op" where
  "stub_Complete req = ret (''Stub provider response:'' @ newline @ newline @ TrimSpace (cr_UserPrompt req))"

definition llm_New :: "Config \<Rightarrow> 'w transport \<Rightarrow> (CompletionRequest \<Rightarrow> (string, ModelSelector \<times> 'w) op) res" where
  "llm_New cfg httpClient = (let provider = ToLower (cfg_LLMProvider cfg) in
     if provider = [] \<or> provider = ''stub'' then Inr stub_Complete
     else if provider = ''openai'' then Inr (openai_Complete
       (NewOpenAICompatClient ''https://api.openai.com/v1'' (cfg_LLMAPIKey cfg) (cfg_HTTPReferer cfg) httpClient))
     else if provider = ''openrouter'' \<or> provider = ''custom'' then Inr (openai_Complete
       (NewOpenAICompatClient (cfg_LLMBaseURL cfg) (cfg_LLMAPIKey cfg) (cfg_HTTPReferer cfg) httpClient))
     else if provider = ''anthropic'' then Inr (anthropic_Complete
       (NewAnthropicClient (cfg_LLMBaseURL cfg) (cfg_LLMAPIKey cfg) httpClient))
     else Inl (errorf (''unsupported LLM provider '' @ Quote (cfg_LLMProvider cfg))))"

section \<open>Embeddings\<close>

definition embeddingRequest :: "string \<Rightarrow> string list \<Rightarrow> json" where
  "embeddingRequest model texts = JObj [(''model'', json_string model), (''input'', JArr (map json_string texts))]"

definition dec_embeddingResponse :: "json \<Rightarrow> vector list res" where
  "dec_embeddingResponse = dec_struct (field ''data''
     (dec_array (dec_struct (field ''embedding'' (dec_array dec_float32 0) [])) []) [])"

definition embedding_http_request :: "'w apiClient \<Rightarrow> string \<Rightarrow> string list \<Rightarrow> http_request" where
  "embedding_http_request c model texts = \<lparr>hq_Method = ''POST'', hq_URL = ac_baseURL c @ ''/embeddings'',
     hq_Headers = bearer_headers c, hq_Body = Some (embeddingRequest model texts)\<rparr>"

definition openai_EmbedTexts :: "'w apiClient \<Rightarrow> string list \<Rightarrow> (vector list, ModelSelector \<times> 'w) op" where
  "openai_EmbedTexts c texts = with_model (\<lambda>model.
     andThen (call_api (ac_httpClient c) ''embedding'' (embedding_http_request c model texts)) (\<lambda>body.
     liftE (decoded_api (ac_httpClient c) ''embedding'' dec_embeddingResponse body)))"

text \<open>The stub: entry \<open>i\<close> is the first four bytes of a hash of \<open>i\<close> and the text, scaled to -1..1.
  The dimensions are not negative.\<close>

definition big_endian32 :: "string \<Rightarrow> nat" where
  "big_endian32 s = foldl (\<lambda>n c. 256 * n + of_char c) 0 (take 4 s)"

definition stub_entry :: "(string \<Rightarrow> string) \<Rightarrow> string \<Rightarrow> int \<Rightarrow> rat" where
  "stub_entry sha256 t i =
     (let value = fdiv (of_nat (big_endian32 (sha256 (FormatInt i @ '':'' @ t)))) 4294967295
      in rounded32 (fsub (fmul value 2) 1))"

definition normalize :: "vector \<Rightarrow> vector" where
  "normalize vec = (let total = foldl (\<lambda>acc v. fadd acc (rounded32 (v * v))) 0 vec in
     if total = 0 then vec else (let magnitude = rounded32 (math_Sqrt total) in map (\<lambda>v. rounded32 (v / magnitude)) vec))"

definition stub_EmbedTexts :: "(string \<Rightarrow> string) \<Rightarrow> int \<Rightarrow> string list \<Rightarrow> (vector list, ModelSelector \<times> 'w) op" where
  "stub_EmbedTexts sha256 dimensions texts =
     ret (map (\<lambda>t. normalize (map (stub_entry sha256 t) [0..dimensions - 1])) texts)"

definition embedding_New ::
  "(string \<Rightarrow> string) \<Rightarrow> Config \<Rightarrow> 'w transport \<Rightarrow> (string list \<Rightarrow> (vector list, ModelSelector \<times> 'w) op) res" where
  "embedding_New sha256 cfg httpClient = (let provider = ToLower (cfg_EmbeddingProvider cfg) in
     if provider = [] \<or> provider = ''stub'' then Inr (stub_EmbedTexts sha256 (cfg_EmbeddingDimensions cfg))
     else if provider = ''openai'' then Inr (openai_EmbedTexts
       (NewOpenAICompatClient ''https://api.openai.com/v1'' (cfg_EmbeddingAPIKey cfg) (cfg_HTTPReferer cfg) httpClient))
     else if provider = ''openrouter'' \<or> provider = ''custom'' then Inr (openai_EmbedTexts
       (NewOpenAICompatClient (cfg_EmbeddingBaseURL cfg) (cfg_EmbeddingAPIKey cfg) (cfg_HTTPReferer cfg) httpClient))
     else Inl (errorf (''unsupported embedding provider '' @ Quote (cfg_EmbeddingProvider cfg))))"

section \<open>The root is the root\<close>

lemma isqrt_spec: "0 \<le> n \<Longrightarrow> 0 \<le> isqrt n \<and> isqrt n * isqrt n \<le> n \<and> n < (isqrt n + 1) * (isqrt n + 1)"
proof (induction n rule: isqrt.induct)
  case (1 n)
  show ?case
  proof (cases "n = 0")
    case True
    then show ?thesis by (simp add: isqrt.simps)
  next
    case False
    with 1(2) have "\<not> n \<le> 0" by simp
    define q where "q = isqrt (n div 4)"
    from 1(1) [OF \<open>\<not> n \<le> 0\<close>] 1(2) have q: "0 \<le> q" "q * q \<le> n div 4" "n div 4 < (q + 1) * (q + 1)"
      by (simp_all add: q_def)
    from q(2) have low: "(2 * q) * (2 * q) \<le> n" by simp
    have "n < 4 * (n div 4 + 1)" by simp
    also have "\<dots> \<le> 4 * ((q + 1) * (q + 1))" using q(3) by simp
    finally have high: "n < (2 * q + 2) * (2 * q + 2)" by (simp add: algebra_simps)
    have "isqrt n = (if (2 * q + 1) * (2 * q + 1) \<le> n then 2 * q + 1 else 2 * q)"
      using \<open>\<not> n \<le> 0\<close> by (subst isqrt.simps) (simp add: q_def Let_def)
    with low high q(1) show ?thesis by (auto simp: algebra_simps)
  qed
qed

lemma math_Sqrt_examples: "math_Sqrt 4 = 2" "math_Sqrt (1 / 4) = 1 / 2" "math_Sqrt 2 = 6369051672525773 / 4503599627370496"
  by code_simp+

section \<open>The stub's vectors fit a store of its dimensions\<close>

lemma length_normalize [simp]: "length (normalize v) = length v"
  by (simp add: normalize_def Let_def)

lemma stub_shape:
  "stub_EmbedTexts sha256 d texts s = (Inr vs, t) \<Longrightarrow> 0 \<le> d \<Longrightarrow> length vs = length texts \<and> (\<forall>v \<in> set vs. length v = nat d)"
  by (auto simp: stub_EmbedTexts_def)

section \<open>A call makes one request\<close>

text \<open>The calls of one client, one after the other, whatever they answer.\<close>

fun calls :: "('b \<Rightarrow> ('a, 's) op) \<Rightarrow> 'b list \<Rightarrow> 's \<Rightarrow> 's" where
  "calls f [] s = s"
| "calls f (x # xs) s = calls f xs (snd (f x s))"

lemma call_api_logs:
  assumes "tr_refuses t (hq_URL rq) = None"
  shows "\<exists>r w'. call_api (logging t) what rq (w, sent) = (r, (w', sent @ [rq]))"
  using assms by (cases "tr_do t rq w") (auto simp: call_api_def logging_def op_defs split: sum.splits option.splits)

lemma one_request:
  assumes "\<And>u. tr_refuses t u = None"
  shows "\<exists>w'. snd (with_model (\<lambda>m. andThen (call_api (logging t) what (rq m)) (\<lambda>b. liftE (h b))) (sel, (w, sent))) =
    (snd (Next sel), (w', sent @ [rq (fst (Next sel))]))"
proof -
  obtain r w' where "call_api (logging t) what (rq (fst (Next sel))) (w, sent) = (r, (w', sent @ [rq (fst (Next sel))]))"
    using call_api_logs [OF assms] by blast
  then show ?thesis by (cases "Next sel") (auto simp: with_model_def op_defs split: sum.splits)
qed

lemma requests_in_turn:
  assumes "\<And>u. tr_refuses t u = None"
    and "\<And>x. f x = with_model (\<lambda>m. andThen (call_api (logging t) what (rq m x)) (\<lambda>b. liftE (h b)))"
  shows "snd (snd (calls f xs (sel, (w, sent)))) = sent @ map2 rq (picks (length xs) sel) xs"
proof (induction xs arbitrary: sel w sent)
  case (Cons x xs)
  obtain w' where "snd (f x (sel, (w, sent))) = (snd (Next sel), (w', sent @ [rq (fst (Next sel)) x]))"
    using one_request [OF assms(1), of what "\<lambda>m. rq m x" h sel w sent] assms(2) by auto
  with Cons show ?case by (simp add: case_prod_beta)
qed simp

text \<open>A post to \<open>url\<close> whose body names the model and has the members given.\<close>

definition posts :: "string \<Rightarrow> string \<Rightarrow> (string \<times> json) list \<Rightarrow> http_request \<Rightarrow> bool" where
  "posts url model members rq \<longleftrightarrow> hq_Method rq = ''POST'' \<and> hq_URL rq = url \<and>
     (case hq_Body rq of Some (JObj ms) \<Rightarrow> map_of ms ''model'' = Some (json_string model) \<and>
        list_all (\<lambda>(k, v). map_of ms k = Some v) members | _ \<Rightarrow> False)"

lemma requests_nth:
  assumes "\<And>u. tr_refuses t u = None"
    and "\<And>x. f x = with_model (\<lambda>m. andThen (call_api (logging t) what (rq m x)) (\<lambda>b. liftE (h b)))"
    and "ms_models sel \<noteq> []" and "length (ms_models sel) < 2 ^ 64" and "unat (ms_counter sel) + length xs \<le> 2 ^ 64"
  shows "snd (snd (calls f xs (sel, (w, [])))) =
    map (\<lambda>k. rq (ms_models sel ! ((unat (ms_counter sel) + k) mod length (ms_models sel))) (xs ! k)) [0..<length xs]"
  unfolding requests_in_turn [OF assms(1,2)] picks_nth [OF assms(3-5)]
  by (rule nth_equalityI) simp_all

lemma posts_chat: "posts (ac_baseURL c @ ''/chat/completions'') model [(''messages'', JArr
     [JObj [(''role'', JStr ''system''), (''content'', json_string (cr_SystemPrompt r))],
      JObj [(''role'', JStr ''user''), (''content'', json_string (cr_UserPrompt r))]])] (chat_http_request c model r)"
  by (simp add: posts_def chat_http_request_def chatCompletionRequest_def object_def object_members_def chatMessage_def)

lemma posts_anthropic: "posts (ac_baseURL c @ ''/messages'') model [(''max_tokens'', JNum (cr_MaxTokens r)), (''messages'', JArr
     [JObj [(''role'', JStr ''user''), (''content'', json_string (cr_UserPrompt r))]])] (anthropic_http_request c model r)"
  by (simp add: posts_def anthropic_http_request_def anthropicRequest_def object_def object_members_def chatMessage_def)

lemma posts_embedding: "posts (ac_baseURL c @ ''/embeddings'') model [(''input'', JArr (map json_string ts))]
    (embedding_http_request c model ts)"
  by (simp add: posts_def embedding_http_request_def embeddingRequest_def)

text \<open>The model of the \<open>k\<close>-th request of a client: the configured ones take turns from where the rotation stands.\<close>

definition turn :: "ModelSelector \<Rightarrow> nat \<Rightarrow> string" where
  "turn sel k = ms_models sel ! ((unat (ms_counter sel) + k) mod length (ms_models sel))"

text \<open>Every call of an operation posts one body with the right model and key.\<close>

lemma calls_post:
  assumes "\<And>u. tr_refuses t u = None"
    and "\<And>x. f x = with_model (\<lambda>m. andThen (call_api (logging t) what (rq m x)) (\<lambda>b. liftE (h b)))"
    and "ms_models sel \<noteq> []" and "length (ms_models sel) < 2 ^ 64" and "unat (ms_counter sel) + length xs \<le> 2 ^ 64"
    and "\<And>m x. posts url m (members x) (rq m x) \<and> Q (hq_Headers (rq m x))"
  shows "list_all2 (\<lambda>k r. posts url (turn sel k) (members (xs ! k)) r \<and> Q (hq_Headers r))
    [0..<length xs] (snd (snd (calls f xs (sel, (w, [])))))"
  unfolding requests_nth [OF assms(1-5)] using assms(6) by (simp add: list_all2_map2 list_all2_same turn_def)

text \<open>A provider that never answers.\<close>

definition quiet :: "unit transport" where
  "quiet = \<lparr>tr_refuses = (\<lambda>_. None), tr_do = (\<lambda>_. fail (errorf ''timeout'')), tr_json = Garbage, tr_authority = (\<lambda>_. True)\<rparr>"

definition ping :: CompletionRequest where
  "ping = \<lparr>cr_SystemPrompt = [], cr_UserPrompt = ''ping'', cr_Temperature = ''0'', cr_MaxTokens = 1\<rparr>"

section \<open>Properties\<close>

text \<open>C35: the configured models take turns. Whatever the provider answers, a client makes one post per call, in the
  order of the calls: to the chat completions, messages or embeddings path under the base URL it was made
  with (trailing slashes dropped, the public one of Anthropic for a blank one), with its key, the prompts or
  texts of that call, and the model whose turn it is, the \<open>k\<close>-th after where the rotation stands in the
  configured order, from the start again after the last.\<close>

theorem requests_take_models_in_turn:
  fixes t :: "'w transport"
  assumes "\<And>u. tr_refuses t u = None" and "ms_models sel \<noteq> []" and "length (ms_models sel) < 2 ^ 64"
    and "unat (ms_counter sel) + length reqs \<le> 2 ^ 64" and "unat (ms_counter sel) + length texts \<le> 2 ^ 64"
  shows "list_all2 (\<lambda>k rq. posts (trim_right CHR ''/'' base @ ''/chat/completions'') (turn sel k)
        [(''messages'', JArr [JObj [(''role'', JStr ''system''), (''content'', json_string (cr_SystemPrompt (reqs ! k)))],
           JObj [(''role'', JStr ''user''), (''content'', json_string (cr_UserPrompt (reqs ! k)))]])] rq \<and>
        (key = [] \<or> (''Authorization'', ''Bearer '' @ key) \<in> set (hq_Headers rq)))
      [0..<length reqs] (snd (snd (calls (openai_Complete (NewOpenAICompatClient base key referer (logging t))) reqs (sel, (w, []))))) \<and>
    list_all2 (\<lambda>k rq. posts (trim_right CHR ''/'' (if TrimSpace base = [] then ''https://api.anthropic.com/v1'' else base) @ ''/messages'')
        (turn sel k) [(''max_tokens'', JNum (cr_MaxTokens (reqs ! k))),
         (''messages'', JArr [JObj [(''role'', JStr ''user''), (''content'', json_string (cr_UserPrompt (reqs ! k)))]])] rq \<and>
        (''x-api-key'', key) \<in> set (hq_Headers rq))
      [0..<length reqs] (snd (snd (calls (anthropic_Complete (NewAnthropicClient base key (logging t))) reqs (sel, (w, []))))) \<and>
    list_all2 (\<lambda>k rq. posts (trim_right CHR ''/'' base @ ''/embeddings'') (turn sel k)
        [(''input'', JArr (map json_string (texts ! k)))] rq \<and>
        (key = [] \<or> (''Authorization'', ''Bearer '' @ key) \<in> set (hq_Headers rq)))
      [0..<length texts] (snd (snd (calls (openai_EmbedTexts (NewOpenAICompatClient base key referer (logging t))) texts (sel, (w, [])))))"
proof (intro conjI)
  let ?c = "NewOpenAICompatClient base key referer (logging t)" and ?a = "NewAnthropicClient base key (logging t)"
  have c: "ac_httpClient ?c = logging t" "ac_baseURL ?c = trim_right CHR ''/'' base" "ac_apiKey ?c = key"
    by (simp_all add: NewOpenAICompatClient_def)
  have a: "ac_httpClient ?a = logging t" "ac_apiKey ?a = key"
    "ac_baseURL ?a = trim_right CHR ''/'' (if TrimSpace base = [] then ''https://api.anthropic.com/v1'' else base)"
    by (simp_all add: NewAnthropicClient_def)
  have bearer: "key = [] \<or> (''Authorization'', ''Bearer '' @ key) \<in> set (bearer_headers ?c)"
    by (simp add: bearer_headers_def c(3))
  have chat: "openai_Complete ?c rq = with_model (\<lambda>m. andThen (call_api (logging t) ''chat completion'' (chat_http_request ?c m rq))
      (\<lambda>b. liftE (bindE (decoded_api (logging t) ''chat completion'' dec_chatCompletionResponse b) first_choice)))" for rq
    by (simp add: openai_Complete_def c(1))
  show "list_all2 (\<lambda>k rq. posts (trim_right CHR ''/'' base @ ''/chat/completions'') (turn sel k)
        [(''messages'', JArr [JObj [(''role'', JStr ''system''), (''content'', json_string (cr_SystemPrompt (reqs ! k)))],
           JObj [(''role'', JStr ''user''), (''content'', json_string (cr_UserPrompt (reqs ! k)))]])] rq \<and>
        (key = [] \<or> (''Authorization'', ''Bearer '' @ key) \<in> set (hq_Headers rq)))
      [0..<length reqs] (snd (snd (calls (openai_Complete ?c) reqs (sel, (w, [])))))"
    by (rule calls_post [where f = "openai_Complete ?c", OF assms(1) chat assms(2-4)])
      (use posts_chat [of ?c] bearer in \<open>simp add: c(2) chat_http_request_def\<close>)
  have anthropic: "anthropic_Complete ?a rq = with_model (\<lambda>m. andThen (call_api (logging t) ''anthropic'' (anthropic_http_request ?a m rq))
      (\<lambda>b. liftE (bindE (decoded_api (logging t) ''anthropic'' dec_anthropicResponse b) first_text)))" for rq
    by (simp add: anthropic_Complete_def a(1))
  show "list_all2 (\<lambda>k rq. posts (trim_right CHR ''/'' (if TrimSpace base = [] then ''https://api.anthropic.com/v1'' else base) @ ''/messages'')
        (turn sel k) [(''max_tokens'', JNum (cr_MaxTokens (reqs ! k))),
         (''messages'', JArr [JObj [(''role'', JStr ''user''), (''content'', json_string (cr_UserPrompt (reqs ! k)))]])] rq \<and>
        (''x-api-key'', key) \<in> set (hq_Headers rq))
      [0..<length reqs] (snd (snd (calls (anthropic_Complete ?a) reqs (sel, (w, [])))))"
    by (rule calls_post [where f = "anthropic_Complete ?a", OF assms(1) anthropic assms(2-4)])
      (use posts_anthropic [of ?a] in \<open>simp add: a(2,3) anthropic_http_request_def\<close>)
  have embed: "openai_EmbedTexts ?c ts = with_model (\<lambda>m. andThen (call_api (logging t) ''embedding'' (embedding_http_request ?c m ts))
      (\<lambda>b. liftE (decoded_api (logging t) ''embedding'' dec_embeddingResponse b)))" for ts
    by (simp add: openai_EmbedTexts_def c(1))
  show "list_all2 (\<lambda>k rq. posts (trim_right CHR ''/'' base @ ''/embeddings'') (turn sel k) [(''input'', JArr (map json_string (texts ! k)))] rq \<and>
        (key = [] \<or> (''Authorization'', ''Bearer '' @ key) \<in> set (hq_Headers rq)))
      [0..<length texts] (snd (snd (calls (openai_EmbedTexts ?c) texts (sel, (w, [])))))"
    by (rule calls_post [where f = "openai_EmbedTexts ?c", OF assms(1) embed assms(2,3,5)])
      (use posts_embedding [of ?c] bearer in \<open>simp add: c(2) embedding_http_request_def\<close>)
qed

theorem requests_take_models_in_turn_witness:
  "list_all2 (\<lambda>m rq. hq_URL rq = ''http://h/chat/completions'' \<and> posts ''http://h/chat/completions'' m [] rq) [''a'', ''b'', ''a'']
     (snd (snd (calls (openai_Complete (NewOpenAICompatClient ''http://h/'' ''k'' [] (logging quiet))) [ping, ping, ping]
        (NewModelSelector [''a'', ''b''], ((), [])))))"
proof -
  let ?sel = "NewModelSelector [''a'', ''b'']"
  have quiet: "tr_refuses quiet u = None" for u by (simp add: quiet_def)
  have sel: "ms_models ?sel = [''a'', ''b'']" "unat (ms_counter ?sel) = 0" by (simp_all add: NewModelSelector_def)
  have base: "trim_right CHR ''/'' ''http://h/'' = ''http://h''" by code_simp
  have models: "map (turn ?sel) [0..<length [ping, ping, ping]] = [''a'', ''b'', ''a'']"
    by (simp add: turn_def sel upt_rec)
  have "list_all2 (\<lambda>k rq. posts ''http://h/chat/completions'' (turn ?sel k) [] rq) [0..<length [ping, ping, ping]]
     (snd (snd (calls (openai_Complete (NewOpenAICompatClient ''http://h/'' ''k'' [] (logging quiet))) [ping, ping, ping] (?sel, ((), [])))))"
    by (rule list_all2_mono [OF requests_take_models_in_turn [of quiet ?sel "[ping, ping, ping]" "[]" "''http://h/''" "''k''" "[]" "()",
          THEN conjunct1]])
      (simp_all add: quiet sel base posts_def split: option.splits json.splits)
  then have "list_all2 (\<lambda>m rq. posts ''http://h/chat/completions'' m [] rq) (map (turn ?sel) [0..<length [ping, ping, ping]])
     (snd (snd (calls (openai_Complete (NewOpenAICompatClient ''http://h/'' ''k'' [] (logging quiet))) [ping, ping, ping] (?sel, ((), [])))))"
    by (simp only: list_all2_map1)
  then show ?thesis unfolding models by (rule list_all2_mono) (simp add: posts_def)
qed

text \<open>A temperature of zero is not sent. The body of a chat completion has the temperature exactly when it is not zero,
  so a caller that asks for zero gets the provider's default; the Anthropic client never sends it.\<close>

theorem zero_temperature_is_not_sent:
  "map_of (raw_map (marshal (chatCompletionRequest model req))) ''temperature'' =
     (if decimal (cr_Temperature req) = Some 0 then None else Some (JDec (cr_Temperature req))) \<and>
   anthropic_Complete c (req\<lparr>cr_Temperature := other\<rparr>) = anthropic_Complete c req"
proof
  show "map_of (raw_map (marshal (chatCompletionRequest model req))) ''temperature'' =
     (if decimal (cr_Temperature req) = Some 0 then None else Some (JDec (cr_Temperature req)))"
    by (simp add: chatCompletionRequest_def nonzero_temperature_def object_def object_members_def marshal_def map_of_of_members)
qed (simp add: anthropic_Complete_def anthropic_http_request_def anthropicRequest_def)

end
