(* ===== verification/Monitoring.thy ===== *)
theory Monitoring
  imports GitHub Handlers
begin

text \<open>
  The verification of a monitoring connection (\<open>internal/monitoring/service.go\<close>): a signed token is
  exchanged for access, then each project is asked for. The transport carries the requests without a body, a function of
  its own the form post of the exchange; reading a file, signing with the private key of a PEM
  text (\<open>crypto/rsa\<close>, \<open>crypto/x509\<close>) and the time in seconds are arguments too.
\<close>

section \<open>Answers\<close>

record ProjectVerifyResult =
  pv_GCPProjectID :: string
  pv_ConnectionStatus :: string
  pv_Services :: "string list"
  pv_ErrorDetail :: "string option"

record VerifyResponse =
  vr_ConnectionStatus :: string
  vr_Projects :: "ProjectVerifyResult list"
  vr_ErrorDetail :: "string option"

text \<open>An error detail is not \<open>omitempty\<close>: without one it is \<open>null\<close>.\<close>

definition enc_detail :: "string option \<Rightarrow> json" where
  "enc_detail d = (case d of None \<Rightarrow> JNull | Some s \<Rightarrow> JStr s)"

definition enc_ProjectVerifyResult :: "ProjectVerifyResult \<Rightarrow> json" where
  "enc_ProjectVerifyResult r = JObj [(''gcp_project_id'', JStr (pv_GCPProjectID r)),
     (''connection_status'', JStr (pv_ConnectionStatus r)), (''services'', JArr (map JStr (pv_Services r))),
     (''error_detail'', enc_detail (pv_ErrorDetail r))]"

definition enc_VerifyResponse :: "VerifyResponse \<Rightarrow> json" where
  "enc_VerifyResponse r = JObj [(''connection_status'', JStr (vr_ConnectionStatus r)),
     (''projects'', JArr (map enc_ProjectVerifyResult (vr_Projects r))), (''error_detail'', enc_detail (vr_ErrorDetail r))]"

text \<open>Only the projects of a request are used.\<close>

definition dec_VerifyRequest :: "json \<Rightarrow> string list res" where
  "dec_VerifyRequest = dec_struct (\<lambda>ms.
     bindE (field ''sentry_sa_email'' dec_string [] ms) (\<lambda>s.
     bindE (field ''customer_sa_email'' dec_string [] ms) (\<lambda>c.
       field ''gcp_project_ids'' (dec_array dec_string []) [] ms)))"

definition failed_project :: "string \<Rightarrow> string \<Rightarrow> ProjectVerifyResult" where
  "failed_project detail projectID =
     \<lparr>pv_GCPProjectID = projectID, pv_ConnectionStatus = ''error'', pv_Services = [], pv_ErrorDetail = Some detail\<rparr>"

definition failedResponse :: "string list \<Rightarrow> string \<Rightarrow> VerifyResponse" where
  "failedResponse projectIDs detail =
     \<lparr>vr_ConnectionStatus = ''error'', vr_Projects = map (failed_project detail) projectIDs, vr_ErrorDetail = Some detail\<rparr>"

definition connected_project :: "string list \<Rightarrow> string \<Rightarrow> ProjectVerifyResult" where
  "connected_project services projectID =
     \<lparr>pv_GCPProjectID = projectID, pv_ConnectionStatus = ''connected'', pv_Services = services, pv_ErrorDetail = None\<rparr>"

definition simulatedResponse :: "string list \<Rightarrow> VerifyResponse" where
  "simulatedResponse projectIDs =
     \<lparr>vr_ConnectionStatus = ''connected'', vr_Projects = map (connected_project []) projectIDs, vr_ErrorDetail = None\<rparr>"

section \<open>The service account\<close>

record serviceAccount =
  sa_ClientEmail :: string
  sa_PrivateKey :: string
  sa_TokenURI :: string

definition dec_serviceAccount :: "json \<Rightarrow> serviceAccount res" where
  "dec_serviceAccount = dec_struct (\<lambda>ms.
     bindE (field ''client_email'' dec_string [] ms) (\<lambda>e.
     bindE (field ''private_key'' dec_string [] ms) (\<lambda>k.
     bindE (field ''token_uri'' dec_string [] ms) (\<lambda>u.
       Inr \<lparr>sa_ClientEmail = e, sa_PrivateKey = k, sa_TokenURI = u\<rparr>))))"

text \<open>The outside of the service besides the transport.\<close>

record 'w google =
  go_transport :: "'w transport"
  go_post :: "string \<Rightarrow> string \<Rightarrow> (http_response, 'w) op"
  go_readFile :: "string \<Rightarrow> string res"
  go_sign :: "string \<Rightarrow> string \<Rightarrow> string res"
  go_now :: int

definition loadServiceAccount :: "'w google \<Rightarrow> string \<Rightarrow> serviceAccount res" where
  "loadServiceAccount g raw =
     bindE (if prefix ''{'' (TrimSpace raw) then Inr raw
            else (case go_readFile g raw of Inl e \<Rightarrow> Inl (wrap ''read service account file'' e) | Inr s \<Rightarrow> Inr s)) (\<lambda>data.
     bindE (case unmarshal dec_serviceAccount (tr_json (go_transport g) data) of
              Inl e \<Rightarrow> Inl (wrap ''parse service account JSON'' e) | Inr sa \<Rightarrow> Inr sa) (\<lambda>sa.
       if sa_ClientEmail sa = [] \<or> sa_PrivateKey sa = []
       then Inl (errorf ''service account missing client_email or private_key'')
       else Inr (if sa_TokenURI sa = [] then sa\<lparr>sa_TokenURI := ''https://oauth2.googleapis.com/token''\<rparr> else sa)))"

section \<open>The token\<close>

text \<open>\<open>base64.RawURLEncoding\<close>: six bits a character, no padding.\<close>

definition base64_char :: "nat \<Rightarrow> char" where
  "base64_char n = (if n < 26 then char_of (65 + n) else if n < 52 then char_of (71 + n)
     else if n < 62 then char_of (n - 4) else if n = 62 then CHR ''-'' else CHR ''_'')"

fun RawURLEncoding :: "string \<Rightarrow> string" where
  "RawURLEncoding (a # b # c # s) = (let x = of_char a :: nat; y = of_char b; z = of_char c in
     base64_char (x div 4) # base64_char (x mod 4 * 16 + y div 16) # base64_char (y mod 16 * 4 + z div 64) #
     base64_char (z mod 64) # RawURLEncoding s)"
| "RawURLEncoding [a, b] = (let x = of_char a :: nat; y = of_char b in
     [base64_char (x div 4), base64_char (x mod 4 * 16 + y div 16), base64_char (y mod 16 * 4)])"
| "RawURLEncoding [a] = (let x = of_char a :: nat in [base64_char (x div 4), base64_char (x mod 4 * 16)])"
| "RawURLEncoding [] = []"

definition jwt_claims :: "serviceAccount \<Rightarrow> int \<Rightarrow> json" where
  "jwt_claims sa now = JObj [(''aud'', JStr (sa_TokenURI sa)), (''exp'', JNum (now + 3600)), (''iat'', JNum now),
     (''iss'', JStr (sa_ClientEmail sa)), (''scope'', JStr ''https://www.googleapis.com/auth/cloud-platform'')]"

definition signingInput :: "serviceAccount \<Rightarrow> int \<Rightarrow> string" where
  "signingInput sa now = RawURLEncoding (json_text (JObj [(''alg'', JStr ''RS256''), (''typ'', JStr ''JWT'')])) @ ''.'' @
     RawURLEncoding (json_text (jwt_claims sa now))"

definition token_form :: "string \<Rightarrow> string" where
  "token_form jwt = Encode [(''grant_type'', ''urn:ietf:params:oauth:grant-type:jwt-bearer''), (''assertion'', jwt)]"

definition dec_tokenResp :: "json \<Rightarrow> string res" where
  "dec_tokenResp = dec_struct (field ''access_token'' dec_string [])"

definition fetchAccessToken :: "'w google \<Rightarrow> serviceAccount \<Rightarrow> (string, 'w) op" where
  "fetchAccessToken g sa = andThen (liftE (go_sign g (sa_PrivateKey sa) (signingInput sa (go_now g)))) (\<lambda>sig.
     let jwt = signingInput sa (go_now g) @ ''.'' @ RawURLEncoding sig in
     case tr_refuses (go_transport g) (sa_TokenURI sa) of
       Some e \<Rightarrow> fail (wrap ''create token request'' e)
     | None \<Rightarrow> andThen (wrapping ''exchange JWT for token'' (go_post g (sa_TokenURI sa) (token_form jwt))) (\<lambda>resp.
         case hs_BodyErr resp of
           Some e \<Rightarrow> fail (wrap ''read token response'' e)
         | None \<Rightarrow> if hs_Status resp \<noteq> 200
             then fail (errorf (''token exchange failed with status '' @ FormatInt (hs_Status resp) @ '': '' @ hs_Body resp))
             else liftE (case unmarshal dec_tokenResp (tr_json (go_transport g) (hs_Body resp)) of
                 Inl e \<Rightarrow> Inl (wrap ''decode token response'' e)
               | Inr tok \<Rightarrow> if tok = [] then Inl (errorf ''empty access token in response'') else Inr tok)))"

section \<open>A project\<close>

definition get_with_token :: "string \<Rightarrow> string \<Rightarrow> http_request" where
  "get_with_token token url = \<lparr>hq_Method = ''GET'', hq_URL = url,
     hq_Headers = [(''Authorization'', ''Bearer '' @ token)], hq_Body = None\<rparr>"

definition projectURL :: "string \<Rightarrow> string" where
  "projectURL projectID = ''https://cloudresourcemanager.googleapis.com/v1/projects/'' @ projectID"

definition servicesURL :: "string \<Rightarrow> string" where
  "servicesURL projectID =
     ''https://serviceusage.googleapis.com/v1beta1/projects/'' @ projectID @ ''/services?filter=state:ENABLED''"

definition dec_servicesResp :: "json \<Rightarrow> string list res" where
  "dec_servicesResp = dec_struct (field ''services'' (dec_array (dec_struct (field ''name'' dec_string [])) []) [])"

definition short_name :: "string \<Rightarrow> string" where
  "short_name name = last (split_on CHR ''/'' name)"

definition listServices :: "'w google \<Rightarrow> string \<Rightarrow> string \<Rightarrow> (ProjectVerifyResult, 'w) op" where
  "listServices g token projectID = (let t = go_transport g in
     case tr_refuses t (servicesURL projectID) of
       Some e \<Rightarrow> fail (wrap ''create services request'' e)
     | None \<Rightarrow> andThen (wrapping (''list services for '' @ projectID) (tr_do t (get_with_token token (servicesURL projectID)))) (\<lambda>sresp.
         case hs_BodyErr sresp of
           Some e \<Rightarrow> fail (wrap (''read services response for '' @ projectID) e)
         | None \<Rightarrow> liftE (case unmarshal dec_servicesResp (tr_json t (hs_Body sresp)) of
               Inl e \<Rightarrow> Inl (wrap (''decode services for '' @ projectID) e)
             | Inr names \<Rightarrow> Inr (connected_project (map short_name names) projectID))))"

text \<open>What arrives of the body of a refused project is its error, whether or not it is cut short.\<close>

definition verifyProject :: "'w google \<Rightarrow> string \<Rightarrow> string \<Rightarrow> (ProjectVerifyResult, 'w) op" where
  "verifyProject g token projectID = (let t = go_transport g in
     case tr_refuses t (projectURL projectID) of
       Some e \<Rightarrow> fail (wrap ''create project request'' e)
     | None \<Rightarrow> andThen (wrapping (''check project '' @ projectID) (tr_do t (get_with_token token (projectURL projectID)))) (\<lambda>resp.
         if hs_Status resp \<noteq> 200
         then fail (errorf (''project '' @ projectID @ '': HTTP '' @ FormatInt (hs_Status resp) @ '': '' @ hs_Body resp))
         else listServices g token projectID))"

fun verifyProjects :: "'w google \<Rightarrow> string \<Rightarrow> string list \<Rightarrow> 'w \<Rightarrow> (ProjectVerifyResult list \<times> bool) \<times> 'w" where
  "verifyProjects g token [] w = (([], True), w)"
| "verifyProjects g token (projectID # rest) w = (case verifyProject g token projectID w of
       (Inl e, w1) \<Rightarrow> (case verifyProjects g token rest w1 of ((rs, ok), w2) \<Rightarrow>
         ((failed_project (err_text e) projectID # rs, False), w2))
     | (Inr r, w1) \<Rightarrow> (case verifyProjects g token rest w1 of ((rs, ok), w2) \<Rightarrow> ((r # rs, ok), w2)))"

section \<open>The connection\<close>

definition VerifyConnection :: "'w google \<Rightarrow> string \<Rightarrow> string list \<Rightarrow> 'w \<Rightarrow> VerifyResponse \<times> 'w" where
  "VerifyConnection g account projectIDs w = (let saJSON = TrimSpace account in
     if saJSON = [] then (simulatedResponse projectIDs, w)
     else case loadServiceAccount g saJSON of
         Inl e \<Rightarrow> (failedResponse projectIDs (''load GCP service account: '' @ err_text e), w)
       | Inr sa \<Rightarrow> (case fetchAccessToken g sa w of
           (Inl e, w1) \<Rightarrow> (failedResponse projectIDs (''obtain GCP access token: '' @ err_text e), w1)
         | (Inr token, w1) \<Rightarrow> (case verifyProjects g token projectIDs w1 of ((projects, allConnected), w2) \<Rightarrow>
             (if allConnected then \<lparr>vr_ConnectionStatus = ''connected'', vr_Projects = projects, vr_ErrorDetail = None\<rparr>
              else \<lparr>vr_ConnectionStatus = ''error'', vr_Projects = projects,
                vr_ErrorDetail = Some ''one or more projects failed verification''\<rparr>, w2))))"

definition monitoringProviderVerifyConnection :: "'w google \<Rightarrow> string \<Rightarrow> blob \<Rightarrow> 'w \<Rightarrow> response \<times> 'w" where
  "monitoringProviderVerifyConnection g account body w = (case decodeOptionalJSONBody dec_VerifyRequest body of
       Inl e \<Rightarrow> (writeError 400 (''decode monitoring provider verify-connection request: '' @ err_text e), w)
     | Inr projectIDs \<Rightarrow> (case VerifyConnection g account projectIDs w of (r, w1) \<Rightarrow> (writeJSON 200 (enc_VerifyResponse r), w1)))"

section \<open>What a project's result says\<close>

definition result_ok :: "ProjectVerifyResult \<Rightarrow> bool" where
  "result_ok p \<longleftrightarrow> pv_ConnectionStatus p = ''connected'' \<and> pv_ErrorDetail p = None \<or>
     pv_ConnectionStatus p = ''error'' \<and> pv_Services p = [] \<and> pv_ErrorDetail p \<noteq> None"

lemma result_ok_simps [simp]:
  "result_ok (failed_project d i)" "result_ok (connected_project ss i)"
  "pv_GCPProjectID (failed_project d i) = i" "pv_GCPProjectID (connected_project ss i) = i"
  "pv_ConnectionStatus (failed_project d i) = ''error''" "pv_ConnectionStatus (connected_project ss i) = ''connected''"
  by (simp_all add: result_ok_def failed_project_def connected_project_def)

lemma verifyProject_connects:
  "verifyProject g token i w = (Inr r, w') \<Longrightarrow> \<exists>services. r = connected_project services i"
  by (auto simp: verifyProject_def listServices_def Let_def op_defs split: option.splits sum.splits prod.splits if_splits)

lemma verifyProjects_each:
  "verifyProjects g token ids w = ((rs, ok), w') \<Longrightarrow>
    map pv_GCPProjectID rs = ids \<and> list_all result_ok rs \<and> ok = list_all (\<lambda>p. pv_ConnectionStatus p = ''connected'') rs"
proof (induction ids arbitrary: w rs ok)
  case (Cons i ids)
  from Cons.prems Cons.IH verifyProject_connects [of g token i w] show ?case
    by (fastforce split: prod.splits sum.splits)
qed simp

section \<open>Properties\<close>

text \<open>Whether the configured account can be used: there is none, or it loads and a token is issued for it.\<close>

definition account_works :: "'w google \<Rightarrow> string \<Rightarrow> 'w \<Rightarrow> bool" where
  "account_works g account w \<longleftrightarrow> (TrimSpace account = [] \<or>
     (case loadServiceAccount g (TrimSpace account) of Inl e \<Rightarrow> False | Inr sa \<Rightarrow> \<not> isl (fst (fetchAccessToken g sa w))))"

text \<open>The outside after some projects have been asked for.\<close>

definition after_projects :: "'w google \<Rightarrow> string \<Rightarrow> string list \<Rightarrow> 'w \<Rightarrow> 'w" where
  "after_projects g token ids w = fold (\<lambda>i v. snd (verifyProject g token i v)) ids w"

lemma verifyProjects_nth:
  "verifyProjects g token ids w = ((rs, ok), w') \<Longrightarrow> k < length ids \<Longrightarrow>
    pv_ConnectionStatus (rs ! k) = ''connected'' \<longleftrightarrow> \<not> isl (fst (verifyProject g token (ids ! k) (after_projects g token (take k ids) w)))"
proof (induction ids arbitrary: w rs ok k)
  case (Cons i ids)
  obtain x w1 where one: "verifyProject g token i w = (x, w1)" by (cases "verifyProject g token i w")
  obtain rs1 ok1 where rest: "verifyProjects g token ids w1 = ((rs1, ok1), w')"
    using Cons.prems(1) one by (auto split: sum.splits prod.splits)
  from Cons.prems(1) one rest have rs: "rs = (case x of Inl e \<Rightarrow> failed_project (err_text e) i | Inr r \<Rightarrow> r) # rs1"
    by (cases x) auto
  show ?case
  proof (cases k)
    case 0
    with rs one verifyProject_connects [of g token i w] show ?thesis
      by (cases x) (auto simp: after_projects_def)
  next
    case (Suc j)
    with Cons.prems(2) Cons.IH [OF rest, of j] rs one show ?thesis by (simp add: after_projects_def)
  qed
qed simp

text \<open>C36: a verification answers for every project. Whatever Google answers, the response holds one result per requested
  project, in the order of the request, each either connected without a detail or an error with one. The
  connection is reported connected exactly when the account works and every project is connected, and an
  error detail is given exactly when it is not. With an account that does not work every project is an error;
  without an account every project is connected and Google is not asked; otherwise a project is connected
  exactly when verifying it, after the ones before it, succeeds.\<close>

theorem verification_covers_projects:
  assumes "VerifyConnection g account ids w = (r, w')"
  shows "map pv_GCPProjectID (vr_Projects r) = ids \<and> list_all result_ok (vr_Projects r) \<and>
    (vr_ConnectionStatus r = ''connected'' \<longleftrightarrow>
       account_works g account w \<and> list_all (\<lambda>p. pv_ConnectionStatus p = ''connected'') (vr_Projects r)) \<and>
    vr_ConnectionStatus r \<in> {''connected'', ''error''} \<and> (vr_ErrorDetail r = None \<longleftrightarrow> vr_ConnectionStatus r = ''connected'') \<and>
    (\<not> account_works g account w \<longrightarrow> list_all (\<lambda>p. pv_ConnectionStatus p = ''error'') (vr_Projects r)) \<and>
    (TrimSpace account = [] \<longrightarrow> list_all (\<lambda>p. pv_ConnectionStatus p = ''connected'') (vr_Projects r) \<and> w' = w) \<and>
    (\<forall>sa token w1. TrimSpace account \<noteq> [] \<and> loadServiceAccount g (TrimSpace account) = Inr sa \<and>
       fetchAccessToken g sa w = (Inr token, w1) \<longrightarrow> (\<forall>k < length ids. pv_ConnectionStatus (vr_Projects r ! k) = ''connected'' \<longleftrightarrow>
         \<not> isl (fst (verifyProject g token (ids ! k) (after_projects g token (take k ids) w1)))))"
proof -
  have failed: ?thesis if "r = failedResponse ids d" "\<not> account_works g account w" "TrimSpace account \<noteq> []"
    "\<And>sa token w1. \<not> (loadServiceAccount g (TrimSpace account) = Inr sa \<and> fetchAccessToken g sa w = (Inr token, w1))" for d
    using that by (auto simp: failedResponse_def o_def list_all_iff)
  show ?thesis
  proof (cases "TrimSpace account = []")
    case True
    with assms show ?thesis by (auto simp: VerifyConnection_def simulatedResponse_def o_def list_all_iff account_works_def)
  next
    case False
    show ?thesis
    proof (cases "loadServiceAccount g (TrimSpace account)")
      case (Inl e)
      with False assms have "r = failedResponse ids (''load GCP service account: '' @ err_text e)"
        by (simp add: VerifyConnection_def)
      then show ?thesis by (rule failed) (use False Inl in \<open>simp_all add: account_works_def\<close>)
    next
      case (Inr sa)
      note load = Inr
      obtain q w1 where tok: "fetchAccessToken g sa w = (q, w1)" by (cases "fetchAccessToken g sa w")
      show ?thesis
      proof (cases q)
        case (Inl e)
        with False load tok assms
        have "r = failedResponse ids (''obtain GCP access token: '' @ err_text e)"
          by (simp add: VerifyConnection_def)
        then show ?thesis by (rule failed) (use False load tok Inl in \<open>auto simp: account_works_def\<close>)
      next
        case (Inr token)
        obtain rs ok w2 where each: "verifyProjects g token ids w1 = ((rs, ok), w2)"
          by (cases "verifyProjects g token ids w1") auto
        have "account_works g account w" using load tok Inr by (simp add: account_works_def)
        moreover have "r = (if ok then \<lparr>vr_ConnectionStatus = ''connected'', vr_Projects = rs, vr_ErrorDetail = None\<rparr>
            else \<lparr>vr_ConnectionStatus = ''error'', vr_Projects = rs, vr_ErrorDetail = Some ''one or more projects failed verification''\<rparr>)"
          using False load tok Inr each assms by (simp add: VerifyConnection_def Let_def)
        then have "vr_Projects r = rs" "vr_ConnectionStatus r = (if ok then ''connected'' else ''error'')"
          "vr_ErrorDetail r = None \<longleftrightarrow> ok" by simp_all
        moreover note verifyProjects_each [OF each] verifyProjects_nth [OF each]
        ultimately show ?thesis using False load tok Inr by simp
      qed
    qed
  qed
qed

text \<open>A Google that finds the project \<open>p\<close> and refuses to list services.\<close>

definition forbidding :: "unit transport" where
  "forbidding = \<lparr>tr_refuses = (\<lambda>_. None),
     tr_do = (\<lambda>rq. ret \<lparr>hs_Status = (if hq_URL rq = projectURL ''p'' then 200 else 403), hs_Link = [],
        hs_Body = (if hq_URL rq = projectURL ''p'' then ''found'' else ''forbidden''), hs_BodyErr = None\<rparr>),
     tr_json = (\<lambda>s. if s = ''forbidden'' then Doc (JObj [(''error'', JNum 403)])
        else if s = ''key'' then Doc (JObj [(''client_email'', JStr ''e''), (''private_key'', JStr ''k'')])
        else Doc (JObj [(''access_token'', JStr ''t'')])),
     tr_authority = (\<lambda>_. True)\<rparr>"

definition sample_google :: "unit google" where
  "sample_google = \<lparr>go_transport = forbidding,
     go_post = (\<lambda>url form. ret \<lparr>hs_Status = 200, hs_Link = [], hs_Body = ''token'', hs_BodyErr = None\<rparr>),
     go_readFile = (\<lambda>_. Inr ''key''), go_sign = (\<lambda>_ _. Inr ''s''), go_now = 0\<rparr>"

lemma sample_decoded:
  "dec_serviceAccount (JObj [(''client_email'', JStr ''e''), (''private_key'', JStr ''k'')]) =
     Inr \<lparr>sa_ClientEmail = ''e'', sa_PrivateKey = ''k'', sa_TokenURI = []\<rparr>"
  "dec_tokenResp (JObj [(''access_token'', JStr ''t'')]) = Inr ''t''"
  "TrimSpace ''key'' = ''key''" "TrimSpace ''key.json'' = ''key.json''" "limited ''token'' = ''token''"
  by code_simp+

lemma sample_account: "loadServiceAccount sample_google ''key.json'' =
    Inr \<lparr>sa_ClientEmail = ''e'', sa_PrivateKey = ''k'', sa_TokenURI = ''https://oauth2.googleapis.com/token''\<rparr>"
  by (simp add: loadServiceAccount_def sample_google_def forbidding_def sample_decoded)

lemma sample_token: "fetchAccessToken sample_google sa () = (Inr ''t'', ())"
  by (simp add: fetchAccessToken_def sample_google_def forbidding_def op_defs Let_def sample_decoded)

lemma sample_refusal: "isl (fst (verifyProject sample_google ''t'' ''q'' ()))"
  by (simp add: verifyProject_def sample_google_def forbidding_def op_defs Let_def get_with_token_def projectURL_def)

theorem verification_covers_projects_witness:
  "\<exists>r. VerifyConnection sample_google ''key.json'' [''p'', ''q''] () = (r, ()) \<and> map pv_GCPProjectID (vr_Projects r) = [''p'', ''q''] \<and>
     account_works sample_google ''key.json'' () \<and> pv_ConnectionStatus (vr_Projects r ! 1) \<noteq> ''connected'' \<and>
     vr_ConnectionStatus r = ''error''"
proof -
  let ?r = "fst (VerifyConnection sample_google ''key.json'' [''p'', ''q''] ())"
  have run: "VerifyConnection sample_google ''key.json'' [''p'', ''q''] () = (?r, ())"
    by (rule prod_eqI) (simp_all only: fst_conv snd_conv unit_eq)
  note all = verification_covers_projects [OF run]
  from all have ids: "map pv_GCPProjectID (vr_Projects ?r) = [''p'', ''q'']" by blast
  from arg_cong [OF this, of length] have two: "length (vr_Projects ?r) = 2" unfolding length_map by simp
  have works: "account_works sample_google ''key.json'' ()"
    by (simp add: account_works_def sample_decoded sample_account sample_token)
  have q: "pv_ConnectionStatus (vr_Projects ?r ! 1) \<noteq> ''connected''"
  proof
    assume "pv_ConnectionStatus (vr_Projects ?r ! 1) = ''connected''"
    moreover have "pv_ConnectionStatus (vr_Projects ?r ! 1) = ''connected'' \<longleftrightarrow>
       \<not> isl (fst (verifyProject sample_google ''t'' ([''p'', ''q''] ! 1) (after_projects sample_google ''t'' (take 1 [''p'', ''q'']) ())))"
      by (rule all [THEN conjunct2, THEN conjunct2, THEN conjunct2, THEN conjunct2, THEN conjunct2, THEN conjunct2, THEN conjunct2,
          THEN spec, THEN spec, THEN spec, THEN mp, THEN spec, THEN mp])
        (simp_all add: sample_decoded sample_account sample_token)
    moreover have "after_projects sample_google ''t'' (take 1 [''p'', ''q'']) () = ()" by (rule unit_eq)
    ultimately show False using sample_refusal by simp
  qed
  from two have "1 < length (vr_Projects ?r)" by (rule ssubst) simp
  with q have "\<not> list_all (\<lambda>p. pv_ConnectionStatus p = ''connected'') (vr_Projects ?r)"
    unfolding list_all_length by blast
  with all [THEN conjunct2, THEN conjunct2, THEN conjunct1] have "vr_ConnectionStatus ?r \<noteq> ''connected''" by blast
  with all [THEN conjunct2, THEN conjunct2, THEN conjunct2, THEN conjunct1] have "vr_ConnectionStatus ?r = ''error''" by blast
  then show ?thesis by (intro exI [of _ ?r] conjI run ids works q)
qed

text \<open>C38: a project whose services may not be listed counts as connected. The status of the second answer is not
  looked at: when the project is found and the listing is answered with an object that has an error and no
  services, whatever its status, the project is reported connected, with no service.\<close>

theorem refused_listing_is_connected:
  assumes "tr_refuses (go_transport g) (projectURL i) = None" and "tr_refuses (go_transport g) (servicesURL i) = None"
    and "tr_do (go_transport g) (get_with_token token (projectURL i)) w = (Inr found, w1)" and "hs_Status found = 200"
    and "tr_do (go_transport g) (get_with_token token (servicesURL i)) w1 = (Inr refused, w2)" and "hs_BodyErr refused = None"
    and "tr_json (go_transport g) (hs_Body refused) = Doc (JObj [(''error'', e)])"
  shows "verifyProject g token i w = (Inr (connected_project [] i), w2)"
proof -
  have "unmarshal dec_servicesResp (Doc (JObj [(''error'', e)])) = Inr []"
    by (simp add: dec_servicesResp_def struct_eval field_def EqualFold_def)
  with assms show ?thesis by (simp add: verifyProject_def listServices_def op_defs Let_def)
qed

theorem refused_listing_is_connected_witness:
  "verifyProject sample_google ''t'' ''p'' () = (Inr (connected_project [] ''p''), ())"
  by (rule refused_listing_is_connected [where e = "JNum 403" and ?w1.0 = "()"
      and found = "\<lparr>hs_Status = 200, hs_Link = [], hs_Body = ''found'', hs_BodyErr = None\<rparr>"
      and refused = "\<lparr>hs_Status = 403, hs_Link = [], hs_Body = ''forbidden'', hs_BodyErr = None\<rparr>"])
    (simp_all add: sample_google_def forbidding_def get_with_token_def servicesURL_def projectURL_def ret_def)

end
