(* ===== verification/Migrate.thy ===== *)
theory Migrate
  imports Db
begin

text \<open>
  Opening the database and migrating its schema (\<open>New\<close>, \<open>migrate\<close> and \<open>addColumnIfMissing\<close> of
  \<open>internal/db/db.go\<close>). A table is its column names and its rows, a row the columns that hold
  text; the types, keys and other constraints of the columns are left out. Creating the directory and opening
  the file are arguments.
\<close>

section \<open>A database file\<close>

record table =
  tb_columns :: "string list"
  tb_rows :: "(string \<times> string) list list"

record sqlite =
  sq_tables :: "(string \<times> table) list"
  sq_fault :: "nat \<Rightarrow> goerr option"
  sq_clock :: nat

text \<open>A statement, which the driver may refuse; one that fails changes nothing.\<close>

definition statement :: "(sqlite \<Rightarrow> 'a res \<times> sqlite) \<Rightarrow> ('a, sqlite) op" where
  "statement f = (\<lambda>s. let done = (\<lambda>t. t\<lparr>sq_clock := Suc (sq_clock s)\<rparr>) in
     case sq_fault s (sq_clock s) of
       Some e \<Rightarrow> (Inl e, done s)
     | None \<Rightarrow> (case f s of (Inl e, _) \<Rightarrow> (Inl e, done s) | (Inr x, t) \<Rightarrow> (Inr x, done t)))"

section \<open>The schema\<close>

text \<open>An index has a name, a table and the columns it orders.\<close>

datatype ddl = CreateTable string "string list" | CreateIndex string string "string list"

definition schema :: "ddl list" where
  "schema = [
     CreateTable ''autofix_runs'' [''id'', ''group_id'', ''provider'', ''pr_id'', ''state_json'', ''created_at'',
       ''updated_at''],
     CreateIndex ''idx_autofix_runs_group_id'' ''autofix_runs'' [''group_id''],
     CreateIndex ''idx_autofix_runs_pr'' ''autofix_runs'' [''provider'', ''pr_id''],
     CreateTable ''grouping_records'' [''project_id'', ''hash'', ''exception_type'', ''vector_json'', ''created_at''],
     CreateIndex ''idx_grouping_records_project'' ''grouping_records'' [''project_id''],
     CreateTable ''supergroups'' [''id'', ''organization_id'', ''group_id'', ''project_id'', ''artifact_json'',
       ''created_at''],
     CreateIndex ''idx_supergroups_org_project'' ''supergroups'' [''organization_id'', ''project_id''],
     CreateTable ''explorer_runs'' [''id'', ''organization_id'', ''user_id'', ''title'', ''category_key'',
       ''category_value'', ''provider'', ''pr_id'', ''state_json'', ''created_at'', ''last_triggered_at'',
       ''updated_at''],
     CreateIndex ''idx_explorer_runs_org'' ''explorer_runs'' [''organization_id'', ''last_triggered_at'', ''id''],
     CreateIndex ''idx_explorer_runs_org_user'' ''explorer_runs'' [''organization_id'', ''user_id'',
       ''last_triggered_at'', ''id''],
     CreateIndex ''idx_explorer_runs_org_category'' ''explorer_runs'' [''organization_id'', ''category_key'',
       ''category_value'', ''last_triggered_at'', ''id''],
     CreateIndex ''idx_explorer_runs_pr'' ''explorer_runs'' [''organization_id'', ''provider'', ''pr_id''],
     CreateTable ''runs'' [''id'', ''kind'', ''organization_id'', ''status'', ''idempotency_key'', ''request_json'',
       ''result_json'', ''error'', ''workflow_version'', ''created_at'', ''updated_at''],
     CreateIndex ''idx_runs_kind_status'' ''runs'' [''kind'', ''status''],
     CreateIndex ''idx_runs_idempotency'' ''runs'' [''kind'', ''idempotency_key''],
     CreateTable ''run_commands'' [''run_id'', ''request_id'', ''workflow_version'', ''command_json'', ''created_at''],
     CreateTable ''replay_breadcrumb_summaries'' [''replay_id'', ''organization_id'', ''project_id'', ''status'',
       ''created_at'', ''completed_at'', ''summary_json''],
     CreateTable ''project_preferences'' [''organization_id'', ''repos_json'', ''integration_id'', ''updated_at'']]"

text \<open>A table that is there is left as it is, and an index needs its columns.\<close>

fun run_ddl :: "ddl \<Rightarrow> sqlite \<Rightarrow> unit res \<times> sqlite" where
  "run_ddl (CreateTable t cols) s = (Inr (), if map_of (sq_tables s) t = None
     then s\<lparr>sq_tables := sq_tables s @ [(t, \<lparr>tb_columns = cols, tb_rows = []\<rparr>)]\<rparr> else s)"
| "run_ddl (CreateIndex i t cols) s = (case map_of (sq_tables s) t of
       None \<Rightarrow> (Inl (errorf (''no such table: '' @ t)), s)
     | Some tb \<Rightarrow> if set cols \<subseteq> set (tb_columns tb) then (Inr (), s) else (Inl (errorf ''no such column''), s))"

text \<open>A new column holds its default in every row.\<close>

definition with_column :: "string \<Rightarrow> string \<Rightarrow> table \<Rightarrow> table" where
  "with_column column dflt tb =
     tb\<lparr>tb_columns := tb_columns tb @ [column], tb_rows := map (\<lambda>row. row @ [(column, dflt)]) (tb_rows tb)\<rparr>"

definition addColumnIfMissing :: "string \<Rightarrow> string \<Rightarrow> string \<Rightarrow> (unit, sqlite) op" where
  "addColumnIfMissing t column dflt =
     andThen (wrapping (''inspect '' @ t @ '' schema'') (statement (\<lambda>s.
       (Inr (case map_of (sq_tables s) t of None \<Rightarrow> [] | Some tb \<Rightarrow> tb_columns tb), s)))) (\<lambda>found.
     if column \<in> set found then ret ()
     else wrapping (''add '' @ t @ ''.'' @ column @ '' column'') (statement (\<lambda>s. case map_of (sq_tables s) t of
         None \<Rightarrow> (Inl (errorf (''no such table: '' @ t)), s)
       | Some tb \<Rightarrow> (Inr (), s\<lparr>sq_tables := map (\<lambda>(n, x). (n, if n = t then with_column column dflt x else x)) (sq_tables s)\<rparr>))))"

definition status_tables :: "string list" where
  "status_tables = [''autofix_runs'', ''explorer_runs'']"

definition migrate :: "(unit, sqlite) op" where
  "migrate = andThen (wrapping ''run sqlite migrations'' (each (\<lambda>d. statement (run_ddl d)) schema)) (\<lambda>_.
     each (\<lambda>t. addColumnIfMissing t ''status'' ''completed'') status_tables)"

definition db_New :: "(string \<Rightarrow> goerr option) \<Rightarrow> (string \<Rightarrow> goerr option) \<Rightarrow> string \<Rightarrow> (unit, sqlite) op" where
  "db_New make_directory open_file databasePath =
     (case (if databasePath = '':memory:'' then None else make_directory databasePath) of
       Some e \<Rightarrow> fail (wrap ''create database directory'' e)
     | None \<Rightarrow> (case open_file databasePath of
         Some e \<Rightarrow> fail (wrap ''open sqlite'' e)
       | None \<Rightarrow> andThen (wrapping ''set sqlite busy timeout'' (statement (\<lambda>s. (Inr (), s)))) (\<lambda>_. migrate)))"

section \<open>What a migration leaves\<close>

abbreviation tables_of :: "sqlite \<Rightarrow> string \<Rightarrow> table option" where
  "tables_of s \<equiv> map_of (sq_tables s)"

fun created :: "ddl list \<Rightarrow> (string \<times> string list) list" where
  "created [] = []"
| "created (CreateTable t cols # ds) = (t, cols) # created ds"
| "created (CreateIndex i t cols # ds) = created ds"

lemma statement_ok: "statement f s = (Inr x, t) \<Longrightarrow> \<exists>u. f s = (Inr x, u) \<and> sq_tables t = sq_tables u"
  by (auto simp: statement_def Let_def split: option.splits prod.splits sum.splits)

lemma schema_creates:
  "each (\<lambda>d. statement (run_ddl d)) ds s = (Inr (), s') \<Longrightarrow>
    tables_of s' n = (case tables_of s n of None \<Rightarrow> map_option (\<lambda>cols. \<lparr>tb_columns = cols, tb_rows = []\<rparr>) (map_of (created ds) n)
      | Some tb \<Rightarrow> Some tb)"
proof (induction ds arbitrary: s)
  case (Cons d ds)
  then obtain t where first: "statement (run_ddl d) s = (Inr (), t)"
    and rest: "each (\<lambda>d. statement (run_ddl d)) ds t = (Inr (), s')"
    by (auto simp: andThen_def split: prod.splits sum.splits)
  from statement_ok [OF first] obtain u where "run_ddl d s = (Inr (), u)" "sq_tables t = sq_tables u" by blast
  then have "tables_of t n = (case tables_of s n of
      None \<Rightarrow> map_option (\<lambda>cols. \<lparr>tb_columns = cols, tb_rows = []\<rparr>) (map_of (created [d]) n) | Some tb \<Rightarrow> Some tb)"
    by (cases d) (auto simp: map_add_def split: option.splits if_splits)
  with Cons.IH [OF rest] show ?case by (cases d) (auto split: option.splits)
qed (simp add: ret_def split: option.split)

lemma map_of_changed:
  "map_of (map (\<lambda>(m, x). (m, if m = t then f x else x)) xs) n = (if n = t then map_option f (map_of xs n) else map_of xs n)"
  by (induction xs) auto

lemma column_added:
  assumes "addColumnIfMissing t column dflt s = (Inr (), s')"
  shows "tables_of s' n = (case tables_of s n of None \<Rightarrow> None
    | Some tb \<Rightarrow> Some (if n = t \<and> column \<notin> set (tb_columns tb) then with_column column dflt tb else tb))"
proof -
  from assms obtain found s1 where look: "statement (\<lambda>s. (Inr (case tables_of s t of None \<Rightarrow> [] | Some tb \<Rightarrow> tb_columns tb), s)) s = (Inr found, s1)"
    and rest: "(if column \<in> set found then ret () else wrapping (''add '' @ t @ ''.'' @ column @ '' column'') (statement (\<lambda>s. case tables_of s t of
         None \<Rightarrow> (Inl (errorf (''no such table: '' @ t)), s)
       | Some tb \<Rightarrow> (Inr (), s\<lparr>sq_tables := map (\<lambda>(n, x). (n, if n = t then with_column column dflt x else x)) (sq_tables s)\<rparr>)))) s1 = (Inr (), s')"
    by (auto simp: addColumnIfMissing_def andThen_def wrapping_def split: prod.splits sum.splits)
  from statement_ok [OF look] have found: "found = (case tables_of s t of None \<Rightarrow> [] | Some tb \<Rightarrow> tb_columns tb)"
    and s1: "sq_tables s1 = sq_tables s" by auto
  show ?thesis
  proof (cases "column \<in> set found")
    case True
    with rest s1 found show ?thesis by (auto simp: ret_def split: option.splits)
  next
    case False
    with rest have alter: "statement (\<lambda>s. case tables_of s t of
         None \<Rightarrow> (Inl (errorf (''no such table: '' @ t)), s)
       | Some tb \<Rightarrow> (Inr (), s\<lparr>sq_tables := map (\<lambda>(n, x). (n, if n = t then with_column column dflt x else x)) (sq_tables s)\<rparr>)) s1 = (Inr (), s')"
      by (auto simp: wrapping_def split: prod.splits sum.splits)
    from statement_ok [OF alter] False found s1 show ?thesis
      by (auto simp: map_of_changed split: option.splits)
  qed
qed

text \<open>What migrating makes of a table, or of its absence.\<close>

definition upgraded :: "string \<Rightarrow> table option \<Rightarrow> table option" where
  "upgraded n old =
     (case (case old of None \<Rightarrow> map_option (\<lambda>cols. \<lparr>tb_columns = cols, tb_rows = []\<rparr>) (map_of (created schema) n) | Some tb \<Rightarrow> Some tb) of
       None \<Rightarrow> None
     | Some tb \<Rightarrow> Some (if n \<in> set status_tables \<and> ''status'' \<notin> set (tb_columns tb) then with_column ''status'' ''completed'' tb else tb))"

lemma upgraded_twice: "upgraded n (upgraded n old) = upgraded n old"
  by (auto simp: upgraded_def with_column_def split: option.splits)

lemma andThen_steps: "andThen m f s = (Inr y, t) \<Longrightarrow> \<exists>x u. m s = (Inr x, u) \<and> f x u = (Inr y, t)"
  by (auto simp: andThen_def split: prod.splits sum.splits)

lemma wrapping_Inr: "wrapping p m s = (Inr x, t) \<Longrightarrow> m s = (Inr x, t)"
  by (auto simp: wrapping_def split: prod.splits sum.splits)

lemma migrate_steps:
  assumes "migrate s = (Inr (), s')"
  obtains s1 s2 where "each (\<lambda>d. statement (run_ddl d)) schema s = (Inr (), s1)"
    and "addColumnIfMissing ''autofix_runs'' ''status'' ''completed'' s1 = (Inr (), s2)"
    and "addColumnIfMissing ''explorer_runs'' ''status'' ''completed'' s2 = (Inr (), s')"
proof -
  let ?alter = "each (\<lambda>t. addColumnIfMissing t ''status'' ''completed'')"
  from andThen_steps [OF assms [unfolded migrate_def]] obtain s1 where
    one: "wrapping ''run sqlite migrations'' (each (\<lambda>d. statement (run_ddl d)) schema) s = (Inr (), s1)" and
    "?alter [''autofix_runs'', ''explorer_runs''] s1 = (Inr (), s')" by (auto simp: status_tables_def)
  from andThen_steps [OF this(2) [unfolded each.simps(2)]] obtain s2 where
    two: "addColumnIfMissing ''autofix_runs'' ''status'' ''completed'' s1 = (Inr (), s2)" and
    "?alter [''explorer_runs''] s2 = (Inr (), s')" unfolding each.simps by auto
  from andThen_steps [OF this(2) [unfolded each.simps(2)]]
  have "addColumnIfMissing ''explorer_runs'' ''status'' ''completed'' s2 = (Inr (), s')" by (auto simp: ret_def)
  with wrapping_Inr [OF one] two show ?thesis by (rule that)
qed

section \<open>Properties\<close>

text \<open>C40: a migration that succeeds upgrades the file in place. Whatever tables were there, each table of the schema is there
  afterwards; a table that was there keeps its columns and rows, except that a run table without a status
  gains one, with every old row completed; no other table changes, and migrating again changes nothing.\<close>

theorem migrate_upgrades:
  assumes "migrate s = (Inr (), s')"
  shows "(\<forall>n. tables_of s' n = upgraded n (tables_of s n)) \<and>
    (migrate s' = (Inr (), s'') \<longrightarrow> (\<forall>n. tables_of s'' n = tables_of s' n))"
proof -
  have once: "tables_of v' n = upgraded n (tables_of v n)" if "migrate v = (Inr (), v')" for v v' n
  proof -
    from that obtain s1 s2 where schema: "each (\<lambda>d. statement (run_ddl d)) schema v = (Inr (), s1)"
      and autofix: "addColumnIfMissing ''autofix_runs'' ''status'' ''completed'' s1 = (Inr (), s2)"
      and explorer: "addColumnIfMissing ''explorer_runs'' ''status'' ''completed'' s2 = (Inr (), v')"
      by (rule migrate_steps)
    define made where "made = tables_of s1 n"
    have "tables_of v' n = (case made of None \<Rightarrow> None
      | Some tb \<Rightarrow> Some (if n \<in> set status_tables \<and> ''status'' \<notin> set (tb_columns tb) then with_column ''status'' ''completed'' tb else tb))"
      unfolding column_added [OF explorer] column_added [OF autofix] made_def [symmetric]
      by (cases made) (auto simp: status_tables_def)
    then show ?thesis unfolding upgraded_def made_def schema_creates [OF schema] .
  qed
  show ?thesis using once [OF assms] once [of s' s''] by (simp add: upgraded_twice)
qed

text \<open>A file of an older binary: a run table without a status, holding one run.\<close>

definition legacy :: sqlite where
  "legacy = \<lparr>sq_tables = [(''autofix_runs'', \<lparr>tb_columns = [''id'', ''group_id'', ''provider'', ''pr_id'', ''state_json''],
     tb_rows = [[(''id'', ''7'')]]\<rparr>)], sq_fault = (\<lambda>_. None), sq_clock = 0\<rparr>"

theorem migrate_upgrades_witness:
  "tables_of (snd (migrate legacy)) ''autofix_runs'' = Some \<lparr>tb_columns = [''id'', ''group_id'', ''provider'', ''pr_id'', ''state_json'', ''status''],
     tb_rows = [[(''id'', ''7''), (''status'', ''completed'')]]\<rparr>"
proof -
  have "fst (migrate legacy) = Inr ()" by code_simp
  then have "migrate legacy = (Inr (), snd (migrate legacy))" by (cases "migrate legacy") simp
  from migrate_upgrades [OF this, THEN conjunct1] have "tables_of (snd (migrate legacy)) ''autofix_runs'' =
      upgraded ''autofix_runs'' (tables_of legacy ''autofix_runs'')" by blast
  also have "\<dots> = Some \<lparr>tb_columns = [''id'', ''group_id'', ''provider'', ''pr_id'', ''state_json'', ''status''],
     tb_rows = [[(''id'', ''7''), (''status'', ''completed'')]]\<rparr>" by code_simp
  finally show ?thesis .
qed

text \<open>A run table that lacks a column an index orders by is not upgraded: the migration fails.\<close>

lemma older_file_is_refused:
  "fst (migrate \<lparr>sq_tables = [(''autofix_runs'', \<lparr>tb_columns = [''id'', ''group_id'', ''state_json''], tb_rows = []\<rparr>)],
     sq_fault = (\<lambda>_. None), sq_clock = 0\<rparr>) = Inl (wrap ''run sqlite migrations'' (errorf ''no such column''))"
  by code_simp

end
