(* ===== verification/Wiring.thy ===== *)
theory Wiring
  imports Mux Clients PgVector
begin

text \<open>
  What \<open>main\<close> puts the services together with: the bound on outbound calls (\<open>internal/httpclient\<close>), the
  configured vector store (\<open>internal/vectorstorefactory\<close>), the log handlers and the middlewares around the routes
  (\<open>internal/observability\<close>) and the startup line. The Sentry SDK is not modelled: its handler is one of the log handlers.
\<close>

section \<open>Outbound calls\<close>

definition dialTimeout :: int where
  "dialTimeout = 10 * 1000000000"

text \<open>The overall timeout of the client; a nil configuration has the default.\<close>

definition httpclient_New :: "Config option \<Rightarrow> int" where
  "httpclient_New cfg = (case cfg of None \<Rightarrow> DefaultOutboundTimeout
     | Some c \<Rightarrow> if cfg_OutboundTimeout c > 0 then cfg_OutboundTimeout c else DefaultOutboundTimeout)"

section \<open>The vector store\<close>

text \<open>\<open>sqlitevec.New\<close>: the extension has to answer and the tables to be there, made with these dimensions.\<close>

definition sv_New :: "(vector \<Rightarrow> vector \<Rightarrow> rat option res) \<Rightarrow> int \<Rightarrow> (sqlitevec, store) op" where
  "sv_New distance dimensions =
     andThen (wrapping ''verify sqlite-vec extension'' (update (\<lambda>s. s))) (\<lambda>_.
     andThen (wrapping ''run sqlite-vec migration'' (update (\<lambda>s. s))) (\<lambda>_.
       ret \<lparr>sv_dimensions = dimensions, sv_distance = distance\<rparr>))"

definition vectorstorefactory_New ::
  "(string \<Rightarrow> goerr option) \<Rightarrow> (vector \<Rightarrow> vector \<Rightarrow> rat option res) \<Rightarrow> rat \<Rightarrow> Config \<Rightarrow> (store VectorStore, store) op" where
  "vectorstorefactory_New ParseConfig distance nan cfg =
     (if cfg_VectorStore cfg = ''sqlitevec''
      then andThen (sv_New distance (cfg_VectorDimensions cfg)) (\<lambda>sv. ret (sqlitevec_store sv))
      else if cfg_VectorStore cfg = ''pgvector''
      then andThen (pg_New ParseConfig distance nan (cfg_VectorStoreDSN cfg) (cfg_VectorDimensions cfg)) (\<lambda>pg. ret (pgvector_store pg))
      else fail (errorf (''unsupported vector store '' @ Quote (cfg_VectorStore cfg))))"

section \<open>Log handlers\<close>

text \<open>The levels in the order of \<open>slog\<close>; a handler takes the records from a level on.\<close>

definition parseLevel :: "string \<Rightarrow> int" where
  "parseLevel level = (if level = ''debug'' then - 4 else if level = ''warn'' then 4 else if level = ''error'' then 8 else 0)"

record ('r, 's) logHandler =
  lh_Enabled :: "int \<Rightarrow> bool"
  lh_Handle :: "'r \<Rightarrow> (unit, 's) op"

definition multi_Enabled :: "('r, 's) logHandler list \<Rightarrow> int \<Rightarrow> bool" where
  "multi_Enabled handlers level = list_ex (\<lambda>h. lh_Enabled h level) handlers"

definition multi_Handle :: "('r, 's) logHandler list \<Rightarrow> int \<Rightarrow> 'r \<Rightarrow> (unit, 's) op" where
  "multi_Handle handlers level r = each (\<lambda>h. if lh_Enabled h level then lh_Handle h r else ret ()) handlers"

definition multi_With :: "(('r, 's) logHandler \<Rightarrow> ('r, 's) logHandler) \<Rightarrow> ('r, 's) logHandler list \<Rightarrow> ('r, 's) logHandler list" where
  "multi_With change handlers = map change handlers"

section \<open>Around the routes\<close>

record request =
  rq_Method :: string
  rq_Path :: "string list"
  rq_Headers :: "(string \<times> string) list"
  rq_Body :: "string res"

text \<open>What is logged of a request: its headers, its body and the status the recorder saw.\<close>

record logEntry =
  le_Method :: string
  le_Path :: "string list"
  le_Headers :: "(string \<times> string) list"
  le_Body :: string
  le_Status :: int

text \<open>The body is read before the handler runs; of a body that cannot be read nothing is passed on.\<close>

definition requestLoggingMiddleware ::
  "(request \<Rightarrow> 's \<Rightarrow> reply \<times> 's) \<Rightarrow> request \<Rightarrow> 's \<times> logEntry list \<Rightarrow> reply \<times> ('s \<times> logEntry list)" where
  "requestLoggingMiddleware next_handler r = (\<lambda>(s, entries).
     let body = (case rq_Body r of Inl e \<Rightarrow> [] | Inr b \<Rightarrow> b) in
     case next_handler (r\<lparr>rq_Body := Inr body\<rparr>) s of (answer, t) \<Rightarrow>
       (answer, (t, entries @ [\<lparr>le_Method = rq_Method r, le_Path = rq_Path r, le_Headers = rq_Headers r,
          le_Body = body, le_Status = reply_status answer\<rparr>])))"

text \<open>A header is looked up by its name; a missing one is empty.\<close>

definition header_value :: "(string \<times> string) list \<Rightarrow> string \<Rightarrow> string" where
  "header_value hs k = (case map_of hs k of None \<Rightarrow> [] | Some v \<Rightarrow> v)"

definition served_routes where
  "served_routes mac secrets parse h r = serve mac secrets parse h (rq_Method r) (rq_Path r) (rq_Body r) (header_value (rq_Headers r) ''Authorization'')"

section \<open>The startup line\<close>

text \<open>How an address splits into host and port (\<open>net.SplitHostPort\<close>) is an argument.\<close>

definition startupMessage :: "(string \<Rightarrow> (string \<times> string) option) \<Rightarrow> string \<Rightarrow> string" where
  "startupMessage SplitHostPort addr = (case (case SplitHostPort addr of None \<Rightarrow> ([], addr) | Some hp \<Rightarrow> hp) of
     (host, port) \<Rightarrow> ''Server started on '' @ (if host = [] then ''0.0.0.0'' else host) @ '':'' @ port)"

section \<open>Properties\<close>

lemma httpclient_bounded: "0 < httpclient_New cfg"
  by (simp add: httpclient_New_def DefaultOutboundTimeout_def split: option.split)

lemma multi_Handle_skips: "(\<And>h. h \<in> set hs \<Longrightarrow> \<not> lh_Enabled h level) \<Longrightarrow> multi_Handle hs level r s = (Inr (), s)"
  by (induction hs) (auto simp: multi_Handle_def op_defs)

text \<open>
  Behind the logging middleware a request whose body cannot be read is handled as one with an empty body: without a configured
  secret the handler of its route runs, and what it answers is the answer.
\<close>

theorem lost_body_reaches_handler:
  assumes "rq_Body r = Inl e" and "filter (route_matches (rq_Method r) (rq_Path r)) route_table = [(verb, segs, WithAuth ep)]"
    and "h ep (path_values segs (rq_Path r)) (parse []) s = (answer, t)"
  shows "fst (requestLoggingMiddleware (served_routes mac [] parse h) r (s, entries)) = Reply answer \<and>
    fst (snd (requestLoggingMiddleware (served_routes mac [] parse h) r (s, entries))) = t"
  using assms
  by (simp add: requestLoggingMiddleware_def served_routes_def serve_def run_handler_def withAuth_def VerifyRequest_def Let_def)

end
