(* ===== verification/Spec2Isabelle.thy ===== *)
theory Spec2Isabelle
  imports Auth Config LlmJson CodeIndex ExplorerProps AutofixProps Feedback Replay Severity AssistedQuery
    RunStoreSpec HandlerProps Similarity GitHubProps GitHosts IssueSummary Generation VectorProps
    ServiceHandlers PrMetrics Mux Clients Monitoring Migrate Wiring
begin

text \<open>
  A model of faux-seer, a self-hosted replacement of Sentry's Seer service (Go, \<open>src/internal\<close>).

  The program. Sentry posts signed JSON documents. The route table (\<open>handler/server.go\<close>) sends
  them, behind the check of the signature, to handlers (\<open>handler/\<close>) that decode the body and call
  one service each; the services keep rows in an SQLite database (\<open>db/\<close>), start background tasks
  in a manager (\<open>runmgr/\<close>), ask a language model (\<open>llm/\<close>), embed texts (\<open>embedding/\<close>) and search an
  index of repository code (\<open>codeindex/\<close>) kept in a vector store (\<open>vectorstore/\<close>, SQLite or PostgreSQL)
  and filled from a repository host (\<open>git/\<close>).

  How it is modelled. An operation of a service is a function from the state to a result (an
  error or a value) and the next state (\<open>Prelude\<close>): every early return is a branch, and a state
  change before an error stays. The shared state is the record \<open>world\<close>: the database, the
  manager, the answers of the model. A statement can fail (the driver's faults are an argument
  of the database) and is refused under a context that is done. A background task is stored in
  the manager as its descriptor and run by its own definition, so that interleavings of tasks
  and requests are sequences of steps. JSON is a value tree with Go's decoding rules; strings
  are byte strings; counters that can wrap are 64-bit words, identifiers are integers, a
  \<open>float64\<close> the rational it denotes, rounded after each operation. An HTTP client is a function over
  a transport, an argument that stands for the network and the server.

  The theories, with what they model:

  \<^item> \<open>Prelude\<close>, \<open>GoStrings\<close>, \<open>Utf8\<close>, \<open>Json\<close>, \<open>JsonText\<close>, \<open>Float64\<close>, \<open>GoAny\<close>: errors, operations and
    invariants; the parts of \<open>strings\<close>, \<open>strconv\<close>, \<open>unicode/utf8\<close>, \<open>encoding/json\<close>, \<open>math\<close> and of the type \<open>any\<close>
    the program uses.
  \<^item> \<open>Tables\<close>, \<open>Db\<close>, \<open>DbLaws\<close>: the tables and statements of \<open>db/db.go\<close>; the locales \<open>row_store\<close>,
    \<open>creating_store\<close>, \<open>upsert_store\<close> say what a caller relies on, and are interpreted on each
    table. \<open>RunStoreSpec\<close> refines the run methods to an abstract machine of two maps; \<open>Migrate\<close> is the
    migration of an existing file, whose tables it keeps.
  \<^item> \<open>Runmgr\<close>: \<open>runmgr/runmgr.go\<close> as a step relation over goroutines (reachable states, the
    inflight table, shutdown and waiting).
  \<^item> \<open>World\<close>, \<open>Runs\<close>, \<open>Investigations\<close>: contexts, \<open>runs/service.go\<close>, \<open>investigations/service.go\<close>.
  \<^item> \<open>Auth\<close>, \<open>Config\<close>, \<open>LlmJson\<close>: \<open>auth/auth.go\<close>, \<open>config/\<close>, \<open>llm/json.go\<close>.
  \<^item> \<open>VectorStore\<close>, \<open>CodeIndex\<close>: \<open>vectorstore/store.go\<close>, \<open>vectorstore/sqlitevec/store.go\<close>,
    \<open>codeindex/service.go\<close>; the locale \<open>vector_store_laws\<close> is the contract between them.
    \<open>PgVector\<close> (\<open>vectorstore/pgvector/store.go\<close>) keeps the same contract; \<open>Similarity\<close>
    (\<open>similarity/service.go\<close>) is refined to a machine over a map of records inside it, for both stores
    (\<open>VectorProps\<close>).
  \<^item> \<open>ExplorerState\<close>, \<open>ExplorerBlocks\<close>, \<open>Explorer\<close>, \<open>ExplorerLaws\<close>, \<open>ExplorerProps\<close>:
    \<open>explorer/service.go\<close>, its state blob and its block rewriting.
  \<^item> \<open>Autofix\<close>, \<open>AutofixProps\<close>, \<open>Preferences\<close>: \<open>autofix/service.go\<close>, \<open>preferences/service.go\<close>.
  \<^item> \<open>Prompts\<close>, \<open>Feedback\<close>, \<open>Replay\<close>, \<open>Severity\<close>, \<open>AssistedQuery\<close>, \<open>IssueSummary\<close>, \<open>Generation\<close>: the services
    that ask the model, each with its fallback when there is one.
  \<^item> \<open>GitProvider\<close>, \<open>Http\<close>, \<open>GitHub\<close>, \<open>GitHubProps\<close>, \<open>GitHosts\<close>: \<open>git/\<close>, its interface, the GitHub client
    over a transport, the placeholders of the other hosts. \<open>Clients\<close>: the chat and embedding clients of
    \<open>llm/\<close> and \<open>embedding/\<close>. \<open>Monitoring\<close>: \<open>monitoring/service.go\<close>.
  \<^item> \<open>Handlers\<close>, \<open>HandlerProps\<close>, \<open>ServiceHandlers\<close>, \<open>PrMetrics\<close>: \<open>handler/\<close>, file by file. \<open>Mux\<close>: the route table
    and its matching. \<open>Wiring\<close>: the middleware around it (\<open>observability/\<close>), the store factory, the
    outbound timeout.

  Bounds. The only fuel is that of the zeros a small float begins with (400; a \<open>float64\<close> has fewer
  than 330). Loops over lists are
  structural recursions; the batches of \<open>embedChunks\<close> (64 chunks) and the digits of a number have
  their measures; the loop of \<open>chunkText\<close>, which does not end for a step of zero, is a partial
  function and proved to return for every configuration \<open>ci_New\<close> can build; the walk through the trees of
  a repository is a partial function and proved to return for every listing that is a finite tree.

  What the definitions leave to their reader. A choice the runtime makes is a list of the answers it
  allows (the \<open>select\<close> of \<open>WaitContext\<close>) or an argument. An embedding client may answer each request differently:
  \<open>embedChunks\<close> runs over any client with a state, and the services see what the client answers their
  \<open>n\<close>-th request.

  Not modelled. The connections to the outside are parameters: HMAC, SHA-256 and RSA, the model,
  the answers of the embedding client inside the services, the distance function of the vector extension, the transports, the driver's
  faults, the order in which a map is ranged over. \<open>cmd/\<close> only wires the constructors together, \<open>testutil/\<close> only serves
  the tests, and the Sentry SDK only reports. The transports hide the redirects Go's client follows, and
  an address of GitHub is read segment by segment, without resolving a segment of two dots. Of
  \<open>json.Marshal\<close> the clients of the model and of GitHub model that bytes which are not UTF-8 are replaced; what the
  service stores and answers itself keeps them. The capacity a search of the vector store allocates
  for its answers, the number asked for, is not bounded by memory. The text of
  decoding errors is not modelled, nor float64 rounding of untyped integers beyond \<open>2^53\<close>
  where they stay untyped JSON.
\<close>

section \<open>Properties that span components\<close>

text \<open>C1: the secret variable the operator set can disable authentication. When the first non-blank
  secret variable holds nothing but separators and blanks (a comma, say), \<open>Load\<close> still succeeds with
  no secret at all, and \<open>VerifyRequest\<close> then accepts every request whatever its header.\<close>

theorem blank_secret_disables_authentication:
  assumes "Load ps env = Inr cfg"
    and "raw = firstNonEmpty [env ''SEER_SHARED_SECRET'', env ''SEER_RPC_SHARED_SECRET'',
      env ''SEER_API_SHARED_SECRET'', env ''SHARED_SECRET'']"
    and "\<And>p. p \<in> set (split_on CHR '','' (replace_char CHR '';'' CHR '','' raw)) \<Longrightarrow> TrimSpace p = []"
  shows "cfg_SharedSecrets cfg = [] \<and> VerifyRequest mac body header (cfg_SharedSecrets cfg) = Inr ()"
proof -
  from assms(1) have "read_env ps env = (cfg, [])" by (simp add: Load_Inr)
  from read_env_lists [OF this] assms(2) have "cfg_SharedSecrets cfg = splitSecrets raw" by simp
  moreover have "splitSecrets raw = []" using assms(3) by (simp add: splitSecrets_Nil)
  ultimately show ?thesis by (simp add: VerifyRequest_def)
qed

theorem blank_secret_disables_authentication_witness:
  "\<exists>cfg. Load no_parsers sample_env = Inr cfg \<and> sample_env ''SHARED_SECRET'' = '' , ; '' \<and>
     VerifyRequest (\<lambda>s b. s @ b) ''body'' ''forged'' (cfg_SharedSecrets cfg) = Inr ()"
proof -
  have "isl (Load no_parsers sample_env) = False" by code_simp
  then obtain cfg where cfg: "Load no_parsers sample_env = Inr cfg" by (metis isl_def sum.exhaust)
  have raw: "'' , ; '' = firstNonEmpty [sample_env ''SEER_SHARED_SECRET'', sample_env ''SEER_RPC_SHARED_SECRET'',
      sample_env ''SEER_API_SHARED_SECRET'', sample_env ''SHARED_SECRET'']" by code_simp
  have "\<forall>p \<in> set (split_on CHR '','' (replace_char CHR '';'' CHR '','' '' , ; '')). TrimSpace p = []"
    by code_simp
  then have "VerifyRequest (\<lambda>s b. s @ b) ''body'' ''forged'' (cfg_SharedSecrets cfg) = Inr ()"
    using blank_secret_disables_authentication [OF cfg raw] by blast
  with cfg show ?thesis by (auto simp: sample_env_def)
qed

end
